(* ===== verification/Nbsp_Prelude.thy ===== *)
theory Nbsp_Prelude
  imports Main "HOL-Library.Word"
begin

text \<open>
  The vocabulary every component of the development shares: machine types, bytes and C
  strings as byte lists, the character classes of \<^verbatim>\<open>ctype.h\<close> in the C locale, decimal
  printing (\<^verbatim>\<open>%u\<close> of \<^verbatim>\<open>printf\<close>), memory copies into a buffer, and the collections of rewrite
  rules the component theories add to.

  Conventions. A C buffer is a list of bytes; reading at or beyond its end gives 0 with
  \<open>byte_at\<close>, where the source does such a read. A string is the part of a buffer before its
  first NUL (\<open>cstr\<close>). Values of C type \<^verbatim>\<open>int\<close> that come from one or two bytes, and status
  codes, are \<open>int\<close>; \<^verbatim>\<open>uint32_t\<close> and \<^verbatim>\<open>unsigned int\<close> are \<open>u32\<close>, \<^verbatim>\<open>size_t\<close> is a
  natural number below \<open>2 ^ 64\<close> (\<open>size_add\<close> wraps) or a \<open>u64\<close>.
\<close>

unbundle bit_operations_syntax

type_synonym byte = "8 word"
type_synonym bytes = "byte list"
type_synonym u16 = "16 word"
type_synonym u32 = "32 word"
type_synonym u64 = "64 word"

named_theorems layout_simps \<open>positions and widths of header fields\<close>
named_theorems const_defs \<open>the constants of the header files\<close>
named_theorems frame_rules \<open>what an operation leaves unchanged\<close>

section \<open>Bytes and strings\<close>

definition ascii :: "string \<Rightarrow> bytes" where
  "ascii s = map of_char s"

definition byte_at :: "bytes \<Rightarrow> nat \<Rightarrow> byte" where
  "byte_at bs i = (if i < length bs then bs ! i else 0)"

definition cstr :: "bytes \<Rightarrow> bytes" where
  "cstr bs = takeWhile (\<lambda>b. b \<noteq> 0) bs"

definition strlen :: "bytes \<Rightarrow> nat" where
  "strlen bs = length (cstr bs)"

definition strncpy :: "bytes \<Rightarrow> nat \<Rightarrow> bytes" where
  "strncpy src n = take n (cstr src @ replicate n 0)"

definition overwrite :: "nat \<Rightarrow> bytes \<Rightarrow> bytes \<Rightarrow> bytes" where
  "overwrite off xs buf = take off buf @ xs @ drop (off + length xs) buf"

text \<open>The character classes, in the C locale.\<close>

definition isupper :: "byte \<Rightarrow> bool" where
  "isupper b \<longleftrightarrow> 65 \<le> b \<and> b \<le> 90"

definition islower :: "byte \<Rightarrow> bool" where
  "islower b \<longleftrightarrow> 97 \<le> b \<and> b \<le> 122"

definition isdigit :: "byte \<Rightarrow> bool" where
  "isdigit b \<longleftrightarrow> 48 \<le> b \<and> b \<le> 57"

definition isalpha :: "byte \<Rightarrow> bool" where
  "isalpha b \<longleftrightarrow> isupper b \<or> islower b"

definition isalnum :: "byte \<Rightarrow> bool" where
  "isalnum b \<longleftrightarrow> isalpha b \<or> isdigit b"

definition isspace :: "byte \<Rightarrow> bool" where
  "isspace b \<longleftrightarrow> b = 32 \<or> (9 \<le> b \<and> b \<le> 13)"

definition tolower :: "byte \<Rightarrow> byte" where
  "tolower b = (if isupper b then b + 32 else b)"

definition toupper :: "byte \<Rightarrow> byte" where
  "toupper b = (if islower b then b - 32 else b)"

lemmas ctype_defs = isupper_def islower_def isdigit_def isalpha_def isalnum_def isspace_def

lemma isalpha_nonzero [simp]: "\<not> isalpha 0"
  by (simp add: ctype_defs)

lemma isalnum_nonzero [simp]: "\<not> isalnum 0"
  by (simp add: ctype_defs)

lemma isdigit_nonzero [simp]: "\<not> isdigit 0"
  by (simp add: ctype_defs)

lemma isalnum_not_space: "isalnum b \<Longrightarrow> \<not> isspace b"
  unfolding ctype_defs by unat_arith

lemma isalpha_isalnum: "isalpha b \<Longrightarrow> isalnum b"
  by (simp add: isalnum_def)

lemma isdigit_isalnum: "isdigit b \<Longrightarrow> isalnum b"
  by (simp add: isalnum_def)

lemma unat_tolower: "unat (tolower b) = (if isupper b then unat b + 32 else unat b)"
  by (simp add: tolower_def isupper_def unat_word_ariths word_le_nat_alt)

lemma tolower_eq_0_iff [simp]: "tolower b = 0 \<longleftrightarrow> b = 0"
proof -
  have "tolower b = 0 \<longleftrightarrow> unat (tolower b) = 0" by (simp add: unat_eq_0)
  also have "\<dots> \<longleftrightarrow> unat b = 0" by (simp add: unat_tolower isupper_def word_le_nat_alt)
  finally show ?thesis by (simp add: unat_eq_0)
qed

lemma tolower_not_upper: "\<not> isupper (tolower b)"
  using unat_tolower [of b] by (auto simp: isupper_def word_le_nat_alt split: if_splits)

lemma tolower_idem [simp]: "tolower (tolower b) = tolower b"
  using tolower_not_upper by (simp add: tolower_def)

text \<open>Strings in buffers.\<close>

lemma cstr_no_zero [simp]: "0 \<notin> set (cstr bs)"
  by (auto simp: cstr_def dest: set_takeWhileD)

lemma cstr_id [simp]: "0 \<notin> set bs \<Longrightarrow> cstr bs = bs"
  by (auto simp: cstr_def takeWhile_eq_all_conv)

lemma cstr_terminated [simp]: "0 \<notin> set s \<Longrightarrow> cstr (s @ 0 # rest) = s"
  by (simp add: cstr_def takeWhile_append2 takeWhile_append)

lemma cstr_Nil [simp]: "cstr [] = []"
  by (simp add: cstr_def)

lemma cstr_Cons: "cstr (b # bs) = (if b = 0 then [] else b # cstr bs)"
  by (simp add: cstr_def)

lemma cstr_replicate0 [simp]: "cstr (s @ replicate n 0) = cstr s"
  by (induction s) (auto simp: cstr_def takeWhile_replicate)

lemma length_cstr_le: "length (cstr bs) \<le> length bs"
  by (simp add: cstr_def length_takeWhile_le)

lemma length_strncpy [simp]: "length (strncpy src n) = n"
  by (simp add: strncpy_def)

lemma cstr_take: "cstr (take n bs) = take n (cstr bs)"
  by (induction bs arbitrary: n) (auto simp: cstr_Cons take_Cons split: nat.splits)

lemma cstr_strncpy: "cstr (strncpy src n) = take n (cstr src)"
  by (simp only: strncpy_def cstr_take cstr_replicate0) simp

lemma cstr_map_tolower [simp]: "cstr (map tolower bs) = map tolower (cstr bs)"
  by (induction bs) (auto simp: cstr_Cons)

text \<open>Copies into a buffer.\<close>

lemma length_overwrite [simp]:
  "off + length xs \<le> length buf \<Longrightarrow> length (overwrite off xs buf) = length buf"
  by (simp add: overwrite_def)

lemma nth_overwrite:
  assumes "off + length xs \<le> length buf" and "i < length buf"
  shows "overwrite off xs buf ! i =
    (if off \<le> i \<and> i < off + length xs then xs ! (i - off) else buf ! i)"
  using assms by (auto simp: overwrite_def nth_append)

lemma take_overwrite_append:
  "off + length xs \<le> length buf \<Longrightarrow>
   take (off + length xs) (overwrite off xs buf) = take off buf @ xs"
  by (simp add: overwrite_def)

lemma take_overwrite_before:
  "n \<le> off \<Longrightarrow> off \<le> length buf \<Longrightarrow> take n (overwrite off xs buf) = take n buf"
  by (simp add: overwrite_def min_def)

lemma overwrite_Nil [simp]: "overwrite i [] buf = buf"
  by (simp add: overwrite_def)

lemma overwrite_twice:
  "i \<le> length buf \<Longrightarrow>
   overwrite (i + length xs) ys (overwrite i xs buf) = overwrite i (xs @ ys) buf"
  by (simp add: overwrite_def ac_simps)

section \<open>Rotated lists\<close>

lemma rotate_drop_take_le: "s \<le> length xs \<Longrightarrow> rotate s xs = drop s xs @ take s xs"
proof (cases "s = length xs")
  case False
  assume "s \<le> length xs"
  with False show ?thesis by (simp add: rotate_drop_take)
qed simp

lemma rotate_replace:
  assumes "s < length xs"
  shows "rotate (if Suc s = length xs then 0 else Suc s) (xs[s := k]) = tl (rotate s xs) @ [k]"
    and "hd (rotate s xs) = xs ! s"
proof -
  have r: "rotate s xs = xs ! s # drop (Suc s) xs @ take s xs"
    using assms by (simp add: rotate_drop_take_le Cons_nth_drop_Suc [symmetric])
  then show "hd (rotate s xs) = xs ! s" by simp
  have t: "take (Suc s) (xs[s := k]) = take s xs @ [k]" using assms by (simp add: take_Suc_conv_app_nth)
  show "rotate (if Suc s = length xs then 0 else Suc s) (xs[s := k]) = tl (rotate s xs) @ [k]"
  proof (cases "Suc s = length xs")
    case True
    then have "xs[s := k] = take s xs @ [k]" using t by simp
    with True r show ?thesis by simp
  next
    case False
    have "rotate (Suc s) (xs[s := k]) = drop (Suc s) (xs[s := k]) @ take (Suc s) (xs[s := k])"
      using assms by (intro rotate_drop_take_le) simp
    with False r t show ?thesis by (simp only: if_False drop_update_cancel) simp
  qed
qed

section \<open>Decimal numbers\<close>

fun dec :: "nat \<Rightarrow> bytes" where
  "dec n = (if n < 10 then [48 + of_nat n] else dec (n div 10) @ [48 + of_nat (n mod 10)])"

declare dec.simps [simp del]

lemma digit_byte: "n < 10 \<Longrightarrow> isdigit (48 + of_nat n)"
proof -
  assume "n < 10"
  then have "unat (48 + of_nat n :: byte) = 48 + n"
    by (simp add: unat_word_ariths unat_of_nat)
  with \<open>n < 10\<close> show ?thesis
    by (simp add: isdigit_def word_le_nat_alt)
qed

lemma dec_digits: "b \<in> set (dec n) \<Longrightarrow> isdigit b"
proof (induction n rule: dec.induct)
  case (1 n)
  show ?case
  proof (cases "n < 10")
    case True
    with "1.prems" show ?thesis by (auto simp: dec.simps [of n] intro: digit_byte)
  next
    case False
    with "1" show ?thesis by (auto simp: dec.simps [of n] intro: digit_byte)
  qed
qed

lemma dec_nonempty [simp]: "dec n \<noteq> []"
  by (subst dec.simps) simp

lemma dec_no_zero [simp]: "0 \<notin> set (dec n)"
  using dec_digits by fastforce

lemma length_dec: "n < 10 ^ k \<Longrightarrow> 0 < k \<Longrightarrow> length (dec n) \<le> k"
proof (induction k arbitrary: n)
  case 0
  then show ?case by simp
next
  case (Suc k)
  show ?case
  proof (cases "n < 10")
    case True
    then show ?thesis by (simp add: dec.simps)
  next
    case False
    with Suc.prems have "n div 10 < 10 ^ k" and "0 < k"
      by (auto simp: less_mult_imp_div_less mult.commute intro: gr0I)
    with Suc.IH have "length (dec (n div 10)) \<le> k" by blast
    with False show ?thesis by (simp add: dec.simps [of n])
  qed
qed

lemma length_dec_u32: "length (dec (unat (u :: u32))) \<le> 10"
proof -
  have "unat u < 2 ^ LENGTH(32)" by (rule unsigned_less)
  then have "unat u < 10 ^ 10" by simp
  then show ?thesis by (intro length_dec) simp_all
qed

section \<open>Lists\<close>

lemma sum_list_take_Suc:
  "i < length xs \<Longrightarrow> sum_list (take (Suc i) xs) = sum_list (take i xs) + (xs ! i :: 'a::comm_monoid_add)"
  by (simp add: take_Suc_conv_app_nth)

lemma drop_take_split: "i \<le> j \<Longrightarrow> j \<le> length xs \<Longrightarrow>
    drop i (take j xs) @ drop j xs = drop i xs"
  by (metis append_take_drop_id drop_take le_add_diff_inverse drop_drop add.commute)

text \<open>Unsigned 64-bit sizes: \<^verbatim>\<open>size_t\<close> sums wrap.\<close>

definition size_max :: nat where
  "size_max = 2 ^ 64"

definition size_add :: "nat \<Rightarrow> int \<Rightarrow> nat" where
  "size_add a d = nat ((int a + d) mod 2 ^ 64)"

lemma size_add_small [simp]: "0 \<le> d \<Longrightarrow> int a + d < 2 ^ 64 \<Longrightarrow> size_add a d = a + nat d"
  by (simp add: size_add_def nat_add_distrib)

lemma size_add_bound: "size_add a d < size_max"
  by (simp add: size_add_def size_max_def nat_less_iff)

text \<open>Conversion of a size to a 32-bit field.\<close>

definition size_u32 :: "nat \<Rightarrow> nat" where
  "size_u32 n = nat (int n mod 2 ^ 32)"

lemma int_size_u32: "int (size_u32 n) = int n mod 2 ^ 32"
  by (simp add: size_u32_def)

lemma size_u32_small [simp]: "n < 2 ^ 32 \<Longrightarrow> size_u32 n = n"
  by (simp add: size_u32_def)

lemma size_u32_le: "size_u32 n \<le> n"
  by (simp add: size_u32_def nat_le_iff zmod_le_nonneg_dividend)

lemma unat_u32_less: "unat (w :: u32) < 4294967296"
proof -
  have "unat w < 2 ^ LENGTH(32)" by (rule unsigned_less)
  then show ?thesis by simp
qed

lemma unat_inc_u32: "w \<noteq> 0xffffffff \<Longrightarrow> unat (w + 1 :: u32) = unat w + 1"
  using unat_u32_less [of w] by (simp add: unat_word_ariths word_unat_eq_iff)

lemma sint_of_nat_u32: "n < 2 ^ 31 \<Longrightarrow> sint (of_nat n :: u32) = int n"
  using int_word_sint [of "int n", where 'a = 32] by simp

end
