(* ===== verification/Bytes_Util.thy ===== *)
theory Bytes_Util
  imports Nbsp_Prelude
begin

text \<open>
  The byte-level helpers of \<^verbatim>\<open>src/util.c\<close>: big-endian packing of 16 and 32 bit numbers, the
  additive checksum, and the string helpers. \<open>be_field\<close> is the interface the header formats
  use: a number packed at a position is read back from it, and nothing outside its width
  changes. Both widths are interpreted.
\<close>

section \<open>Packing\<close>

definition pack_uint32 :: "bytes \<Rightarrow> u32 \<Rightarrow> nat \<Rightarrow> bytes" where
  "pack_uint32 p u start =
     p[start + 3 := ucast (u AND 0xff),
       start + 2 := ucast (drop_bit 8 u AND 0xff),
       start + 1 := ucast (drop_bit 16 u AND 0xff),
       start := ucast (drop_bit 24 u AND 0xff)]"

definition unpack_uint32 :: "bytes \<Rightarrow> nat \<Rightarrow> u32" where
  "unpack_uint32 p start =
     push_bit 24 (ucast (byte_at p start)) + push_bit 16 (ucast (byte_at p (start + 1))) +
     push_bit 8 (ucast (byte_at p (start + 2))) + ucast (byte_at p (start + 3))"

definition pack_uint16 :: "bytes \<Rightarrow> u16 \<Rightarrow> nat \<Rightarrow> bytes" where
  "pack_uint16 p u start =
     p[start + 1 := ucast (u AND 0xff),
       start := ucast (drop_bit 8 u AND 0xff)]"

definition unpack_uint16 :: "bytes \<Rightarrow> nat \<Rightarrow> u16" where
  "unpack_uint16 p start =
     push_bit 8 (ucast (byte_at p start)) + ucast (byte_at p (start + 1))"

primrec calc_checksum_loop :: "bytes \<Rightarrow> u32 \<Rightarrow> u32" where
  "calc_checksum_loop [] cs = cs"
| "calc_checksum_loop (b # bs) cs = calc_checksum_loop bs (cs + ucast b)"

definition calc_checksum :: "bytes \<Rightarrow> nat \<Rightarrow> u32" where
  "calc_checksum data n = calc_checksum_loop (take n data) 0"

section \<open>String helpers\<close>

definition valid_str :: "bytes option \<Rightarrow> int" where
  "valid_str s = (case s of None \<Rightarrow> 0 | Some t \<Rightarrow> if byte_at t 0 \<noteq> 0 then 1 else 0)"

text \<open>
  \<^verbatim>\<open>trimleft\<close> returns a pointer into its argument; the model returns the string there. When
  every character is trimmed the source returns the whole string.
\<close>

definition trimleft :: "bytes \<Rightarrow> bytes option \<Rightarrow> bytes" where
  "trimleft s t =
     (let p = dropWhile (\<lambda>b. case t of None \<Rightarrow> isspace b | Some cs \<Rightarrow> b \<in> set cs) s
      in if p = [] then s else p)"

text \<open>
  \<^verbatim>\<open>trimright\<close> cuts from the end but never removes the first character: the loop stops
  when its pointer reaches the start of the string.
\<close>

definition trimright :: "bytes \<Rightarrow> bytes option \<Rightarrow> bytes" where
  "trimright s t =
     (case s of [] \<Rightarrow> []
      | c # cs \<Rightarrow>
        c # rev (dropWhile (\<lambda>b. case t of None \<Rightarrow> isspace b | Some ds \<Rightarrow> b \<in> set ds) (rev cs)))"

section \<open>Lemmas\<close>

lemma byte_at_lt: "i < length bs \<Longrightarrow> byte_at bs i = bs ! i"
  by (simp add: byte_at_def)

lemma and_255: "(x :: 'a::len word) AND 255 = take_bit 8 x"
proof -
  have "mask 8 = (255 :: 'a word)" by (simp add: mask_eq_exp_minus_1)
  then show ?thesis by (simp add: take_bit_eq_mask)
qed

lemma ucast_byte_field:
  "ucast (ucast (drop_bit k u AND 255) :: byte) = (take_bit 8 (drop_bit k u) :: 'a::len word)"
  unfolding and_255 by (rule bit_word_eqI) (auto simp: bit_simps)

lemma ucast_low_byte:
  "ucast (ucast (u AND 255) :: byte) = (take_bit 8 u :: 'a::len word)"
  using ucast_byte_field [of 0 u] by simp

lemma join_u32:
  "push_bit 24 (take_bit 8 (drop_bit 24 u)) + push_bit 16 (take_bit 8 (drop_bit 16 u)) +
   push_bit 8 (take_bit 8 (drop_bit 8 u)) + take_bit 8 u = (u :: u32)"
proof -
  let ?a = "push_bit 24 (take_bit 8 (drop_bit 24 u))" and ?b = "push_bit 16 (take_bit 8 (drop_bit 16 u))"
    and ?c = "push_bit 8 (take_bit 8 (drop_bit 8 u))" and ?d = "take_bit 8 u"
  have ab: "?a + ?b = ?a OR ?b"
    by (rule disjunctive_add) (auto simp: bit_simps)
  have abc: "(?a OR ?b) + ?c = ?a OR ?b OR ?c"
    by (subst disjunctive_add) (auto simp: bit_simps ac_simps)
  have abcd: "(?a OR ?b OR ?c) + ?d = ?a OR ?b OR ?c OR ?d"
    by (subst disjunctive_add) (auto simp: bit_simps ac_simps)
  have "?a OR ?b OR ?c OR ?d = u"
  proof (rule bit_word_eqI)
    fix n assume "n < LENGTH(32)"
    then show "bit (?a OR ?b OR ?c OR ?d) n = bit u n"
      by (cases "n < 8"; cases "n < 16"; cases "n < 24"; simp add: bit_simps less_diff_conv2)
  qed
  then show ?thesis by (simp only: ab abc abcd)
qed

lemma join_u16: "push_bit 8 (take_bit 8 (drop_bit 8 u)) + take_bit 8 u = (u :: u16)"
proof -
  have "push_bit 8 (take_bit 8 (drop_bit 8 u)) + take_bit 8 u =
      push_bit 8 (take_bit 8 (drop_bit 8 u)) OR take_bit 8 u"
    by (rule disjunctive_add) (auto simp: bit_simps)
  also have "\<dots> = u"
    by (rule bit_word_eqI) (auto simp: bit_simps)
  finally show ?thesis .
qed

section \<open>The interface of a packed field\<close>

locale be_field =
  fixes pack :: "bytes \<Rightarrow> 'a \<Rightarrow> nat \<Rightarrow> bytes"
    and unpack :: "bytes \<Rightarrow> nat \<Rightarrow> 'a"
    and width :: nat
  assumes unpack_pack: "start + width \<le> length p \<Longrightarrow> unpack (pack p u start) start = u"
    and length_pack: "length (pack p u start) = length p"
    and pack_outside: "i < start \<or> start + width \<le> i \<Longrightarrow> pack p u start ! i = p ! i"
    and unpack_local: "(\<And>i. i < width \<Longrightarrow> byte_at p (s + i) = byte_at q (t + i)) \<Longrightarrow>
          unpack p s = unpack q t"
begin

lemma byte_at_pack_outside:
  "i < start \<or> start + width \<le> i \<Longrightarrow> byte_at (pack p u start) i = byte_at p i"
  using pack_outside [of i start p u] by (auto simp: byte_at_def length_pack)

lemma unpack_pack_other:
  assumes "t + width \<le> start \<or> start + width \<le> t"
  shows "unpack (pack p u start) t = unpack p t"
  using assms by (intro unpack_local byte_at_pack_outside) auto

lemma unpack_drop: "unpack (drop n p) s = unpack p (n + s)"
  by (rule unpack_local) (auto simp: byte_at_def less_diff_conv add.assoc add.commute add.left_commute)

lemma unpack_append: "s + width \<le> length p \<Longrightarrow> unpack (p @ q) s = unpack p s"
  by (rule unpack_local) (simp add: byte_at_def nth_append)

lemma take_pack_before: "n \<le> start \<Longrightarrow> take n (pack p u start) = take n p"
  by (rule nth_equalityI) (auto simp: length_pack pack_outside)

lemma drop_pack_after: "start + width \<le> n \<Longrightarrow> drop n (pack p u start) = drop n p"
  by (rule nth_equalityI) (auto simp: length_pack pack_outside)

end

interpretation w32: be_field pack_uint32 unpack_uint32 4
proof unfold_locales
  fix p :: bytes and u start
  assume "start + 4 \<le> length p"
  then show "unpack_uint32 (pack_uint32 p u start) start = u"
    by (simp add: unpack_uint32_def pack_uint32_def byte_at_def nth_list_update
        ucast_byte_field ucast_low_byte join_u32)
next
  fix p q :: bytes and s t :: nat
  assume eq: "\<And>i. i < 4 \<Longrightarrow> byte_at p (s + i) = byte_at q (t + i)"
  show "unpack_uint32 p s = unpack_uint32 q t"
    using eq [of 0] eq [of 1] eq [of 2] eq [of 3] by (simp add: unpack_uint32_def)
qed (auto simp: pack_uint32_def)

interpretation w16: be_field pack_uint16 unpack_uint16 2
proof unfold_locales
  fix p :: bytes and u start
  assume "start + 2 \<le> length p"
  then show "unpack_uint16 (pack_uint16 p u start) start = u"
    by (simp add: unpack_uint16_def pack_uint16_def byte_at_def nth_list_update
        ucast_byte_field ucast_low_byte join_u16)
next
  fix p q :: bytes and s t :: nat
  assume eq: "\<And>i. i < 2 \<Longrightarrow> byte_at p (s + i) = byte_at q (t + i)"
  show "unpack_uint16 p s = unpack_uint16 q t"
    using eq [of 0] eq [of 1] by (simp add: unpack_uint16_def)
qed (auto simp: pack_uint16_def)

lemmas pack_length [simp] = w32.length_pack w16.length_pack

section \<open>The checksum\<close>

lemma calc_checksum_loop_acc: "calc_checksum_loop bs cs = cs + calc_checksum_loop bs 0"
proof (induction bs arbitrary: cs)
  case (Cons b bs)
  from Cons [of "cs + ucast b"] Cons [of "ucast b"] show ?case by simp
qed simp

lemma calc_checksum_loop_append:
  "calc_checksum_loop (xs @ ys) 0 = calc_checksum_loop xs 0 + calc_checksum_loop ys 0"
proof (induction xs)
  case (Cons x xs)
  then show ?case
    using calc_checksum_loop_acc [of "xs @ ys" "ucast x"] calc_checksum_loop_acc [of xs "ucast x"]
    by simp
qed simp

lemma unat_byte_bound: "unat (b :: byte) < 256"
  using unsigned_less [of b] by simp

lemma unat_ucast_byte [simp]: "unat (ucast (b :: byte) :: u32) = unat b"
  using unat_byte_bound [of b] by (simp add: unsigned_ucast_eq take_bit_nat_eq_self)

lemma sum_list_bytes_bound: "sum_list (map unat (bs :: bytes)) \<le> 255 * length bs"
proof (induction bs)
  case (Cons b bs)
  with unat_byte_bound [of b] show ?case by simp
qed simp

lemma unat_calc_checksum:
  assumes "255 * length bs < 2 ^ 32"
  shows "unat (calc_checksum_loop bs 0) = sum_list (map unat bs)"
  using assms
proof (induction bs)
  case (Cons b bs)
  then have IH: "unat (calc_checksum_loop bs 0) = sum_list (map unat bs)" by simp
  have lt: "unat b + sum_list (map unat bs) < 2 ^ 32"
    using sum_list_bytes_bound [of "b # bs"] Cons.prems by simp
  have "unat (calc_checksum_loop (b # bs) 0) = unat (ucast b + calc_checksum_loop bs 0 :: u32)"
    using calc_checksum_loop_acc [of bs "ucast b"] by simp
  also have "\<dots> = unat b + sum_list (map unat bs)"
    using lt IH by (simp add: unat_word_ariths unat_ucast_byte)
  finally show ?case by simp
qed simp

end
