(* ===== verification/Sbn.thy ===== *)
theory Sbn
  imports Bytes_Util
begin

text \<open>
  The SBN frame protocol of \<^verbatim>\<open>src/sbn.c\<close> (with the structures and constants of
  \<^verbatim>\<open>src/sbn.h\<close>, \<^verbatim>\<open>src/common.h\<close> and \<^verbatim>\<open>src/const.h\<close>) and the wrapper \<^verbatim>\<open>src/unz.c\<close> of zlib:
  unpacking the frame level, product definition and product specification headers, locating
  the control header, the frame data and the CCB, and splitting and validating the WMO
  header of the first frame.

  A pointer into the frame is a \<open>ptr\<close>: into \<open>rawdata\<close>, into \<open>blkdata\<close>, or null. The zlib
  function \<^verbatim>\<open>uncompress\<close> is the parameter \<open>uncompress\<close>: from the compressed bytes and the room
  for the output it gives its return code and the bytes it wrote.
\<close>

section \<open>Constants\<close>

abbreviation SBN_FRAME_SIZE :: nat where "SBN_FRAME_SIZE \<equiv> 5200"
abbreviation MAX_FRDATA_SIZE :: nat where "MAX_FRDATA_SIZE \<equiv> 5200"
abbreviation CCB_SIZE :: nat where "CCB_SIZE \<equiv> 24"
abbreviation CTRLHDR_WMO_SIZE :: nat where "CTRLHDR_WMO_SIZE \<equiv> 21"
abbreviation MAX_CTRLHDR_SIZE :: nat where "MAX_CTRLHDR_SIZE \<equiv> 58"
abbreviation FRAME_LEVEL_HEADER_SIZE :: nat where "FRAME_LEVEL_HEADER_SIZE \<equiv> 16"
abbreviation PRODUCT_DEF_HEADER_SIZE :: nat where "PRODUCT_DEF_HEADER_SIZE \<equiv> 16"
abbreviation PRODUCT_SPEC_HEADER_SIZE :: nat where "PRODUCT_SPEC_HEADER_SIZE \<equiv> 36"

abbreviation SBN_COMMAND_DATA_TRANSFER :: int where "SBN_COMMAND_DATA_TRANSFER \<equiv> 3"
abbreviation SBN_COMMAND_SYNC_TIMING :: int where "SBN_COMMAND_SYNC_TIMING \<equiv> 5"
abbreviation SBN_COMMAND_TEST_MSG :: int where "SBN_COMMAND_TEST_MSG \<equiv> 10"

abbreviation PDH_TRANSFERTYPE_START :: int where "PDH_TRANSFERTYPE_START \<equiv> 1"
abbreviation PDH_TRANSFERTYPE_PROGRESS :: int where "PDH_TRANSFERTYPE_PROGRESS \<equiv> 2"
abbreviation PDH_TRANSFERTYPE_END :: int where "PDH_TRANSFERTYPE_END \<equiv> 4"
abbreviation PDH_TRANSFERTYPE_ERROR :: int where "PDH_TRANSFERTYPE_ERROR \<equiv> 8"
abbreviation PDH_TRANSFERTYPE_COMPRESSED :: int where "PDH_TRANSFERTYPE_COMPRESSED \<equiv> 16"
abbreviation PDH_TRANSFERTYPE_ABORT :: int where "PDH_TRANSFERTYPE_ABORT \<equiv> 32"
abbreviation PSH_STATUSFLAG_RETRANSMIT :: int where "PSH_STATUSFLAG_RETRANSMIT \<equiv> 16"

abbreviation WMO_ID_SIZE :: nat where "WMO_ID_SIZE \<equiv> 6"
abbreviation WMO_STATION_SIZE :: nat where "WMO_STATION_SIZE \<equiv> 4"
abbreviation WMO_TIME_SIZE :: nat where "WMO_TIME_SIZE \<equiv> 6"
abbreviation WMO_AWIPS_SIZE :: nat where "WMO_AWIPS_SIZE \<equiv> 6"
abbreviation WMO_NOTAWIPS_SIZE :: nat where "WMO_NOTAWIPS_SIZE \<equiv> 6"
abbreviation WMO_BBB_SIZE :: nat where "WMO_BBB_SIZE \<equiv> 6"

section \<open>The frame\<close>

record frame_level_header =
  fh_data_cksum :: int
  fh_hdlc_address :: int
  fh_hdlc_control :: int
  fh_header_length :: int
  fh_sbn_version :: int
  fh_sbn_control :: int
  fh_sbn_command :: int
  fh_sbn_datstream :: int
  fh_sbn_src :: int
  fh_sbn_dest :: int
  fh_sbn_seq_number :: u32
  fh_sbn_run :: int
  fh_sbn_cksum :: int

record product_def_header =
  pdh_version :: int
  pdh_transfer_type :: int
  pdh_header_length32 :: int
  pdh_header_length :: int
  pdh_block_number :: int
  pdh_data_block_offset :: int
  pdh_data_block_size :: int
  pdh_records_per_block :: int
  pdh_blocks_per_record :: int
  pdh_product_seq_number :: u32

record product_spec_header =
  psh_opt_field_number :: int
  psh_opt_field_type :: int
  psh_opt_field_length :: int
  psh_version :: int
  psh_transfer_status_flag :: int
  psh_awips_data_length :: int
  psh_bytes_per_record :: int
  psh_product_type :: int
  psh_product_category :: int
  psh_product_code :: int
  psh_num_fragments :: int
  psh_next_header_offset :: int
  psh_reserved :: int
  psh_source :: int
  psh_orig_seq_number :: u32
  psh_ncf_recv_time :: u32
  psh_ncf_transmit_time :: u32
  psh_run_id :: int
  psh_orig_run_id :: int

datatype ptr = Null | Raw nat | Blk nat

record sbn_frame =
  rawdata :: bytes
  rawdata_size :: int
  fh :: frame_level_header
  pdh :: product_def_header
  psh :: product_spec_header
  np_channel_index :: int
  ctrlhdr :: ptr
  ctrlhdr_size :: int
  frdata :: ptr
  frdata_size :: int
  blkdata :: bytes
  blkdata_size :: int
  ccb :: ptr
  ccb_size :: int
  pdata :: ptr
  pdata_size :: int
  f_frdata_compressed :: int
  f_unzstatus :: int

text \<open>The bytes from a pointer to the end of the array it points into.\<close>

fun mem :: "sbn_frame \<Rightarrow> ptr \<Rightarrow> bytes" where
  "mem sbnf Null = []"
| "mem sbnf (Raw n) = drop n (rawdata sbnf)"
| "mem sbnf (Blk n) = drop n (blkdata sbnf)"

fun ptr_add :: "ptr \<Rightarrow> nat \<Rightarrow> ptr" where
  "ptr_add Null n = Null"
| "ptr_add (Raw m) n = Raw (m + n)"
| "ptr_add (Blk m) n = Blk (m + n)"

section \<open>The headers\<close>

definition byte_int :: "bytes \<Rightarrow> nat \<Rightarrow> int" where
  "byte_int p i = uint (byte_at p i)"

text \<open>\<^verbatim>\<open>(p[i] << 8) + p[i + 1]\<close>\<close>

definition be16 :: "bytes \<Rightarrow> nat \<Rightarrow> int" where
  "be16 p i = byte_int p i * 256 + byte_int p (i + 1)"

primrec flh_checksum_loop :: "bytes \<Rightarrow> int \<Rightarrow> int" where
  "flh_checksum_loop [] cs = cs"
| "flh_checksum_loop (b # bs) cs = flh_checksum_loop bs (cs + uint b)"

definition unpack_fl_header :: "bytes \<Rightarrow> frame_level_header \<times> int" where
  "unpack_fl_header data =
     (let version = byte_int data 2;
          flh = \<lparr>
            fh_data_cksum =
              flh_checksum_loop (map (byte_at data) [0..<FRAME_LEVEL_HEADER_SIZE - 2]) 0,
            fh_hdlc_address = byte_int data 0,
            fh_hdlc_control = byte_int data 1,
            fh_header_length = version mod 16,
            fh_sbn_version = version div 16 mod 16,
            fh_sbn_control = byte_int data 3,
            fh_sbn_command = byte_int data 4,
            fh_sbn_datstream = byte_int data 5,
            fh_sbn_src = byte_int data 6,
            fh_sbn_dest = byte_int data 7,
            fh_sbn_seq_number = unpack_uint32 data 8,
            fh_sbn_run = be16 data 12,
            fh_sbn_cksum = be16 data 14\<rparr>
      in (flh, if fh_sbn_cksum flh = fh_data_cksum flh then 0 else 1))"

definition unpack_pd_header :: "bytes \<Rightarrow> product_def_header" where
  "unpack_pd_header data =
     (let version = byte_int data 0 in
      \<lparr>pdh_version = version div 16 mod 16,
       pdh_transfer_type = byte_int data 1,
       pdh_header_length32 = version mod 16,
       pdh_header_length = be16 data 2,
       pdh_block_number = be16 data 4,
       pdh_data_block_offset = be16 data 6,
       pdh_data_block_size = be16 data 8,
       pdh_records_per_block = byte_int data 10,
       pdh_blocks_per_record = byte_int data 11,
       pdh_product_seq_number = unpack_uint32 data 12\<rparr>)"

definition unpack_ps_header :: "bytes \<Rightarrow> product_spec_header" where
  "unpack_ps_header p =
     \<lparr>psh_opt_field_number = byte_int p 0,
      psh_opt_field_type = byte_int p 1,
      psh_opt_field_length = be16 p 2,
      psh_version = byte_int p 4,
      psh_transfer_status_flag = byte_int p 5,
      psh_awips_data_length = be16 p 6,
      psh_bytes_per_record = be16 p 8,
      psh_product_type = byte_int p 10,
      psh_product_category = byte_int p 11,
      psh_product_code = be16 p 12,
      psh_num_fragments = be16 p 14,
      psh_next_header_offset = be16 p 16,
      psh_reserved = byte_int p 18,
      psh_source = byte_int p 19,
      psh_orig_seq_number = unpack_uint32 p 20,
      psh_ncf_recv_time = unpack_uint32 p 24,
      psh_ncf_transmit_time = unpack_uint32 p 28,
      psh_run_id = be16 p 32,
      psh_orig_run_id = be16 p 34\<rparr>"

text \<open>
  Status 1: checksum error; 2: inconsistent frame; 0 otherwise. A frame whose command is not
  a data transfer is accepted after its frame level header.
\<close>

definition unpack_sbn_headers :: "sbn_frame \<Rightarrow> int \<times> sbn_frame" where
  "unpack_sbn_headers sbnf =
     (if rawdata_size sbnf < int FRAME_LEVEL_HEADER_SIZE then (2, sbnf)
      else
        let (flh, cksum_status) = unpack_fl_header (rawdata sbnf);
            sbnf = sbnf\<lparr>fh := flh\<rparr>
        in
        if cksum_status \<noteq> 0 then (1, sbnf)
        else if fh_sbn_command (fh sbnf) \<noteq> SBN_COMMAND_DATA_TRANSFER then (0, sbnf)
        else
          let blkdata_offset = FRAME_LEVEL_HEADER_SIZE + PRODUCT_DEF_HEADER_SIZE in
          if rawdata_size sbnf < int blkdata_offset then (2, sbnf)
          else
            let sbnf = sbnf\<lparr>pdh := unpack_pd_header (drop FRAME_LEVEL_HEADER_SIZE (rawdata sbnf))\<rparr> in
            if pdh_block_number (pdh sbnf) = 0 then
              let blkdata_offset = blkdata_offset + PRODUCT_SPEC_HEADER_SIZE in
              if rawdata_size sbnf < int blkdata_offset then (2, sbnf)
              else
                let sbnf = sbnf\<lparr>psh := unpack_ps_header
                      (drop (FRAME_LEVEL_HEADER_SIZE + PRODUCT_DEF_HEADER_SIZE) (rawdata sbnf))\<rparr> in
                (if rawdata_size sbnf \<noteq> int blkdata_offset + pdh_data_block_size (pdh sbnf)
                 then 2 else 0, sbnf)
            else
              (if rawdata_size sbnf \<noteq> int blkdata_offset + pdh_data_block_size (pdh sbnf)
               then 2 else 0, sbnf))"

section \<open>Decompression\<close>

type_synonym uncompress = "bytes \<Rightarrow> nat \<Rightarrow> int \<times> bytes"

text \<open>The lengths are converted to \<^verbatim>\<open>uLong\<close>; the output length is set on success only.\<close>

definition unz :: "uncompress \<Rightarrow> bytes \<Rightarrow> int \<Rightarrow> bytes \<Rightarrow> int \<Rightarrow> int \<times> bytes \<times> int" where
  "unz uncompress out outlen inp inlen =
     (let (e, written) =
            uncompress (take (nat (inlen mod 2 ^ 64)) inp) (nat (outlen mod 2 ^ 64))
      in (e, overwrite 0 written out, if e = 0 then int (length written) else outlen))"

section \<open>Unpacking a frame\<close>

definition locate_ctrlhdr :: "sbn_frame \<Rightarrow> nat \<Rightarrow> int \<times> sbn_frame" where
  "locate_ctrlhdr sbnf blkdata_offset =
     (if pdh_data_block_offset (pdh sbnf) = 0 then
        (0, sbnf\<lparr>ctrlhdr := Null, ctrlhdr_size := 0\<rparr>)
      else
        let sbnf = sbnf\<lparr>ctrlhdr := Raw blkdata_offset,
                        ctrlhdr_size := pdh_data_block_offset (pdh sbnf)\<rparr>
        in (if ctrlhdr_size sbnf < int CTRLHDR_WMO_SIZE then 2 else 0, sbnf))"

definition locate_frdata :: "sbn_frame \<Rightarrow> nat \<Rightarrow> sbn_frame" where
  "locate_frdata sbnf blkdata_offset =
     sbnf\<lparr>frdata_size := pdh_data_block_size (pdh sbnf) - ctrlhdr_size sbnf,
          frdata := Raw (blkdata_offset + nat (ctrlhdr_size sbnf)),
          f_frdata_compressed :=
            (if pdh_transfer_type (pdh sbnf) AND PDH_TRANSFERTYPE_COMPRESSED \<noteq> 0 then 1 else 0)\<rparr>"

definition unz_first_frame :: "uncompress \<Rightarrow> sbn_frame \<Rightarrow> int \<times> sbn_frame" where
  "unz_first_frame uncompress sbnf =
     (if pdh_block_number (pdh sbnf) = 0 \<and> ctrlhdr sbnf = Null \<and> f_frdata_compressed sbnf = 1 then
        let (e, out, outlen) =
              unz uncompress (blkdata sbnf) (int MAX_FRDATA_SIZE)
                (mem sbnf (frdata sbnf)) (frdata_size sbnf)
        in (if e \<noteq> 0 then 3 else 0,
            sbnf\<lparr>blkdata := out, blkdata_size := outlen, f_unzstatus := e\<rparr>)
      else (0, sbnf))"

definition locate_ccb :: "sbn_frame \<Rightarrow> int \<times> sbn_frame" where
  "locate_ccb sbnf =
     (if ctrlhdr sbnf \<noteq> Null then
        if isalpha (byte_at (mem sbnf (ctrlhdr sbnf)) 0) then
          (0, sbnf\<lparr>ccb := Null, ccb_size := 0, pdata := Null, pdata_size := 0\<rparr>)
        else if ctrlhdr_size sbnf < int CCB_SIZE then (2, sbnf)
        else (0, sbnf\<lparr>ccb := ctrlhdr sbnf, ccb_size := int CCB_SIZE,
                      pdata := Null, pdata_size := 0\<rparr>)
      else
        let (pd, pd_size) =
              (if f_frdata_compressed sbnf = 1 then (Blk 0, blkdata_size sbnf)
               else (frdata sbnf, frdata_size sbnf))
        in
        if isalpha (byte_at (mem sbnf pd) 0) then
          (0, sbnf\<lparr>ccb := Null, ccb_size := 0, pdata := pd, pdata_size := pd_size\<rparr>)
        else
          let sbnf = sbnf\<lparr>ccb := pd, ccb_size := int CCB_SIZE\<rparr> in
          if pd_size < int CCB_SIZE then (2, sbnf)
          else (0, sbnf\<lparr>pdata := ptr_add pd CCB_SIZE, pdata_size := pd_size - int CCB_SIZE\<rparr>))"

definition sbn_unpack_frame :: "uncompress \<Rightarrow> sbn_frame \<Rightarrow> int \<times> sbn_frame" where
  "sbn_unpack_frame uncompress sbnf =
     (let (status, sbnf) = unpack_sbn_headers sbnf in
      if status \<noteq> 0 \<or> fh_sbn_command (fh sbnf) \<noteq> SBN_COMMAND_DATA_TRANSFER then (status, sbnf)
      else
        let blkdata_offset = FRAME_LEVEL_HEADER_SIZE + PRODUCT_DEF_HEADER_SIZE +
              (if pdh_block_number (pdh sbnf) = 0 then PRODUCT_SPEC_HEADER_SIZE else 0);
            (status, sbnf) = locate_ctrlhdr sbnf blkdata_offset
        in
        if status \<noteq> 0 then (status, sbnf)
        else
          let sbnf = locate_frdata sbnf blkdata_offset;
              (status, sbnf) = unz_first_frame uncompress sbnf
          in
          if status \<noteq> 0 then (status, sbnf)
          else if pdh_block_number (pdh sbnf) \<noteq> 0 then (0, sbnf\<lparr>ccb := Null, ccb_size := 0\<rparr>)
          else locate_ccb sbnf)"

text \<open>
  The copy of the control header: status 1 when there is none, and then an empty buffer;
  otherwise its bytes. A control header that does not fit fails the assertion.
\<close>

definition copy_ctrlheader :: "int \<Rightarrow> sbn_frame \<Rightarrow> (int \<times> bytes) option" where
  "copy_ctrlheader allocatedsize sbnf =
     (if ctrlhdr sbnf = Null then Some (1, [])
      else if ctrlhdr_size sbnf > allocatedsize then None
      else Some (0, take (nat (ctrlhdr_size sbnf)) (mem sbnf (ctrlhdr sbnf))))"

section \<open>The WMO header\<close>

record wmo_header =
  wmo_id :: bytes
  wmo_station :: bytes
  wmo_time :: bytes
  wmo_awips :: bytes
  wmo_notawips :: bytes

text \<open>
  \<^verbatim>\<open>sscanf\<close> with a format of \<^verbatim>\<open>%<w>s\<close> conversions: the fields converted before the first
  failure.
\<close>

fun sscanf_s :: "nat list \<Rightarrow> bytes \<Rightarrow> bytes list" where
  "sscanf_s [] s = []"
| "sscanf_s (w # ws) s =
     (let t = dropWhile isspace s;
          f = take w (takeWhile (\<lambda>b. b \<noteq> 0 \<and> \<not> isspace b) t)
      in if f = [] then [] else f # sscanf_s ws (drop (length f) t))"

definition field :: "bytes list \<Rightarrow> nat \<Rightarrow> bytes" where
  "field fs i = (if i < length fs then fs ! i else [])"

text \<open>The bytes at indices below \<open>n\<close> that the scanning loops of the source visit.\<close>

definition scan :: "bytes \<Rightarrow> int \<Rightarrow> bytes" where
  "scan s n = map (byte_at s) [0..<nat n]"

definition count_char :: "bytes \<Rightarrow> int \<Rightarrow> byte \<Rightarrow> nat" where
  "count_char s n c = length (filter (\<lambda>b. b = c) (takeWhile (\<lambda>b. b \<noteq> 10 \<and> b \<noteq> 0) (scan s n)))"

definition validate_wmo :: "bytes \<Rightarrow> bytes \<Rightarrow> bytes \<Rightarrow> bytes \<Rightarrow> int" where
  "validate_wmo wid wstation wtime wbbb =
     (if length wid \<noteq> WMO_ID_SIZE then 1
      else if length wstation \<noteq> WMO_STATION_SIZE then 1
      else if length wtime \<noteq> WMO_TIME_SIZE then 1
      else if \<not> list_all isalnum wid then 1
      else if \<not> list_all isalpha wstation then 1
      else if \<not> list_all isdigit wtime then 1
      else if \<not> list_all isalnum wbbb then 1
      else 0)"

text \<open>The second line: the AWIPS code, or the characters in its place, or the BBB group.\<close>

definition split_awips :: "bytes \<Rightarrow> int \<Rightarrow> bytes \<Rightarrow> wmo_header \<Rightarrow> wmo_header" where
  "split_awips wmo data_size wmobbb h =
     (let i = int (length (takeWhile (\<lambda>b. b \<noteq> 10) (scan wmo data_size))) in
      if i \<ge> data_size - 1 then h
      else
        let line2 = drop (nat i + 1) wmo in
        if \<not> isalpha (byte_at line2 0) then h\<lparr>wmo_notawips := take WMO_NOTAWIPS_SIZE wmobbb\<rparr>
        else
          let n = data_size - (i + 1);
              h = (if byte_at line2 8 = 10 \<and> n \<ge> 9
                   then h\<lparr>wmo_awips := field (sscanf_s [WMO_AWIPS_SIZE] line2) 0\<rparr>
                   else h\<lparr>wmo_notawips :=
                     takeWhile isalnum (scan line2 (min (int WMO_NOTAWIPS_SIZE) n))\<rparr>)
          in
          if wmo_awips h = [] \<and> wmo_notawips h = []
          then h\<lparr>wmo_notawips := take WMO_NOTAWIPS_SIZE wmobbb\<rparr>
          else h)"

definition wmo_location :: "sbn_frame \<Rightarrow> ptr \<times> int" where
  "wmo_location sbnf =
     (if ctrlhdr sbnf \<noteq> Null then
        if isalpha (byte_at (mem sbnf (ctrlhdr sbnf)) 0) then (ctrlhdr sbnf, ctrlhdr_size sbnf)
        else (ptr_add (ctrlhdr sbnf) CCB_SIZE, ctrlhdr_size sbnf - int CCB_SIZE)
      else (pdata sbnf, pdata_size sbnf))"

definition split_wmo_header :: "sbn_frame \<Rightarrow> wmo_header \<Rightarrow> int \<times> wmo_header" where
  "split_wmo_header sbnf h =
     (let (wmo, data_size) = wmo_location sbnf in
      if ctrlhdr sbnf \<noteq> Null \<and> data_size < int CTRLHDR_WMO_SIZE then (1, h)
      else
        let w = mem sbnf wmo;
            count_blanks = count_char w data_size 32;
            widths = (if count_blanks = 3
                      then [WMO_ID_SIZE, WMO_STATION_SIZE, WMO_TIME_SIZE, WMO_BBB_SIZE]
                      else if count_blanks = 2 then [WMO_ID_SIZE, WMO_STATION_SIZE, WMO_TIME_SIZE]
                      else []);
            fs = sscanf_s widths w;
            h = \<lparr>wmo_id = field fs 0, wmo_station = field fs 1, wmo_time = field fs 2,
                 wmo_awips = [], wmo_notawips = []\<rparr>
        in
        if widths = [] \<or> length fs < length widths then (1, h)
        else if validate_wmo (wmo_id h) (wmo_station h) (wmo_time h) (field fs 3) \<noteq> 0 then (1, h)
        else (0, split_awips w data_size (field fs 3) h))"

section \<open>The headers of an accepted frame\<close>

text \<open>Where the data block starts: after the product specification header in a first frame.\<close>

definition block_start :: "product_def_header \<Rightarrow> nat" where
  "block_start p = FRAME_LEVEL_HEADER_SIZE + PRODUCT_DEF_HEADER_SIZE +
     (if pdh_block_number p = 0 then PRODUCT_SPEC_HEADER_SIZE else 0)"

lemma byte_int_bounds [simp]: "0 \<le> byte_int p i" "byte_int p i < 256"
  using uint_range_size [of "byte_at p i"] by (simp_all add: byte_int_def word_size)

lemma be16_bounds [simp]: "0 \<le> be16 p i" "be16 p i < 65536"
  using byte_int_bounds(1) [of p i] byte_int_bounds(2) [of p i]
    byte_int_bounds(1) [of p "i + 1"] byte_int_bounds(2) [of p "i + 1"]
  unfolding be16_def by linarith+

lemma pd_header_sizes [simp]:
  "0 \<le> pdh_data_block_size (unpack_pd_header d)" "pdh_data_block_size (unpack_pd_header d) < 65536"
  "0 \<le> pdh_data_block_offset (unpack_pd_header d)" "pdh_data_block_offset (unpack_pd_header d) < 65536"
  "0 \<le> pdh_block_number (unpack_pd_header d)" "pdh_block_number (unpack_pd_header d) < 65536"
  by (simp_all add: unpack_pd_header_def Let_def)

text \<open>The raw data and the channel are never changed.\<close>

lemma unpack_sbn_headers_keeps:
  assumes "unpack_sbn_headers sbnf = (st, s)"
  shows "rawdata s = rawdata sbnf" "rawdata_size s = rawdata_size sbnf"
    "np_channel_index s = np_channel_index sbnf"
  using assms by (auto simp: unpack_sbn_headers_def Let_def split: if_splits prod.splits)

lemma unpack_sbn_headers_ok:
  assumes "unpack_sbn_headers sbnf = (0, s)" "fh_sbn_command (fh s) = SBN_COMMAND_DATA_TRANSFER"
  shows "pdh s = unpack_pd_header (drop FRAME_LEVEL_HEADER_SIZE (rawdata sbnf))"
    and "fh s = fst (unpack_fl_header (rawdata sbnf))"
    and "rawdata_size sbnf = int (block_start (pdh s)) + pdh_data_block_size (pdh s)"
    and "pdh_block_number (pdh s) = 0 \<Longrightarrow> psh s = unpack_ps_header
           (drop (FRAME_LEVEL_HEADER_SIZE + PRODUCT_DEF_HEADER_SIZE) (rawdata sbnf))"
  using assms
  by (auto simp: unpack_sbn_headers_def Let_def block_start_def split: if_splits prod.splits)

lemma unpack_sbn_headers_cksum:
  assumes "int FRAME_LEVEL_HEADER_SIZE \<le> rawdata_size sbnf"
  shows "fst (unpack_sbn_headers sbnf) = 1 \<longleftrightarrow> snd (unpack_fl_header (rawdata sbnf)) \<noteq> 0"
  using assms by (cases "unpack_fl_header (rawdata sbnf)") (auto simp: unpack_sbn_headers_def Let_def)

text \<open>The geometry of an accepted data frame.\<close>

definition frame_located :: "sbn_frame \<Rightarrow> bool" where
  "frame_located s \<longleftrightarrow>
     rawdata_size s = int (block_start (pdh s)) + pdh_data_block_size (pdh s) \<and>
     0 \<le> pdh_data_block_offset (pdh s) \<and> pdh_data_block_size (pdh s) < 65536 \<and>
     ctrlhdr s = (if pdh_data_block_offset (pdh s) = 0 then Null else Raw (block_start (pdh s))) \<and>
     ctrlhdr_size s = pdh_data_block_offset (pdh s) \<and>
     (ctrlhdr s \<noteq> Null \<longrightarrow> int CTRLHDR_WMO_SIZE \<le> ctrlhdr_size s) \<and>
     frdata s = Raw (block_start (pdh s) + nat (pdh_data_block_offset (pdh s))) \<and>
     frdata_size s = pdh_data_block_size (pdh s) - pdh_data_block_offset (pdh s) \<and>
     (f_frdata_compressed s = 1 \<longleftrightarrow> pdh_transfer_type (pdh s) AND PDH_TRANSFERTYPE_COMPRESSED \<noteq> 0) \<and>
     f_frdata_compressed s \<in> {0, 1}"

lemma unz_first_frame_keeps:
  assumes "unz_first_frame u sbnf = (st, s)"
  shows "rawdata s = rawdata sbnf" "np_channel_index s = np_channel_index sbnf"
    "fh s = fh sbnf" "pdh s = pdh sbnf" "psh s = psh sbnf"
    "frame_located sbnf \<Longrightarrow> frame_located s"
  using assms
  by (auto simp: unz_first_frame_def frame_located_def Let_def split: if_splits prod.splits)

lemma frame_located_update [simp]:
  "frame_located (s\<lparr>ccb := x\<rparr>) = frame_located s" "frame_located (s\<lparr>ccb_size := i\<rparr>) = frame_located s"
  "frame_located (s\<lparr>pdata := x\<rparr>) = frame_located s" "frame_located (s\<lparr>pdata_size := i\<rparr>) = frame_located s"
  by (simp_all add: frame_located_def)

lemma locate_ccb_keeps:
  assumes "locate_ccb sbnf = (st, s)"
  shows "rawdata s = rawdata sbnf" "np_channel_index s = np_channel_index sbnf"
    "fh s = fh sbnf" "pdh s = pdh sbnf" "psh s = psh sbnf"
    "frame_located sbnf \<Longrightarrow> frame_located s"
  using assms by (auto simp: locate_ccb_def Let_def split: if_splits prod.splits)

lemma locate_ok:
  assumes "unpack_sbn_headers sbnf = (0, s)" "fh_sbn_command (fh s) = SBN_COMMAND_DATA_TRANSFER"
    "locate_ctrlhdr s (block_start (pdh s)) = (0, s1)"
  shows "frame_located (locate_frdata s1 (block_start (pdh s)))"
    "rawdata s1 = rawdata sbnf" "np_channel_index s1 = np_channel_index sbnf"
    "fh s1 = fh s" "pdh s1 = pdh s" "psh s1 = psh s"
  using assms unpack_sbn_headers_ok(1,3) [OF assms(1,2)] unpack_sbn_headers_keeps [OF assms(1)]
  by (auto simp: locate_ctrlhdr_def locate_frdata_def frame_located_def Let_def split: if_splits)

lemma locate_frdata_keeps [simp]:
  "rawdata (locate_frdata s b) = rawdata s" "fh (locate_frdata s b) = fh s"
  "pdh (locate_frdata s b) = pdh s" "psh (locate_frdata s b) = psh s"
  "np_channel_index (locate_frdata s b) = np_channel_index s"
  by (simp_all add: locate_frdata_def)

lemma sbn_unpack_frame_ok:
  assumes "sbn_unpack_frame u sbnf = (0, s)" "fh_sbn_command (fh s) = SBN_COMMAND_DATA_TRANSFER"
  shows "frame_located s" "rawdata s = rawdata sbnf"
    "pdh s = unpack_pd_header (drop FRAME_LEVEL_HEADER_SIZE (rawdata sbnf))"
    "fh s = fst (unpack_fl_header (rawdata sbnf))"
    "np_channel_index s = np_channel_index sbnf"
    "pdh_block_number (pdh s) = 0 \<Longrightarrow> psh s = unpack_ps_header
       (drop (FRAME_LEVEL_HEADER_SIZE + PRODUCT_DEF_HEADER_SIZE) (rawdata sbnf))"
proof -
  obtain st0 s0 where h: "unpack_sbn_headers sbnf = (st0, s0)" by fastforce
  obtain st1 s1 where l: "locate_ctrlhdr s0 (block_start (pdh s0)) = (st1, s1)" by fastforce
  let ?s2 = "locate_frdata s1 (block_start (pdh s0))"
  obtain st3 s3 where z: "unz_first_frame u ?s2 = (st3, s3)" by fastforce
  have u: "sbn_unpack_frame u sbnf =
      (if st0 \<noteq> 0 \<or> fh_sbn_command (fh s0) \<noteq> SBN_COMMAND_DATA_TRANSFER then (st0, s0)
       else if st1 \<noteq> 0 then (st1, s1) else if st3 \<noteq> 0 then (st3, s3)
       else if pdh_block_number (pdh s3) \<noteq> 0 then (0, s3\<lparr>ccb := Null, ccb_size := 0\<rparr>)
       else locate_ccb s3)"
    using h l z by (simp add: sbn_unpack_frame_def block_start_def Let_def)
  from u assms have ok: "st0 = 0" "fh_sbn_command (fh s0) = SBN_COMMAND_DATA_TRANSFER" "st1 = 0" "st3 = 0"
    by (auto split: if_splits)
  note hd = unpack_sbn_headers_ok [OF h [unfolded ok(1)] ok(2)]
  note lc = locate_ok [OF h [unfolded ok(1)] ok(2) l [unfolded ok(3)]]
  note uz = unz_first_frame_keeps [OF z]
  have s3: "frame_located s3" "rawdata s3 = rawdata sbnf" "pdh s3 = pdh s0" "fh s3 = fh s0"
    "psh s3 = psh s0" "np_channel_index s3 = np_channel_index sbnf"
    using lc uz by simp_all
  from u assms(1) ok have s: "(0, s) = (if pdh_block_number (pdh s3) \<noteq> 0
      then (0, s3\<lparr>ccb := Null, ccb_size := 0\<rparr>) else locate_ccb s3)"
    by simp
  then have "frame_located s \<and> rawdata s = rawdata s3 \<and> pdh s = pdh s3 \<and> fh s = fh s3 \<and>
      psh s = psh s3 \<and> np_channel_index s = np_channel_index s3"
    using s3(1) locate_ccb_keeps [of s3 0 s]
    by (auto simp: frame_located_def split: if_splits)
  with s3 hd show "frame_located s" "rawdata s = rawdata sbnf"
    "pdh s = unpack_pd_header (drop FRAME_LEVEL_HEADER_SIZE (rawdata sbnf))"
    "fh s = fst (unpack_fl_header (rawdata sbnf))"
    "np_channel_index s = np_channel_index sbnf"
    "pdh_block_number (pdh s) = 0 \<Longrightarrow> psh s = unpack_ps_header
       (drop (FRAME_LEVEL_HEADER_SIZE + PRODUCT_DEF_HEADER_SIZE) (rawdata sbnf))"
    by auto
qed

section \<open>Frame properties\<close>

lemma located_partition:
  assumes "frame_located s" "rawdata_size s = int (length (rawdata s))"
    "pdh_data_block_offset (pdh s) \<le> pdh_data_block_size (pdh s)"
  shows "take (block_start (pdh s)) (rawdata s) @ take (nat (ctrlhdr_size s)) (mem s (ctrlhdr s)) @
      take (nat (frdata_size s)) (mem s (frdata s)) = rawdata s"
    and "nat (frdata_size s) \<le> length (mem s (frdata s))"
    and "nat (ctrlhdr_size s) \<le> length (mem s (ctrlhdr s))"
proof -
  let ?b = "block_start (pdh s)" and ?o = "nat (pdh_data_block_offset (pdh s))"
  let ?n = "nat (pdh_data_block_size (pdh s) - pdh_data_block_offset (pdh s))"
  have len: "length (rawdata s) = ?b + ?o + ?n"
    using assms by (auto simp: frame_located_def)
  have ctrl: "take (nat (ctrlhdr_size s)) (mem s (ctrlhdr s)) = take ?o (drop ?b (rawdata s))"
    using assms by (simp add: frame_located_def)
  have fr: "take (nat (frdata_size s)) (mem s (frdata s)) = drop (?b + ?o) (rawdata s)"
    using assms len by (simp add: frame_located_def)
  have "take ?b (rawdata s) @ take ?o (drop ?b (rawdata s)) @ drop (?b + ?o) (rawdata s) = rawdata s"
    by (metis append_take_drop_id append_assoc take_add)
  with ctrl fr show "take ?b (rawdata s) @ take (nat (ctrlhdr_size s)) (mem s (ctrlhdr s)) @
      take (nat (frdata_size s)) (mem s (frdata s)) = rawdata s"
    by simp
  show "nat (frdata_size s) \<le> length (mem s (frdata s))"
    and "nat (ctrlhdr_size s) \<le> length (mem s (ctrlhdr s))"
    using assms len by (simp_all add: frame_located_def)
qed

text \<open>The frame level checksum.\<close>

definition header_sum :: "bytes \<Rightarrow> int" where
  "header_sum d = (\<Sum>i<14. byte_int d i)"

lemma flh_checksum_loop_sum: "flh_checksum_loop bs cs = cs + (\<Sum>b\<leftarrow>bs. uint b)"
  by (induction bs arbitrary: cs) simp_all

lemma fl_header_status: "snd (unpack_fl_header d) = (if be16 d 14 = header_sum d then 0 else 1)"
  by (simp add: unpack_fl_header_def Let_def flh_checksum_loop_sum header_sum_def byte_int_def
      sum_list_sum_nth atLeast0LessThan)

lemma byte_int_update:
  "byte_int (d[i := b]) j = (if j = i \<and> i < length d then uint b else byte_int d j)"
  by (simp add: byte_int_def byte_at_def nth_list_update)

lemma header_sum_update:
  assumes "i < 14" "i < length d"
  shows "header_sum (d[i := b]) = header_sum d - byte_int d i + uint b"
proof -
  have "header_sum (d[i := b]) = uint b + (\<Sum>j\<in>{..<14} - {i}. byte_int d j)"
    using assms by (simp add: header_sum_def sum.remove [of "{..<14}" i] byte_int_update)
  moreover have "header_sum d = byte_int d i + (\<Sum>j\<in>{..<14} - {i}. byte_int d j)"
    using assms by (simp add: header_sum_def sum.remove [of "{..<14}" i])
  ultimately show ?thesis by simp
qed

lemma fl_header_detects:
  assumes "i < 16" "16 \<le> length d" "b \<noteq> d ! i" "snd (unpack_fl_header d) = 0"
  shows "snd (unpack_fl_header (d[i := b])) = 1"
proof -
  have eq: "be16 d 14 = header_sum d" using assms(4) by (simp add: fl_header_status split: if_splits)
  have ne: "uint b \<noteq> byte_int d i"
    using assms by (simp add: byte_int_def byte_at_def word_uint_eq_iff)
  show ?thesis
  proof (cases "i < 14")
    case True
    then have "be16 (d[i := b]) 14 = be16 d 14" by (simp add: be16_def byte_int_update)
    with True eq ne assms show ?thesis by (simp add: fl_header_status header_sum_update)
  next
    case False
    then have sum: "header_sum (d[i := b]) = header_sum d"
      by (simp add: header_sum_def byte_int_update)
    from False assms(1) have "i = 14 \<or> i = 15" by auto
    then have "be16 (d[i := b]) 14 \<noteq> be16 d 14"
      using ne assms by (auto simp: be16_def byte_int_update)
    with sum eq show ?thesis by (simp add: fl_header_status)
  qed
qed

section \<open>The WMO header\<close>

lemma list_all_takeWhile: "list_all P (takeWhile P xs)" "list_all P (take k (takeWhile P xs))"
  by (auto simp: list_all_iff dest: in_set_takeD set_takeWhileD)

lemma sscanf_s_nth:
  assumes "i < length (sscanf_s ws s)"
  shows "i < length ws" "length (sscanf_s ws s ! i) \<le> ws ! i"
    "list_all (\<lambda>b. b \<noteq> 0 \<and> \<not> isspace b) (sscanf_s ws s ! i)"
  using assms
proof (induction ws arbitrary: i s)
  case (Cons w ws)
  let ?t = "\<lambda>s. dropWhile isspace s"
  let ?f = "\<lambda>s. take w (takeWhile (\<lambda>b. b \<noteq> 0 \<and> \<not> isspace b) (?t s))"
  have fs: "sscanf_s (w # ws) s =
      (if ?f s = [] then [] else ?f s # sscanf_s ws (drop (length (?f s)) (?t s)))" for s
    by (simp only: sscanf_s.simps Let_def)
  { case 1 with Cons.IH(1) show ?case by (cases i) (simp_all add: fs del: sscanf_s.simps split: if_splits) next
    case 2 with Cons.IH(2) show ?case by (cases i) (simp_all add: fs del: sscanf_s.simps split: if_splits) next
    case 3 with Cons.IH(3) show ?case
      by (cases i) (simp_all add: fs list_all_takeWhile del: sscanf_s.simps split: if_splits) }
qed simp_all

lemma field_bound:
  assumes "i < length ws"
  shows "length (field (sscanf_s ws s) i) \<le> ws ! i"
    and "list_all (\<lambda>b. b \<noteq> 0 \<and> \<not> isspace b) (field (sscanf_s ws s) i)"
  using sscanf_s_nth [of i ws s] by (simp_all add: field_def)

definition wmo_valid :: "wmo_header \<Rightarrow> bool" where
  "wmo_valid h \<longleftrightarrow>
     length (wmo_id h) = WMO_ID_SIZE \<and> list_all isalnum (wmo_id h) \<and>
     length (wmo_station h) = WMO_STATION_SIZE \<and> list_all isalpha (wmo_station h) \<and>
     length (wmo_time h) = WMO_TIME_SIZE \<and> list_all isdigit (wmo_time h) \<and>
     length (wmo_awips h) \<le> WMO_AWIPS_SIZE \<and>
     list_all (\<lambda>b. b \<noteq> 0 \<and> \<not> isspace b) (wmo_awips h) \<and>
     length (wmo_notawips h) \<le> WMO_NOTAWIPS_SIZE \<and> list_all isalnum (wmo_notawips h)"

lemma split_awips_valid:
  assumes "wmo_valid h" "wmo_awips h = []" "list_all isalnum bbb"
  shows "wmo_valid (split_awips w n bbb h)"
proof -
  have "list_all isalnum (take k bbb)" for k
    using assms(3) by (auto simp: list_all_iff dest: in_set_takeD)
  moreover have "list_all isalnum (takeWhile isalnum xs)" for xs
    by (auto simp: list_all_iff dest: set_takeWhileD)
  moreover have "length (takeWhile isalnum (scan xs (min 6 k))) \<le> 6" for xs k
    using length_takeWhile_le [of isalnum "scan xs (min 6 k)"] by (simp add: scan_def)
  ultimately show ?thesis
    using assms field_bound [of 0 "[WMO_AWIPS_SIZE]"]
    by (simp add: split_awips_def wmo_valid_def Let_def)
qed

lemma validate_wmo_ok:
  "validate_wmo a b c d = 0 \<longleftrightarrow>
     length a = WMO_ID_SIZE \<and> length b = WMO_STATION_SIZE \<and> length c = WMO_TIME_SIZE \<and>
     list_all isalnum a \<and> list_all isalpha b \<and> list_all isdigit c \<and> list_all isalnum d"
  by (simp add: validate_wmo_def)

lemma split_wmo_header_ok:
  assumes "split_wmo_header sbnf h0 = (0, h)"
  obtains w n a b c d where "validate_wmo a b c d = 0"
    "split_awips w n d \<lparr>wmo_id = a, wmo_station = b, wmo_time = c, wmo_awips = [], wmo_notawips = []\<rparr> = h"
  using assms that unfolding split_wmo_header_def Let_def
  by (simp split: prod.splits if_split_asm del: sscanf_s.simps; blast)

lemma split_wmo_header_valid:
  assumes "split_wmo_header sbnf h0 = (0, h)"
  shows "wmo_valid h"
proof -
  obtain w n a b c d where v: "validate_wmo a b c d = 0" and
    h: "split_awips w n d \<lparr>wmo_id = a, wmo_station = b, wmo_time = c, wmo_awips = [], wmo_notawips = []\<rparr> = h"
    using split_wmo_header_ok [OF assms] .
  show ?thesis unfolding h [symmetric]
    using v by (intro split_awips_valid) (simp_all add: validate_wmo_ok wmo_valid_def)
qed

text \<open>Scanning a line whose words have exactly their widths.\<close>

lemma isalnum_word: "isalnum b \<Longrightarrow> b \<noteq> 0 \<and> \<not> isspace b"
  by (auto simp: isalnum_not_space)

lemma sscanf_s_word:
  assumes "list_all isalnum f" "length f = w" "0 < w"
  shows "sscanf_s (w # ws) (f @ rst) = f # sscanf_s ws rst"
proof -
  let ?P = "\<lambda>b. b \<noteq> 0 \<and> \<not> isspace b"
  obtain b f' where f: "f = b # f'" using assms by (cases f) auto
  have all: "\<forall>b\<in>set f. ?P b" using assms(1) isalnum_word by (auto simp: list_all_iff)
  then have d: "dropWhile isspace (f @ rst) = f @ rst" by (simp add: f)
  have t: "take w (takeWhile ?P (f @ rst)) = f"
    using all assms(2) by (simp add: takeWhile_append)
  show ?thesis unfolding sscanf_s.simps Let_def d t using assms(2,3) by auto
qed

lemma sscanf_s_blank: "sscanf_s (w # ws) (32 # s) = sscanf_s (w # ws) s"
proof -
  have "dropWhile isspace (32 # s) = dropWhile isspace s" by (simp add: isspace_def)
  then show ?thesis unfolding sscanf_s.simps Let_def by simp
qed

definition wmo_line :: "bytes \<Rightarrow> bytes \<Rightarrow> bytes \<Rightarrow> bytes" where
  "wmo_line a b c = a @ [32] @ b @ [32] @ c @ [13, 13, 10]"

lemma length_wmo_line:
  "validate_wmo a b c d = 0 \<Longrightarrow> length (wmo_line a b c) = CTRLHDR_WMO_SIZE"
  by (simp add: validate_wmo_ok wmo_line_def)

lemma sscanf_wmo_line:
  assumes "validate_wmo a b c d = 0"
  shows "sscanf_s [WMO_ID_SIZE, WMO_STATION_SIZE, WMO_TIME_SIZE] (wmo_line a b c @ rst) = [a, b, c]"
proof -
  have "list_all isalnum b" "list_all isalnum c"
    using assms by (auto simp: validate_wmo_ok list_all_iff isalpha_isalnum isdigit_isalnum)
  with assms show ?thesis
    by (simp add: wmo_line_def validate_wmo_ok sscanf_s_word sscanf_s_blank del: sscanf_s.simps(2))
qed

lemma scan_take: "n \<le> int (length s) \<Longrightarrow> scan s n = take (nat n) s"
  by (auto simp: scan_def byte_at_def list_eq_iff_nth_eq)

lemma isalnum_plain: "isalnum b \<Longrightarrow> b \<noteq> 10 \<and> b \<noteq> 0 \<and> b \<noteq> 32"
  by (auto simp: ctype_defs)

lemma takeWhile_wmo_line:
  assumes "validate_wmo a b c d = 0"
    and P: "\<And>x. isalnum x \<Longrightarrow> P x" "P 32" "P 13" "\<not> P 10"
  shows "takeWhile P (wmo_line a b c @ rst) = a @ [32] @ b @ [32] @ c @ [13, 13]"
proof -
  have "\<forall>x\<in>set a. P x" "\<forall>x\<in>set b. P x" "\<forall>x\<in>set c. P x"
    using assms by (auto simp: validate_wmo_ok list_all_iff isalpha_isalnum isdigit_isalnum)
  with P(2-) show ?thesis by (simp add: wmo_line_def takeWhile_append)
qed

lemma scan_wmo_line:
  assumes "validate_wmo a b c d = 0" "int CTRLHDR_WMO_SIZE \<le> n" "n \<le> int (length (wmo_line a b c @ rst))"
  shows "scan (wmo_line a b c @ rst) n = wmo_line a b c @ take (nat n - CTRLHDR_WMO_SIZE) rst"
  using assms length_wmo_line [OF assms(1)] by (simp add: scan_take)

lemma count_blanks_wmo_line:
  assumes "validate_wmo a b c d = 0" "int CTRLHDR_WMO_SIZE \<le> n" "n \<le> int (length (wmo_line a b c @ rst))"
  shows "count_char (wmo_line a b c @ rst) n 32 = 2"
proof -
  have "\<not> isalnum 32" "\<not> isalpha 32" "\<not> isdigit 32" by (simp_all add: ctype_defs)
  then have "filter (\<lambda>x. x = 32) a = []" "filter (\<lambda>x. x = 32) b = []" "filter (\<lambda>x. x = 32) c = []"
    using assms(1) by (auto simp: validate_wmo_ok list_all_iff filter_empty_conv)
  moreover have "takeWhile (\<lambda>x. x \<noteq> 10 \<and> x \<noteq> 0) (scan (wmo_line a b c @ rst) n) =
      a @ [32] @ b @ [32] @ c @ [13, 13]"
    unfolding scan_wmo_line [OF assms]
    by (rule takeWhile_wmo_line [OF assms(1)]) (use isalnum_plain in auto)
  ultimately show ?thesis unfolding count_char_def by simp
qed

lemma split_awips_line:
  assumes "validate_wmo a b c d = 0" "length aw = WMO_AWIPS_SIZE" "list_all isalnum aw"
    "isalpha (hd aw)" "n = int (length (wmo_line a b c @ aw @ [13, 13, 10] @ rst))"
  shows "split_awips (wmo_line a b c @ aw @ [13, 13, 10] @ rst) n bbb h = h\<lparr>wmo_awips := aw\<rparr>"
proof -
  let ?w = "wmo_line a b c @ aw @ [13, 13, 10] @ rst"
  have "takeWhile (\<lambda>x. x \<noteq> 10) (scan ?w n) = a @ [32] @ b @ [32] @ c @ [13, 13]"
    unfolding scan_take [of n ?w, unfolded assms(5), simplified] assms(5)
    by (subst takeWhile_wmo_line [OF assms(1), symmetric, where P = "\<lambda>x. x \<noteq> 10"
          and rst = "aw @ [13, 13, 10] @ rst"]) (use isalnum_plain in \<open>auto simp: scan_take\<close>)
  then have i: "int (length (takeWhile (\<lambda>x. x \<noteq> 10) (scan ?w n))) = 20"
    using assms(1) by (simp add: validate_wmo_ok)
  have l2: "drop (nat 20 + 1) ?w = aw @ [13, 13, 10] @ rst"
    using length_wmo_line [OF assms(1)] by simp
  have b0: "isalpha (byte_at (aw @ [13, 13, 10] @ rst) 0)"
    using assms(2,4) by (cases aw) (simp_all add: byte_at_def)
  have b8: "byte_at (aw @ [13, 13, 10] @ rst) 8 = 10"
    using assms(2) by (simp add: byte_at_def nth_append)
  have n: "n = 30 + int (length rst)"
    using assms(2,5) length_wmo_line [OF assms(1)] by simp
  have sc: "sscanf_s [WMO_AWIPS_SIZE] (aw @ [13, 13, 10] @ rst) = [aw]"
    using assms(2,3) by (simp add: sscanf_s_word del: sscanf_s.simps(2))
  have ne: "aw \<noteq> []" using assms(2) by auto
  show ?thesis
    unfolding split_awips_def Let_def i l2 sc using b0 b8 n ne by (simp add: field_def)
qed

lemma split_wmo_header_line:
  assumes loc: "wmo_location sbnf = (p, n)" and w: "mem sbnf p = wmo_line a b c @ rst"
    and v: "validate_wmo a b c [] = 0"
    and n: "int CTRLHDR_WMO_SIZE \<le> n" "n \<le> int (length (wmo_line a b c @ rst))"
  shows "split_wmo_header sbnf h = (0, split_awips (wmo_line a b c @ rst) n []
      \<lparr>wmo_id = a, wmo_station = b, wmo_time = c, wmo_awips = [], wmo_notawips = []\<rparr>)"
  unfolding split_wmo_header_def Let_def loc prod.case w count_blanks_wmo_line [OF v n]
  using sscanf_wmo_line [OF v, of rst] n v
  by (simp add: field_def del: sscanf_s.simps)

section \<open>Examples\<close>

text \<open>
  A frame as the readers hand it over, with the decoded fields still unset, and three
  concrete frames: a fragment with 4 bytes of data, a first frame with a CCB and a WMO and
  AWIPS header as data, and a fragment whose control header is larger than its data block.
\<close>

definition fresh_frame :: "bytes \<Rightarrow> sbn_frame" where
  "fresh_frame raw =
     \<lparr>rawdata = raw, rawdata_size = int (length raw),
      fh = fst (unpack_fl_header []), pdh = unpack_pd_header [], psh = unpack_ps_header [],
      np_channel_index = 0, ctrlhdr = Null, ctrlhdr_size = 0, frdata = Null, frdata_size = 0,
      blkdata = [], blkdata_size = 0, ccb = Null, ccb_size = 0, pdata = Null, pdata_size = 0,
      f_frdata_compressed = 0, f_unzstatus = 0\<rparr>"

definition example_fragment :: bytes where
  "example_fragment =
     [255, 0, 80, 0, 3, 5, 0, 0, 0, 0, 0, 1, 0, 0, 1, 88] @
     [17, 2, 0, 16, 0, 1, 0, 0, 0, 4, 1, 1, 0, 0, 0, 9] @ [65, 66, 67, 68]"

definition example_wmo :: bytes where
  "example_wmo = wmo_line (ascii ''SXUS20'') (ascii ''KWBC'') (ascii ''011200'')"

definition example_first_frame :: bytes where
  "example_first_frame =
     [255, 0, 80, 0, 3, 5, 0, 0, 0, 0, 0, 1, 0, 0, 1, 88] @
     [17, 1, 0, 52, 0, 0, 0, 0, 0, 57, 1, 1, 0, 0, 0, 9] @
     [0, 0, 0, 36, 1, 0, 0, 57, 0, 0, 1, 4, 0, 1, 0, 2, 0, 0, 0, 0,
      0, 0, 0, 0, 0, 0, 0, 0, 0, 0, 0, 0, 0, 0, 0, 0] @
     (64 # replicate 23 0) @ example_wmo @ ascii ''OSOCBH'' @ [13, 13, 10] @ [65, 66, 67]"

definition example_negative_frame :: bytes where
  "example_negative_frame =
     [255, 0, 80, 0, 3, 5, 0, 0, 0, 0, 0, 1, 0, 0, 1, 88] @
     [17, 2, 0, 16, 0, 1, 0, 21, 0, 0, 1, 1, 0, 0, 0, 9]"

definition no_wmo :: wmo_header where
  "no_wmo = \<lparr>wmo_id = [], wmo_station = [], wmo_time = [], wmo_awips = [], wmo_notawips = []\<rparr>"

definition no_zlib :: uncompress where
  "no_zlib inp room = (-1, [])"

section \<open>Properties\<close>

text \<open>
  C23. A data frame that \<^verbatim>\<open>sbn_unpack_frame\<close> accepts, and whose header gives a control header that is
  not larger than its data block, is cut without overlap or gap: the headers, the control header and the
  frame data, in this order, are exactly the bytes received, so no field points outside them. The frames
  that are accepted with a larger control header are those of the last property of this theory.
\<close>

theorem sbn_unpack_frame_partition:
  assumes "sbn_unpack_frame u sbnf = (0, s)" "fh_sbn_command (fh s) = SBN_COMMAND_DATA_TRANSFER"
    "rawdata_size s = int (length (rawdata s))"
    "pdh_data_block_offset (pdh s) \<le> pdh_data_block_size (pdh s)"
  shows "take (block_start (pdh s)) (rawdata sbnf) @
      take (nat (ctrlhdr_size s)) (mem s (ctrlhdr s)) @
      take (nat (frdata_size s)) (mem s (frdata s)) = rawdata sbnf"
  using located_partition(1) [OF sbn_unpack_frame_ok(1) [OF assms(1,2)] assms(3,4)]
    sbn_unpack_frame_ok(2) [OF assms(1,2)] by simp

theorem sbn_unpack_frame_partition_witness:
  "let s = snd (sbn_unpack_frame no_zlib (fresh_frame example_fragment)) in
   take (block_start (pdh s)) example_fragment @ take (nat (ctrlhdr_size s)) (mem s (ctrlhdr s)) @
     take (nat (frdata_size s)) (mem s (frdata s)) = example_fragment"
proof -
  let ?s = "snd (sbn_unpack_frame no_zlib (fresh_frame example_fragment))"
  have "fst (sbn_unpack_frame no_zlib (fresh_frame example_fragment)) = 0" by code_simp
  then have "sbn_unpack_frame no_zlib (fresh_frame example_fragment) = (0, ?s)"
    by (metis prod.collapse)
  moreover have "fh_sbn_command (fh ?s) = SBN_COMMAND_DATA_TRANSFER" by code_simp
  moreover have "rawdata_size ?s = int (length (rawdata ?s))" by code_simp
  moreover have "pdh_data_block_offset (pdh ?s) \<le> pdh_data_block_size (pdh ?s)" by code_simp
  moreover have "rawdata (fresh_frame example_fragment) = example_fragment"
    by (simp add: fresh_frame_def)
  ultimately show ?thesis
    using sbn_unpack_frame_partition [of no_zlib "fresh_frame example_fragment" ?s]
    by (simp only: Let_def)
qed

text \<open>
  C26. The frame level checksum detects every change of one byte of the frame level header:
  the frame that was accepted is rejected with the checksum status once the byte is changed.
\<close>

theorem sbn_checksum_detects_byte_error:
  assumes "fst (unpack_sbn_headers sbnf) \<noteq> 1" "16 \<le> rawdata_size sbnf"
    "16 \<le> length (rawdata sbnf)" "i < 16" "b \<noteq> rawdata sbnf ! i"
  shows "fst (unpack_sbn_headers (sbnf\<lparr>rawdata := (rawdata sbnf)[i := b]\<rparr>)) = 1"
proof -
  have "snd (unpack_fl_header (rawdata sbnf)) = 0"
    using assms(1,2) unpack_sbn_headers_cksum [of sbnf] by (simp add: fl_header_status split: if_splits)
  from fl_header_detects [OF assms(4,3,5) this] assms(2) show ?thesis
    by (simp add: unpack_sbn_headers_cksum)
qed

theorem sbn_checksum_detects_byte_error_witness:
  "fst (unpack_sbn_headers ((fresh_frame example_fragment)\<lparr>rawdata := example_fragment[4 := 5]\<rparr>)) = 1"
proof -
  have "fst (unpack_sbn_headers (fresh_frame example_fragment)) = 0" by code_simp
  moreover have "rawdata (fresh_frame example_fragment) = example_fragment"
    "rawdata_size (fresh_frame example_fragment) = 36" "length example_fragment = 36"
    by (simp_all add: fresh_frame_def example_fragment_def)
  moreover have "example_fragment ! 4 \<noteq> 5" by code_simp
  ultimately show ?thesis
    using sbn_checksum_detects_byte_error [of "fresh_frame example_fragment" 4 5] by simp
qed

text \<open>
  C27. The WMO header that \<^verbatim>\<open>split_wmo_header\<close> accepts has an identifier of 6 alphanumeric
  characters, a station of 4 letters and a time of 6 digits; the AWIPS code and the text in
  its place fit their buffers, contain no blank or NUL, and the latter only alphanumeric
  characters.
\<close>

theorem split_wmo_header_accepts_valid:
  assumes "split_wmo_header sbnf h0 = (0, h)"
  shows "length (wmo_id h) = WMO_ID_SIZE \<and> list_all isalnum (wmo_id h) \<and>
     length (wmo_station h) = WMO_STATION_SIZE \<and> list_all isalpha (wmo_station h) \<and>
     length (wmo_time h) = WMO_TIME_SIZE \<and> list_all isdigit (wmo_time h) \<and>
     length (wmo_awips h) \<le> WMO_AWIPS_SIZE \<and>
     list_all (\<lambda>b. b \<noteq> 0 \<and> \<not> isspace b) (wmo_awips h) \<and>
     length (wmo_notawips h) \<le> WMO_NOTAWIPS_SIZE \<and> list_all isalnum (wmo_notawips h)"
  using split_wmo_header_valid [OF assms] by (simp add: wmo_valid_def)

theorem split_wmo_header_accepts_valid_witness:
  "let h = snd (split_wmo_header (snd (sbn_unpack_frame no_zlib (fresh_frame example_first_frame)))
             no_wmo)
   in length (wmo_id h) = WMO_ID_SIZE \<and> list_all isdigit (wmo_time h)"
proof -
  let ?r = "split_wmo_header (snd (sbn_unpack_frame no_zlib (fresh_frame example_first_frame)))
             no_wmo"
  have "fst ?r = 0" by code_simp
  then have "?r = (0, snd ?r)" by (metis prod.collapse)
  from split_wmo_header_accepts_valid [OF this] show ?thesis by (simp only: Let_def)
qed

text \<open>
  C24. A product that starts with a WMO line \<^verbatim>\<open>TTAAii CCCC YYGGgg\<close> and an AWIPS line of six
  characters is recognised: \<^verbatim>\<open>split_wmo_header\<close> returns exactly these fields.
\<close>

theorem split_wmo_header_recognises:
  assumes "wmo_location sbnf = (p, n)" "validate_wmo a b c [] = 0"
    "mem sbnf p = wmo_line a b c @ aw @ [13, 13, 10] @ rst"
    "n = int (length (mem sbnf p))"
    "length aw = WMO_AWIPS_SIZE" "list_all isalnum aw" "isalpha (hd aw)"
  shows "split_wmo_header sbnf h =
    (0, \<lparr>wmo_id = a, wmo_station = b, wmo_time = c, wmo_awips = aw, wmo_notawips = []\<rparr>)"
  using split_wmo_header_line [OF assms(1,3,2)] assms(4) length_wmo_line [OF assms(2)]
    split_awips_line [OF assms(2,5,6,7) assms(4)[unfolded assms(3)]]
  by (simp add: assms(3))

theorem split_wmo_header_recognises_witness:
  "split_wmo_header (snd (sbn_unpack_frame no_zlib (fresh_frame example_first_frame))) no_wmo =
    (0, \<lparr>wmo_id = ascii ''SXUS20'', wmo_station = ascii ''KWBC'', wmo_time = ascii ''011200'',
        wmo_awips = ascii ''OSOCBH'', wmo_notawips = []\<rparr>)"
proof -
  let ?s = "snd (sbn_unpack_frame no_zlib (fresh_frame example_first_frame))"
  have "wmo_location ?s = (Raw 92, 33)" by code_simp
  moreover have "validate_wmo (ascii ''SXUS20'') (ascii ''KWBC'') (ascii ''011200'') [] = 0"
    by code_simp
  moreover have "mem ?s (Raw 92) = wmo_line (ascii ''SXUS20'') (ascii ''KWBC'') (ascii ''011200'') @
      ascii ''OSOCBH'' @ [13, 13, 10] @ [65, 66, 67]"
    by code_simp
  moreover have "33 = int (length (mem ?s (Raw 92)))" by code_simp
  moreover have "length (ascii ''OSOCBH'') = WMO_AWIPS_SIZE" "list_all isalnum (ascii ''OSOCBH'')"
    "isalpha (hd (ascii ''OSOCBH''))" by code_simp+
  ultimately show ?thesis by (rule split_wmo_header_recognises)
qed

text \<open>
  C28. The size of the control header is not compared with that of the data block. Every later frame of a
  product whose headers are valid and whose control header is larger than its block, and not too small for a
  WMO header, is accepted, with a negative size of the frame data and a pointer to them after the end of
  the bytes received.
\<close>

theorem sbn_unpack_frame_negative_frdata:
  assumes "unpack_sbn_headers sbnf = (0, s0)" "fh_sbn_command (fh s0) = SBN_COMMAND_DATA_TRANSFER"
    "pdh_block_number (pdh s0) \<noteq> 0" "int CTRLHDR_WMO_SIZE \<le> pdh_data_block_offset (pdh s0)"
    "pdh_data_block_size (pdh s0) < pdh_data_block_offset (pdh s0)"
  shows "\<exists>s k. sbn_unpack_frame u sbnf = (0, s) \<and> frdata_size s < 0 \<and> frdata s = Raw k \<and> rawdata_size s < int k"
proof -
  let ?b = "block_start (pdh s0)"
  obtain st1 s1 where l: "locate_ctrlhdr s0 ?b = (st1, s1)" by fastforce
  have st1: "st1 = 0" using l assms(4) by (auto simp: locate_ctrlhdr_def Let_def split: if_splits)
  note lc = locate_ok [OF assms(1,2) l [unfolded st1]]
  let ?s2 = "locate_frdata s1 ?b"
  let ?s = "?s2\<lparr>ccb := Null, ccb_size := 0\<rparr>"
  have z: "unz_first_frame u ?s2 = (0, ?s2)" using assms(3) lc(5) by (simp add: unz_first_frame_def)
  have "sbn_unpack_frame u sbnf = (0, ?s)"
    using assms(1-3) l st1 z lc(5) by (simp add: sbn_unpack_frame_def block_start_def Let_def)
  moreover have "frame_located ?s" "pdh ?s = pdh s0" using lc(1,5) by simp_all
  ultimately show ?thesis using assms(4,5) by (auto simp: frame_located_def)
qed

theorem sbn_unpack_frame_negative_frdata_witness:
  "\<exists>s. sbn_unpack_frame no_zlib (fresh_frame example_negative_frame) = (0, s) \<and> frdata_size s < 0"
proof -
  let ?s0 = "snd (unpack_sbn_headers (fresh_frame example_negative_frame))"
  have "fst (unpack_sbn_headers (fresh_frame example_negative_frame)) = 0" by code_simp
  then have "unpack_sbn_headers (fresh_frame example_negative_frame) = (0, ?s0)" by (metis prod.collapse)
  moreover have "fh_sbn_command (fh ?s0) = SBN_COMMAND_DATA_TRANSFER" "pdh_block_number (pdh ?s0) \<noteq> 0"
    "int CTRLHDR_WMO_SIZE \<le> pdh_data_block_offset (pdh ?s0)"
    "pdh_data_block_size (pdh ?s0) < pdh_data_block_offset (pdh ?s0)"
    by code_simp+
  ultimately show ?thesis using sbn_unpack_frame_negative_frdata [of _ ?s0 no_zlib] by blast
qed

end
