(* ===== verification/Memfile.thy ===== *)
theory Memfile
  imports Bytes_Util
begin

text \<open>
  The memory files of \<^verbatim>\<open>src/mfile.c\<close>, in which the readers collect the frames of a product
  and the processor assembles the final file: a buffer that grows by doubling, a writing and a
  reading position, and the framed format (\<^verbatim>\<open>struct memframe_info_st\<close> before each frame) used
  for products that must be uncompressed when they are saved.

  The allocator is a parameter \<open>alloc\<close>: whether a request for so many bytes succeeds. As in the
  C library, requests above \<^verbatim>\<open>PTRDIFF_MAX\<close> fail. Bytes of a buffer not written yet are
  modelled as 0. A result \<^const>\<open>None\<close> is undefined behaviour of the C program (a copy outside
  its arrays, a null dereference) or a loop that does not end; the lemmas show when it does
  not happen. The layout of the frame information is that of the 64-bit little-endian hosts
  (LP64): one byte, seven bytes of padding, eight bytes of size.
\<close>

record memfile_st =
  mf_allocsize :: nat
  mf_maxallocsize :: nat
  mf_size :: nat
  mf_nread :: nat
  mf_p :: bytes

type_synonym allocator = "nat \<Rightarrow> bool"

abbreviation MF_STATIC_POOL_SIZE_MIN :: nat where "MF_STATIC_POOL_SIZE_MIN \<equiv> 8192"
abbreviation GROW_FACTOR :: nat where "GROW_FACTOR \<equiv> 2"
abbreviation SIZEOF_MEMFILE_ST :: nat where "SIZEOF_MEMFILE_ST \<equiv> 40"
abbreviation MEMFRAME_INFO_SIZE :: nat where "MEMFRAME_INFO_SIZE \<equiv> 16"

definition can_alloc :: "allocator \<Rightarrow> nat \<Rightarrow> bool" where
  "can_alloc alloc n \<longleftrightarrow> int n < 2 ^ 63 \<and> alloc n"

text \<open>Conversion to a C \<^verbatim>\<open>int\<close>.\<close>

definition c_int :: "int \<Rightarrow> int" where
  "c_int n = (n + 2 ^ 31) mod 2 ^ 32 - 2 ^ 31"

definition create_memfile :: "allocator \<Rightarrow> nat \<Rightarrow> memfile_st option" where
  "create_memfile alloc mpoolsize =
     (let allocsize = (if mpoolsize > MF_STATIC_POOL_SIZE_MIN then mpoolsize
                       else MF_STATIC_POOL_SIZE_MIN)
      in if can_alloc alloc SIZEOF_MEMFILE_ST \<and> can_alloc alloc allocsize
         then Some \<lparr>mf_allocsize = allocsize, mf_maxallocsize = allocsize, mf_size = 0,
                    mf_nread = 0, mf_p = replicate allocsize 0\<rparr>
         else None)"

definition open_memfile :: "memfile_st \<Rightarrow> int" where
  "open_memfile mf = (if mf_size mf \<noteq> 0 \<or> mf_nread mf \<noteq> 0 then 1 else 0)"

definition close_memfile :: "memfile_st \<Rightarrow> memfile_st" where
  "close_memfile mf = mf\<lparr>mf_size := 0, mf_nread := 0\<rparr>"

definition realloc_memfile :: "allocator \<Rightarrow> memfile_st \<Rightarrow> nat \<Rightarrow> int \<times> memfile_st" where
  "realloc_memfile alloc mf newsize =
     (if \<not> can_alloc alloc newsize then (-1, mf)
      else
        (0, mf\<lparr>mf_p := take newsize (mf_p mf @ replicate newsize 0),
               mf_allocsize := newsize,
               mf_maxallocsize :=
                 (if newsize > mf_maxallocsize mf then newsize else mf_maxallocsize mf),
               mf_size := (if mf_size mf \<ge> newsize then size_add newsize (-1) else mf_size mf),
               mf_nread := (if mf_nread mf \<ge> newsize then size_add newsize (-1) else mf_nread mf)\<rparr>))"

definition grow_memfile :: "allocator \<Rightarrow> memfile_st \<Rightarrow> int \<times> memfile_st" where
  "grow_memfile alloc mf =
     realloc_memfile alloc mf (size_add 0 (int (GROW_FACTOR * mf_allocsize mf)))"

definition get_memfile_allocated_size :: "memfile_st \<Rightarrow> nat" where
  "get_memfile_allocated_size mf = mf_allocsize mf"

definition get_memfile_data_size :: "memfile_st \<Rightarrow> nat" where
  "get_memfile_data_size mf = mf_size mf"

text \<open>The loop of \<^verbatim>\<open>write_memfile\<close> that grows the buffer until the data fits.\<close>

partial_function (option) grow_loop ::
  "allocator \<Rightarrow> int \<Rightarrow> memfile_st \<Rightarrow> (int \<times> memfile_st) option" where
  "grow_loop alloc data_size mf =
     (if size_add (mf_size mf) data_size > mf_allocsize mf then
        (let r = grow_memfile alloc mf in
         if fst r = 0 then grow_loop alloc data_size (snd r) else Some r)
      else Some (0, mf))"

declare grow_loop.simps [code]

definition write_memfile ::
  "allocator \<Rightarrow> memfile_st \<Rightarrow> bytes \<Rightarrow> int \<Rightarrow> (int \<times> memfile_st) option" where
  "write_memfile alloc mf data data_size =
     (case grow_loop alloc data_size mf of
        None \<Rightarrow> None
      | Some (status, mf) \<Rightarrow>
          if status \<noteq> 0 then Some (status, mf)
          else
            let n = nat (data_size mod 2 ^ 64) in
            if n \<le> length data \<and> mf_size mf + n \<le> length (mf_p mf)
            then Some (0, mf\<lparr>mf_p := overwrite (mf_size mf) (take n data) (mf_p mf),
                             mf_size := size_add (mf_size mf) data_size\<rparr>)
            else None)"

definition write_memfile_fixed ::
  "allocator \<Rightarrow> memfile_st \<Rightarrow> bytes \<Rightarrow> int \<Rightarrow> (int \<times> memfile_st) option" where
  "write_memfile_fixed alloc mf data data_size =
     (if size_add (mf_size mf) data_size > mf_allocsize mf then Some (1, mf)
      else write_memfile alloc mf data data_size)"

text \<open>
  Saving to a file descriptor. The system call is a parameter: how many of the bytes it was
  given it wrote (negative for an error). The result is the status and what reached the file.
\<close>

type_synonym write_call = "bytes \<Rightarrow> int"

definition save_memfile :: "write_call \<Rightarrow> memfile_st \<Rightarrow> int \<times> bytes" where
  "save_memfile write_fd mf =
     (let out = take (mf_size mf) (mf_p mf); n = write_fd out
      in (if n < 0 \<or> n \<noteq> int (mf_size mf) then -1 else 0, take (nat n) out))"

definition save_memfile_skip :: "write_call \<Rightarrow> memfile_st \<Rightarrow> nat \<Rightarrow> int \<times> bytes" where
  "save_memfile_skip write_fd mf skip =
     (if mf_size mf \<le> skip then (1, [])
      else
        let out = take (mf_size mf - skip) (drop skip (mf_p mf)); n = write_fd out
        in (if n < 0 \<or> n \<noteq> int (mf_size mf - skip) then -1 else 0, take (nat n) out))"

text \<open>
  Reading gives the number of bytes, the position of the data in the buffer when there is
  some, and the file with its reading position advanced.
\<close>

definition read_memfile :: "memfile_st \<Rightarrow> int \<Rightarrow> int \<times> nat option \<times> memfile_st" where
  "read_memfile mf data_size =
     (let rsize = (if size_add (mf_nread mf) data_size > mf_size mf
                   then c_int (int (mf_size mf) - int (mf_nread mf)) else data_size)
      in (rsize, if rsize > 0 then Some (mf_nread mf) else None,
          mf\<lparr>mf_nread := size_add (mf_nread mf) rsize\<rparr>))"

section \<open>Frames in a memory file\<close>

definition le64 :: "u64 \<Rightarrow> bytes" where
  "le64 w = map (\<lambda>i. ucast (drop_bit (8 * i) w)) [0..<8]"

definition unle64 :: "bytes \<Rightarrow> u64" where
  "unle64 bs = foldr (\<lambda>b acc. ucast b + 256 * acc) (take 8 bs) 0"

definition memframe_info :: "int \<Rightarrow> int \<Rightarrow> bytes" where
  "memframe_info f_compressed fsize =
     word_of_int f_compressed # replicate 7 0 @ le64 (word_of_int fsize)"

definition write_memframe_info ::
  "allocator \<Rightarrow> memfile_st \<Rightarrow> int \<Rightarrow> int \<Rightarrow> (int \<times> memfile_st) option" where
  "write_memframe_info alloc mf total_size f_compressed =
     write_memfile alloc mf (memframe_info f_compressed total_size) (int MEMFRAME_INFO_SIZE)"

definition write_memframe_data ::
  "allocator \<Rightarrow> memfile_st \<Rightarrow> bytes \<Rightarrow> int \<Rightarrow> (int \<times> memfile_st) option" where
  "write_memframe_data alloc mf data data_size = write_memfile alloc mf data data_size"

definition write_memframe ::
  "allocator \<Rightarrow> memfile_st \<Rightarrow> bytes \<Rightarrow> int \<Rightarrow> int \<Rightarrow> (int \<times> memfile_st) option" where
  "write_memframe alloc mf frdata frdata_size f_compressed =
     (case write_memframe_info alloc mf frdata_size f_compressed of
        None \<Rightarrow> None
      | Some (n, mf) \<Rightarrow>
          if n \<noteq> -1 then write_memframe_data alloc mf frdata frdata_size else Some (n, mf))"

text \<open>
  The next frame: its size (0 when there is none, -1 for an error), the position of its data,
  its compression flag, and the advanced file. When nothing is read the position and the flag
  keep the values the caller had.
\<close>

definition get_memframe ::
  "memfile_st \<Rightarrow> (int \<times> nat option \<times> int option \<times> memfile_st) option" where
  "get_memframe mf =
     (case read_memfile mf (int MEMFRAME_INFO_SIZE) of
        (n, p, mf) \<Rightarrow>
          if n = 0 then Some (0, None, None, mf)
          else
            case p of
              None \<Rightarrow> None
            | Some off \<Rightarrow>
                if off + MEMFRAME_INFO_SIZE > length (mf_p mf) then None
                else
                  let info = drop off (mf_p mf);
                      n = c_int (uint (unle64 (drop 8 info)));
                      f_compressed = uint (byte_at info 0)
                  in
                  case read_memfile mf n of
                    (frdata_size, p2, mf) \<Rightarrow>
                      if frdata_size = n
                      then Some (n, if p2 = None then p else p2, Some f_compressed, mf)
                      else Some (-1, None, Some f_compressed, mf))"

definition adjust_memfile_size :: "allocator \<Rightarrow> memfile_st \<Rightarrow> nat \<Rightarrow> int \<times> memfile_st" where
  "adjust_memfile_size alloc mf estimated_size =
     (let oldsize = mf_allocsize mf;
          newsize =
            (if estimated_size > oldsize then estimated_size
             else if size_add 0 (int (estimated_size * GROW_FACTOR)) < oldsize
                     \<and> oldsize = mf_maxallocsize mf
             then oldsize div GROW_FACTOR
             else 0)
      in if newsize \<noteq> 0 then realloc_memfile alloc mf newsize else (0, mf))"

section \<open>Invariant and abstraction\<close>

definition mf_inv :: "memfile_st \<Rightarrow> bool" where
  "mf_inv mf \<longleftrightarrow>
     length (mf_p mf) = mf_allocsize mf \<and> 0 < mf_allocsize mf \<and> mf_allocsize mf < 2 ^ 63 \<and>
     mf_allocsize mf \<le> mf_maxallocsize mf \<and> mf_size mf \<le> mf_allocsize mf \<and>
     mf_nread mf \<le> mf_size mf"

text \<open>What the file holds, and what is left to read of it.\<close>

definition mf_data :: "memfile_st \<Rightarrow> bytes" where
  "mf_data mf = take (mf_size mf) (mf_p mf)"

definition mf_rest :: "memfile_st \<Rightarrow> bytes" where
  "mf_rest mf = drop (mf_nread mf) (mf_data mf)"

lemma length_mf_data [simp]: "mf_inv mf \<Longrightarrow> length (mf_data mf) = mf_size mf"
  by (simp add: mf_inv_def mf_data_def)

lemma create_memfile_inv:
  "create_memfile alloc n = Some mf \<Longrightarrow> mf_inv mf \<and> mf_data mf = [] \<and> mf_nread mf = 0"
  by (auto simp: create_memfile_def mf_inv_def mf_data_def can_alloc_def Let_def split: if_splits)

lemma close_memfile_inv: "mf_inv mf \<Longrightarrow> mf_inv (close_memfile mf)"
  by (simp add: close_memfile_def mf_inv_def)

lemma close_memfile_data [simp]: "mf_data (close_memfile mf) = []"
  by (simp add: close_memfile_def mf_data_def)

lemma open_close_memfile [simp]: "open_memfile (close_memfile mf) = 0"
  by (simp add: close_memfile_def open_memfile_def)

text \<open>
  Growing the buffer to a size that holds the data keeps the data, the reading position and
  the invariant; a failed request changes nothing.
\<close>

lemma realloc_memfile_keeps:
  assumes "mf_inv mf" "mf_size mf < newsize" "realloc_memfile alloc mf newsize = (st, mf')"
  shows "mf_inv mf' \<and> mf_data mf' = mf_data mf \<and> mf_size mf' = mf_size mf
    \<and> mf_nread mf' = mf_nread mf \<and> (st = 0 \<or> (st = -1 \<and> mf' = mf))
    \<and> (st = 0 \<longrightarrow> mf_allocsize mf' = newsize)"
  using assms
  by (auto simp: realloc_memfile_def mf_inv_def mf_data_def can_alloc_def split: if_splits)

lemma grow_memfile_keeps:
  assumes "mf_inv mf" "grow_memfile alloc mf = (st, mf')"
  shows "mf_inv mf' \<and> mf_data mf' = mf_data mf \<and> mf_size mf' = mf_size mf
    \<and> mf_nread mf' = mf_nread mf \<and> (st = 0 \<or> (st = -1 \<and> mf' = mf))
    \<and> (st = 0 \<longrightarrow> mf_allocsize mf' = 2 * mf_allocsize mf)"
proof -
  have "size_add 0 (int (GROW_FACTOR * mf_allocsize mf)) = 2 * mf_allocsize mf"
    using assms(1) by (simp add: mf_inv_def)
  with assms show ?thesis
    using realloc_memfile_keeps [of mf "2 * mf_allocsize mf" alloc st mf']
    by (simp add: grow_memfile_def mf_inv_def)
qed


text \<open>A C \<^verbatim>\<open>int\<close> that is a valid length.\<close>

definition int_len :: "int \<Rightarrow> bool" where
  "int_len d \<longleftrightarrow> 0 \<le> d \<and> d < 2 ^ 31"

lemma size_add_mf [simp]: "mf_inv mf \<Longrightarrow> int_len d \<Longrightarrow> size_add (mf_size mf) d = mf_size mf + nat d"
  by (simp add: mf_inv_def int_len_def)

text \<open>The growing loop ends: the allocation doubles and requests above the limit fail.\<close>

lemma grow_loop_returns:
  assumes "mf_inv mf" "int_len d"
  shows "\<exists>st mf'. grow_loop alloc d mf = Some (st, mf') \<and> mf_inv mf' \<and> mf_data mf' = mf_data mf
    \<and> mf_size mf' = mf_size mf \<and> mf_nread mf' = mf_nread mf
    \<and> (st = -1 \<or> st = 0 \<and> mf_size mf + nat d \<le> mf_allocsize mf')"
  using assms(1)
proof (induction "2 ^ 63 - mf_allocsize mf" arbitrary: mf rule: less_induct)
  case less
  show ?case
  proof (cases "mf_size mf + nat d \<le> mf_allocsize mf")
    case True
    with less.prems assms(2) show ?thesis by (simp add: grow_loop.simps [of alloc d mf])
  next
    case False
    obtain st mf1 where g: "grow_memfile alloc mf = (st, mf1)" by fastforce
    note k = grow_memfile_keeps [OF less.prems g]
    show ?thesis
    proof (cases "st = 0")
      case True
      with k less.prems have "2 ^ 63 - mf_allocsize mf1 < 2 ^ 63 - mf_allocsize mf"
        by (auto simp: mf_inv_def const_defs)
      from less.hyps [OF this] k True False g less.prems assms(2) show ?thesis
        by (auto simp: grow_loop.simps [of alloc d mf])
    next
      case False2: False
      with k False g less.prems assms(2) show ?thesis
        by (auto simp: grow_loop.simps [of alloc d mf])
    qed
  qed
qed

text \<open>
  Writing \<open>d\<close> bytes returns, without a fault: either they are appended, or the allocation
  failed and the file is as it was.
\<close>

lemma write_memfile_appends:
  assumes "mf_inv mf" "int_len d" "nat d \<le> length data"
  shows "\<exists>st mf'. write_memfile alloc mf data d = Some (st, mf') \<and> mf_inv mf'
    \<and> mf_nread mf' = mf_nread mf
    \<and> (st = 0 \<and> mf_data mf' = mf_data mf @ take (nat d) data
       \<or> st = -1 \<and> mf_data mf' = mf_data mf)"
proof -
  obtain st mf1 where g: "grow_loop alloc d mf = Some (st, mf1)" and inv: "mf_inv mf1"
    and dat: "mf_data mf1 = mf_data mf" and sz: "mf_size mf1 = mf_size mf"
    and nr: "mf_nread mf1 = mf_nread mf"
    and st: "st = -1 \<or> st = 0 \<and> mf_size mf + nat d \<le> mf_allocsize mf1"
    using grow_loop_returns [OF assms(1,2)] by blast
  from assms(2) have m: "d mod 18446744073709551616 = d" by (simp add: int_len_def)
  show ?thesis
  proof (cases "st = -1")
    case True
    with g inv dat nr show ?thesis by (simp add: write_memfile_def)
  next
    case False
    let ?mf2 = "mf1\<lparr>mf_p := overwrite (mf_size mf1) (take (nat d) data) (mf_p mf1),
                    mf_size := mf_size mf1 + nat d\<rparr>"
    from False st have fits: "mf_size mf1 + nat d \<le> length (mf_p mf1)"
      using inv sz by (simp add: mf_inv_def)
    have w: "write_memfile alloc mf data d = Some (0, ?mf2)"
      using False st g fits inv assms by (simp add: write_memfile_def m Let_def)
    have "mf_inv ?mf2" using inv fits assms(3) by (simp add: mf_inv_def)
    moreover have "mf_data ?mf2 = mf_data mf @ take (nat d) data"
      using fits assms(3) dat take_overwrite_append [of "mf_size mf1" "take (nat d) data" "mf_p mf1"]
      by (simp add: mf_data_def min_absorb2)
    ultimately show ?thesis using w nr by auto
  qed
qed

lemma write_memfile_cases:
  assumes "mf_inv mf" "int_len d" "nat d \<le> length data"
  obtains (appended) mf' where "write_memfile alloc mf data d = Some (0, mf')" "mf_inv mf'"
      "mf_nread mf' = mf_nread mf" "mf_data mf' = mf_data mf @ take (nat d) data"
    | (no_memory) mf' where "write_memfile alloc mf data d = Some (-1, mf')" "mf_inv mf'"
      "mf_nread mf' = mf_nread mf" "mf_data mf' = mf_data mf"
  using write_memfile_appends [OF assms, of alloc] by blast

text \<open>
  A negative length is converted to a huge \<^verbatim>\<open>size_t\<close>: when the file already holds as many
  bytes, no growth happens and the copy runs outside its arrays.
\<close>

lemma write_memfile_negative_faults:
  assumes "mf_inv mf" "d < 0" "- d \<le> int (mf_size mf)" "length data < 2 ^ 63"
  shows "write_memfile alloc mf data d = None"
proof -
  have "int (mf_size mf) + d < 2 ^ 64" and "0 \<le> int (mf_size mf) + d"
    using assms by (auto simp: mf_inv_def)
  then have a: "size_add (mf_size mf) d = nat (int (mf_size mf) + d)"
    by (simp add: size_add_def)
  moreover from this assms have "\<not> mf_allocsize mf < nat (int (mf_size mf) + d)"
    by (auto simp: mf_inv_def)
  ultimately have "grow_loop alloc d mf = Some (0, mf)"
    using assms by (simp add: grow_loop.simps [of alloc d mf] mf_inv_def)
  moreover have "d mod 18446744073709551616 = d + 2 ^ 64"
  proof -
    have "(d + 2 ^ 64) mod 2 ^ 64 = d + 2 ^ 64"
      using assms by (intro mod_pos_pos_trivial) (auto simp: mf_inv_def)
    then show ?thesis by simp
  qed
  moreover have "\<not> nat (d + 2 ^ 64) \<le> length data"
    using assms by (auto simp: mf_inv_def)
  ultimately show ?thesis by (simp add: write_memfile_def Let_def)
qed

section \<open>Reading back\<close>

lemma c_int_id [simp]: "int_len d \<Longrightarrow> c_int d = d"
  by (simp add: c_int_def int_len_def)

lemma read_memfile_exact:
  assumes "mf_inv mf" "int_len d" "mf_nread mf + nat d \<le> mf_size mf"
  shows "read_memfile mf d =
    (d, if d > 0 then Some (mf_nread mf) else None, mf\<lparr>mf_nread := mf_nread mf + nat d\<rparr>)"
proof -
  have "size_add (mf_nread mf) d = mf_nread mf + nat d"
    using assms by (simp add: mf_inv_def int_len_def)
  with assms show ?thesis by (simp add: read_memfile_def)
qed

lemma read_memfile_at_end:
  assumes "mf_inv mf" "int_len d" "mf_nread mf = mf_size mf"
  shows "read_memfile mf d = (0, None, mf)"
proof -
  have "size_add (mf_nread mf) d = mf_nread mf + nat d" "size_add (mf_nread mf) 0 = mf_nread mf"
    using assms by (simp_all add: mf_inv_def int_len_def)
  with assms show ?thesis
    by (cases "d = 0") (auto simp: read_memfile_def c_int_def int_len_def)
qed

text \<open>The frame information is read back as it was written.\<close>

lemma length_le64 [simp]: "length (le64 w) = 8"
  by (simp add: le64_def)

lemma length_memframe_info [simp]: "length (memframe_info c n) = MEMFRAME_INFO_SIZE"
  by (simp add: memframe_info_def)

lemma horner_step:
  "ucast (ucast (drop_bit k w) :: byte) + 256 * drop_bit (k + 8) w = drop_bit k (w :: u64)"
proof -
  have "ucast (ucast (drop_bit k w) :: byte) = take_bit 8 (drop_bit k w)"
    by (rule bit_word_eqI) (auto simp: bit_simps)
  moreover have "256 * drop_bit (k + 8) w = push_bit 8 (drop_bit 8 (drop_bit k w))"
    by (simp add: push_bit_eq_mult add.commute)
  moreover have "take_bit 8 (drop_bit k w) + push_bit 8 (drop_bit 8 (drop_bit k w)) = drop_bit k w"
    by (subst disjunctive_add) (auto intro!: bit_word_eqI simp: bit_simps)
  ultimately show ?thesis by simp
qed

lemma unle64_le64 [simp]: "unle64 (le64 w @ rest) = w"
proof -
  have z: "drop_bit 64 w = 0" by (rule bit_word_eqI) (auto simp: bit_simps dest: bit_imp_le_length)
  have "unle64 (le64 w @ rest) = foldr (\<lambda>b acc. ucast b + 256 * acc) (le64 w) 0"
    by (simp add: unle64_def)
  also have "\<dots> = w"
    using horner_step [of 0 w] horner_step [of 8 w] horner_step [of 16 w] horner_step [of 24 w]
      horner_step [of 32 w] horner_step [of 40 w] horner_step [of 48 w] horner_step [of 56 w] z
    by (simp add: le64_def upt_rec)
  finally show ?thesis .
qed

text \<open>Adjusting the size of an empty file keeps it empty.\<close>

lemma adjust_memfile_size_empty:
  assumes "mf_inv mf" "open_memfile mf = 0"
  shows "mf_inv (snd (adjust_memfile_size alloc mf n))"
    "mf_data (snd (adjust_memfile_size alloc mf n)) = []"
  using assms
  by (auto simp: adjust_memfile_size_def realloc_memfile_def open_memfile_def mf_inv_def mf_data_def
      can_alloc_def Let_def split: if_splits)

section \<open>The contract of an append store\<close>

text \<open>
  What the frame saver relies on: a write either appends all its bytes or reports an error and
  leaves the contents alone, and it never faults.
\<close>

locale append_store =
  fixes wr :: "'s \<Rightarrow> bytes \<Rightarrow> int \<Rightarrow> (int \<times> 's) option"
    and inv :: "'s \<Rightarrow> bool"
    and contents :: "'s \<Rightarrow> bytes"
  assumes wr_ok: "inv s \<Longrightarrow> int_len d \<Longrightarrow> nat d \<le> length data \<Longrightarrow>
      \<exists>st s'. wr s data d = Some (st, s') \<and> inv s' \<and>
        (st = 0 \<and> contents s' = contents s @ take (nat d) data \<or> st = -1 \<and> contents s' = contents s)"
begin

text \<open>Two writes in a row, the second one only after a success of the first.\<close>

lemma wr_two:
  assumes "inv s" "int_len m" "nat m \<le> length a" "int_len n" "nat n \<le> length b"
  shows "\<exists>st s'.
      (case wr s a m of
         None \<Rightarrow> None
       | Some (k, s) \<Rightarrow> if k \<noteq> -1 then wr s b n else Some (k, s)) = Some (st, s') \<and>
      inv s' \<and>
      (st = 0 \<and> contents s' = contents s @ take (nat m) a @ take (nat n) b \<or>
       st = -1 \<and> (contents s' = contents s \<or> contents s' = contents s @ take (nat m) a))"
proof -
  obtain st1 s1 where w1: "wr s a m = Some (st1, s1)" "inv s1"
    and r1: "st1 = 0 \<and> contents s1 = contents s @ take (nat m) a \<or> st1 = -1 \<and> contents s1 = contents s"
    using wr_ok [OF assms(1-3)] by blast
  from wr_ok [OF w1(2) assms(4,5)] w1 r1 show ?thesis by auto
qed

end

interpretation mfs: append_store "write_memfile alloc" mf_inv mf_data
  by unfold_locales (use write_memfile_appends in blast)

section \<open>Frames written are frames read\<close>

definition frame_bytes :: "int \<times> bytes \<Rightarrow> bytes" where
  "frame_bytes fr = memframe_info (fst fr) (int (length (snd fr))) @ snd fr"

lemma write_memframe_appends:
  assumes "mf_inv mf" "int_len n" "nat n \<le> length d"
  shows "\<exists>st mf'. write_memframe alloc mf d n c = Some (st, mf') \<and> mf_inv mf' \<and>
      (st = 0 \<and> mf_data mf' = mf_data mf @ frame_bytes (c, take (nat n) d) \<or>
       st = -1 \<and> (mf_data mf' = mf_data mf \<or> mf_data mf' = mf_data mf @ memframe_info c n))"
proof -
  have "int (length (take (nat n) d)) = n" using assms(2,3) by (simp add: int_len_def)
  then show ?thesis
    using mfs.wr_two [OF assms(1) _ _ assms(2,3), of "int MEMFRAME_INFO_SIZE" "memframe_info c n" alloc]
    unfolding write_memframe_def write_memframe_info_def write_memframe_data_def frame_bytes_def
    by (simp add: int_len_def)
qed

lemma mf_rest_at:
  assumes "mf_inv mf" "mf_rest mf = a @ b"
  shows "mf_nread mf + length a \<le> mf_size mf"
    and "take (length a) (drop (mf_nread mf) (mf_p mf)) = a"
    and "mf_rest (mf\<lparr>mf_nread := mf_nread mf + length a\<rparr>) = b"
    and "mf_inv (mf\<lparr>mf_nread := mf_nread mf + length a\<rparr>)"
proof -
  have len: "length (mf_rest mf) = mf_size mf - mf_nread mf"
    using assms(1) by (simp add: mf_rest_def mf_inv_def mf_data_def)
  then have "length a + length b = mf_size mf - mf_nread mf" using assms(2) by simp
  then show le: "mf_nread mf + length a \<le> mf_size mf"
    using assms(1) by (auto simp: mf_inv_def)
  have "take (length a) (mf_rest mf) = take (length a) (drop (mf_nread mf) (mf_p mf))"
    using le by (simp add: mf_rest_def mf_data_def drop_take)
  with assms(2) show "take (length a) (drop (mf_nread mf) (mf_p mf)) = a" by simp
  have "mf_rest (mf\<lparr>mf_nread := mf_nread mf + length a\<rparr>) = drop (length a) (mf_rest mf)"
    by (simp add: mf_rest_def mf_data_def add.commute)
  with assms(2) show "mf_rest (mf\<lparr>mf_nread := mf_nread mf + length a\<rparr>) = b" by simp
  show "mf_inv (mf\<lparr>mf_nread := mf_nread mf + length a\<rparr>)" using assms(1) le by (simp add: mf_inv_def)
qed

lemma get_memframe_reads:
  assumes inv: "mf_inv mf" and rest: "mf_rest mf = frame_bytes (c, d) @ rst"
    and d: "d \<noteq> []" "length d < 2 ^ 31" and c: "0 \<le> c" "c < 256"
  shows "\<exists>off mf'. get_memframe mf = Some (int (length d), Some off, Some c, mf') \<and> mf_inv mf' \<and>
      mf_p mf' = mf_p mf \<and> take (length d) (drop off (mf_p mf)) = d \<and> mf_rest mf' = rst"
proof -
  let ?i = "memframe_info c (int (length d))"
  from rest have r: "mf_rest mf = ?i @ d @ rst" by (simp add: frame_bytes_def)
  note a = mf_rest_at [OF inv r]
  let ?mf1 = "mf\<lparr>mf_nread := mf_nread mf + length ?i\<rparr>"
  note b = mf_rest_at [OF a(4) a(3)]
  let ?info = "drop (mf_nread mf) (mf_p mf)"
  have info: "?info = ?i @ drop (length ?i) ?info"
    using a(2) by (metis append_take_drop_id)
  have read1: "read_memfile mf (int MEMFRAME_INFO_SIZE) = (int MEMFRAME_INFO_SIZE, Some (mf_nread mf), ?mf1)"
    using read_memfile_exact [OF inv, of "int MEMFRAME_INFO_SIZE"] a(1) by (simp add: int_len_def)
  have read2: "read_memfile ?mf1 (int (length d)) =
      (int (length d), Some (mf_nread ?mf1), ?mf1\<lparr>mf_nread := mf_nread ?mf1 + length d\<rparr>)"
    using read_memfile_exact [OF a(4), of "int (length d)"] b(1) d by (simp add: int_len_def)
  have sz: "c_int (uint (unle64 (drop 8 ?info))) = int (length d)"
  proof -
    have "unle64 (drop 8 ?info) = word_of_int (int (length d))"
      by (subst info) (simp add: memframe_info_def)
    with d show ?thesis by (simp add: c_int_def unsigned_of_nat take_bit_nat_eq_self)
  qed
  have fl: "uint (byte_at ?info 0) = c"
    by (subst info) (use c in \<open>simp add: memframe_info_def byte_at_def uint_word_of_int\<close>)
  have "\<not> mf_nread mf + MEMFRAME_INFO_SIZE > length (mf_p mf)"
    using a(1) inv by (simp add: mf_inv_def)
  then have "get_memframe mf = Some (int (length d), Some (mf_nread ?mf1), Some c,
      ?mf1\<lparr>mf_nread := mf_nread ?mf1 + length d\<rparr>)"
    using read1 read2 sz fl by (simp add: get_memframe_def Let_def)
  with b show ?thesis by (intro exI conjI) auto
qed

lemma get_memframe_end:
  assumes "mf_inv mf" "mf_rest mf = []"
  shows "get_memframe mf = Some (0, None, None, mf)"
proof -
  have "mf_nread mf = mf_size mf" using assms by (simp add: mf_rest_def mf_inv_def mf_data_def)
  with assms show ?thesis by (simp add: get_memframe_def read_memfile_at_end int_len_def)
qed

end
