(* ===== verification/Stats.thy ===== *)
theory Stats
  imports Nbsp_Prelude
begin

text \<open>
  The counters of \<^verbatim>\<open>src/stats.c\<close> and the load flags of \<^verbatim>\<open>src/load.c\<close>. The counters are C
  \<^verbatim>\<open>unsigned int\<close> and wrap around at 32 bits. The time and the load average are arguments.
\<close>

record nbsp_stats_st =
  frames_processed :: u32
  frames_jumps :: u32
  frames_bad :: u32
  frames_received :: u32
  frames_data_size :: u32
  products_transmitted :: u32
  products_retransmitted :: u32
  products_retransmitted_c :: u32
  products_retransmitted_p :: u32
  products_retransmitted_i :: u32
  products_retransmitted_r :: u32
  products_completed :: u32
  products_missed :: u32
  products_bad :: u32
  products_aborted :: u32
  products_rejected :: u32
  products_rtx_index :: u32
  stats_f_valid :: int
  stats_time :: int

definition init_counters :: "nbsp_stats_st \<Rightarrow> nbsp_stats_st" where
  "init_counters st = st\<lparr>
     frames_processed := 0, frames_jumps := 0, frames_bad := 0, frames_received := 0,
     frames_data_size := 0, products_transmitted := 0, products_retransmitted := 0,
     products_retransmitted_c := 0, products_retransmitted_p := 0,
     products_retransmitted_i := 0, products_retransmitted_r := 0, products_completed := 0,
     products_missed := 0, products_bad := 0, products_aborted := 0, products_rejected := 0\<rparr>"

definition nbspstats_init :: "int \<Rightarrow> nbsp_stats_st \<Rightarrow> nbsp_stats_st" where
  "nbspstats_init now st = (init_counters st)\<lparr>products_rtx_index := 0, stats_time := now\<rparr>"

definition update_stats_frames_received :: "u32 \<Rightarrow> nbsp_stats_st \<Rightarrow> nbsp_stats_st" where
  "update_stats_frames_received frame_data_size st =
     st\<lparr>frames_received := frames_received st + 1,
        frames_data_size := frames_data_size st + frame_data_size\<rparr>"

definition update_stats_goodframes :: "nbsp_stats_st \<Rightarrow> nbsp_stats_st" where
  "update_stats_goodframes st = st\<lparr>frames_processed := frames_processed st + 1\<rparr>"

definition update_stats_badframes :: "nbsp_stats_st \<Rightarrow> nbsp_stats_st" where
  "update_stats_badframes st = st\<lparr>frames_bad := frames_bad st + 1\<rparr>"

definition update_stats_badproducts :: "nbsp_stats_st \<Rightarrow> nbsp_stats_st" where
  "update_stats_badproducts st = st\<lparr>products_bad := products_bad st + 1\<rparr>"

definition update_stats_frames :: "int \<Rightarrow> nbsp_stats_st \<Rightarrow> nbsp_stats_st" where
  "update_stats_frames status st =
     (if status = 0 then update_stats_goodframes st else update_stats_badframes st)"

definition update_stats_frames_jumps :: "nbsp_stats_st \<Rightarrow> nbsp_stats_st" where
  "update_stats_frames_jumps st = st\<lparr>frames_jumps := frames_jumps st + 1\<rparr>"

definition update_stats_products :: "int \<Rightarrow> nbsp_stats_st \<Rightarrow> nbsp_stats_st" where
  "update_stats_products status st = (if status \<noteq> 0 then update_stats_badproducts st else st)"

definition update_stats_products_transmitted :: "nbsp_stats_st \<Rightarrow> nbsp_stats_st" where
  "update_stats_products_transmitted st = st\<lparr>products_transmitted := products_transmitted st + 1\<rparr>"

definition update_stats_products_retransmitted :: "nbsp_stats_st \<Rightarrow> nbsp_stats_st" where
  "update_stats_products_retransmitted st =
     st\<lparr>products_retransmitted := products_retransmitted st + 1\<rparr>"

definition update_stats_products_retransmitted_c :: "nbsp_stats_st \<Rightarrow> nbsp_stats_st" where
  "update_stats_products_retransmitted_c st =
     st\<lparr>products_retransmitted_c := products_retransmitted_c st + 1\<rparr>"

definition update_stats_products_retransmitted_pi :: "int \<Rightarrow> nbsp_stats_st \<Rightarrow> nbsp_stats_st" where
  "update_stats_products_retransmitted_pi orig_status st =
     (if orig_status = 0
      then st\<lparr>products_retransmitted_i := products_retransmitted_i st + 1\<rparr>
      else st\<lparr>products_retransmitted_p := products_retransmitted_p st + 1\<rparr>)"

definition update_stats_products_recovered :: "nbsp_stats_st \<Rightarrow> nbsp_stats_st" where
  "update_stats_products_recovered st =
     st\<lparr>products_retransmitted_r := products_retransmitted_r st + 1\<rparr>"

definition update_stats_products_missed :: "nbsp_stats_st \<Rightarrow> nbsp_stats_st" where
  "update_stats_products_missed st = st\<lparr>products_missed := products_missed st + 1\<rparr>"

definition update_stats_products_completed :: "nbsp_stats_st \<Rightarrow> nbsp_stats_st" where
  "update_stats_products_completed st = st\<lparr>products_completed := products_completed st + 1\<rparr>"

definition update_stats_products_aborted :: "nbsp_stats_st \<Rightarrow> nbsp_stats_st" where
  "update_stats_products_aborted st = st\<lparr>products_aborted := products_aborted st + 1\<rparr>"

definition update_stats_products_rejected :: "nbsp_stats_st \<Rightarrow> nbsp_stats_st" where
  "update_stats_products_rejected st = st\<lparr>products_rejected := products_rejected st + 1\<rparr>"

text \<open>Retransmissions per 1000 products; the product of the C code wraps around.\<close>

definition update_stats_rtx_index :: "nbsp_stats_st \<Rightarrow> nbsp_stats_st" where
  "update_stats_rtx_index st =
     (if products_transmitted st \<noteq> 0
      then st\<lparr>products_rtx_index := (products_retransmitted st * 1000) div products_transmitted st\<rparr>
      else st)"

definition nbspstats_get_rtx_index :: "nbsp_stats_st \<Rightarrow> u32" where
  "nbspstats_get_rtx_index st = products_rtx_index st"

text \<open>The line \<^verbatim>\<open>nbspstats_report\<close> appends to the status file, as the printed numbers.\<close>

definition nbspstats_report :: "nbsp_stats_st \<Rightarrow> bytes" where
  "nbspstats_report st =
     concat (map (\<lambda>n. dec n @ [32])
       [nat (stats_time st mod 2 ^ 64), unat (frames_received st), unat (frames_processed st),
        unat (frames_jumps st), unat (frames_bad st), unat (frames_data_size st),
        unat (products_transmitted st), unat (products_completed st), unat (products_missed st),
        unat (products_retransmitted st), unat (products_retransmitted_c st),
        unat (products_retransmitted_p st), unat (products_retransmitted_i st),
        unat (products_retransmitted_r st), unat (products_rejected st),
        unat (products_aborted st)]) @ dec (unat (products_bad st)) @ [10]"

text \<open>
  The periodic update: the report is appended when the status file can be opened (the
  argument \<open>file\<close> is its contents, \<^const>\<open>None\<close> when it cannot).
\<close>

definition nbspstats_update ::
  "int \<Rightarrow> bytes option \<Rightarrow> nbsp_stats_st \<Rightarrow> nbsp_stats_st \<times> bytes option" where
  "nbspstats_update now file st =
     (let st = (update_stats_rtx_index st)\<lparr>stats_time := now\<rparr>
      in (init_counters st, map_option (\<lambda>old. old @ nbspstats_report st) file))"

section \<open>The load flags\<close>

record load_st =
  f_loadave_max :: int
  f_loadave_max_rtx :: int

text \<open>
  The configured limits, the load average (\<^const>\<open>None\<close> when \<^verbatim>\<open>getloadavg\<close> fails; otherwise the
  first value, truncated to an integer) and the retransmission index.
\<close>

definition verify_load_ave_condition ::
  "int \<Rightarrow> int \<Rightarrow> int \<Rightarrow> int option \<Rightarrow> u32 \<Rightarrow> load_st" where
  "verify_load_ave_condition max_soft max_hard max_rtx_index loadavg rtx_index =
     (case loadavg of
        None \<Rightarrow> \<lparr>f_loadave_max = 0, f_loadave_max_rtx = 0\<rparr>
      | Some current_load_avg \<Rightarrow>
          let f1 = (if max_soft > 0 \<and> current_load_avg \<ge> max_soft then 1 else 0);
              f2 = (if max_hard > 0 \<and> current_load_avg \<ge> max_hard then 2 else f1)
          in \<lparr>f_loadave_max = f2,
              f_loadave_max_rtx =
                (if f2 > 0 \<and> max_rtx_index > 0 \<and> rtx_index \<ge> word_of_int max_rtx_index
                 then 1 else 0)\<rparr>)"

lemmas stats_defs = update_stats_frames_received_def update_stats_goodframes_def
  update_stats_badframes_def update_stats_badproducts_def update_stats_frames_def
  update_stats_frames_jumps_def update_stats_products_def update_stats_products_transmitted_def
  update_stats_products_retransmitted_def update_stats_products_retransmitted_c_def
  update_stats_products_retransmitted_pi_def update_stats_products_recovered_def
  update_stats_products_missed_def update_stats_products_completed_def
  update_stats_products_aborted_def update_stats_products_rejected_def

text \<open>
  The index is the quotient of the mathematical numbers as long as 1000 times the number of
  retransmissions fits in 32 bits.
\<close>

lemma rtx_index_exact:
  assumes "products_transmitted st \<noteq> 0" "unat (products_retransmitted st) * 1000 < 2 ^ 32"
  shows "unat (products_rtx_index (update_stats_rtx_index st)) =
    unat (products_retransmitted st) * 1000 div unat (products_transmitted st)"
  using assms by (simp add: update_stats_rtx_index_def unat_div unat_mult_lem [THEN iffD1])

text \<open>The retransmission flag is only raised together with a load flag.\<close>

lemma load_rtx_only_loaded:
  assumes "f_loadave_max_rtx (verify_load_ave_condition s h r l i) = 1"
  shows "f_loadave_max (verify_load_ave_condition s h r l i) \<in> {1, 2}"
  using assms by (auto simp: verify_load_ave_condition_def Let_def split: option.splits if_splits)

end
