(* ===== verification/Fifo.thy ===== *)
theory Fifo
  imports Nbsp_Prelude
begin

text \<open>
  The contract of the queues of the program (the product queue of \<^verbatim>\<open>src/pctldb.c\<close> and the
  channels of \<^verbatim>\<open>src/libqdb/qdb.c\<close>): what is sent and accepted is received in the same order,
  nothing is lost, duplicated or reordered, also when some operations fail.

  An operation reports what it did: the element that entered the queue, if any, or what was
  taken out of it, if anything.
\<close>

datatype ('i, 'j) qop = Send 'i | Receive 'j

text \<open>A sequence of operations: what entered, what was taken out, and the final state.\<close>

fun fifo_run ::
  "('i \<Rightarrow> 's \<Rightarrow> 'e option \<times> 's) \<Rightarrow> ('j \<Rightarrow> 's \<Rightarrow> 'o option \<times> 's) \<Rightarrow> ('i, 'j) qop list \<Rightarrow> 's \<Rightarrow>
   'e list \<times> 'o list \<times> 's" where
  "fifo_run snd_op rcv_op [] s = ([], [], s)"
| "fifo_run snd_op rcv_op (Send i # ops) s =
     (let (e, s) = snd_op i s; (es, os, s) = fifo_run snd_op rcv_op ops s
      in (case e of None \<Rightarrow> es | Some e \<Rightarrow> e # es, os, s))"
| "fifo_run snd_op rcv_op (Receive j # ops) s =
     (let (t, s) = rcv_op j s; (es, os, s) = fifo_run snd_op rcv_op ops s
      in (es, case t of None \<Rightarrow> os | Some t \<Rightarrow> t # os, s))"

text \<open>The preconditions of all the operations of a sequence.\<close>

fun fifo_pre ::
  "('i \<Rightarrow> 's \<Rightarrow> 'e option \<times> 's) \<Rightarrow> ('j \<Rightarrow> 's \<Rightarrow> 'o option \<times> 's) \<Rightarrow> ('i \<Rightarrow> 's \<Rightarrow> bool) \<Rightarrow>
   ('j \<Rightarrow> 's \<Rightarrow> bool) \<Rightarrow> ('i, 'j) qop list \<Rightarrow> 's \<Rightarrow> bool" where
  "fifo_pre snd_op rcv_op P R [] s \<longleftrightarrow> True"
| "fifo_pre snd_op rcv_op P R (Send i # ops) s \<longleftrightarrow>
     P i s \<and> fifo_pre snd_op rcv_op P R ops (snd (snd_op i s))"
| "fifo_pre snd_op rcv_op P R (Receive j # ops) s \<longleftrightarrow>
     R j s \<and> fifo_pre snd_op rcv_op P R ops (snd (rcv_op j s))"

locale fifo_queue =
  fixes inv :: "'s \<Rightarrow> bool"
    and contents :: "'s \<Rightarrow> 'e list"
    and snd_op :: "'i \<Rightarrow> 's \<Rightarrow> 'e option \<times> 's"
    and rcv_op :: "'j \<Rightarrow> 's \<Rightarrow> 'o option \<times> 's"
    and snd_pre :: "'i \<Rightarrow> 's \<Rightarrow> bool"
    and rcv_pre :: "'j \<Rightarrow> 's \<Rightarrow> bool"
    and matches :: "'o \<Rightarrow> 'e \<Rightarrow> bool"
  assumes snd_law: "inv s \<Longrightarrow> snd_pre i s \<Longrightarrow> snd_op i s = (e, s') \<Longrightarrow>
      inv s' \<and> contents s' = contents s @ (case e of None \<Rightarrow> [] | Some e \<Rightarrow> [e])"
    and rcv_law: "inv s \<Longrightarrow> rcv_pre j s \<Longrightarrow> rcv_op j s = (t, s') \<Longrightarrow>
      inv s' \<and> (case t of None \<Rightarrow> contents s' = contents s
                 | Some t \<Rightarrow> \<exists>e. contents s = e # contents s' \<and> matches t e)"
begin

lemma fifo_run_order:
  assumes "inv s" "fifo_pre snd_op rcv_op snd_pre rcv_pre ops s"
    "fifo_run snd_op rcv_op ops s = (entered, taken, s')"
  shows "inv s' \<and> (\<exists>es. contents s @ entered = es @ contents s' \<and> list_all2 matches taken es)"
  using assms
proof (induction ops arbitrary: s entered taken)
  case Nil
  then show ?case by simp
next
  case (Cons op ops)
  show ?case
  proof (cases op)
    case (Send i)
    obtain e s1 where op: "snd_op i s = (e, s1)" by fastforce
    obtain es os where run: "fifo_run snd_op rcv_op ops s1 = (es, os, s')"
      using Cons.prems(3) by (auto simp: Send op Let_def split: prod.splits)
    from Cons.prems op have "inv s1 \<and> contents s1 = contents s @ (case e of None \<Rightarrow> [] | Some e \<Rightarrow> [e])"
      by (intro snd_law [of s i]) (simp_all add: Send)
    with Cons.IH [of s1 es os] Cons.prems run show ?thesis
      by (cases e) (auto simp: Send op)
  next
    case (Receive j)
    obtain t s1 where op: "rcv_op j s = (t, s1)" by fastforce
    obtain es os where run: "fifo_run snd_op rcv_op ops s1 = (es, os, s')"
      using Cons.prems(3) by (auto simp: Receive op Let_def split: prod.splits)
    from Cons.prems op have r: "inv s1 \<and> (case t of None \<Rightarrow> contents s1 = contents s
        | Some t \<Rightarrow> \<exists>e. contents s = e # contents s1 \<and> matches t e)"
      by (intro rcv_law [of s j]) (simp_all add: Receive)
    with Cons.IH [of s1 es os] Cons.prems run
    obtain xs where xs: "inv s'" "contents s1 @ es = xs @ contents s'" "list_all2 matches os xs"
      by (auto simp: Receive op)
    show ?thesis
    proof (cases t)
      case None
      with r xs Cons.prems(3) run show ?thesis by (auto simp: Receive op)
    next
      case (Some a)
      with r obtain e where e: "contents s = e # contents s1" "matches a e" by auto
      have "contents s @ entered = (e # xs) @ contents s' \<and> list_all2 matches taken (e # xs)"
        using e xs Cons.prems(3) run Some by (auto simp: Receive op)
      with xs(1) show ?thesis by blast
    qed
  qed
qed

end

end
