(* ===== verification/Pctldb.thy ===== *)
theory Pctldb
  imports Sbn Memfile Fifo
begin

text \<open>
  The product queue between the readers and the processor: \<^verbatim>\<open>src/pctldb.c\<close> (the queue of the
  product control elements) and \<^verbatim>\<open>src/pctlmfdb.c\<close> (the store of their memory files, indexed by
  the time of insertion), with the structures of \<^verbatim>\<open>src/pctl.h\<close>.

  Berkeley DB is a parameter: a record of its operations over the states \<open>'q\<close> of a queue
  database and \<open>'b\<close> of a btree database; \<open>queue_laws\<close> and \<open>btree_laws\<close> state the documented
  behaviour the code relies on. The clock and the status of \<^verbatim>\<open>pthread_mutex_lock\<close> are
  arguments; a wait on the condition variable is an explicit list of what each wait returned
  and of the state of the queue when it returned, so that the other threads' steps in between
  are visible. A \<^const>\<open>None\<close> is a failed assertion, a null dereference or a wait that has not
  returned. The database error code is part of the results, 0 where the code does not set it.
\<close>

section \<open>Times\<close>

datatype timespec = Timespec (tv_sec: int) (tv_nsec: int)

definition timespec_cmp :: "timespec \<Rightarrow> timespec \<Rightarrow> int" where
  "timespec_cmp ts1 ts2 =
     (if tv_sec ts1 \<noteq> tv_sec ts2 then (if tv_sec ts1 < tv_sec ts2 then -1 else 1)
      else if tv_nsec ts1 \<noteq> tv_nsec ts2 then (if tv_nsec ts1 < tv_nsec ts2 then -1 else 1)
      else 0)"

text \<open>The order that the btree uses is the one of the comparison function, and it is linear.\<close>

instantiation timespec :: linorder
begin

definition less_eq_timespec :: "timespec \<Rightarrow> timespec \<Rightarrow> bool" where
  "less_eq_timespec a b \<longleftrightarrow> timespec_cmp a b \<le> 0"

definition less_timespec :: "timespec \<Rightarrow> timespec \<Rightarrow> bool" where
  "less_timespec a b \<longleftrightarrow> timespec_cmp a b < 0"

instance
  by standard (auto simp: less_eq_timespec_def less_timespec_def timespec_cmp_def
      timespec.expand split: if_splits)

end

lemmas timespec_less = less_eq_timespec_def less_timespec_def timespec_cmp_def

section \<open>The product control element\<close>

record pctl_element_st =
  f_complete :: int
  num_fragments :: int
  recv_fragments :: int
  seq_number :: u32
  orig_seq_number :: u32
  pce_sbn_datstream :: int
  pce_product_type :: int
  pce_product_category :: int
  pce_product_code :: int
  pce_np_channel_index :: int
  pce_ts :: timespec
  tsqueue :: timespec
  save_format :: int
  saveunz_flag :: int
  rtxdb_flag :: int
  pce_mf :: memfile_st
  pce_ctrlhdr :: bytes
  pce_ctrlhdr_size :: int
  f_has_ccb :: int
  pce_wmo :: wmo_header
  fname :: bytes
  fbasename :: bytes
  fpath_size :: int
  fpath :: bytes

record ('q, 'b) pctldb_st =
  dbp :: 'q
  mfdbp :: 'b
  pce_size :: u32
  pce_data_size :: u32
  db_n :: u32
  db_nmax :: u32
  mf_total_size :: nat
  last_tsqueue :: timespec
  softlimit :: u32
  hardlimit :: u32
  mf_softlimit_mb :: nat
  mf_hardlimit_mb :: nat

section \<open>Berkeley DB\<close>

text \<open>
  Reading a key into a buffer of a given size: the data, the size needed when the buffer is
  too small (\<^verbatim>\<open>DB_BUFFER_SMALL\<close>), or another error.
\<close>

datatype bdb_get = Got bytes | Buffer_small nat | Get_error int

text \<open>
  The operations used: append and consume of the queue, its record length and number of
  records; put, get and delete of the btree, and a scan of it with a cursor (an error of the
  opening, or the sizes of the data found and the code that ended the scan, \<^const>\<open>None\<close> for
  \<^verbatim>\<open>DB_NOTFOUND\<close>).
\<close>

record ('q, 'b) bdb =
  q_append :: "pctl_element_st \<Rightarrow> 'q \<Rightarrow> int \<times> 'q"
  q_consume :: "'q \<Rightarrow> (int + pctl_element_st) \<times> 'q"
  q_re_len :: "'q \<Rightarrow> int + u32"
  q_stat :: "'q \<Rightarrow> int + u32"
  b_put :: "timespec \<Rightarrow> bytes \<Rightarrow> 'b \<Rightarrow> int \<times> 'b"
  b_get :: "timespec \<Rightarrow> nat \<Rightarrow> 'b \<Rightarrow> bdb_get"
  b_del :: "timespec \<Rightarrow> 'b \<Rightarrow> int \<times> 'b"
  b_scan :: "'b \<Rightarrow> int + (nat list \<times> int option)"

abbreviation DB_BUFFER_SMALL :: int where "DB_BUFFER_SMALL \<equiv> -30999"
abbreviation DB_NOTFOUND :: int where "DB_NOTFOUND \<equiv> -30988"
abbreviation EINVAL :: int where "EINVAL \<equiv> 22"
abbreviation ENOMEM :: int where "ENOMEM \<equiv> 12"
abbreviation ETIMEDOUT :: int where "ETIMEDOUT \<equiv> 110"

definition size_mul :: "nat \<Rightarrow> nat \<Rightarrow> nat" where
  "size_mul a b = nat (int a * int b mod 2 ^ 64)"

section \<open>The store of the memory files\<close>

definition pctlmfdb_snd ::
  "('q, 'b) bdb \<Rightarrow> ('q, 'b) pctldb_st \<Rightarrow> timespec \<Rightarrow> memfile_st \<Rightarrow> int \<times> int \<times> ('q, 'b) pctldb_st" where
  "pctlmfdb_snd bdb db tsq mf =
     (let data = take (size_u32 (get_memfile_data_size mf)) (mf_p mf);
          (status, b) = b_put bdb tsq data (mfdbp db);
          db = db\<lparr>mfdbp := b\<rparr>
      in if status \<noteq> 0 then (-1, status, db)
         else (0, 0, db\<lparr>mf_total_size := size_add (mf_total_size db)
                            (int (size_u32 (get_memfile_data_size mf)))\<rparr>))"

text \<open>
  The first part of \<^verbatim>\<open>pctlmfdb_rcv\<close>: reading the data into the buffer of the memory file,
  which is enlarged when it is too small. The results are the error code and the file.
\<close>

definition mfdb_read ::
  "allocator \<Rightarrow> ('q, 'b) bdb \<Rightarrow> 'b \<Rightarrow> timespec \<Rightarrow> memfile_st \<Rightarrow> int \<times> memfile_st" where
  "mfdb_read alloc bdb b tsq mf =
     (let got = (\<lambda>v mf. (0, mf\<lparr>mf_p := overwrite 0 v (mf_p mf), mf_size := length v\<rparr>));
          failed = (\<lambda>e mf. (e, mf\<lparr>mf_size := 0\<rparr>))
      in
      case b_get bdb tsq (size_u32 (get_memfile_allocated_size mf)) b of
        Got v \<Rightarrow> got v mf
      | Get_error e \<Rightarrow> failed e mf
      | Buffer_small n \<Rightarrow>
          (let (status, mf) = realloc_memfile alloc mf n in
           if status \<noteq> 0 then failed ENOMEM mf
           else
             case b_get bdb tsq (size_u32 (get_memfile_allocated_size mf)) b of
               Got v \<Rightarrow> got v mf
             | Get_error e \<Rightarrow> failed e mf
             | Buffer_small _ \<Rightarrow> failed DB_BUFFER_SMALL mf))"

definition pctlmfdb_rcv ::
  "allocator \<Rightarrow> ('q, 'b) bdb \<Rightarrow> ('q, 'b) pctldb_st \<Rightarrow> timespec \<Rightarrow> memfile_st \<Rightarrow>
   int \<times> int \<times> memfile_st \<times> ('q, 'b) pctldb_st" where
  "pctlmfdb_rcv alloc bdb db tsq mf =
     (let (dberror, mf) = mfdb_read alloc bdb (mfdbp db) tsq mf;
          status = (if dberror = 0 then 0 else -1);
          (dberror_del, b) = b_del bdb tsq (mfdbp db);
          db = db\<lparr>mfdbp := b\<rparr>
      in
      if dberror_del = 0 then
        (status, dberror, mf,
         db\<lparr>mf_total_size :=
              (if mf_total_size db > mf_size mf then mf_total_size db - mf_size mf else 0)\<rparr>)
      else if dberror = 0 then (-1, dberror_del, mf, db)
      else (status, dberror, mf, db))"

section \<open>The queue\<close>

definition pctldb_snd ::
  "('q, 'b) bdb \<Rightarrow> ('q, 'b) pctldb_st \<Rightarrow> pctl_element_st \<Rightarrow> int \<times> int \<times> ('q, 'b) pctldb_st" where
  "pctldb_snd bdb db p =
     (let (status, q) = q_append bdb p (dbp db); db = db\<lparr>dbp := q\<rparr>
      in if status = 0 then (0, 0, db\<lparr>db_n := db_n db + 1\<rparr>) else (-1, status, db))"

definition pctldb_rcv ::
  "('q, 'b) bdb \<Rightarrow> ('q, 'b) pctldb_st \<Rightarrow> pctl_element_st \<Rightarrow> u32 \<Rightarrow>
   int \<times> int \<times> pctl_element_st \<times> ('q, 'b) pctldb_st" where
  "pctldb_rcv bdb db p sz =
     (case q_re_len bdb (dbp db) of
        Inl e \<Rightarrow> (-1, e, p, db)
      | Inr reclen \<Rightarrow>
          if sz < reclen then (-1, EINVAL, p, db)
          else
            case q_consume bdb (dbp db) of
              (Inl e, q) \<Rightarrow> (-1, e, p, db\<lparr>dbp := q\<rparr>)
            | (Inr p', q) \<Rightarrow> (0, 0, p', db\<lparr>dbp := q, db_n := db_n db - 1\<rparr>))"

definition pctldb_stat :: "('q, 'b) bdb \<Rightarrow> ('q, 'b) pctldb_st \<Rightarrow> int \<times> ('q, 'b) pctldb_st" where
  "pctldb_stat bdb db =
     (case q_stat bdb (dbp db) of Inl e \<Rightarrow> (e, db) | Inr n \<Rightarrow> (0, db\<lparr>db_n := n\<rparr>))"

definition pctlmfdb_stat ::
  "('q, 'b) bdb \<Rightarrow> ('q, 'b) pctldb_st \<Rightarrow> int \<times> int \<times> ('q, 'b) pctldb_st" where
  "pctlmfdb_stat bdb db =
     (case b_scan bdb (mfdbp db) of
        Inl e \<Rightarrow> (-1, e, db)
      | Inr (sizes, ended) \<Rightarrow>
          let db = db\<lparr>mf_total_size := fold (\<lambda>n t. size_add t (int (size_u32 n))) sizes 0\<rparr>
          in case ended of None \<Rightarrow> (0, 0, db) | Some e \<Rightarrow> (-1, e, db))"

definition pctldb_hard_limit :: "('q, 'b) pctldb_st \<Rightarrow> u32 \<Rightarrow> int" where
  "pctldb_hard_limit db mf_sz =
     (if (if mf_hardlimit_mb db > 0
          then size_add (mf_total_size db) (uint mf_sz) > size_mul (mf_hardlimit_mb db) (1024 * 1024)
          else False)
      then 1
      else if hardlimit db > 0 \<and> db_n db = hardlimit db then 1
      else 0)"

definition pctldb_soft_limit :: "('q, 'b) pctldb_st \<Rightarrow> int" where
  "pctldb_soft_limit db =
     (if (if mf_softlimit_mb db > 0
          then mf_total_size db > size_mul (mf_softlimit_mb db) (1024 * 1024) else False)
      then 1
      else if softlimit db > 0 \<and> db_n db \<ge> softlimit db then 1
      else 0)"

text \<open>The insertion time, moved beyond the last one when the clock did not advance.\<close>

definition resolve_tsqueue :: "timespec \<Rightarrow> timespec \<Rightarrow> timespec" where
  "resolve_tsqueue now prev =
     (if tv_sec now = tv_sec prev \<and> tv_nsec now \<le> tv_nsec prev
      then Timespec (tv_sec now) (tv_nsec prev + 1) else now)"

text \<open>
  Status 0: inserted; 1: inserted, soft limit reached; 2: rejected, hard limit reached; -1:
  error. The element is returned with its insertion time.
\<close>

definition pctldb_send_pce ::
  "('q, 'b) bdb \<Rightarrow> int \<Rightarrow> timespec option \<Rightarrow> ('q, 'b) pctldb_st \<Rightarrow> pctl_element_st \<Rightarrow>
   (int \<times> int \<times> pctl_element_st \<times> ('q, 'b) pctldb_st) option" where
  "pctldb_send_pce bdb lock clock db pce =
     (if lock \<noteq> 0 then Some (-1, lock, pce, db)
      else
        case clock of
          None \<Rightarrow> None
        | Some now \<Rightarrow>
            let pce = pce\<lparr>tsqueue := resolve_tsqueue now (last_tsqueue db)\<rparr>;
                db = db\<lparr>last_tsqueue := tsqueue pce\<rparr>;
                mf_data_size = of_nat (get_memfile_data_size (pce_mf pce));
                status = (if pctldb_hard_limit db mf_data_size \<noteq> 0 then 2 else 0);
                (status, dberror, db) =
                  (if status = 0 then pctldb_snd bdb db pce else (status, 0, db));
                (status, dberror, db) =
                  (if status = 0 then pctlmfdb_snd bdb db (tsqueue pce) (pce_mf pce)
                   else (status, dberror, db));
                status = (if status = 0 \<and> pctldb_soft_limit db \<noteq> 0 then 1 else status)
            in Some (status, dberror, pce, db))"

text \<open>The waiting loop: one element of \<open>waits\<close> per call of the wait function.\<close>

fun wait_loop ::
  "('q, 'b) pctldb_st \<Rightarrow> (int \<times> ('q, 'b) pctldb_st) list \<Rightarrow> (int \<times> ('q, 'b) pctldb_st) option" where
  "wait_loop db waits =
     (if db_n db \<noteq> 0 then Some (0, db)
      else
        case waits of
          [] \<Rightarrow> None
        | (status, db') # waits' \<Rightarrow> if status \<noteq> 0 then Some (status, db') else wait_loop db' waits')"

definition pctldb_rcv_pce ::
  "allocator \<Rightarrow> ('q, 'b) bdb \<Rightarrow> int \<Rightarrow> (int \<times> ('q, 'b) pctldb_st) list \<Rightarrow>
   ('q, 'b) pctldb_st \<Rightarrow> pctl_element_st \<Rightarrow>
   (int \<times> int \<times> pctl_element_st \<times> ('q, 'b) pctldb_st) option" where
  "pctldb_rcv_pce alloc bdb lock waits db pce =
     (if lock \<noteq> 0 then Some (-1, lock, pce, db)
      else
        case wait_loop db waits of
          None \<Rightarrow> None
        | Some (status, db) \<Rightarrow>
            if db_n db = 0 then
              Some (if status = ETIMEDOUT then (1, 0, pce, db) else (-1, status, pce, db))
            else
              let mf = pce_mf pce;
                  (status, dberror, pce, db) = pctldb_rcv bdb db pce (pce_data_size db);
                  (status, dberror, mf, db) =
                    (if status = 0 then pctlmfdb_rcv alloc bdb db (tsqueue pce) mf
                     else (status, dberror, mf, db))
              in Some (status, dberror, pce\<lparr>pce_mf := mf\<rparr>, db))"

text \<open>The deadline of a wait, from the time of day in seconds and microseconds.\<close>

definition pctldb_set_timeout :: "int \<Rightarrow> int \<Rightarrow> int \<Rightarrow> timespec" where
  "pctldb_set_timeout timeout_ms tvsec tvusec =
     Timespec (tvsec + timeout_ms div 1000) (tvusec * 1000 + timeout_ms mod 1000 * 1000000)"

section \<open>Opening\<close>

record pctldb_param_st =
  prm_dbname :: "bytes option"
  prm_extent_size :: int
  prm_reclen :: u32
  prm_memfile_minsize :: nat
  prm_softlimit :: u32
  prm_hardlimit :: u32
  prm_mf_softlimit_mb :: nat
  prm_mf_hardlimit_mb :: nat

text \<open>What the calls made while opening return, and the databases they give.\<close>

record ('q, 'b) open_calls =
  oc_db_create :: int
  oc_set_re_len :: int
  oc_set_q_extentsize :: int
  oc_open :: int
  oc_malloc :: bool
  oc_errno :: int
  oc_mutex_init :: int
  oc_cond_init :: int
  oc_mf_db_create :: int
  oc_mf_set_bt_compare :: int
  oc_mf_open :: int
  oc_queue :: 'q
  oc_btree :: 'b

text \<open>The first failure of a sequence of calls.\<close>

primrec first_error :: "int list \<Rightarrow> int" where
  "first_error [] = 0"
| "first_error (st # sts) = (if st \<noteq> 0 then st else first_error sts)"

definition pctlmfdb_open :: "('q, 'b) open_calls \<Rightarrow> int \<times> int" where
  "pctlmfdb_open oc =
     (let status = first_error [oc_mf_db_create oc, oc_mf_set_bt_compare oc, oc_mf_open oc]
      in if status \<noteq> 0 then (-1, status) else (0, 0))"

text \<open>
  When a call before the allocation fails the error branch reads \<^verbatim>\<open>p->mfdbp\<close> with \<open>p\<close> null.
  Later errors are reported with the code overwritten by -1.
\<close>

definition pctldb_open ::
  "('q, 'b) bdb \<Rightarrow> ('q, 'b) open_calls \<Rightarrow> u32 \<Rightarrow> pctldb_param_st \<Rightarrow>
   (int \<times> int \<times> ('q, 'b) pctldb_st option) option" where
  "pctldb_open bdb oc pce_alloc_size param =
     (let status = first_error
            [oc_db_create oc, oc_set_re_len oc,
             if prm_extent_size param > 0 \<and> prm_dbname param \<noteq> None then oc_set_q_extentsize oc else 0,
             oc_open oc,
             if oc_malloc oc then 0 else oc_errno oc]
      in
      if status \<noteq> 0 \<or> \<not> oc_malloc oc then None
      else
        let p = \<lparr>dbp = oc_queue oc, mfdbp = oc_btree oc, pce_size = pce_alloc_size,
                 pce_data_size = prm_reclen param, db_n = 0, db_nmax = 0xffffffff,
                 mf_total_size = 0, last_tsqueue = Timespec 0 0,
                 softlimit = prm_softlimit param, hardlimit = prm_hardlimit param,
                 mf_softlimit_mb = prm_mf_softlimit_mb param,
                 mf_hardlimit_mb = prm_mf_hardlimit_mb param\<rparr>;
            (st1, p) = pctldb_stat bdb p;
            status = first_error [st1, oc_mutex_init oc, oc_cond_init oc];
            status = (if status \<noteq> 0 then -1 else fst (pctlmfdb_open oc));
            (status, p) = (if status = 0
                           then (let (st2, _, p') = pctlmfdb_stat bdb p in (st2, p'))
                           else (status, p))
        in if status \<noteq> 0 then Some (-1, status, None) else Some (0, 0, Some p))"

section \<open>What Berkeley DB promises\<close>

text \<open>
  The documented behaviour relied upon. A queue database is a list of records: an append adds
  its record at the end, a consume removes the record at the head; a failed call changes
  nothing. A btree database is a finite map.
\<close>

definition queue_laws :: "('q, 'b) bdb \<Rightarrow> ('q \<Rightarrow> pctl_element_st list) \<Rightarrow> bool" where
  "queue_laws bdb Q \<longleftrightarrow>
     (\<forall>p d st d'. q_append bdb p d = (st, d') \<longrightarrow> Q d' = (if st = 0 then Q d @ [p] else Q d)) \<and>
     (\<forall>d r d'. q_consume bdb d = (r, d') \<longrightarrow>
        (case r of Inl e \<Rightarrow> e \<noteq> 0 \<and> Q d' = Q d | Inr p \<Rightarrow> Q d = p # Q d'))"

definition btree_laws :: "('q, 'b) bdb \<Rightarrow> ('b \<Rightarrow> timespec \<Rightarrow> bytes option) \<Rightarrow> bool" where
  "btree_laws bdb B \<longleftrightarrow>
     (\<forall>k v d st d'. b_put bdb k v d = (st, d') \<longrightarrow> B d' = (if st = 0 then (B d)(k \<mapsto> v) else B d)) \<and>
     (\<forall>k u d. case b_get bdb k u d of
        Got v \<Rightarrow> B d k = Some v \<and> length v \<le> u
      | Buffer_small n \<Rightarrow> (\<exists>v. B d k = Some v \<and> length v = n)
      | Get_error e \<Rightarrow> e \<noteq> 0) \<and>
     (\<forall>k d st d'. b_del bdb k d = (st, d') \<longrightarrow> B d' = (if st = 0 then (B d)(k := None) else B d))"

lemma queue_append:
  "queue_laws bdb Q \<Longrightarrow> q_append bdb p d = (st, d') \<Longrightarrow> Q d' = (if st = 0 then Q d @ [p] else Q d)"
  by (simp add: queue_laws_def)

lemma queue_consume:
  "queue_laws bdb Q \<Longrightarrow> q_consume bdb d = (r, d') \<Longrightarrow>
   (case r of Inl e \<Rightarrow> e \<noteq> 0 \<and> Q d' = Q d | Inr p \<Rightarrow> Q d = p # Q d')"
  by (simp add: queue_laws_def)

lemma btree_put:
  "btree_laws bdb B \<Longrightarrow> b_put bdb k v d = (st, d') \<Longrightarrow> B d' = (if st = 0 then (B d)(k \<mapsto> v) else B d)"
  by (simp add: btree_laws_def)

lemma btree_get: "btree_laws bdb B \<Longrightarrow> b_get bdb k u d = Got v \<Longrightarrow> B d k = Some v \<and> length v \<le> u"
  unfolding btree_laws_def by (metis (mono_tags, lifting) bdb_get.simps(10))

lemma btree_get_error: "btree_laws bdb B \<Longrightarrow> b_get bdb k u d = Get_error e \<Longrightarrow> e \<noteq> 0"
  unfolding btree_laws_def by (metis (mono_tags, lifting) bdb_get.simps(12))

lemma btree_del:
  "btree_laws bdb B \<Longrightarrow> b_del bdb k d = (st, d') \<Longrightarrow> B d' = (if st = 0 then (B d)(k := None) else B d)"
  by (simp add: btree_laws_def)

section \<open>The queue as a list\<close>

text \<open>
  What the queue holds: the elements in order, each with the data stored for it. The memory
  file of an element in the queue is not meaningful and is left out.
\<close>

definition no_mf :: memfile_st where
  "no_mf = \<lparr>mf_allocsize = 0, mf_maxallocsize = 0, mf_size = 0, mf_nread = 0, mf_p = []\<rparr>"

definition no_memfile :: "pctl_element_st \<Rightarrow> pctl_element_st" where
  "no_memfile p = p\<lparr>pce_mf := no_mf\<rparr>"

definition pctldb_contents ::
  "('q \<Rightarrow> pctl_element_st list) \<Rightarrow> ('b \<Rightarrow> timespec \<Rightarrow> bytes option) \<Rightarrow> ('q, 'b) pctldb_st \<Rightarrow>
   (pctl_element_st \<times> bytes option) list" where
  "pctldb_contents Q B db = map (\<lambda>p. (no_memfile p, B (mfdbp db) (tsqueue p))) (Q (dbp db))"

definition pctldb_inv ::
  "('q, 'b) bdb \<Rightarrow> ('q \<Rightarrow> pctl_element_st list) \<Rightarrow> ('b \<Rightarrow> timespec \<Rightarrow> bytes option) \<Rightarrow>
   ('q, 'b) pctldb_st \<Rightarrow> bool" where
  "pctldb_inv bdb Q B db \<longleftrightarrow>
     queue_laws bdb Q \<and> btree_laws bdb B \<and>
     sorted_wrt (<) (map tsqueue (Q (dbp db))) \<and>
     (\<forall>p \<in> set (Q (dbp db)). tsqueue p \<le> last_tsqueue db) \<and>
     (\<forall>k \<in> dom (B (mfdbp db)). k \<le> last_tsqueue db) \<and>
     unat (db_n db) = length (Q (dbp db))"

lemma resolve_tsqueue_later:
  assumes "tv_sec prev \<le> tv_sec now"
  shows "prev < resolve_tsqueue now prev"
  using assms by (auto simp: resolve_tsqueue_def timespec_less)

text \<open>The operations as queue operations: what enters and what is taken out.\<close>

definition pctldb_put ::
  "('q, 'b) bdb \<Rightarrow> int \<times> timespec \<times> pctl_element_st \<Rightarrow> ('q, 'b) pctldb_st \<Rightarrow>
   (pctl_element_st \<times> bytes option) option \<times> ('q, 'b) pctldb_st" where
  "pctldb_put bdb i db =
     (case i of (lock, now, pce) \<Rightarrow>
        case pctldb_send_pce bdb lock (Some now) db pce of
          None \<Rightarrow> (None, db)
        | Some (status, dberror, pce', db') \<Rightarrow>
            (if db_n db' = db_n db then None
             else Some (no_memfile pce',
                        if status \<in> {0, 1}
                        then Some (take (size_u32 (mf_size (pce_mf pce))) (mf_p (pce_mf pce)))
                        else None), db'))"

definition pctldb_take ::
  "('q, 'b) bdb \<Rightarrow> allocator \<times> int \<times> pctl_element_st \<Rightarrow> ('q, 'b) pctldb_st \<Rightarrow>
   (pctl_element_st \<times> bytes option) option \<times> ('q, 'b) pctldb_st" where
  "pctldb_take bdb j db =
     (case j of (alloc, lock, pce) \<Rightarrow>
        case pctldb_rcv_pce alloc bdb lock [(ETIMEDOUT, db)] db pce of
          None \<Rightarrow> (None, db)
        | Some (status, dberror, pce', db') \<Rightarrow>
            (if db_n db' = db_n db then None
             else Some (no_memfile pce',
                        if status = 0 then Some (mf_data (pce_mf pce')) else None), db'))"

text \<open>
  The clock does not go back by a second or more, the counter does not overflow, and the
  buffer of the receiver is allocated.
\<close>

definition pctldb_put_pre :: "int \<times> timespec \<times> pctl_element_st \<Rightarrow> ('q, 'b) pctldb_st \<Rightarrow> bool" where
  "pctldb_put_pre i db \<longleftrightarrow>
     tv_sec (last_tsqueue db) \<le> tv_sec (fst (snd i)) \<and> db_n db \<noteq> 0xffffffff"

definition pctldb_take_pre :: "allocator \<times> int \<times> pctl_element_st \<Rightarrow> ('q, 'b) pctldb_st \<Rightarrow> bool" where
  "pctldb_take_pre j db \<longleftrightarrow>
     length (mf_p (pce_mf (snd (snd j)))) = mf_allocsize (pce_mf (snd (snd j)))"

definition same_element :: "pctl_element_st \<times> bytes option \<Rightarrow> pctl_element_st \<times> bytes option \<Rightarrow> bool" where
  "same_element t e \<longleftrightarrow> fst t = fst e \<and> (snd t \<noteq> None \<longrightarrow> snd t = snd e)"

lemma pctldb_send_pce_some: "pctldb_send_pce bdb lock (Some now) db pce \<noteq> None"
  unfolding pctldb_send_pce_def Let_def by (simp split: prod.split)

text \<open>The outcomes of a sending: rejected or failed, queued without its data, or queued.\<close>

lemma pctldb_send_pce_outcome:
  assumes laws: "queue_laws bdb Q" "btree_laws bdb B"
    and s: "pctldb_send_pce bdb 0 (Some now) db pce = Some (st, e, pce', db')"
  defines "k \<equiv> resolve_tsqueue now (last_tsqueue db)"
    and "v \<equiv> take (size_u32 (mf_size (pce_mf pce))) (mf_p (pce_mf pce))"
  shows "pce' = pce\<lparr>tsqueue := k\<rparr> \<and> last_tsqueue db' = k \<and>
    ((st \<in> {2, -1} \<and> db_n db' = db_n db \<and> Q (dbp db') = Q (dbp db) \<and> B (mfdbp db') = B (mfdbp db)) \<or>
     (st = -1 \<and> db_n db' = db_n db + 1 \<and> Q (dbp db') = Q (dbp db) @ [pce'] \<and> B (mfdbp db') = B (mfdbp db)) \<or>
     (st \<in> {0, 1} \<and> db_n db' = db_n db + 1 \<and> Q (dbp db') = Q (dbp db) @ [pce'] \<and>
      B (mfdbp db') = (B (mfdbp db))(k \<mapsto> v)))"
proof -
  let ?p = "pce\<lparr>tsqueue := k\<rparr>"
  obtain st1 q1 where a: "q_append bdb ?p (dbp db) = (st1, q1)" by fastforce
  obtain st2 b2 where b: "b_put bdb k v (mfdbp db) = (st2, b2)" by fastforce
  note qa = queue_append [OF laws(1) a] and bp = btree_put [OF laws(2) b]
  let ?d1 = "db\<lparr>last_tsqueue := k\<rparr>"
  let ?d2 = "?d1\<lparr>dbp := q1, db_n := db_n db + 1, mfdbp := b2\<rparr>"
  let ?d3 = "?d2\<lparr>mf_total_size := size_add (mf_total_size db) (int (size_u32 (mf_size (pce_mf pce))))\<rparr>"
  consider (hard) "(st, pce', db') = (2, ?p, ?d1)"
    | (append) "st1 \<noteq> 0" "(st, pce', db') = (-1, ?p, ?d1\<lparr>dbp := q1\<rparr>)"
    | (put) "st1 = 0" "st2 \<noteq> 0" "(st, pce', db') = (-1, ?p, ?d2)"
    | (sent) "st1 = 0" "st2 = 0" "st \<in> {0, 1}" "(pce', db') = (?p, ?d3)"
  proof (cases "pctldb_hard_limit ?d1 (of_nat (mf_size (pce_mf pce))) \<noteq> 0")
    case True
    with s that(1) show ?thesis
      by (simp add: pctldb_send_pce_def get_memfile_data_size_def Let_def k_def [symmetric])
  next
    case False
    note s' = s [unfolded pctldb_send_pce_def pctldb_snd_def pctlmfdb_snd_def
        get_memfile_data_size_def Let_def]
    show ?thesis
    proof (cases "st1 = 0")
      case st1: True
      show ?thesis
        using s' that(3,4) False a b st1
        by (cases "st2 = 0") (simp_all add: k_def [symmetric] v_def [symmetric] split: if_splits)
    next
      case st1: False
      show ?thesis using s' that(2) False a st1 by (simp add: k_def [symmetric])
    qed
  qed
  then show ?thesis using qa bp by cases auto
qed

lemma pctldb_put_law:
  assumes inv: "pctldb_inv bdb Q B db" and pre: "pctldb_put_pre i db"
    and put: "pctldb_put bdb i db = (en, db')"
  shows "pctldb_inv bdb Q B db' \<and>
    pctldb_contents Q B db' = pctldb_contents Q B db @ (case en of None \<Rightarrow> [] | Some e \<Rightarrow> [e])"
proof -
  obtain lock now pce where i: "i = (lock, now, pce)" by (cases i) auto
  show ?thesis
  proof (cases "lock = 0")
    case False
    with inv put show ?thesis by (auto simp: pctldb_put_def i pctldb_send_pce_def)
  next
    case True
    obtain st e p' d' where s: "pctldb_send_pce bdb 0 (Some now) db pce = Some (st, e, p', d')"
      using pctldb_send_pce_some [of bdb 0 now db pce] by (cases "pctldb_send_pce bdb 0 (Some now) db pce") auto
    let ?k = "resolve_tsqueue now (last_tsqueue db)"
    have laws: "queue_laws bdb Q" "btree_laws bdb B" using inv by (simp_all add: pctldb_inv_def)
    note o = pctldb_send_pce_outcome [OF laws s]
    have k: "last_tsqueue db < ?k"
      using pre by (intro resolve_tsqueue_later) (simp add: pctldb_put_pre_def i)
    have fresh: "B (mfdbp db) ?k = None"
      using inv k by (force simp: pctldb_inv_def dom_def)
    have olds: "p \<in> set (Q (dbp db)) \<Longrightarrow> tsqueue p < ?k" for p
      using inv k by (fastforce simp: pctldb_inv_def)
    have ne: "p \<in> set (Q (dbp db)) \<Longrightarrow> tsqueue p \<noteq> ?k" for p
      using olds [of p] by auto
    have n: "unat (db_n db + 1) = unat (db_n db) + 1" "db_n db + 1 \<noteq> db_n db"
      using pre by (simp_all add: pctldb_put_pre_def unat_inc_u32)
    let ?en = "if db_n d' = db_n db then None
      else Some (no_memfile p', if st \<in> {0, 1}
        then Some (take (size_u32 (mf_size (pce_mf pce))) (mf_p (pce_mf pce))) else None)"
    have "(en, db') = (?en, d')"
      unfolding put [symmetric] pctldb_put_def i True prod.case s option.case ..
    then have d': "db' = d'" and en: "en = ?en" by simp_all
    have keys: "B (mfdbp db) x = Some y \<Longrightarrow> x \<le> ?k" for x y
      using inv k unfolding pctldb_inv_def by (meson domI less_imp_le order_trans)
    have dom: "\<forall>x \<in> dom (B (mfdbp d')). x \<le> ?k"
      using keys o by (auto split: if_splits)
    have "pctldb_inv bdb Q B d'"
      using inv o k olds n dom
      by (auto simp: pctldb_inv_def sorted_wrt_append less_imp_le)
    moreover have "pctldb_contents Q B d' = pctldb_contents Q B db @ (case en of None \<Rightarrow> [] | Some e \<Rightarrow> [e])"
      using o n fresh ne by (auto simp: pctldb_contents_def en)
    ultimately show ?thesis by (simp add: d')
  qed
qed

text \<open>Reading the data of an element and removing it from the store.\<close>

lemma mfdb_read_data:
  assumes "btree_laws bdb B" "length (mf_p mf) = mf_allocsize mf"
    "mfdb_read alloc bdb b k mf = (e, mf')" "e = 0"
  shows "B b k = Some (mf_data mf')"
proof -
  have got: "B b k = Some (mf_data (m\<lparr>mf_p := overwrite 0 v (mf_p m), mf_size := length v\<rparr>))"
    if "length (mf_p m) = mf_allocsize m" "b_get bdb k (size_u32 (get_memfile_allocated_size m)) b = Got v"
    for m v
    using btree_get [OF assms(1) that(2)] that(1) size_u32_le [of "mf_allocsize m"]
    by (simp add: mf_data_def get_memfile_allocated_size_def overwrite_def)
  have re: "realloc_memfile alloc mf n = (0, m) \<Longrightarrow> length (mf_p m) = mf_allocsize m" for n m
    by (auto simp: realloc_memfile_def split: if_splits)
  note r = assms(3) [unfolded mfdb_read_def Let_def]
  show ?thesis
  proof (cases "b_get bdb k (size_u32 (get_memfile_allocated_size mf)) b")
    case (Got v)
    with r assms(2) got [of mf v] show ?thesis by simp
  next
    case (Get_error e')
    with r assms(4) btree_get_error [OF assms(1) Get_error] show ?thesis by simp
  next
    case (Buffer_small n)
    obtain st m where m: "realloc_memfile alloc mf n = (st, m)" by fastforce
    with Buffer_small r assms(4) have st: "st = 0" by (auto split: if_splits)
    show ?thesis
    proof (cases "b_get bdb k (size_u32 (get_memfile_allocated_size m)) b")
      case (Got v)
      with Buffer_small r m st got [of m v] re [of n m] show ?thesis by simp
    next
      case (Get_error e')
      with Buffer_small r m st assms(4) btree_get_error [OF assms(1) Get_error] show ?thesis by simp
    next
      case b2: (Buffer_small n')
      with Buffer_small r m st assms(4) show ?thesis by simp
    qed
  qed
qed

lemma pctlmfdb_rcv_outcome:
  assumes "btree_laws bdb B" "length (mf_p mf) = mf_allocsize mf"
    "pctlmfdb_rcv alloc bdb db k mf = (st, e, mf', db')"
  shows "dbp db' = dbp db \<and> db_n db' = db_n db \<and> last_tsqueue db' = last_tsqueue db \<and>
    (B (mfdbp db') = B (mfdbp db) \<or> B (mfdbp db') = (B (mfdbp db))(k := None)) \<and>
    (st = 0 \<longrightarrow> B (mfdbp db) k = Some (mf_data mf'))"
proof -
  obtain e1 m1 where r: "mfdb_read alloc bdb (mfdbp db) k mf = (e1, m1)" by fastforce
  obtain e2 b2 where d: "b_del bdb k (mfdbp db) = (e2, b2)" by fastforce
  show ?thesis
    using assms(3) mfdb_read_data [OF assms(1,2) r] btree_del [OF assms(1) d]
    by (auto simp: pctlmfdb_rcv_def r d Let_def split: if_splits)
qed

lemma pctldb_rcv_outcome:
  assumes "queue_laws bdb Q" "pctldb_rcv bdb db p sz = (st, e, p', db')"
  shows "mfdbp db' = mfdbp db \<and> last_tsqueue db' = last_tsqueue db \<and>
    (st = 0 \<and> db_n db' = db_n db - 1 \<and> Q (dbp db) = p' # Q (dbp db') \<or>
     st = -1 \<and> db_n db' = db_n db \<and> Q (dbp db') = Q (dbp db))"
proof -
  obtain r q where c: "q_consume bdb (dbp db) = (r, q)" by fastforce
  show ?thesis
    using assms(2) queue_consume [OF assms(1) c]
    by (cases r) (auto simp: pctldb_rcv_def c split: sum.splits if_splits)
qed

lemma pctldb_take_law:
  assumes inv: "pctldb_inv bdb Q B db" and pre: "pctldb_take_pre j db"
    and tk: "pctldb_take bdb j db = (t, db')"
  shows "pctldb_inv bdb Q B db' \<and>
    (case t of None \<Rightarrow> pctldb_contents Q B db' = pctldb_contents Q B db
     | Some t \<Rightarrow> \<exists>e. pctldb_contents Q B db = e # pctldb_contents Q B db' \<and> same_element t e)"
proof -
  obtain alloc lock pce where j: "j = (alloc, lock, pce)" by (cases j) auto
  have laws: "queue_laws bdb Q" "btree_laws bdb B" using inv by (simp_all add: pctldb_inv_def)
  obtain st p1 e1 d1 where r: "pctldb_rcv bdb db pce (pce_data_size db) = (st, e1, p1, d1)"
    using prod_cases4 by blast
  obtain st2 e2 m2 d2 where m: "pctlmfdb_rcv alloc bdb d1 (tsqueue p1) (pce_mf pce) = (st2, e2, m2, d2)"
    using prod_cases4 by blast
  note ro = pctldb_rcv_outcome [OF laws(1) r]
  have mo: "dbp d2 = dbp d1 \<and> db_n d2 = db_n d1 \<and> last_tsqueue d2 = last_tsqueue d1 \<and>
      (B (mfdbp d2) = B (mfdbp d1) \<or> B (mfdbp d2) = (B (mfdbp d1))(tsqueue p1 := None)) \<and>
      (st2 = 0 \<longrightarrow> B (mfdbp d1) (tsqueue p1) = Some (mf_data m2))"
    using pre by (intro pctlmfdb_rcv_outcome [OF laws(2) _ m]) (simp add: pctldb_take_pre_def j)
  consider "(t, db') = (None, db)"
    | (failed) "st \<noteq> 0" "db' = d1" "t = (if db_n d1 = db_n db then None
        else Some (no_memfile (p1\<lparr>pce_mf := pce_mf pce\<rparr>), None))"
    | (taken) "st = 0" "db' = d2" "t = (if db_n d2 = db_n db then None
        else Some (no_memfile (p1\<lparr>pce_mf := m2\<rparr>), if st2 = 0 then Some (mf_data m2) else None))"
    using tk r m
    by (cases "st = 0"; cases "lock = 0"; cases "db_n db = 0")
      (auto simp: pctldb_take_def j pctldb_rcv_pce_def Let_def wait_loop.simps [of db])
  then show ?thesis
  proof cases
    case 1
    with inv show ?thesis by simp
  next
    case failed
    with ro inv show ?thesis by (simp add: pctldb_inv_def pctldb_contents_def)
  next
    case taken
    have n: "db_n db - 1 \<noteq> db_n db" by simp
    have q: "Q (dbp db) = p1 # Q (dbp d1)" "db_n d1 = db_n db - 1" using ro taken(1) by auto
    then have nq: "unat (db_n db - 1) = length (Q (dbp d1))"
      using inv by (simp add: pctldb_inv_def unat_sub word_le_nat_alt)
    have rest: "x \<in> set (Q (dbp d1)) \<Longrightarrow> tsqueue x \<noteq> tsqueue p1" for x
      using inv q(1) by (auto simp: pctldb_inv_def)
    have "pctldb_inv bdb Q B d2"
      using inv q ro mo nq by (auto simp: pctldb_inv_def split: if_splits)
    moreover have "pctldb_contents Q B db =
        (no_memfile p1, B (mfdbp db) (tsqueue p1)) # pctldb_contents Q B d2"
      using q ro mo rest by (auto simp: pctldb_contents_def)
    ultimately show ?thesis
      using taken q mo ro n by (auto simp: same_element_def no_memfile_def)
  qed
qed

interpretation pq: fifo_queue "pctldb_inv bdb Q B" "pctldb_contents Q B" "pctldb_put bdb"
  "pctldb_take bdb" pctldb_put_pre pctldb_take_pre same_element
  by unfold_locales (use pctldb_put_law pctldb_take_law in blast)+

section \<open>Limits\<close>

definition within_limits :: "('q, 'b) pctldb_st \<Rightarrow> bool" where
  "within_limits db \<longleftrightarrow>
     (hardlimit db > 0 \<longrightarrow> db_n db \<le> hardlimit db) \<and>
     (mf_hardlimit_mb db > 0 \<longrightarrow> mf_total_size db \<le> size_mul (mf_hardlimit_mb db) (1024 * 1024))"

lemma pctldb_hard_limit_room:
  assumes "pctldb_hard_limit db mf_sz = 0" "within_limits db"
  shows "hardlimit db > 0 \<longrightarrow> db_n db + 1 \<le> hardlimit db"
    and "mf_hardlimit_mb db > 0 \<longrightarrow>
      size_add (mf_total_size db) (uint mf_sz) \<le> size_mul (mf_hardlimit_mb db) (1024 * 1024)"
proof -
  have "a + 1 \<le> b" if "a \<le> b" "a \<noteq> b" for a b :: u32
    using that inc_le [of a b] by (simp add: add.commute order_less_le)
  then show "hardlimit db > 0 \<longrightarrow> db_n db + 1 \<le> hardlimit db"
    using assms by (auto simp: pctldb_hard_limit_def within_limits_def split: if_splits)
  show "mf_hardlimit_mb db > 0 \<longrightarrow>
      size_add (mf_total_size db) (uint mf_sz) \<le> size_mul (mf_hardlimit_mb db) (1024 * 1024)"
    using assms by (auto simp: pctldb_hard_limit_def split: if_splits)
qed

lemma pctldb_send_within_limits:
  assumes "pctldb_send_pce bdb lock clock db pce = Some (st, e, pce', db')" "within_limits db"
  shows "within_limits db'"
proof (cases "lock = 0 \<and> clock \<noteq> None")
  case False
  with assms show ?thesis by (auto simp: pctldb_send_pce_def split: option.splits if_splits)
next
  case True
  then obtain now where c: "lock = 0" "clock = Some now" by auto
  let ?k = "resolve_tsqueue now (last_tsqueue db)"
  let ?d = "db\<lparr>last_tsqueue := ?k\<rparr>" and ?p = "pce\<lparr>tsqueue := ?k\<rparr>"
  let ?sz = "of_nat (mf_size (pce_mf pce)) :: u32"
  obtain st1 q1 where a: "q_append bdb ?p (dbp db) = (st1, q1)" by fastforce
  obtain st2 b2 where b: "b_put bdb ?k (take (size_u32 (mf_size (pce_mf pce))) (mf_p (pce_mf pce)))
      (mfdbp db) = (st2, b2)" by fastforce
  have sz: "uint ?sz = int (size_u32 (mf_size (pce_mf pce)))"
    by (simp add: int_size_u32 unsigned_of_nat take_bit_eq_mod zmod_int)
  have lim: "within_limits ?d" using assms(2) by (simp add: within_limits_def)
  note s = assms(1) [unfolded c pctldb_send_pce_def pctldb_snd_def pctlmfdb_snd_def Let_def
      get_memfile_data_size_def]
  show ?thesis
  proof (cases "pctldb_hard_limit ?d ?sz = 0")
    case False
    with s lim show ?thesis by auto
  next
    case ok: True
    note room = pctldb_hard_limit_room [OF ok lim]
    show ?thesis
      using s ok a b lim room sz
      by (cases "st1 = 0"; cases "st2 = 0") (auto simp: within_limits_def)
  qed
qed

lemma pctldb_rcv_within_limits:
  assumes "pctldb_rcv_pce alloc bdb 0 waits db pce = Some (st, e, pce', db')" "within_limits db"
    "db_n db \<noteq> 0"
  shows "within_limits db'"
proof -
  obtain st1 p1 e1 d1 where r: "pctldb_rcv bdb db pce (pce_data_size db) = (st1, e1, p1, d1)"
    using prod_cases4 by blast
  obtain st2 e2 m2 d2 where m: "pctlmfdb_rcv alloc bdb d1 (tsqueue p1) (pce_mf pce) = (st2, e2, m2, d2)"
    using prod_cases4 by blast
  have "db_n db - 1 \<le> db_n db" using assms(3) by (simp add: word_le_nat_alt unat_minus_one)
  then have l1: "within_limits d1"
    using r assms(2) by (auto simp: pctldb_rcv_def within_limits_def split: sum.splits prod.splits if_splits)
  then have "within_limits d2"
    using m by (auto simp: pctlmfdb_rcv_def within_limits_def Let_def split: prod.splits if_splits)
  with l1 show ?thesis
    using assms(1,3) r m by (auto simp: pctldb_rcv_pce_def Let_def wait_loop.simps [of db] split: if_splits)
qed

section \<open>A Berkeley DB\<close>

text \<open>
  An instance of the parameter that never fails: the queue is the list of its records and the
  btree a map.
\<close>

definition list_bdb :: "(pctl_element_st list, timespec \<Rightarrow> bytes option) bdb" where
  "list_bdb =
     \<lparr>q_append = (\<lambda>p d. (0, d @ [p])),
      q_consume = (\<lambda>d. case d of [] \<Rightarrow> (Inl 1, d) | p # ps \<Rightarrow> (Inr p, ps)),
      q_re_len = (\<lambda>d. Inr 400), q_stat = (\<lambda>d. Inr (of_nat (length d))),
      b_put = (\<lambda>k v d. (0, d(k \<mapsto> v))),
      b_get = (\<lambda>k u d. case d k of
         None \<Rightarrow> Get_error 1
       | Some v \<Rightarrow> if length v \<le> u then Got v else Buffer_small (length v)),
      b_del = (\<lambda>k d. if d k = None then (1, d) else (0, d(k := None))),
      b_scan = (\<lambda>d. Inr ([], None))\<rparr>"

lemma list_bdb_laws: "queue_laws list_bdb id" "btree_laws list_bdb id"
  by (auto simp: queue_laws_def btree_laws_def list_bdb_def split: list.splits option.splits)

definition empty_pctldb :: "(pctl_element_st list, timespec \<Rightarrow> bytes option) pctldb_st" where
  "empty_pctldb =
     \<lparr>dbp = [], mfdbp = (\<lambda>_. None), pce_size = 400, pce_data_size = 400, db_n = 0,
      db_nmax = 0xffffffff, mf_total_size = 0, last_tsqueue = Timespec 0 0, softlimit = 0,
      hardlimit = 2, mf_softlimit_mb = 0, mf_hardlimit_mb = 0\<rparr>"

lemma empty_pctldb_inv: "pctldb_inv list_bdb id id empty_pctldb"
  using list_bdb_laws by (simp add: pctldb_inv_def empty_pctldb_def)

definition example_mf :: "bytes \<Rightarrow> memfile_st" where
  "example_mf data = \<lparr>mf_allocsize = length data + 1, mf_maxallocsize = length data + 1,
     mf_size = length data, mf_nread = 0, mf_p = data @ [0]\<rparr>"

definition example_pce :: "u32 \<Rightarrow> bytes \<Rightarrow> pctl_element_st" where
  "example_pce seq data =
     \<lparr>f_complete = 1, num_fragments = 1, recv_fragments = 1, seq_number = seq, orig_seq_number = 0,
      pce_sbn_datstream = 5, pce_product_type = 1, pce_product_category = 1, pce_product_code = 1,
      pce_np_channel_index = 0, pce_ts = Timespec 100 0, tsqueue = Timespec 0 0, save_format = 0,
      saveunz_flag = 0, rtxdb_flag = 0, pce_mf = example_mf data, pce_ctrlhdr = [],
      pce_ctrlhdr_size = 0, f_has_ccb = 0, pce_wmo = no_wmo, fname = [], fbasename = [],
      fpath_size = 100, fpath = []\<rparr>"

definition example_ops ::
  "(int \<times> timespec \<times> pctl_element_st, allocator \<times> int \<times> pctl_element_st) qop list" where
  "example_ops =
     [Send (0, Timespec 100 5, example_pce 7 [65, 66]), Send (0, Timespec 100 5, example_pce 8 [67]),
      Receive (\<lambda>_. True, 0, example_pce 0 [1, 2, 3])]"

section \<open>Properties\<close>

text \<open>
  C7. The product queue is first in, first out. Over any sequence of insertions by the readers
  and removals by the processor, failed ones included, the elements removed are, in order, the
  first of those present at the start followed by those that entered, each with the data it
  was inserted with when the removal succeeds; nothing is lost, duplicated or reordered. The
  hypotheses are the laws of the database and a clock that does not go back by a second.
\<close>

theorem pctldb_fifo:
  assumes "pctldb_inv bdb Q B db"
    "fifo_pre (pctldb_put bdb) (pctldb_take bdb) pctldb_put_pre pctldb_take_pre ops db"
    "fifo_run (pctldb_put bdb) (pctldb_take bdb) ops db = (entered, taken, db')"
  shows "\<exists>es. pctldb_contents Q B db @ entered = es @ pctldb_contents Q B db' \<and>
    list_all2 same_element taken es"
  using pq.fifo_run_order [OF assms] by blast

theorem pctldb_fifo_witness:
  "let r = fifo_run (pctldb_put list_bdb) (pctldb_take list_bdb) example_ops empty_pctldb in
   map (seq_number \<circ> fst) (fst r) = [7, 8] \<and> map snd (fst (snd r)) = [Some [65, 66]] \<and>
   (\<exists>es. pctldb_contents id id empty_pctldb @ fst r = es @ pctldb_contents id id (snd (snd r)) \<and>
    list_all2 same_element (fst (snd r)) es)"
proof -
  let ?r = "fifo_run (pctldb_put list_bdb) (pctldb_take list_bdb) example_ops empty_pctldb"
  have pre: "fifo_pre (pctldb_put list_bdb) (pctldb_take list_bdb) pctldb_put_pre pctldb_take_pre
      example_ops empty_pctldb"
    by code_simp
  have "map (seq_number \<circ> fst) (fst ?r) = [7, 8]" by code_simp
  moreover have "map snd (fst (snd ?r)) = [Some [65, 66]]" by code_simp
  moreover have "\<exists>es. pctldb_contents id id empty_pctldb @ fst ?r =
      es @ pctldb_contents id id (snd (snd ?r)) \<and> list_all2 same_element (fst (snd ?r)) es"
    by (rule pctldb_fifo [OF empty_pctldb_inv pre]) simp
  ultimately show ?thesis by (simp only: Let_def)
qed

text \<open>
  C22. The hard limits hold: a sending never takes the queue over its configured maximal number
  of elements, nor the stored data over the configured size, whatever the database does.
\<close>

theorem pctldb_send_respects_limits:
  assumes "pctldb_send_pce bdb lock clock db pce = Some (st, e, pce', db')"
    "0 < hardlimit db \<Longrightarrow> db_n db \<le> hardlimit db"
    "0 < mf_hardlimit_mb db \<Longrightarrow> mf_total_size db \<le> size_mul (mf_hardlimit_mb db) (1024 * 1024)"
  shows "(0 < hardlimit db' \<longrightarrow> db_n db' \<le> hardlimit db') \<and>
    (0 < mf_hardlimit_mb db' \<longrightarrow> mf_total_size db' \<le> size_mul (mf_hardlimit_mb db') (1024 * 1024))"
  using pctldb_send_within_limits [OF assms(1)] assms(2,3) by (simp add: within_limits_def)

theorem pctldb_send_respects_limits_witness:
  "let db' = snd (snd (snd (the (pctldb_send_pce list_bdb 0 (Some (Timespec 100 5)) empty_pctldb
                                  (example_pce 7 [65, 66])))))
   in db_n db' = 1 \<and> db_n db' \<le> hardlimit db'"
proof -
  let ?r = "pctldb_send_pce list_bdb 0 (Some (Timespec 100 5)) empty_pctldb (example_pce 7 [65, 66])"
  have "?r \<noteq> None" by (rule pctldb_send_pce_some)
  then obtain st e p d where r: "?r = Some (st, e, p, d)" by (cases ?r) auto
  have "hardlimit (snd (snd (snd (the ?r)))) = 2" "db_n (snd (snd (snd (the ?r)))) = 1" by code_simp+
  with pctldb_send_respects_limits [OF r] show ?thesis
    by (simp add: r empty_pctldb_def)
qed

end
