(* ===== verification/Pctl.thy ===== *)
theory Pctl
  imports Pctldb
begin

text \<open>
  The product control of \<^verbatim>\<open>src/pctl.c\<close>: one active element per Noaaport channel, filled by the
  readers, the queue of finished elements, and the working element and memory file of the
  processor.

  The elements are kept by value; the pointer \<^verbatim>\<open>pctl->activepce[i]\<close> is the index \<open>i\<close>. A channel
  index out of range fails the assertion of the source and is \<^const>\<open>None\<close>. The sizes of the
  structures are those of the LP64 hosts.
\<close>

record ('q, 'b) pctl_st =
  pctldb :: "('q, 'b) pctldb_st"
  activepce :: "pctl_element_st list"
  outputmf :: memfile_st
  out_pce :: pctl_element_st
  status_current :: int
  status_last :: int

abbreviation FNAME_SIZE :: nat where "FNAME_SIZE \<equiv> 18"
abbreviation FBASENAME_SIZE :: nat where "FBASENAME_SIZE \<equiv> 36"
abbreviation SIZEOF_PCE :: nat where "SIZEOF_PCE \<equiv> 264"
abbreviation OFFSETOF_FPATH :: nat where "OFFSETOF_FPATH \<equiv> 260"

section \<open>Elements\<close>

text \<open>\<^verbatim>\<open>const_fpath_maxsize\<close> (in \<^verbatim>\<open>src/framep.c\<close>) is the longest path, without the final NUL.\<close>

definition const_fpath_maxsize :: "bytes \<Rightarrow> nat" where
  "const_fpath_maxsize spooldir = length spooldir + WMO_STATION_SIZE + FBASENAME_SIZE + 2"

definition const_pce_size :: "bytes \<Rightarrow> nat" where
  "const_pce_size spooldir = SIZEOF_PCE + const_fpath_maxsize spooldir + 1"

definition const_pce_data_size :: "bytes \<Rightarrow> nat" where
  "const_pce_data_size spooldir = const_pce_size spooldir"

text \<open>The fields that are not set keep the contents \<open>junk\<close> of the allocated memory.\<close>

definition create_pce ::
  "allocator \<Rightarrow> bytes \<Rightarrow> pctl_element_st \<Rightarrow> nat \<Rightarrow> pctl_element_st option" where
  "create_pce alloc spooldir junk memfile_size =
     (if \<not> can_alloc alloc (const_pce_size spooldir) then None
      else
        case create_memfile alloc memfile_size of
          None \<Rightarrow> None
        | Some mf \<Rightarrow> Some (junk\<lparr>pce_mf := mf, seq_number := 0,
                              fpath_size := int (const_fpath_maxsize spooldir + 1)\<rparr>))"

definition open_pce :: "pctl_element_st \<Rightarrow> int" where
  "open_pce pce = (if seq_number pce = 0 then open_memfile (pce_mf pce) else 1)"

definition close_pce :: "pctl_element_st \<Rightarrow> pctl_element_st" where
  "close_pce pce = pce\<lparr>pce_mf := close_memfile (pce_mf pce), seq_number := 0\<rparr>"

fun create_pce_array ::
  "allocator \<Rightarrow> bytes \<Rightarrow> pctl_element_st \<Rightarrow> nat \<Rightarrow> nat \<Rightarrow> pctl_element_st list option" where
  "create_pce_array alloc spooldir junk 0 memfile_size = Some []"
| "create_pce_array alloc spooldir junk (Suc n) memfile_size =
     (case create_pce alloc spooldir junk memfile_size of
        None \<Rightarrow> None
      | Some pce \<Rightarrow> map_option ((#) pce) (create_pce_array alloc spooldir junk n memfile_size))"

text \<open>
  Initialization. \<^const>\<open>None\<close> is the null dereference of \<^verbatim>\<open>pctldb_open\<close>; otherwise the status
  and, when it is 0, the control structure.
\<close>

definition pctl_init ::
  "allocator \<Rightarrow> ('q, 'b) bdb \<Rightarrow> ('q, 'b) open_calls \<Rightarrow> bytes \<Rightarrow> pctl_element_st \<Rightarrow> nat \<Rightarrow>
   pctldb_param_st \<Rightarrow> (int \<times> ('q, 'b) pctl_st option) option" where
  "pctl_init alloc bdb oc spooldir junk numchannels param =
     (case pctldb_open bdb oc (of_nat (const_pce_size spooldir)) param of
        None \<Rightarrow> None
      | Some (status, dberror, None) \<Rightarrow> Some (status, None)
      | Some (status, dberror, Some db) \<Rightarrow>
          (case (create_pce_array alloc spooldir junk numchannels (prm_memfile_minsize param),
                 create_memfile alloc (prm_memfile_minsize param),
                 create_pce alloc spooldir junk (prm_memfile_minsize param)) of
             (Some active, Some omf, Some pce) \<Rightarrow>
               Some (0, Some \<lparr>pctldb = db, activepce = active, outputmf = omf, out_pce = pce,
                              status_current = 0, status_last = 0\<rparr>)
           | _ \<Rightarrow> Some (-1, None)))"

section \<open>The active elements\<close>

definition channel_ok :: "('q, 'b) pctl_st \<Rightarrow> int \<Rightarrow> bool" where
  "channel_ok pctl channel_index \<longleftrightarrow>
     0 \<le> channel_index \<and> channel_index < int (length (activepce pctl))"

definition active :: "('q, 'b) pctl_st \<Rightarrow> int \<Rightarrow> pctl_element_st" where
  "active pctl channel_index = activepce pctl ! nat channel_index"

definition set_active ::
  "int \<Rightarrow> pctl_element_st \<Rightarrow> ('q, 'b) pctl_st \<Rightarrow> ('q, 'b) pctl_st" where
  "set_active channel_index pce pctl =
     pctl\<lparr>activepce := (activepce pctl)[nat channel_index := pce]\<rparr>"

text \<open>Whether the element of the channel is free to be used (the pointer is not null).\<close>

definition open_pctl_activepce :: "('q, 'b) pctl_st \<Rightarrow> int \<Rightarrow> bool option" where
  "open_pctl_activepce pctl channel_index =
     (if \<not> channel_ok pctl channel_index then None
      else Some (open_pce (active pctl channel_index) = 0))"

definition close_pctl_activepce :: "('q, 'b) pctl_st \<Rightarrow> int \<Rightarrow> ('q, 'b) pctl_st option" where
  "close_pctl_activepce pctl channel_index =
     (if \<not> channel_ok pctl channel_index then None
      else Some (set_active channel_index (close_pce (active pctl channel_index)) pctl))"

text \<open>The active element when its sequence number is the given one; inner \<^const>\<open>None\<close>: null.\<close>

definition get_pctl_activepce ::
  "('q, 'b) pctl_st \<Rightarrow> int \<Rightarrow> u32 \<Rightarrow> pctl_element_st option option" where
  "get_pctl_activepce pctl channel_index seqnumber =
     (if \<not> channel_ok pctl channel_index then None
      else if seq_number (active pctl channel_index) \<noteq> seqnumber then Some None
      else Some (Some (active pctl channel_index)))"

definition update_activepce_framecounter ::
  "('q, 'b) pctl_st \<Rightarrow> int \<Rightarrow> u32 \<Rightarrow> int \<Rightarrow> (int \<times> ('q, 'b) pctl_st) option" where
  "update_activepce_framecounter pctl channel_index seqnumber block_number =
     (if \<not> channel_ok pctl channel_index then None
      else
        let pce = active pctl channel_index in
        if seq_number pce \<noteq> seqnumber then Some (1, pctl)
        else if block_number = recv_fragments pce then
          Some (0, set_active channel_index (pce\<lparr>recv_fragments := recv_fragments pce + 1\<rparr>) pctl)
        else Some (2, pctl))"

definition complete_activepce ::
  "('q, 'b) pctl_st \<Rightarrow> int \<Rightarrow> u32 \<Rightarrow> (int \<times> ('q, 'b) pctl_st) option" where
  "complete_activepce pctl channel_index seqnumber =
     (if \<not> channel_ok pctl channel_index then None
      else
        let pce = active pctl channel_index in
        if seq_number pce \<noteq> seqnumber then Some (1, pctl)
        else if num_fragments pce > recv_fragments pce then Some (2, pctl)
        else Some (0, set_active channel_index (pce\<lparr>f_complete := 1\<rparr>) pctl))"

section \<open>The queue\<close>

definition epctl_send ::
  "('q, 'b) bdb \<Rightarrow> int \<Rightarrow> timespec option \<Rightarrow> ('q, 'b) pctl_st \<Rightarrow> int \<Rightarrow>
   (int \<times> ('q, 'b) pctl_st) option" where
  "epctl_send bdb lock clock pctl channel_index =
     (if \<not> channel_ok pctl channel_index then None
      else
        case pctldb_send_pce bdb lock clock (pctldb pctl) (active pctl channel_index) of
          None \<Rightarrow> None
        | Some (status, dberror, pce, db) \<Rightarrow>
            Some (if status = 1 then 0 else status,
                  (set_active channel_index pce pctl)\<lparr>pctldb := db, status_current := status\<rparr>))"

definition esend_pctl_activepce ::
  "('q, 'b) bdb \<Rightarrow> int \<Rightarrow> timespec option \<Rightarrow> ('q, 'b) pctl_st \<Rightarrow> int \<Rightarrow>
   (int \<times> ('q, 'b) pctl_st) option" where
  "esend_pctl_activepce bdb lock clock pctl channel_index =
     epctl_send bdb lock clock pctl channel_index"

definition epctl_rcv ::
  "allocator \<Rightarrow> ('q, 'b) bdb \<Rightarrow> int \<Rightarrow> (int \<times> ('q, 'b) pctldb_st) list \<Rightarrow> ('q, 'b) pctl_st \<Rightarrow>
   (int \<times> ('q, 'b) pctl_st) option" where
  "epctl_rcv alloc bdb lock waits pctl =
     (case pctldb_rcv_pce alloc bdb lock waits (pctldb pctl) (out_pce pctl) of
        None \<Rightarrow> None
      | Some (status, dberror, pce, db) \<Rightarrow> Some (status, pctl\<lparr>pctldb := db, out_pce := pce\<rparr>))"

definition eopen_pctl_outputpce ::
  "allocator \<Rightarrow> ('q, 'b) bdb \<Rightarrow> int \<Rightarrow> (int \<times> ('q, 'b) pctldb_st) list \<Rightarrow> ('q, 'b) pctl_st \<Rightarrow>
   (int \<times> pctl_element_st option \<times> ('q, 'b) pctl_st) option" where
  "eopen_pctl_outputpce alloc bdb lock waits pctl =
     (case epctl_rcv alloc bdb lock waits pctl of
        None \<Rightarrow> None
      | Some (status, pctl) \<Rightarrow>
          Some (status, if status = 0 then Some (out_pce pctl) else None, pctl))"

definition close_pctl_outputpce :: "('q, 'b) pctl_st \<Rightarrow> ('q, 'b) pctl_st" where
  "close_pctl_outputpce pctl = pctl\<lparr>out_pce := close_pce (out_pce pctl)\<rparr>"

definition reopen_pctl_outputmf :: "('q, 'b) pctl_st \<Rightarrow> memfile_st option \<times> ('q, 'b) pctl_st" where
  "reopen_pctl_outputmf pctl =
     (let mf = close_memfile (outputmf pctl); pctl = pctl\<lparr>outputmf := mf\<rparr>
      in (if open_memfile mf \<noteq> 0 then None else Some mf, pctl))"

text \<open>What is reported (soft limit, hard limit, limit restored), and the status remembered.\<close>

datatype queue_report = Report_none | Report_soft | Report_hard | Report_restored

definition epctl_report_status :: "('q, 'b) pctl_st \<Rightarrow> queue_report \<times> ('q, 'b) pctl_st" where
  "epctl_report_status pctl =
     (if status_current pctl = 1 then Report_soft
      else if status_current pctl = 2 then Report_hard
      else if status_current pctl = 0 \<and> status_current pctl \<noteq> status_last pctl then Report_restored
      else Report_none,
      pctl\<lparr>status_last := status_current pctl\<rparr>)"

section \<open>Lemmas\<close>

lemma active_set_active [simp]:
  "channel_ok pctl i \<Longrightarrow> active (set_active i p pctl) i = p"
  "channel_ok pctl i \<Longrightarrow> channel_ok pctl j \<Longrightarrow> i \<noteq> j \<Longrightarrow> active (set_active i p pctl) j = active pctl j"
  by (auto simp: active_def set_active_def channel_ok_def)

lemma set_active_simps [simp]:
  "channel_ok (set_active i p pctl) j = channel_ok pctl j"
  "channel_ok (pctl\<lparr>pctldb := db\<rparr>) j = channel_ok pctl j"
  "channel_ok (pctl\<lparr>status_current := st\<rparr>) j = channel_ok pctl j"
  "active (pctl\<lparr>pctldb := db\<rparr>) j = active pctl j"
  "active (pctl\<lparr>status_current := st\<rparr>) j = active pctl j"
  "pctldb (set_active i p pctl) = pctldb pctl"
  by (simp_all add: channel_ok_def set_active_def active_def)

lemma open_after_close: "open_pce (close_pce p) = 0"
  by (simp add: open_pce_def close_pce_def)

text \<open>The path of a product always fits in what is allocated after the fixed fields.\<close>

lemma fpath_allocation:
  "OFFSETOF_FPATH + (const_fpath_maxsize spooldir + 1) \<le> const_pce_size spooldir"
  by (simp add: const_pce_size_def)

definition pce_ok :: "pctl_element_st \<Rightarrow> bool" where
  "pce_ok p \<longleftrightarrow> mf_inv (pce_mf p)"

lemma create_pce_ok: "create_pce alloc dir junk n = Some p \<Longrightarrow> pce_ok p \<and> open_pce p = 0"
  using create_memfile_inv
  by (fastforce simp: create_pce_def pce_ok_def open_pce_def open_memfile_def create_memfile_def
      Let_def split: option.splits if_splits)

lemma create_pce_array_ok:
  "create_pce_array alloc dir junk n m = Some ps \<Longrightarrow>
   length ps = n \<and> (\<forall>p \<in> set ps. pce_ok p \<and> open_pce p = 0)"
  by (induction n arbitrary: ps) (auto split: option.splits dest: create_pce_ok)

lemma close_pce_ok [simp]: "pce_ok p \<Longrightarrow> pce_ok (close_pce p)"
  by (simp add: pce_ok_def close_pce_def close_memfile_inv)

end
