(* ===== verification/Framep.thy ===== *)
theory Framep
  imports Pctl Stats "HOL-Library.Monad_Syntax"
begin

text \<open>
  The frame processor \<^verbatim>\<open>sbnframeproc\<close> of \<^verbatim>\<open>src/framep.c\<close>, which every reader calls with each frame
  it receives: unpacking, the statistics, the start, progress and end of a product on its
  channel, the names of the product file, and saving the frame in the memory file.

  What the function reads of its surroundings and does not change is the record \<open>nbsp_env\<close>:
  the allocator, zlib, Berkeley DB, the status of locking the queue, the clock (its successive
  readings, \<^const>\<open>None\<close> for a failed one), the configuration and the two name filters (0:
  accepted, 1: rejected, -1: error). What it changes is \<open>globals_st\<close>. A \<^const>\<open>None\<close> is a failed assertion
  or an access outside an array.
\<close>

record ('q, 'b) nbsp_env =
  env_alloc :: allocator
  env_uncompress :: uncompress
  env_bdb :: "('q, 'b) bdb"
  env_lock :: int
  env_clock :: "nat \<Rightarrow> timespec option"
  env_spooldir :: bytes
  env_spoolsavefmt :: int
  env_memfile_blocksize :: int
  env_memfile_minsize :: int
  env_np_regex_match :: "bytes \<Rightarrow> int"
  env_savez_regex_match :: "bytes \<Rightarrow> int"

record ('q, 'b) globals_st =
  g_stats :: nbsp_stats_st
  g_framep :: "frame_level_header list"
  g_pctl :: "('q, 'b) pctl_st"
  g_readings :: nat
  g_loadave_max_rtx :: int

abbreviation upd_stats :: "(nbsp_stats_st \<Rightarrow> nbsp_stats_st) \<Rightarrow> ('q, 'b) globals_st \<Rightarrow> ('q, 'b) globals_st" where
  "upd_stats f g \<equiv> g\<lparr>g_stats := f (g_stats g)\<rparr>"

text \<open>The calls on the product control, on the globals.\<close>

definition g_send ::
  "('q, 'b) nbsp_env \<Rightarrow> ('q, 'b) globals_st \<Rightarrow> int \<Rightarrow> (int \<times> ('q, 'b) globals_st) option" where
  "g_send env g channel_index =
     map_option (\<lambda>(status, pctl). (status, g\<lparr>g_pctl := pctl, g_readings := Suc (g_readings g)\<rparr>))
       (esend_pctl_activepce (env_bdb env) (env_lock env) (env_clock env (g_readings g))
          (g_pctl g) channel_index)"

definition g_close :: "('q, 'b) globals_st \<Rightarrow> int \<Rightarrow> ('q, 'b) globals_st option" where
  "g_close g channel_index =
     map_option (\<lambda>pctl. g\<lparr>g_pctl := pctl\<rparr>) (close_pctl_activepce (g_pctl g) channel_index)"

section \<open>Names\<close>

definition make_product_fname :: "wmo_header \<Rightarrow> bytes option" where
  "make_product_fname w =
     (let name = take WMO_STATION_SIZE (wmo_station w) @ ascii ''_'' @ take WMO_ID_SIZE (wmo_id w);
          n = length (wmo_station w) + 1 + length (wmo_id w);
          (name, n) =
            (if wmo_awips w \<noteq> []
             then (name @ ascii ''-'' @ take WMO_AWIPS_SIZE (wmo_awips w), n + 1 + length (wmo_awips w))
             else if wmo_notawips w \<noteq> []
             then (name @ ascii ''+'' @ take WMO_NOTAWIPS_SIZE (wmo_notawips w),
                   n + 1 + length (wmo_notawips w))
             else (name, n))
      in if n \<le> FNAME_SIZE then Some (map tolower name) else None)"

definition make_product_fbasename :: "pctl_element_st \<Rightarrow> (int \<times> pctl_element_st) option" where
  "make_product_fbasename pce =
     (let s = fname pce @ ascii ''.'' @ wmo_time (pce_wmo pce) @ ascii ''_'' @ dec (unat (seq_number pce))
      in if length s < FBASENAME_SIZE + 1 then Some (0, pce\<lparr>fbasename := s\<rparr>) else None)"

definition make_product_fpath :: "bytes \<Rightarrow> pctl_element_st \<Rightarrow> int \<times> pctl_element_st" where
  "make_product_fpath spooldir pce =
     (let station = map tolower (wmo_station (pce_wmo pce));
          s = spooldir @ ascii ''/'' @ station @ ascii ''/'' @ fbasename pce
      in (if int (length s) \<ge> fpath_size pce then 1 else 0,
          pce\<lparr>fpath := take (nat (fpath_size pce - 1)) s\<rparr>))"

section \<open>Starting a product\<close>

definition init_activepce ::
  "('q, 'b) nbsp_env \<Rightarrow> timespec \<Rightarrow> sbn_frame \<Rightarrow> pctl_element_st \<Rightarrow> pctl_element_st" where
  "init_activepce env now sbnf pce =
     (let pce = pce\<lparr>
            f_complete := 0,
            num_fragments := (if psh_num_fragments (psh sbnf) = 0 then 1 else psh_num_fragments (psh sbnf)),
            recv_fragments := 0,
            seq_number := pdh_product_seq_number (pdh sbnf),
            orig_seq_number := psh_orig_seq_number (psh sbnf),
            pce_sbn_datstream := fh_sbn_datstream (fh sbnf),
            pce_product_type := psh_product_type (psh sbnf),
            pce_product_category := psh_product_category (psh sbnf),
            pce_product_code := psh_product_code (psh sbnf),
            pce_np_channel_index := np_channel_index sbnf,
            pce_ts := now,
            save_format := env_spoolsavefmt env,
            saveunz_flag := 0,
            rtxdb_flag := 0\<rparr>;
          estimate = size_add 0 (c_int (env_memfile_blocksize env * num_fragments pce));
          minsize = size_add 0 (env_memfile_minsize env);
          estimate = (if estimate < minsize then minsize else estimate)
      in pce\<lparr>pce_mf := snd (adjust_memfile_size (env_alloc env) (pce_mf pce) estimate)\<rparr>)"

text \<open>
  The names and the filters. Status 0: to be received; 1: bad WMO header; 3: the path does
  not fit; 4: rejected by a filter or because of the load.
\<close>

definition name_activepce ::
  "('q, 'b) nbsp_env \<Rightarrow> int \<Rightarrow> sbn_frame \<Rightarrow> pctl_element_st \<Rightarrow> (int \<times> pctl_element_st) option" where
  "name_activepce env load_rtx sbnf pce =
     (let (wmo_status, w) = split_wmo_header sbnf (pce_wmo pce); pce = pce\<lparr>pce_wmo := w\<rparr> in
      if wmo_status \<noteq> 0 then Some (1, pce)
      else do {
        name \<leftarrow> make_product_fname w;
        (st, pce) \<leftarrow> make_product_fbasename (pce\<lparr>fname := name\<rparr>);
        if st \<noteq> 0 then Some (2, pce)
        else
          let (st, pce) = make_product_fpath (env_spooldir env) pce in
          if st \<noteq> 0 then Some (3, pce)
          else if env_np_regex_match env (fname pce) = 1 then Some (4, pce)
          else if orig_seq_number pce \<noteq> 0 \<and> load_rtx = 1 then Some (4, pce)
          else if f_frdata_compressed sbnf \<noteq> 0 \<and> env_savez_regex_match env (fname pce) = 1
                  \<and> pce_ctrlhdr_size pce \<noteq> 0
          then Some (0, pce\<lparr>saveunz_flag := 1\<rparr>)
          else Some (0, pce)
      })"

text \<open>The active element of the channel, freed first when a product was left unfinished.\<close>

definition reclaim_activepce ::
  "('q, 'b) nbsp_env \<Rightarrow> int \<Rightarrow> ('q, 'b) globals_st \<Rightarrow> ('q, 'b) globals_st option" where
  "reclaim_activepce env i g = do {
     free \<leftarrow> open_pctl_activepce (g_pctl g) i;
     if free then Some g
     else do {
       (_, g) \<leftarrow> g_send env (upd_stats update_stats_products_missed g) i;
       g \<leftarrow> g_close g i;
       free \<leftarrow> open_pctl_activepce (g_pctl g) i;
       if free then Some g else None
     }
   }"

definition start_activepce ::
  "('q, 'b) nbsp_env \<Rightarrow> sbn_frame \<Rightarrow> ('q, 'b) globals_st \<Rightarrow> (int \<times> ('q, 'b) globals_st) option" where
  "start_activepce env sbnf g =
     (let i = np_channel_index sbnf in
      if pdh_block_number (pdh sbnf) \<noteq> 0 then None
      else do {
        g \<leftarrow> reclaim_activepce env i g;
        now \<leftarrow> env_clock env (g_readings g);
        let g = g\<lparr>g_readings := Suc (g_readings g)\<rparr>;
        let pce = init_activepce env now sbnf (active (g_pctl g) i);
        (_, hdr) \<leftarrow> copy_ctrlheader (int MAX_CTRLHDR_SIZE) sbnf;
        let pce = pce\<lparr>pce_ctrlhdr := hdr, pce_ctrlhdr_size := int (length hdr),
                      f_has_ccb := (if ccb sbnf \<noteq> Null then 1 else 0)\<rparr>;
        (status, pce) \<leftarrow> name_activepce env (g_loadave_max_rtx g) sbnf pce;
        let g = g\<lparr>g_pctl := set_active i pce (g_pctl g)\<rparr>;
        g \<leftarrow> (if status \<noteq> 0 then g_close g i else Some g);
        Some (status, g)
      })"

text \<open>The diagnostic message reads the active element, which must be the one of the frame.\<close>

definition log_pce_diag :: "sbn_frame \<Rightarrow> ('q, 'b) globals_st \<Rightarrow> unit option" where
  "log_pce_diag sbnf g = do {
     pce \<leftarrow> get_pctl_activepce (g_pctl g) (np_channel_index sbnf) (pdh_product_seq_number (pdh sbnf));
     if pce = None then None else Some ()
   }"

definition e_start_activepce ::
  "('q, 'b) nbsp_env \<Rightarrow> sbn_frame \<Rightarrow> ('q, 'b) globals_st \<Rightarrow> (int \<times> ('q, 'b) globals_st) option" where
  "e_start_activepce env sbnf g =
     (if pdh_block_number (pdh sbnf) \<noteq> 0 then Some (1, g)
      else do {
        (status, g) \<leftarrow> start_activepce env sbnf (upd_stats update_stats_products_transmitted g);
        _ \<leftarrow> (if status \<in> {-1, 1, 2, 3, 4} then Some () else log_pce_diag sbnf g);
        let g = (if status = 4 then upd_stats update_stats_products_rejected g else g);
        let g = (if status \<noteq> 0 \<and> status \<noteq> 4 then upd_stats update_stats_products_missed g else g);
        Some (status, g)
      })"

section \<open>The frames of a product\<close>

text \<open>What is written to the memory file: the status (0, or -1 for an error) and the file.\<close>

definition save_in ::
  "('q, 'b) nbsp_env \<Rightarrow> sbn_frame \<Rightarrow> int \<Rightarrow> memfile_st \<Rightarrow> (int \<times> memfile_st) option" where
  "save_in env s u m =
     (if u = 0 then do {
        (st, mf) \<leftarrow>
          (if pdh_block_number (pdh s) = 0 \<and> ctrlhdr s \<noteq> Null
           then write_memfile (env_alloc env) m (mem s (ctrlhdr s)) (ctrlhdr_size s)
           else Some (0, m));
        if st < 0 then Some (-1, mf)
        else do {
          (st, mf) \<leftarrow> write_memfile (env_alloc env) mf (mem s (frdata s)) (frdata_size s);
          Some (if st < 0 then -1 else 0, mf)
        }
      }
      else do {
        (st, mf) \<leftarrow> write_memframe (env_alloc env) m (mem s (frdata s)) (frdata_size s) (f_frdata_compressed s);
        Some (if st < 0 then -1 else 0, mf)
      })"

definition msave_frame ::
  "('q, 'b) nbsp_env \<Rightarrow> sbn_frame \<Rightarrow> ('q, 'b) globals_st \<Rightarrow> (int \<times> ('q, 'b) globals_st) option" where
  "msave_frame env sbnf g =
     (let i = np_channel_index sbnf in do {
        r \<leftarrow> get_pctl_activepce (g_pctl g) i (pdh_product_seq_number (pdh sbnf));
        case r of
          None \<Rightarrow> Some (1, g)
        | Some pce \<Rightarrow> do {
            (status, mf) \<leftarrow> save_in env sbnf (saveunz_flag pce) (pce_mf pce);
            Some (status, g\<lparr>g_pctl := set_active i (pce\<lparr>pce_mf := mf\<rparr>) (g_pctl g)\<rparr>)
          }
      })"

definition update_activepce ::
  "('q, 'b) nbsp_env \<Rightarrow> sbn_frame \<Rightarrow> ('q, 'b) globals_st \<Rightarrow> (int \<times> ('q, 'b) globals_st) option" where
  "update_activepce env sbnf g = do {
     (status, pctl) \<leftarrow> update_activepce_framecounter (g_pctl g) (np_channel_index sbnf)
                         (pdh_product_seq_number (pdh sbnf)) (pdh_block_number (pdh sbnf));
     let g = g\<lparr>g_pctl := pctl\<rparr>;
     if status = 0 then msave_frame env sbnf g else Some (status, g)
   }"

definition e_update_activepce ::
  "('q, 'b) nbsp_env \<Rightarrow> sbn_frame \<Rightarrow> ('q, 'b) globals_st \<Rightarrow> (int \<times> ('q, 'b) globals_st) option" where
  "e_update_activepce env sbnf g = do {
     (status, g) \<leftarrow> update_activepce env sbnf g;
     if status = 1 then Some (0, g)
     else if status = 2 \<or> status = -1 then do {
       (_, g) \<leftarrow> g_send env (upd_stats update_stats_products_missed g) (np_channel_index sbnf);
       g \<leftarrow> g_close g (np_channel_index sbnf);
       Some (status, g)
     }
     else do {
       _ \<leftarrow> log_pce_diag sbnf g;
       Some (status, g)
     }
   }"

text \<open>The element is closed also when the frame belongs to another product (status 1).\<close>

definition e_end_activepce ::
  "('q, 'b) nbsp_env \<Rightarrow> sbn_frame \<Rightarrow> ('q, 'b) globals_st \<Rightarrow> (int \<times> ('q, 'b) globals_st) option" where
  "e_end_activepce env sbnf g = do {
     (status, pctl) \<leftarrow> complete_activepce (g_pctl g) (np_channel_index sbnf)
                         (pdh_product_seq_number (pdh sbnf));
     let g = g\<lparr>g_pctl := pctl\<rparr>;
     (status, g) \<leftarrow>
       (if status = 1 then Some (status, g)
        else
          g_send env
            (if status = 0 then upd_stats update_stats_products_completed g
             else upd_stats update_stats_products_missed g)
            (np_channel_index sbnf));
     g \<leftarrow> g_close g (np_channel_index sbnf);
     Some (status, g)
   }"

definition abort_activepce ::
  "sbn_frame \<Rightarrow> ('q, 'b) globals_st \<Rightarrow> ('q, 'b) globals_st option" where
  "abort_activepce sbnf g = g_close (upd_stats update_stats_products_aborted g) (np_channel_index sbnf)"

section \<open>The frame processor\<close>

definition update_framep_info ::
  "sbn_frame \<Rightarrow> ('q, 'b) globals_st \<Rightarrow> ('q, 'b) globals_st option" where
  "update_framep_info sbnf g =
     (let i = np_channel_index sbnf in
      if i < 0 \<or> i \<ge> int (length (g_framep g)) then None
      else
        let prev = fh_sbn_seq_number (g_framep g ! nat i);
            current = fh_sbn_seq_number (fh sbnf);
            g = (if prev > 0 \<and> current > prev + 1 then upd_stats update_stats_frames_jumps g else g)
        in Some (g\<lparr>g_framep := (g_framep g)[nat i := fh sbnf]\<rparr>))"

definition e_sbn_unpack_frame ::
  "('q, 'b) nbsp_env \<Rightarrow> sbn_frame \<Rightarrow> ('q, 'b) globals_st \<Rightarrow>
   (int \<times> sbn_frame \<times> ('q, 'b) globals_st) option" where
  "e_sbn_unpack_frame env sbnf g =
     (let g = upd_stats (update_stats_frames_received (word_of_int (rawdata_size sbnf))) g;
          (status, sbnf) = sbn_unpack_frame (env_uncompress env) sbnf
      in
      if status = 0 \<or> status = 3 then
        map_option (\<lambda>g. (status, sbnf, g))
          (update_framep_info sbnf (upd_stats (update_stats_frames 0) g))
      else Some (status, sbnf, upd_stats (update_stats_frames status) g))"

definition e_sbn_command_nondata :: "sbn_frame \<Rightarrow> int" where
  "e_sbn_command_nondata sbnf = 0"

text \<open>A retransmission is counted; otherwise the original sequence number is cleared.\<close>

definition note_retransmission ::
  "sbn_frame \<Rightarrow> ('q, 'b) globals_st \<Rightarrow> sbn_frame \<times> ('q, 'b) globals_st" where
  "note_retransmission sbnf g =
     (if psh_transfer_status_flag (psh sbnf) AND PSH_STATUSFLAG_RETRANSMIT \<noteq> 0
      then (sbnf, upd_stats update_stats_products_retransmitted g)
      else (sbnf\<lparr>psh := (psh sbnf)\<lparr>psh_orig_seq_number := 0\<rparr>\<rparr>, g))"

text \<open>The progress and end of a product, each after the success of the stage before.\<close>

definition later_stages ::
  "('q, 'b) nbsp_env \<Rightarrow> int \<Rightarrow> int \<Rightarrow> sbn_frame \<Rightarrow> ('q, 'b) globals_st \<Rightarrow>
   (int \<times> ('q, 'b) globals_st) option" where
  "later_stages env transfertype status sbnf g = do {
     (status, g) \<leftarrow>
       (if status = 0 \<and> transfertype AND PDH_TRANSFERTYPE_PROGRESS \<noteq> 0
        then e_update_activepce env sbnf g else Some (status, g));
     if status = 0 \<and> transfertype AND PDH_TRANSFERTYPE_END \<noteq> 0
     then e_end_activepce env sbnf g else Some (status, g)
   }"

definition data_frame ::
  "('q, 'b) nbsp_env \<Rightarrow> sbn_frame \<Rightarrow> ('q, 'b) globals_st \<Rightarrow>
   (int \<times> sbn_frame \<times> ('q, 'b) globals_st) option" where
  "data_frame env sbnf g =
     (let transfertype = pdh_transfer_type (pdh sbnf) in
      if transfertype AND (PDH_TRANSFERTYPE_ERROR OR PDH_TRANSFERTYPE_ABORT) \<noteq> 0 then
        map_option (\<lambda>g. (0, sbnf, g)) (abort_activepce sbnf g)
      else if transfertype AND PDH_TRANSFERTYPE_START \<noteq> 0 then
        let (sbnf, g) = note_retransmission sbnf g in do {
          (status, g) \<leftarrow> e_start_activepce env sbnf g;
          (status, g) \<leftarrow> later_stages env transfertype status sbnf g;
          Some (status, sbnf, g)
        }
      else map_option (\<lambda>(status, g). (status, sbnf, g)) (later_stages env transfertype 0 sbnf g))"

definition sbnframeproc ::
  "('q, 'b) nbsp_env \<Rightarrow> sbn_frame \<Rightarrow> ('q, 'b) globals_st \<Rightarrow>
   (int \<times> sbn_frame \<times> ('q, 'b) globals_st) option" where
  "sbnframeproc env sbnf g = do {
     (status, sbnf, g) \<leftarrow> e_sbn_unpack_frame env sbnf g;
     if status \<noteq> 0 then Some (status, sbnf, g)
     else if fh_sbn_command (fh sbnf) \<noteq> SBN_COMMAND_DATA_TRANSFER
     then Some (e_sbn_command_nondata sbnf, sbnf, g)
     else data_frame env sbnf g
   }"

section \<open>The names fit\<close>

lemma make_product_fname_fits:
  assumes "wmo_valid w"
  shows "\<exists>name. make_product_fname w = Some name \<and> length name \<le> FNAME_SIZE \<and>
    list_all (\<lambda>b. b \<noteq> 0 \<and> \<not> isupper b) name"
proof -
  have chars: "list_all (\<lambda>b. b \<noteq> 0) (wmo_station w)" "list_all (\<lambda>b. b \<noteq> 0) (wmo_id w)"
    "list_all (\<lambda>b. b \<noteq> 0) (wmo_awips w)" "list_all (\<lambda>b. b \<noteq> 0) (wmo_notawips w)"
    using assms by (auto simp: wmo_valid_def list_all_iff)
  have lower: "list_all (\<lambda>b. b \<noteq> 0 \<and> \<not> isupper b) (map tolower xs)"
    if "list_all (\<lambda>b. b \<noteq> 0) xs" for xs :: bytes
    using that by (auto simp: list_all_iff tolower_not_upper)
  have seps: "list_all (\<lambda>b. b \<noteq> 0 \<and> \<not> isupper b) (map tolower (ascii ''_''))"
    "list_all (\<lambda>b. b \<noteq> 0 \<and> \<not> isupper b) (map tolower (ascii ''-''))"
    "list_all (\<lambda>b. b \<noteq> 0 \<and> \<not> isupper b) (map tolower (ascii ''+''))"
    by (simp_all add: ascii_def tolower_not_upper)
  have len: "length (ascii ''_'') = 1" "length (ascii ''-'') = 1" "length (ascii ''+'') = 1"
    by (simp_all add: ascii_def)
  show ?thesis
    using assms lower [OF chars(1)] lower [OF chars(2)] lower [OF chars(3)] lower [OF chars(4)] seps len
    by (simp add: make_product_fname_def Let_def wmo_valid_def)
qed

lemma make_product_fbasename_fits:
  assumes "length (fname p) \<le> FNAME_SIZE" "length (wmo_time (pce_wmo p)) = WMO_TIME_SIZE"
  shows "\<exists>s. make_product_fbasename p = Some (0, p\<lparr>fbasename := s\<rparr>) \<and> length s \<le> FBASENAME_SIZE"
proof -
  have "length (dec (unat (seq_number p))) \<le> 10" by (rule length_dec_u32)
  moreover have "length (ascii ''.'') = 1" "length (ascii ''_'') = 1" by (simp_all add: ascii_def)
  ultimately show ?thesis
    using assms unfolding make_product_fbasename_def Let_def by (intro exI conjI) auto
qed

lemma make_product_fpath_fits:
  assumes "length (fbasename p) \<le> FBASENAME_SIZE" "length (wmo_station (pce_wmo p)) = WMO_STATION_SIZE"
    "fpath_size p = int (const_fpath_maxsize dir + 1)"
  shows "\<exists>s. make_product_fpath dir p = (0, p\<lparr>fpath := s\<rparr>) \<and> length s \<le> const_fpath_maxsize dir"
proof -
  have "length (ascii ''/'') = 1" by (simp add: ascii_def)
  with assms show ?thesis
    unfolding make_product_fpath_def Let_def const_fpath_maxsize_def by (intro exI conjI) auto
qed

text \<open>Naming a product never fails an assertion and never finds a name or path too long.\<close>

lemma name_activepce_fits:
  assumes "fpath_size p = int (const_fpath_maxsize (env_spooldir env) + 1)"
  shows "\<exists>st p'. name_activepce env l s p = Some (st, p') \<and> st \<in> {0, 1, 4} \<and> fpath_size p' = fpath_size p"
proof -
  obtain ws w where w: "split_wmo_header s (pce_wmo p) = (ws, w)" by fastforce
  show ?thesis
  proof (cases "ws = 0")
    case False
    then show ?thesis by (simp add: name_activepce_def w)
  next
    case True
    with w have v: "wmo_valid w" using split_wmo_header_valid by blast
    obtain name where n: "make_product_fname w = Some name" "length name \<le> FNAME_SIZE"
      using make_product_fname_fits [OF v] by blast
    let ?p = "p\<lparr>pce_wmo := w, fname := name\<rparr>"
    obtain b where b: "make_product_fbasename ?p = Some (0, ?p\<lparr>fbasename := b\<rparr>)" "length b \<le> FBASENAME_SIZE"
      using make_product_fbasename_fits [of ?p] n v by (auto simp: wmo_valid_def)
    obtain f where f: "make_product_fpath (env_spooldir env) (?p\<lparr>fbasename := b\<rparr>) =
        (0, ?p\<lparr>fbasename := b, fpath := f\<rparr>)"
      using make_product_fpath_fits [of "?p\<lparr>fbasename := b\<rparr>"] b(2) v assms by (auto simp: wmo_valid_def)
    show ?thesis
      unfolding name_activepce_def w Let_def prod.case using True n(1) b(1) f by simp
  qed
qed

end
