(* ===== verification/Frame_Simulation.thy ===== *)
theory Frame_Simulation
  imports Reassembly
begin

text \<open>
  The frame processor of \<^verbatim>\<open>src/framep.c\<close> implements the machine of \<open>Reassembly\<close>: a simulation,
  stage by stage, and its consequence for the products that reach the queue.
\<close>

section \<open>Relations\<close>

text \<open>A frame whose control header and data lie inside the bytes received.\<close>

definition frame_fits :: "sbn_frame \<Rightarrow> bool" where
  "frame_fits s \<longleftrightarrow>
     int_len (frdata_size s) \<and> nat (frdata_size s) \<le> length (mem s (frdata s)) \<and>
     (ctrlhdr s \<noteq> Null \<longrightarrow>
        int_len (ctrlhdr_size s) \<and> nat (ctrlhdr_size s) \<le> length (mem s (ctrlhdr s)))"

fun chan_rel :: "chan \<Rightarrow> pctl_element_st \<Rightarrow> bool" where
  "chan_rel Idle p \<longleftrightarrow> open_pce p = 0"
| "chan_rel (Collecting q n u fs) p \<longleftrightarrow>
     q \<noteq> 0 \<and> seq_number p = q \<and> num_fragments p = n \<and> recv_fragments p = int (length fs) \<and>
     saveunz_flag p = u \<and> f_complete p = 0 \<and> mf_data (pce_mf p) = collected u fs"

definition emits :: "pctl_element_st \<Rightarrow> emission \<Rightarrow> bool" where
  "emits p e \<longleftrightarrow>
     seq_number p = em_seq e \<and> num_fragments p = em_num e \<and> (f_complete p = 1 \<longleftrightarrow> em_complete e) \<and>
     mf_data (pce_mf p) = em_data e"

text \<open>The elements sent to the queue, in order, between two states of it.\<close>

inductive sends ::
  "('q, 'b) nbsp_env \<Rightarrow> ('q, 'b) pctldb_st \<Rightarrow> pctl_element_st list \<Rightarrow> ('q, 'b) pctldb_st \<Rightarrow> bool"
  for env where
  sends_nil: "sends env db [] db"
| sends_cons: "pctldb_send_pce (env_bdb env) (env_lock env) clock db p = Some (st, e, p', db1) \<Longrightarrow>
    sends env db1 ps db2 \<Longrightarrow> sends env db (p # ps) db2"

lemma sends_append: "sends env a ps b \<Longrightarrow> sends env b qs c \<Longrightarrow> sends env a (ps @ qs) c"
  by (induction rule: sends.induct) (auto intro: sends.intros)

definition g_ok :: "('q, 'b) globals_st \<Rightarrow> bool" where
  "g_ok g \<longleftrightarrow> (\<forall>p \<in> set (activepce (g_pctl g)). pce_ok p)"

text \<open>What a call on channel \<open>i\<close> that sends the elements \<open>ps\<close> may change.\<close>

definition touches ::
  "('q, 'b) nbsp_env \<Rightarrow> int \<Rightarrow> ('q, 'b) globals_st \<Rightarrow> pctl_element_st list \<Rightarrow> ('q, 'b) globals_st \<Rightarrow> bool" where
  "touches env i g ps g' \<longleftrightarrow>
     sends env (pctldb (g_pctl g)) ps (pctldb (g_pctl g')) \<and>
     length (activepce (g_pctl g')) = length (activepce (g_pctl g)) \<and>
     (\<forall>j. 0 \<le> j \<and> j \<noteq> i \<longrightarrow> active (g_pctl g') j = active (g_pctl g) j) \<and>
     map fpath_size (activepce (g_pctl g')) = map fpath_size (activepce (g_pctl g)) \<and>
     (g_ok g \<longrightarrow> g_ok g')"

lemma touches_same: "g_pctl g' = g_pctl g \<Longrightarrow> touches env i g [] g'"
  by (simp add: touches_def sends.sends_nil g_ok_def)

lemma touches_trans: "touches env i a ps b \<Longrightarrow> touches env i b qs c \<Longrightarrow> touches env i a (ps @ qs) c"
  by (auto simp: touches_def intro: sends_append)

lemma touches_same_trans:
  "g_pctl a' = g_pctl a \<Longrightarrow> touches env i a' ps b \<Longrightarrow> touches env i a ps b"
  by (auto simp: touches_def g_ok_def)

lemma touches_channel:
  "touches env i g ps g' \<Longrightarrow> channel_ok (g_pctl g') j = channel_ok (g_pctl g) j"
  by (simp add: touches_def channel_ok_def)

lemma active_ok: "g_ok g \<Longrightarrow> channel_ok (g_pctl g) i \<Longrightarrow> pce_ok (active (g_pctl g) i)"
  by (auto simp: g_ok_def channel_ok_def active_def)

lemma touches_set:
  assumes "channel_ok (g_pctl g) i" "pce_ok (active (g_pctl g) i) \<Longrightarrow> pce_ok p"
    "g_pctl g' = set_active i p (g_pctl g)" "fpath_size p = fpath_size (active (g_pctl g) i)"
  shows "touches env i g [] g'" "active (g_pctl g') i = p"
proof -
  have "g_ok g' " if "g_ok g"
    using that assms active_ok [OF that assms(1)]
    by (auto simp: g_ok_def set_active_def dest: set_update_subset_insert [THEN subsetD])
  with assms show "touches env i g [] g'" "active (g_pctl g') i = p"
    by (auto simp: touches_def set_active_def active_def channel_ok_def map_update
        intro!: sends.sends_nil list_update_same_conv [THEN iffD2])
qed

section \<open>The calls\<close>

lemma fpath_size_close [simp]: "fpath_size (close_pce p) = fpath_size p"
  by (simp add: close_pce_def)

lemma g_close_touches:
  assumes "g_close g i = Some g'"
  shows "touches env i g [] g'" "active (g_pctl g') i = close_pce (active (g_pctl g) i)"
  using assms touches_set(1) [of g i "close_pce (active (g_pctl g) i)" g' env]
    touches_set(2) [of g i "close_pce (active (g_pctl g) i)" g']
  by (auto simp: g_close_def close_pctl_activepce_def split: if_splits)

lemma g_close_idle: "g_close g i = Some g' \<Longrightarrow> chan_rel Idle (active (g_pctl g') i)"
  by (simp add: g_close_touches(2) open_after_close)

lemma pctldb_send_pce_elem:
  assumes "pctldb_send_pce bdb lock clock db p = Some (st, e, p', db')"
  shows "p' = p \<or> (\<exists>k. p' = p\<lparr>tsqueue := k\<rparr>)"
  using assms by (auto simp: pctldb_send_pce_def Let_def split: if_splits option.splits prod.splits)

lemma g_send_touches:
  assumes "g_send env g i = Some (st, g')"
  shows "touches env i g [active (g_pctl g) i] g'"
    "active (g_pctl g') i = active (g_pctl g) i \<or>
     (\<exists>k. active (g_pctl g') i = (active (g_pctl g) i)\<lparr>tsqueue := k\<rparr>)"
proof -
  let ?p = "active (g_pctl g) i"
  obtain st1 e p' db where ok: "channel_ok (g_pctl g) i"
    and s: "pctldb_send_pce (env_bdb env) (env_lock env) (env_clock env (g_readings g))
        (pctldb (g_pctl g)) ?p = Some (st1, e, p', db)"
    and g': "g_pctl g' = (set_active i p' (g_pctl g))\<lparr>pctldb := db, status_current := st1\<rparr>"
    using assms
    by (auto simp: g_send_def esend_pctl_activepce_def epctl_send_def split: if_splits option.splits)
  note p' = pctldb_send_pce_elem [OF s]
  have pk: "pce_ok ?p \<Longrightarrow> pce_ok p'" using p' by (auto simp: pce_ok_def)
  let ?g1 = "g\<lparr>g_pctl := set_active i p' (g_pctl g)\<rparr>"
  have t: "touches env i g [] ?g1" "active (g_pctl ?g1) i = p'"
    using touches_set(1) [of g i p' ?g1 env] touches_set(2) [of g i p' ?g1] ok pk p' by auto
  have "sends env (pctldb (g_pctl g)) [?p] (pctldb (g_pctl g'))"
    using s g' by (auto intro: sends.intros)
  with t(1) g' show "touches env i g [?p] g'"
    by (auto simp: touches_def g_ok_def active_def)
  from t(2) g' p' show "active (g_pctl g') i = ?p \<or> (\<exists>k. active (g_pctl g') i = ?p\<lparr>tsqueue := k\<rparr>)"
    by (auto simp: active_def)
qed

text \<open>A product that is given up: it is sent, incomplete, and the channel is closed.\<close>

lemma send_close:
  assumes "g_send env g i = Some (st, g1)" "g_close g1 i = Some g2"
  shows "touches env i g [active (g_pctl g) i] g2" "chan_rel Idle (active (g_pctl g2) i)"
  using touches_trans [OF g_send_touches(1) [OF assms(1)] g_close_touches(1) [OF assms(2)]]
    g_close_idle [OF assms(2)] by simp_all

lemma emits_abandon:
  "chan_rel (Collecting q n u fs) p \<Longrightarrow> list_all2 emits [p] (abandon (Collecting q n u fs))"
  by (simp add: emits_def)

lemma reclaim_sim:
  assumes "reclaim_activepce env i g = Some g'" "chan_rel c (active (g_pctl g) i)"
  shows "\<exists>ps. touches env i g ps g' \<and> list_all2 emits ps (abandon c) \<and>
    open_pce (active (g_pctl g') i) = 0"
proof (cases c)
  case Idle
  with assms show ?thesis
    by (auto simp: reclaim_activepce_def open_pctl_activepce_def touches_same
        intro!: exI [of _ "[]"] split: if_splits bind_splits)
next
  case (Collecting q n u fs)
  let ?p = "active (g_pctl g) i"
  let ?g0 = "upd_stats update_stats_products_missed g"
  have busy: "open_pce ?p \<noteq> 0" using assms(2) Collecting by (simp add: open_pce_def)
  with assms(1) obtain st g1 where s: "g_send env ?g0 i = Some (st, g1)" "g_close g1 i = Some g'"
    by (auto simp: reclaim_activepce_def open_pctl_activepce_def split: bind_splits if_splits)
  from send_close [OF s] have "touches env i g [?p] g'" "open_pce (active (g_pctl g') i) = 0"
    by (auto intro: touches_same_trans [rotated])
  with emits_abandon [of q n u fs ?p] assms(2) Collecting show ?thesis by blast
qed

section \<open>Starting\<close>

text \<open>The fields of an element that the machine observes; naming a product changes none of them.\<close>

definition core :: "pctl_element_st \<Rightarrow> u32 \<times> int \<times> int \<times> int \<times> memfile_st \<times> int" where
  "core p = (seq_number p, num_fragments p, recv_fragments p, f_complete p, pce_mf p, fpath_size p)"

lemma core_update [simp]:
  "core (p\<lparr>pce_wmo := w\<rparr>) = core p" "core (p\<lparr>fname := n\<rparr>) = core p"
  "core (p\<lparr>fbasename := n\<rparr>) = core p" "core (p\<lparr>fpath := n\<rparr>) = core p"
  "core (p\<lparr>saveunz_flag := k\<rparr>) = core p"
  by (simp_all add: core_def)

lemma core_fbasename: "make_product_fbasename p = Some (st, p') \<Longrightarrow> core p' = core p"
  by (auto simp: make_product_fbasename_def Let_def split: if_splits)

lemma core_fpath: "make_product_fpath dir p = (st, p') \<Longrightarrow> core p' = core p"
  by (auto simp: make_product_fpath_def Let_def)

lemma core_name:
  assumes "name_activepce env l s p = Some (st, p')"
  shows "core p' = core p"
proof -
  obtain ws w where w: "split_wmo_header s (pce_wmo p) = (ws, w)" by fastforce
  note n = assms [unfolded name_activepce_def Let_def w prod.case]
  show ?thesis
  proof (cases "ws = 0")
    case False
    with n show ?thesis by auto
  next
    case True
    with n obtain name st1 p1 where p1: "make_product_fbasename (p\<lparr>pce_wmo := w, fname := name\<rparr>) = Some (st1, p1)"
      and r: "(if st1 \<noteq> 0 then Some (2, p1)
        else case make_product_fpath (env_spooldir env) p1 of (st, pce) \<Rightarrow>
          if st \<noteq> 0 then Some (3, pce)
          else if env_np_regex_match env (fname pce) = 1 then Some (4, pce)
          else if orig_seq_number pce \<noteq> 0 \<and> l = 1 then Some (4, pce)
          else if f_frdata_compressed s \<noteq> 0 \<and> env_savez_regex_match env (fname pce) = 1
                  \<and> pce_ctrlhdr_size pce \<noteq> 0
          then Some (0, pce\<lparr>saveunz_flag := 1\<rparr>)
          else Some (0, pce)) = Some (st, p')"
      by (auto simp: bind_eq_Some_conv)
    obtain st2 p2 where p2: "make_product_fpath (env_spooldir env) p1 = (st2, p2)" by fastforce
    from r p2 have "p' = p1 \<or> p' = p2 \<or> p' = p2\<lparr>saveunz_flag := 1\<rparr>" by (auto split: if_split_asm)
    with core_fbasename [OF p1] core_fpath [OF p2] show ?thesis by auto
  qed
qed

lemma name_activepce_keeps:
  assumes "name_activepce env l s p = Some (st, p')"
  shows "seq_number p' = seq_number p" "num_fragments p' = num_fragments p"
    "recv_fragments p' = recv_fragments p" "f_complete p' = f_complete p" "pce_mf p' = pce_mf p"
    "fpath_size p' = fpath_size p"
  using core_name [OF assms] by (simp_all add: core_def)

lemma name_activepce_unz:
  assumes "name_activepce env l s p = Some (st, p')" "f_frdata_compressed s = 0"
  shows "saveunz_flag p' = saveunz_flag p"
  using assms
  by (auto simp: name_activepce_def make_product_fbasename_def make_product_fpath_def Let_def
      bind_eq_Some_conv split: prod.splits if_splits)

lemma init_activepce_fields:
  assumes "pce_ok p" "open_pce p = 0"
  shows "pce_ok (init_activepce env now s p)" "mf_data (pce_mf (init_activepce env now s p)) = []"
    "seq_number (init_activepce env now s p) = frame_seq s"
    "num_fragments (init_activepce env now s p) =
      (if psh_num_fragments (psh s) = 0 then 1 else psh_num_fragments (psh s))"
    "recv_fragments (init_activepce env now s p) = 0" "f_complete (init_activepce env now s p) = 0"
    "fpath_size (init_activepce env now s p) = fpath_size p" "saveunz_flag (init_activepce env now s p) = 0"
  using assms adjust_memfile_size_empty [of "pce_mf p"]
  by (simp_all add: init_activepce_def Let_def pce_ok_def open_pce_def split: if_splits)

lemma start_sim:
  assumes st: "start_activepce env s g = Some (st, g')" and rel: "chan_rel c (active (g_pctl g) i)"
    and ok: "g_ok g" "frame_seq s \<noteq> 0" and i: "i = np_channel_index s"
  shows "\<exists>ps out c'. touches env i g ps g' \<and> reasm_start s c out st c' \<and> list_all2 emits ps out \<and>
    chan_rel c' (active (g_pctl g') i)"
proof -
  from st obtain g1 now ha hdr p g2 where b: "frame_block s = 0"
    and rc: "reclaim_activepce env i g = Some g1"
    and nm: "name_activepce env (g_loadave_max_rtx g1) s
        ((init_activepce env now s (active (g_pctl g1) i))\<lparr>pce_ctrlhdr := hdr,
          pce_ctrlhdr_size := int (length hdr), f_has_ccb := ha\<rparr>) = Some (st, p)"
    and g2: "g_pctl g2 = set_active i p (g_pctl g1)"
    and cl: "(if st \<noteq> 0 then g_close g2 i else Some g2) = Some g'"
    by (fastforce simp: start_activepce_def i Let_def bind_eq_Some_conv split: if_splits)
  obtain ps where t1: "touches env i g ps g1" and em: "list_all2 emits ps (abandon c)"
    and op: "open_pce (active (g_pctl g1) i) = 0"
    using reclaim_sim [OF rc rel] by blast
  have ch: "channel_ok (g_pctl g1) i"
    using rc by (auto simp: reclaim_activepce_def open_pctl_activepce_def bind_eq_Some_conv split: if_splits)
  have g1: "g_ok g1" using t1 ok by (simp add: touches_def)
  note nk = name_activepce_keeps [OF nm]
  note ini = init_activepce_fields [OF active_ok [OF g1 ch] op, of env now s]
  have pk: "pce_ok p" using nk ini by (simp add: pce_ok_def)
  have t2: "touches env i g1 [] g2" "active (g_pctl g2) i = p"
    using touches_set(1) [of g1 i p g2 env] touches_set(2) [of g1 i p g2] ch pk g2 nk ini by auto
  have t12: "touches env i g ps g2" using touches_trans [OF t1 t2(1)] by simp
  show ?thesis
  proof (cases "st = 0")
    case True
    with cl have "g' = g2" by simp
    moreover have "chan_rel (Collecting (frame_seq s)
        (if psh_num_fragments (psh s) = 0 then 1 else psh_num_fragments (psh s)) (saveunz_flag p) []) p"
      using nk ini ok by (simp add: collected_def)
    moreover have "f_frdata_compressed s = 0 \<longrightarrow> saveunz_flag p = 0"
      using name_activepce_unz [OF nm] ini by simp
    ultimately show ?thesis using t12 t2(2) em started [OF b] True by blast
  next
    case False
    with cl have c2: "g_close g2 i = Some g'" by simp
    have "touches env i g ps g'" using touches_trans [OF t12 g_close_touches(1) [OF c2]] by simp
    with em rejected [OF b False] g_close_idle [OF c2] show ?thesis by blast
  qed
qed

lemma e_start_sim:
  assumes "e_start_activepce env s g = Some (st, g')" "chan_rel c (active (g_pctl g) i)"
    "g_ok g" "frame_seq s \<noteq> 0" "i = np_channel_index s"
  shows "\<exists>ps out c'. touches env i g ps g' \<and> reasm_start s c out st c' \<and> list_all2 emits ps out \<and>
    chan_rel c' (active (g_pctl g') i)"
proof (cases "frame_block s = 0")
  case False
  with assms have "st = 1" "g' = g" by (simp_all add: e_start_activepce_def)
  with not_first [OF False, of c] assms(2) touches_same [of g g env i] show ?thesis by auto
next
  case True
  let ?g0 = "upd_stats update_stats_products_transmitted g"
  obtain g1 where s: "start_activepce env s ?g0 = Some (st, g1)" and g': "g_pctl g' = g_pctl g1"
    using assms(1) True by (auto simp: e_start_activepce_def bind_eq_Some_conv Let_def)
  have "\<exists>ps out c'. touches env i ?g0 ps g1 \<and> reasm_start s c out st c' \<and> list_all2 emits ps out \<and>
      chan_rel c' (active (g_pctl g1) i)"
    using assms by (intro start_sim [OF s]) (simp_all add: g_ok_def)
  with g' show ?thesis
    by (auto simp: touches_def g_ok_def)
qed

section \<open>Progress\<close>

lemma save_in_ok:
  assumes "mf_inv m" "frame_fits s"
  shows "\<exists>st m'. save_in env s u m = Some (st, m') \<and> mf_inv m' \<and>
    (st = 0 \<and> mf_data m' = mf_data m @ payload u s \<or> st = -1)"
proof -
  have fr: "int_len (frdata_size s)" "nat (frdata_size s) \<le> length (mem s (frdata s))"
    using assms(2) by (simp_all add: frame_fits_def)
  have data: "\<exists>st m'. write_memfile (env_alloc env) x (mem s (frdata s)) (frdata_size s) = Some (st, m') \<and>
      mf_inv m' \<and> (st = 0 \<and> mf_data m' = mf_data x @ take (nat (frdata_size s)) (mem s (frdata s)) \<or> st = -1)"
    if "mf_inv x" for x
    using write_memfile_appends [OF that fr, of "env_alloc env"] by blast
  show ?thesis
  proof (cases "u = 0")
    case True
    show ?thesis
    proof (cases "frame_block s = 0 \<and> ctrlhdr s \<noteq> Null")
      case c: True
      obtain st m1 where w: "write_memfile (env_alloc env) m (mem s (ctrlhdr s)) (ctrlhdr_size s) = Some (st, m1)"
        "mf_inv m1" "st = 0 \<and> mf_data m1 = mf_data m @ take (nat (ctrlhdr_size s)) (mem s (ctrlhdr s)) \<or> st = -1"
        using write_memfile_appends [OF assms(1), of "ctrlhdr_size s" "mem s (ctrlhdr s)" "env_alloc env"]
          assms(2) c by (auto simp: frame_fits_def)
      from data [OF w(2)] w c True show ?thesis by (auto simp: save_in_def payload_def)
    next
      case False
      with data [OF assms(1)] True show ?thesis by (auto simp: save_in_def payload_def)
    qed
  next
    case False
    with write_memframe_appends [OF assms(1) fr, of "env_alloc env" "f_frdata_compressed s"]
    show ?thesis by (auto simp: save_in_def payload_def)
  qed
qed

lemma msave_frame_eq:
  assumes "channel_ok (g_pctl g) (np_channel_index s)" "seq_number (active (g_pctl g) (np_channel_index s)) = frame_seq s"
  shows "msave_frame env s g =
    map_option (\<lambda>(st, m). (st, g\<lparr>g_pctl := set_active (np_channel_index s)
        ((active (g_pctl g) (np_channel_index s))\<lparr>pce_mf := m\<rparr>) (g_pctl g)\<rparr>))
      (save_in env s (saveunz_flag (active (g_pctl g) (np_channel_index s)))
        (pce_mf (active (g_pctl g) (np_channel_index s))))"
proof -
  let ?p = "active (g_pctl g) (np_channel_index s)"
  have get: "get_pctl_activepce (g_pctl g) (np_channel_index s) (frame_seq s) = Some (Some ?p)"
    using assms by (simp add: get_pctl_activepce_def)
  show ?thesis
    using get by (cases "save_in env s (saveunz_flag ?p) (pce_mf ?p)") (auto simp: msave_frame_def Let_def)
qed

lemma update_sim:
  assumes up: "e_update_activepce env s g = Some (st, g')" and rel: "chan_rel c (active (g_pctl g) i)"
    and ok: "g_ok g" "frame_seq s \<noteq> 0" "frame_fits s" and i: "i = np_channel_index s"
  shows "\<exists>ps out c'. touches env i g ps g' \<and> reasm_progress s c out st c' \<and> list_all2 emits ps out \<and>
    chan_rel c' (active (g_pctl g') i)"
proof -
  let ?p = "active (g_pctl g) i"
  have ch: "channel_ok (g_pctl g) i"
    using up by (auto simp: e_update_activepce_def update_activepce_def update_activepce_framecounter_def
        bind_eq_Some_conv i split: if_splits)
  have p: "pce_ok ?p" using active_ok [OF ok(1) ch] .
  consider (other) "seq_number ?p \<noteq> frame_seq s" | (jump) "seq_number ?p = frame_seq s" "frame_block s \<noteq> recv_fragments ?p"
    | (nxt) "seq_number ?p = frame_seq s" "frame_block s = recv_fragments ?p" by blast
  then show ?thesis
  proof cases
    case other
    then have "\<not> expects c s" using rel by (cases c) auto
    moreover have "st = 0" "g' = g"
      using up other ch by (simp_all add: e_update_activepce_def update_activepce_def
          update_activepce_framecounter_def i Let_def)
    ultimately show ?thesis
      using not_active [of c s] rel touches_same [of g g env i] by (intro exI conjI) auto
  next
    case jump
    then obtain q n u fs where c: "c = Collecting q n u fs" using rel ok(2) by (cases c) (auto simp: open_pce_def split: if_splits)
    obtain st1 g1 where s: "g_send env (upd_stats update_stats_products_missed g) i = Some (st1, g1)"
      "g_close g1 i = Some g'" "st = 2"
      using up jump ch by (auto simp: e_update_activepce_def update_activepce_def
          update_activepce_framecounter_def i Let_def bind_eq_Some_conv)
    have "touches env i g [?p] g'" "chan_rel Idle (active (g_pctl g') i)"
      using send_close [OF s(1,2)] by (auto intro: touches_same_trans [rotated])
    moreover have "reasm_progress s c (abandon c) 2 Idle"
      using jumped [of s q fs n u] jump rel c by auto
    moreover have "list_all2 emits [?p] (abandon c)" using emits_abandon [of q n u fs ?p] rel c by simp
    ultimately show ?thesis using s(3) by blast
  next
    case nxt
    then obtain q n u fs where c: "c = Collecting q n u fs" using rel ok(2) by (cases c) (auto simp: open_pce_def split: if_splits)
    let ?p1 = "?p\<lparr>recv_fragments := recv_fragments ?p + 1\<rparr>"
    let ?g1 = "g\<lparr>g_pctl := set_active i ?p1 (g_pctl g)\<rparr>"
    have a1: "active (g_pctl ?g1) i = ?p1" "channel_ok (g_pctl ?g1) i" using ch by simp_all
    have t1: "touches env i g [] ?g1"
      using touches_set(1) [of g i ?p1 ?g1 env] ch by (simp add: pce_ok_def)
    obtain sst m where sv: "save_in env s u (pce_mf ?p) = Some (sst, m)" "mf_inv m"
      "sst = 0 \<and> mf_data m = mf_data (pce_mf ?p) @ payload u s \<or> sst = -1"
      using save_in_ok [of "pce_mf ?p" s env u] p ok(3) by (auto simp: pce_ok_def)
    let ?p2 = "?p1\<lparr>pce_mf := m\<rparr>"
    let ?g2 = "?g1\<lparr>g_pctl := set_active i ?p2 (g_pctl ?g1)\<rparr>"
    have u: "saveunz_flag ?p = u" using rel c by simp
    have ms: "update_activepce env s g = Some (sst, ?g2)"
      using msave_frame_eq [of ?g1 s env] nxt ch a1 sv(1) u
      by (simp add: update_activepce_def update_activepce_framecounter_def i Let_def)
    have t2: "touches env i ?g1 [] ?g2" "active (g_pctl ?g2) i = ?p2"
      using touches_set(1) [of ?g1 i ?p2 ?g2 env] touches_set(2) [of ?g1 i ?p2 ?g2] a1 sv(2)
      by (simp_all add: pce_ok_def)
    have t12: "touches env i g [] ?g2" using touches_trans [OF t1 t2(1)] by simp
    show ?thesis
    proof (cases "sst = 0")
      case True
      have "st = 0" "g' = ?g2"
        using up ms True by (auto simp: e_update_activepce_def bind_eq_Some_conv)
      moreover have "reasm_progress s c [] 0 (Collecting q n u (fs @ [s]))"
        using saved [of s q fs n u] nxt rel c by auto
      moreover have "chan_rel (Collecting q n u (fs @ [s])) ?p2"
        using rel c sv(3) True by (auto simp: collected_def)
      ultimately show ?thesis using t12 t2(2) by (metis list_all2_Nil)
    next
      case False
      then have neg: "sst = -1" using sv(3) by auto
      obtain st1 g3 where s: "g_send env (upd_stats update_stats_products_missed ?g2) i = Some (st1, g3)"
        "g_close g3 i = Some g'" "st = -1"
        using up ms neg by (auto simp: e_update_activepce_def bind_eq_Some_conv i)
      have "touches env i ?g2 [?p2] g'" "chan_rel Idle (active (g_pctl g') i)"
        using send_close [OF s(1,2)] t2(2) by (auto intro: touches_same_trans [rotated])
      then have "touches env i g [?p2] g'" using touches_trans [OF t12] by fastforce
      moreover have "reasm_progress s c [Emit q n u fs (mf_data m) False] (-1) Idle"
        using no_memory [of s q fs n u] nxt rel c by auto
      moreover have "list_all2 emits [?p2] [Emit q n u fs (mf_data m) False]"
        using rel c by (simp add: emits_def)
      ultimately show ?thesis using s(3) \<open>chan_rel Idle (active (g_pctl g') i)\<close> by blast
    qed
  qed
qed

section \<open>End\<close>

lemma end_sim:
  assumes en: "e_end_activepce env s g = Some (st, g')" and rel: "chan_rel c (active (g_pctl g) i)"
    and ok: "frame_seq s \<noteq> 0" and i: "i = np_channel_index s"
  shows "\<exists>ps out. touches env i g ps g' \<and> reasm_end s c out Idle \<and> list_all2 emits ps out \<and>
    chan_rel Idle (active (g_pctl g') i)"
proof -
  let ?p = "active (g_pctl g) i"
  have ch: "channel_ok (g_pctl g) i"
    using en by (auto simp: e_end_activepce_def complete_activepce_def bind_eq_Some_conv i split: if_splits)
  consider (other) "seq_number ?p \<noteq> frame_seq s"
    | (short) "seq_number ?p = frame_seq s" "num_fragments ?p > recv_fragments ?p"
    | (all) "seq_number ?p = frame_seq s" "num_fragments ?p \<le> recv_fragments ?p" by linarith
  then show ?thesis
  proof cases
    case other
    then have "\<not> expects c s" using rel by (cases c) auto
    moreover have "g_close g i = Some g'"
      using en other ch by (auto simp: e_end_activepce_def complete_activepce_def i Let_def bind_eq_Some_conv)
    ultimately show ?thesis
      using other_product [of c s] g_close_touches(1) [of g i g' env] g_close_idle [of g i g'] by blast
  next
    case short
    then obtain q n u fs where c: "c = Collecting q n u fs"
      using rel ok by (cases c) (auto simp: open_pce_def split: if_splits)
    obtain st1 g1 where s: "g_send env (upd_stats update_stats_products_missed g) i = Some (st1, g1)"
      "g_close g1 i = Some g'"
      using en short ch by (auto simp: e_end_activepce_def complete_activepce_def i Let_def bind_eq_Some_conv)
    have "touches env i g [?p] g'" "chan_rel Idle (active (g_pctl g') i)"
      using send_close [OF s] by (auto intro: touches_same_trans [rotated])
    moreover have "reasm_end s c (abandon c) Idle" using incomplete [of s q fs n u] short rel c by auto
    moreover have "list_all2 emits [?p] (abandon c)" using emits_abandon [of q n u fs ?p] rel c by simp
    ultimately show ?thesis by blast
  next
    case all
    then obtain q n u fs where c: "c = Collecting q n u fs"
      using rel ok by (cases c) (auto simp: open_pce_def split: if_splits)
    let ?p1 = "?p\<lparr>f_complete := 1\<rparr>"
    let ?g1 = "g\<lparr>g_pctl := set_active i ?p1 (g_pctl g)\<rparr>"
    have t: "touches env i g [] ?g1" "active (g_pctl ?g1) i = ?p1"
      using touches_set(1) [of g i ?p1 ?g1 env] ch by (simp_all add: pce_ok_def)
    obtain st1 g2 where s: "g_send env (upd_stats update_stats_products_completed ?g1) i = Some (st1, g2)"
      "g_close g2 i = Some g'"
      using en all ch by (auto simp: e_end_activepce_def complete_activepce_def i Let_def bind_eq_Some_conv)
    have "touches env i ?g1 [?p1] g'" and idle: "chan_rel Idle (active (g_pctl g') i)"
      using send_close [OF s] t(2) by (auto intro: touches_same_trans [rotated])
    then have "touches env i g [?p1] g'" using touches_trans [OF t(1)] by fastforce
    moreover have "reasm_end s c [Emit q n u fs (collected u fs) True] Idle"
      using complete [of s q n fs u] all rel c by auto
    moreover have "list_all2 emits [?p1] [Emit q n u fs (collected u fs) True]"
      using rel c by (simp add: emits_def)
    ultimately show ?thesis using idle by blast
  qed
qed

section \<open>A data frame\<close>

text \<open>The frame that the stages see: the original sequence number is cleared.\<close>

lemma frame_fits_psh [simp]: "frame_fits (s\<lparr>psh := x\<rparr>) = frame_fits s"
proof -
  have "mem (s\<lparr>psh := x\<rparr>) p = mem s p" for p by (cases p) simp_all
  then show ?thesis by (simp add: frame_fits_def)
qed

lemma data_frame_stages:
  assumes "data_frame env s g = Some (st, s', g')"
    "\<not> frame_has s (PDH_TRANSFERTYPE_ERROR OR PDH_TRANSFERTYPE_ABORT)"
  obtains g0 st1 g1 st2 g2 where "g_pctl g0 = g_pctl g" "\<exists>k. s' = s\<lparr>psh := (psh s)\<lparr>psh_orig_seq_number := k\<rparr>\<rparr>"
    "if frame_has s PDH_TRANSFERTYPE_START then e_start_activepce env s' g0 = Some (st1, g1)
     else st1 = 0 \<and> g1 = g0"
    "if st1 = 0 \<and> frame_has s PDH_TRANSFERTYPE_PROGRESS then e_update_activepce env s' g1 = Some (st2, g2)
     else st2 = st1 \<and> g2 = g1"
    "if st2 = 0 \<and> frame_has s PDH_TRANSFERTYPE_END then e_end_activepce env s' g2 = Some (st, g')
     else st = st2 \<and> g' = g2"
proof -
  obtain sr gr where r: "note_retransmission s g = (sr, gr)" by fastforce
  have same: "\<exists>k. s = s\<lparr>psh := (psh s)\<lparr>psh_orig_seq_number := k\<rparr>\<rparr>" for s :: sbn_frame
    by (intro exI [of _ "psh_orig_seq_number (psh s)"]) simp
  have rr: "g_pctl gr = g_pctl g" "\<exists>k. sr = s\<lparr>psh := (psh s)\<lparr>psh_orig_seq_number := k\<rparr>\<rparr>"
    using r same by (auto simp: note_retransmission_def split: if_splits)
  note result = that
  have later: thesis
    if l: "later_stages env (pdh_transfer_type (pdh s)) st1 s' g1 = Some (st, g')"
      and f: "g_pctl gx = g_pctl g" "\<exists>k. s' = s\<lparr>psh := (psh s)\<lparr>psh_orig_seq_number := k\<rparr>\<rparr>"
        "if frame_has s PDH_TRANSFERTYPE_START then e_start_activepce env s' gx = Some (st1, g1)
         else st1 = 0 \<and> g1 = gx" for st1 g1 gx
  proof -
    from l obtain st2 g2 where b: "(if st1 = 0 \<and> frame_has s PDH_TRANSFERTYPE_PROGRESS
        then e_update_activepce env s' g1 else Some (st1, g1)) = Some (st2, g2)"
      "(if st2 = 0 \<and> frame_has s PDH_TRANSFERTYPE_END then e_end_activepce env s' g2
        else Some (st2, g2)) = Some (st, g')"
      unfolding later_stages_def bind_eq_Some_conv by auto
    from f b show thesis by (intro result [of gx st1 g1 st2 g2]) (auto split: if_splits)
  qed
  show ?thesis
  proof (cases "frame_has s PDH_TRANSFERTYPE_START")
    case True
    then obtain st1 g1 where a: "e_start_activepce env sr gr = Some (st1, g1)" "s' = sr"
      "later_stages env (pdh_transfer_type (pdh s)) st1 sr g1 = Some (st, g')"
      using assms r by (auto simp: data_frame_def Let_def bind_eq_Some_conv)
    with rr True show ?thesis by (intro later [of st1 g1 gr]) auto
  next
    case False
    then have "later_stages env (pdh_transfer_type (pdh s)) 0 s g = Some (st, g')" "s' = s"
      using assms by (auto simp: data_frame_def Let_def)
    with False same show ?thesis by (intro later [of 0 g g]) auto
  qed
qed

lemma data_frame_stage_sim:
  assumes d: "data_frame env s g = Some (st, s', g')" and rel: "chan_rel c (active (g_pctl g) i)"
    and ok: "g_ok g" "frame_seq s \<noteq> 0" "frame_fits s" and i: "i = np_channel_index s"
    and False: "\<not> frame_has s (PDH_TRANSFERTYPE_ERROR OR PDH_TRANSFERTYPE_ABORT)"
  obtains ps o1 st1 c1 o2 st2 c2 o3 c3 where
    "touches env i g ps g'" "list_all2 emits ps (o1 @ o2 @ o3)" "chan_rel c3 (active (g_pctl g') i)"
    "if frame_has s' PDH_TRANSFERTYPE_START then reasm_start s' c o1 st1 c1 else o1 = [] \<and> st1 = 0 \<and> c1 = c"
    "if st1 = 0 \<and> frame_has s' PDH_TRANSFERTYPE_PROGRESS then reasm_progress s' c1 o2 st2 c2
     else o2 = [] \<and> st2 = st1 \<and> c2 = c1"
    "if st2 = 0 \<and> frame_has s' PDH_TRANSFERTYPE_END then reasm_end s' c2 o3 c3 else o3 = [] \<and> c3 = c2"
    "st = 0 \<longrightarrow> st2 = 0" "\<exists>k. s' = s\<lparr>psh := (psh s)\<lparr>psh_orig_seq_number := k\<rparr>\<rparr>"
proof -
  obtain g0 st1 g1 st2 g2 where g0: "g_pctl g0 = g_pctl g" and s': "\<exists>k. s' = s\<lparr>psh := (psh s)\<lparr>psh_orig_seq_number := k\<rparr>\<rparr>"
    and a: "if frame_has s PDH_TRANSFERTYPE_START then e_start_activepce env s' g0 = Some (st1, g1)
       else st1 = 0 \<and> g1 = g0"
    and b: "if st1 = 0 \<and> frame_has s PDH_TRANSFERTYPE_PROGRESS then e_update_activepce env s' g1 = Some (st2, g2)
       else st2 = st1 \<and> g2 = g1"
    and e: "if st2 = 0 \<and> frame_has s PDH_TRANSFERTYPE_END then e_end_activepce env s' g2 = Some (st, g')
       else st = st2 \<and> g' = g2"
    by (rule data_frame_stages [OF d False]) blast
  from s' have same: "pdh s' = pdh s" "np_channel_index s' = i" "frame_fits s'" using ok i by auto
  have g0k: "g_ok g0" "chan_rel c (active (g_pctl g0) i)" using ok rel g0 by (simp_all add: g_ok_def)
  obtain ps1 o1 c1 where 1: "touches env i g0 ps1 g1" "list_all2 emits ps1 o1" "chan_rel c1 (active (g_pctl g1) i)"
    "if frame_has s' PDH_TRANSFERTYPE_START then reasm_start s' c o1 st1 c1 else o1 = [] \<and> st1 = 0 \<and> c1 = c"
  proof (cases "frame_has s PDH_TRANSFERTYPE_START")
    case True
    with a same ok have "e_start_activepce env s' g0 = Some (st1, g1)" "frame_seq s' \<noteq> 0" by simp_all
    from e_start_sim [OF this(1) g0k(2,1) this(2) same(2) [symmetric]] that True same(1) show ?thesis
      by auto
  next
    case False
    with a same(1) g0k(2) touches_same [of g0 g0 env i] show ?thesis
      by (intro that [of "[]" "[]" c]) auto
  qed
  have g1k: "g_ok g1" using 1(1) g0k by (simp add: touches_def)
  obtain ps2 o2 c2 where 2: "touches env i g1 ps2 g2" "list_all2 emits ps2 o2" "chan_rel c2 (active (g_pctl g2) i)"
    "if st1 = 0 \<and> frame_has s' PDH_TRANSFERTYPE_PROGRESS then reasm_progress s' c1 o2 st2 c2
     else o2 = [] \<and> st2 = st1 \<and> c2 = c1"
  proof (cases "st1 = 0 \<and> frame_has s PDH_TRANSFERTYPE_PROGRESS")
    case True
    with b same ok have "e_update_activepce env s' g1 = Some (st2, g2)" "frame_seq s' \<noteq> 0" by simp_all
    from update_sim [OF this(1) 1(3) g1k this(2) same(3) same(2) [symmetric]] that True same(1) show ?thesis
      by auto
  next
    case False
    with b same(1) 1(3) touches_same [of g1 g1 env i] show ?thesis
      by (intro that [of "[]" "[]" c1]) auto
  qed
  obtain ps3 o3 c3 where 3: "touches env i g2 ps3 g'" "list_all2 emits ps3 o3" "chan_rel c3 (active (g_pctl g') i)"
    "if st2 = 0 \<and> frame_has s' PDH_TRANSFERTYPE_END then reasm_end s' c2 o3 c3 else o3 = [] \<and> c3 = c2"
  proof (cases "st2 = 0 \<and> frame_has s PDH_TRANSFERTYPE_END")
    case True
    with e same ok have "e_end_activepce env s' g2 = Some (st, g')" "frame_seq s' \<noteq> 0" by simp_all
    from end_sim [OF this(1) 2(3) this(2) same(2) [symmetric]] obtain ps out where
      "touches env i g2 ps g'" "reasm_end s' c2 out Idle" "list_all2 emits ps out"
      "chan_rel Idle (active (g_pctl g') i)" by blast
    with True same(1) show ?thesis by (intro that [of ps out Idle]) simp_all
  next
    case False
    with e same(1) 2(3) touches_same [of g2 g2 env i] show ?thesis
      by (intro that [of "[]" "[]" c2]) auto
  qed
  have "touches env i g (ps1 @ ps2 @ ps3) g'"
    by (rule touches_same_trans [OF g0 touches_trans [OF 1(1) touches_trans [OF 2(1) 3(1)]]])
  moreover have "list_all2 emits (ps1 @ ps2 @ ps3) (o1 @ o2 @ o3)"
    using 1(2) 2(2) 3(2) by (intro list_all2_appendI)
  moreover have "st = 0 \<longrightarrow> st2 = 0" using e by (auto split: if_splits)
  ultimately show ?thesis using 1(4) 2(4) 3(3,4) same(1) s' by (intro that [of _ o1 o2 o3 c3 st1 c1 st2 c2]) simp_all
qed

lemma data_frame_sim:
  assumes d: "data_frame env s g = Some (st, s', g')" and rel: "chan_rel c (active (g_pctl g) i)"
    and ok: "g_ok g" "frame_seq s \<noteq> 0" "frame_fits s" and i: "i = np_channel_index s"
  shows "\<exists>ps out c'. touches env i g ps g' \<and> reasm_step s' c out c' \<and> list_all2 emits ps out \<and>
    chan_rel c' (active (g_pctl g') i)"
proof (cases "frame_has s (PDH_TRANSFERTYPE_ERROR OR PDH_TRANSFERTYPE_ABORT)")
  case True
  let ?g0 = "upd_stats update_stats_products_aborted g"
  have c: "g_close ?g0 i = Some g'" and s': "s' = s"
    using d True by (auto simp: data_frame_def Let_def abort_activepce_def i)
  have "touches env i g [] g'" by (rule touches_same_trans [OF _ g_close_touches(1) [OF c]]) simp
  with aborted [OF True, of c] g_close_idle [OF c] show ?thesis
    unfolding s' by (intro exI [of _ "[]"] exI [of _ Idle] conjI) simp_all
next
  case False
  show ?thesis
  proof (rule data_frame_stage_sim [OF d rel ok i False])
    fix ps o1 st1 c1 o2 st2 c2 o3 c3
    assume s: "touches env i g ps g'" "list_all2 emits ps (o1 @ o2 @ o3)" "chan_rel c3 (active (g_pctl g') i)"
      "if frame_has s' PDH_TRANSFERTYPE_START then reasm_start s' c o1 st1 c1 else o1 = [] \<and> st1 = 0 \<and> c1 = c"
      "if st1 = 0 \<and> frame_has s' PDH_TRANSFERTYPE_PROGRESS then reasm_progress s' c1 o2 st2 c2
       else o2 = [] \<and> st2 = st1 \<and> c2 = c1"
      "if st2 = 0 \<and> frame_has s' PDH_TRANSFERTYPE_END then reasm_end s' c2 o3 c3 else o3 = [] \<and> c3 = c2"
      "\<exists>k. s' = s\<lparr>psh := (psh s)\<lparr>psh_orig_seq_number := k\<rparr>\<rparr>"
    have "reasm_step s' c (o1 @ o2 @ o3) c3" using s(4-7) False by (intro stages) auto
    with s(1-3) show ?thesis by blast
  qed
qed

section \<open>All the channels together\<close>

text \<open>
  The readers hand the frames of all channels to the processor. Only the product control
  matters for what follows: the statistics and the last headers do not influence it.
\<close>

definition well_formed_input :: "sbn_frame \<Rightarrow> bool" where
  "well_formed_input s \<longleftrightarrow>
     rawdata_size s = int (length (rawdata s)) \<and>
     (let p = unpack_pd_header (drop FRAME_LEVEL_HEADER_SIZE (rawdata s))
      in pdh_data_block_offset p \<le> pdh_data_block_size p \<and> pdh_product_seq_number p \<noteq> 0)"

lemma sbn_unpack_frame_size [simp]: "rawdata_size (snd (sbn_unpack_frame u s)) = rawdata_size s"
proof -
  have "rawdata_size (snd (unpack_sbn_headers s)) = rawdata_size s" for s
    using unpack_sbn_headers_keeps(2) [of s] by (metis prod.collapse)
  moreover have "rawdata_size (snd (locate_ctrlhdr s b)) = rawdata_size s" for s b
    by (simp add: locate_ctrlhdr_def Let_def)
  moreover have "rawdata_size (locate_frdata s b) = rawdata_size s" for s b
    by (simp add: locate_frdata_def)
  moreover have "rawdata_size (snd (unz_first_frame u s)) = rawdata_size s" for s
    by (simp add: unz_first_frame_def Let_def split: prod.split)
  moreover have "rawdata_size (snd (locate_ccb s)) = rawdata_size s" for s
    by (simp add: locate_ccb_def Let_def)
  ultimately show ?thesis
    unfolding sbn_unpack_frame_def Let_def case_prod_beta by simp
qed

lemma unpacked_fits:
  assumes "sbn_unpack_frame u s0 = (0, s)" "fh_sbn_command (fh s) = SBN_COMMAND_DATA_TRANSFER"
    "well_formed_input s0"
  shows "frame_fits s" "frame_seq s \<noteq> 0" "np_channel_index s = np_channel_index s0"
proof -
  note o = sbn_unpack_frame_ok [OF assms(1,2)]
  have sz: "rawdata_size s = int (length (rawdata s))"
    using sbn_unpack_frame_size [of u s0] assms(1,3) o(2) by (simp add: well_formed_input_def)
  have le: "pdh_data_block_offset (pdh s) \<le> pdh_data_block_size (pdh s)"
    using assms(3) o(3) by (simp add: well_formed_input_def Let_def)
  note lp = located_partition(2,3) [OF o(1) sz le]
  have "int_len (frdata_size s)" "int_len (ctrlhdr_size s)"
    using o(1) le by (auto simp: frame_located_def int_len_def)
  with lp show "frame_fits s" by (simp add: frame_fits_def)
  show "frame_seq s \<noteq> 0" using assms(3) o(3) by (simp add: well_formed_input_def Let_def)
  show "np_channel_index s = np_channel_index s0" by (rule o(5))
qed

text \<open>The frames of a channel that the processor has taken, in order.\<close>

definition on_channel :: "int \<Rightarrow> sbn_frame list \<Rightarrow> sbn_frame list" where
  "on_channel i hs = filter (\<lambda>s. np_channel_index s = i) hs"

text \<open>The invariant: every channel is in a state the machine reaches on its own frames.\<close>

definition system_inv :: "sbn_frame list \<Rightarrow> ('q, 'b) globals_st \<Rightarrow> bool" where
  "system_inv hs g \<longleftrightarrow>
     g_ok g \<and>
     (\<forall>i. channel_ok (g_pctl g) i \<longrightarrow>
        (\<exists>c. chan_rel c (active (g_pctl g) i) \<and> chan_ok (on_channel i hs) c))"

text \<open>
  A genuine product: its data are the contributions of at least as many frames as it has
  fragments, all of the product and of one channel, numbered from 0 without a gap, in the
  order they were received.
\<close>

definition genuine :: "sbn_frame list \<Rightarrow> pctl_element_st \<Rightarrow> bool" where
  "genuine hs p \<longleftrightarrow>
     (\<exists>i u fs. subseq fs (on_channel i hs) \<and>
        (\<forall>j < length fs. frame_block (fs ! j) = int j \<and> frame_seq (fs ! j) = seq_number p) \<and>
        num_fragments p \<le> int (length fs) \<and> mf_data (pce_mf p) = concat (map (payload u) fs))"

lemma emission_genuine:
  assumes "emits p e" "emission_ok (on_channel i hs) e" "f_complete p = 1"
  shows "genuine hs p"
  using assms unfolding genuine_def emission_ok_def emits_def gapless_def collected_def
  by (intro exI [of _ i] exI [of _ "em_unz e"] exI [of _ "em_frames e"]) auto

lemma subseq_later: "subseq fs xs \<Longrightarrow> subseq fs (xs @ ys)"
  using list_emb_append_mono [of "(=)" fs xs "[]" ys] by simp

lemma genuine_later: "genuine hs p \<Longrightarrow> genuine (hs @ hs') p"
  unfolding genuine_def on_channel_def filter_append using subseq_later by blast

lemma on_channel_snoc:
  "on_channel i (hs @ [s]) = on_channel i hs @ (if np_channel_index s = i then [s] else [])"
  by (simp add: on_channel_def)

lemma data_frame_channel:
  assumes "data_frame env s g = Some (st, s', g')"
  shows "np_channel_index s' = np_channel_index s"
proof (cases "frame_has s (PDH_TRANSFERTYPE_ERROR OR PDH_TRANSFERTYPE_ABORT)")
  case True
  with assms show ?thesis by (auto simp: data_frame_def Let_def)
next
  case False
  show ?thesis by (rule data_frame_stages [OF assms False]) auto
qed

lemma system_step:
  assumes d: "data_frame env s g = Some (st, s', g')" and inv: "system_inv hs g"
    and ok: "frame_seq s \<noteq> 0" "frame_fits s" "channel_ok (g_pctl g) (np_channel_index s)"
  shows "system_inv (hs @ [s']) g' \<and>
    (\<exists>ps. sends env (pctldb (g_pctl g)) ps (pctldb (g_pctl g')) \<and>
       (\<forall>p \<in> set ps. f_complete p = 1 \<longrightarrow> genuine (hs @ [s']) p)) \<and>
    (\<forall>j. channel_ok (g_pctl g') j = channel_ok (g_pctl g) j)"
proof -
  let ?i = "np_channel_index s"
  obtain c where c: "chan_rel c (active (g_pctl g) ?i)" "chan_ok (on_channel ?i hs) c" and gk: "g_ok g"
    using inv ok(3) by (auto simp: system_inv_def)
  obtain ps out c' where t: "touches env ?i g ps g'" and r: "reasm_step s' c out c'"
    and em: "list_all2 emits ps out" and rel': "chan_rel c' (active (g_pctl g') ?i)"
    using data_frame_sim [OF d c(1) gk ok(1,2) refl] by blast
  have hist: "on_channel ?i (hs @ [s']) = on_channel ?i hs @ [s']"
    by (simp add: on_channel_snoc data_frame_channel [OF d])
  note rs = reasm_step_ok [OF r c(2)]
  have others: "\<exists>c. chan_rel c (active (g_pctl g') j) \<and> chan_ok (on_channel j (hs @ [s'])) c"
    if "channel_ok (g_pctl g) j" "j \<noteq> ?i" for j
  proof -
    have "active (g_pctl g') j = active (g_pctl g) j" using t that by (simp add: touches_def channel_ok_def)
    moreover have "on_channel j (hs @ [s']) = on_channel j hs"
      using that by (simp add: on_channel_snoc data_frame_channel [OF d])
    ultimately show ?thesis using inv that(1) by (simp add: system_inv_def)
  qed
  have "system_inv (hs @ [s']) g'"
    unfolding system_inv_def
  proof (intro conjI allI impI)
    show "g_ok g'" using t gk by (simp add: touches_def)
    fix j assume "channel_ok (g_pctl g') j"
    then have "channel_ok (g_pctl g) j" using touches_channel [OF t] by simp
    with others [of j] rel' rs hist show "\<exists>c. chan_rel c (active (g_pctl g') j) \<and> chan_ok (on_channel j (hs @ [s'])) c"
      by (cases "j = ?i") auto
  qed
  moreover have "\<forall>p \<in> set ps. f_complete p = 1 \<longrightarrow> genuine (hs @ [s']) p"
  proof (intro ballI impI)
    fix p assume "p \<in> set ps" "f_complete p = 1"
    with em obtain e where "emits p e" "e \<in> set out"
      by (metis in_set_conv_nth list_all2_conv_all_nth)
    with rs hist \<open>f_complete p = 1\<close> show "genuine (hs @ [s']) p"
      by (intro emission_genuine [of p e ?i]) auto
  qed
  ultimately show ?thesis using t touches_channel [OF t] by (auto simp: touches_def)
qed

text \<open>The loop of the readers: each frame received is given to the frame processor.\<close>

fun frame_run ::
  "('q, 'b) nbsp_env \<Rightarrow> sbn_frame list \<Rightarrow> ('q, 'b) globals_st \<Rightarrow> ((int \<times> sbn_frame) list \<times> ('q, 'b) globals_st) option" where
  "frame_run env [] g = Some ([], g)"
| "frame_run env (s # ss) g = do {
     (st, s', g) \<leftarrow> sbnframeproc env s g;
     (rs, g) \<leftarrow> frame_run env ss g;
     Some ((st, s') # rs, g)
   }"

lemma e_sbn_unpack_frame_keeps:
  assumes "e_sbn_unpack_frame env s g = Some (st, s', g')"
  shows "g_pctl g' = g_pctl g" "sbn_unpack_frame (env_uncompress env) s = (st, s')"
  using assms
  by (auto simp: e_sbn_unpack_frame_def update_framep_info_def Let_def split: prod.splits if_splits)

lemma system_run:
  assumes "frame_run env ss g = Some (rs, g')" "system_inv hs g"
    "\<forall>s \<in> set ss. well_formed_input s \<and> channel_ok (g_pctl g) (np_channel_index s)"
  shows "\<exists>ps hs'. sends env (pctldb (g_pctl g)) ps (pctldb (g_pctl g')) \<and>
      system_inv (hs @ hs') g' \<and> subseq hs' (map snd rs) \<and>
      (\<forall>p \<in> set ps. f_complete p = 1 \<longrightarrow> genuine (hs @ hs') p)"
  using assms
proof (induction ss arbitrary: g rs hs)
  case Nil
  then show ?case by (intro exI [of _ "[]"]) (auto intro: sends.intros)
next
  case (Cons s ss)
  obtain st s' g1 rs1 where p: "sbnframeproc env s g = Some (st, s', g1)"
    and run: "frame_run env ss g1 = Some (rs1, g')" and rs: "rs = (st, s') # rs1"
    using Cons.prems(1) by (auto simp: bind_eq_Some_conv)
  obtain ust us g0 where u: "e_sbn_unpack_frame env s g = Some (ust, us, g0)"
    and r: "(if ust \<noteq> 0 then Some (ust, us, g0)
      else if fh_sbn_command (fh us) \<noteq> SBN_COMMAND_DATA_TRANSFER then Some (e_sbn_command_nondata us, us, g0)
      else data_frame env us g0) = Some (st, s', g1)"
    using p by (auto simp: sbnframeproc_def bind_eq_Some_conv)
  note uk = e_sbn_unpack_frame_keeps [OF u]
  have inv0: "system_inv hs g0" using Cons.prems(2) uk(1) by (simp add: system_inv_def g_ok_def)
  show ?case
  proof (cases "ust = 0 \<and> fh_sbn_command (fh us) = SBN_COMMAND_DATA_TRANSFER")
    case False
    then have "g1 = g0" using r by (auto split: if_splits)
    with Cons.IH [OF run, of hs] Cons.prems(3) inv0 uk(1) rs show ?thesis
      by (auto intro: subseq_Cons')
  next
    case True
    then have d: "data_frame env us g0 = Some (st, s', g1)" using r by simp
    have "frame_fits us" "frame_seq us \<noteq> 0" "np_channel_index us = np_channel_index s"
      using unpacked_fits [of "env_uncompress env" s us] uk(2) True Cons.prems(3) by auto
    with system_step [OF d inv0] uk(1) Cons.prems(3)
    obtain ps where inv1: "system_inv (hs @ [s']) g1"
      and ps: "sends env (pctldb (g_pctl g)) ps (pctldb (g_pctl g1))"
        "\<forall>p \<in> set ps. f_complete p = 1 \<longrightarrow> genuine (hs @ [s']) p"
      and ch: "\<forall>j. channel_ok (g_pctl g1) j = channel_ok (g_pctl g) j" by auto
    from Cons.IH [OF run inv1] Cons.prems(3) ch obtain ps2 hs2 where 2:
      "sends env (pctldb (g_pctl g1)) ps2 (pctldb (g_pctl g'))" "system_inv ((hs @ [s']) @ hs2) g'"
      "subseq hs2 (map snd rs1)" "\<forall>p \<in> set ps2. f_complete p = 1 \<longrightarrow> genuine ((hs @ [s']) @ hs2) p"
      by auto
    show ?thesis
      using sends_append [OF ps(1) 2(1)] 2(2-4) ps(2) genuine_later [of "hs @ [s']" _ hs2] rs
      by (intro exI [of _ "ps @ ps2"] exI [of _ "s' # hs2"]) auto
  qed
qed

section \<open>No faults\<close>

text \<open>
  The conditions under which no assertion fails and no array is left: the clock works, the
  elements were created with room for the path, the channel exists, and the control header is
  not larger than the copy kept of it.
\<close>

definition ready :: "('q, 'b) nbsp_env \<Rightarrow> ('q, 'b) globals_st \<Rightarrow> bool" where
  "ready env g \<longleftrightarrow>
     (\<forall>n. env_clock env n \<noteq> None) \<and> g_ok g \<and>
     (\<forall>p \<in> set (activepce (g_pctl g)). fpath_size p = int (const_fpath_maxsize (env_spooldir env) + 1))"

lemma touches_ready: "touches env i g ps g' \<Longrightarrow> ready env g \<Longrightarrow> ready env g'"
proof -
  have "set (map fpath_size xs) = set (map fpath_size ys) \<Longrightarrow> \<forall>p \<in> set ys. fpath_size p = n \<Longrightarrow>
      \<forall>p \<in> set xs. fpath_size p = n" for xs ys n
    by (metis (no_types, lifting) image_eqI imageE list.set_map)
  then show "touches env i g ps g' \<Longrightarrow> ready env g \<Longrightarrow> ready env g'"
    unfolding touches_def ready_def by (metis (no_types, lifting))
qed

lemma ready_active:
  "ready env g \<Longrightarrow> channel_ok (g_pctl g) i \<Longrightarrow>
   fpath_size (active (g_pctl g) i) = int (const_fpath_maxsize (env_spooldir env) + 1)"
  by (auto simp: ready_def channel_ok_def active_def)

lemma g_close_some: "channel_ok (g_pctl g) i \<Longrightarrow> \<exists>g'. g_close g i = Some g'"
  by (simp add: g_close_def close_pctl_activepce_def)

lemma g_send_some:
  assumes "ready env g" "channel_ok (g_pctl g) i"
  shows "\<exists>st g'. g_send env g i = Some (st, g')"
proof -
  obtain now where "env_clock env (g_readings g) = Some now" using assms(1) by (auto simp: ready_def)
  moreover have "\<exists>st e p d. pctldb_send_pce (env_bdb env) (env_lock env) (Some now) (pctldb (g_pctl g))
      (active (g_pctl g) i) = Some (st, e, p, d)"
    using pctldb_send_pce_some by (metis not_None_eq prod_cases4)
  ultimately show ?thesis
    using assms(2) by (auto simp: g_send_def esend_pctl_activepce_def epctl_send_def)
qed

lemma ready_stats [simp]: "ready env (upd_stats f g) = ready env g"
  by (simp add: ready_def g_ok_def)

lemma send_close_some:
  assumes "ready env g" "channel_ok (g_pctl g) i"
  shows "\<exists>st g1 g2. g_send env g i = Some (st, g1) \<and> g_close g1 i = Some g2 \<and> ready env g2 \<and>
    open_pce (active (g_pctl g2) i) = 0 \<and> channel_ok (g_pctl g2) i"
proof -
  obtain st g1 where s: "g_send env g i = Some (st, g1)" using g_send_some [OF assms] by blast
  have "channel_ok (g_pctl g1) i" using touches_channel [OF g_send_touches(1) [OF s]] assms(2) by simp
  then obtain g2 where c: "g_close g1 i = Some g2" using g_close_some by blast
  note sc = send_close [OF s c]
  show ?thesis using s c touches_ready [OF sc(1) assms(1)] sc(2) touches_channel [OF sc(1)] assms(2) by auto
qed

lemma reclaim_some:
  assumes "ready env g" "channel_ok (g_pctl g) i"
  shows "\<exists>g'. reclaim_activepce env i g = Some g' \<and> ready env g' \<and> channel_ok (g_pctl g') i"
proof (cases "open_pce (active (g_pctl g) i) = 0")
  case True
  with assms show ?thesis by (simp add: reclaim_activepce_def open_pctl_activepce_def)
next
  case False
  with send_close_some [of env "upd_stats update_stats_products_missed g" i] assms show ?thesis
    by (auto simp: reclaim_activepce_def open_pctl_activepce_def)
qed

definition ctrlhdr_fits :: "sbn_frame \<Rightarrow> bool" where
  "ctrlhdr_fits s \<longleftrightarrow> ctrlhdr s \<noteq> Null \<longrightarrow> ctrlhdr_size s \<le> int MAX_CTRLHDR_SIZE"

lemma start_some:
  assumes "ready env g" "channel_ok (g_pctl g) (np_channel_index s)" "frame_block s = 0" "ctrlhdr_fits s"
  shows "\<exists>st g'. start_activepce env s g = Some (st, g') \<and> st \<in> {0, 1, 4} \<and>
    (st = 0 \<longrightarrow> seq_number (active (g_pctl g') (np_channel_index s)) = frame_seq s) \<and>
    channel_ok (g_pctl g') (np_channel_index s)"
proof -
  let ?i = "np_channel_index s"
  obtain g1 where g1: "reclaim_activepce env ?i g = Some g1" "ready env g1" "channel_ok (g_pctl g1) ?i"
    using reclaim_some [OF assms(1,2)] by blast
  obtain now where now: "env_clock env (g_readings g1) = Some now" using g1(2) by (auto simp: ready_def)
  obtain cst hdr where h: "copy_ctrlheader (int MAX_CTRLHDR_SIZE) s = Some (cst, hdr)"
    using assms(4) by (cases "ctrlhdr s = Null") (auto simp: copy_ctrlheader_def ctrlhdr_fits_def)
  let ?p = "(init_activepce env now s (active (g_pctl g1) ?i))\<lparr>pce_ctrlhdr := hdr,
      pce_ctrlhdr_size := int (length hdr), f_has_ccb := (if ccb s \<noteq> Null then 1 else 0)\<rparr>"
  have "fpath_size ?p = int (const_fpath_maxsize (env_spooldir env) + 1)" "seq_number ?p = frame_seq s"
    using ready_active [OF g1(2,3)] by (simp_all add: init_activepce_def Let_def)
  then obtain st p where n: "name_activepce env (g_loadave_max_rtx g1) s ?p = Some (st, p)" "st \<in> {0, 1, 4}"
    and sq: "seq_number p = frame_seq s"
    using name_activepce_fits [of ?p env "g_loadave_max_rtx g1" s] name_activepce_keeps(1)
    by (metis (no_types, lifting))
  have st: "start_activepce env s g =
      (if st \<noteq> 0 then g_close (g1\<lparr>g_readings := Suc (g_readings g1), g_pctl := set_active ?i p (g_pctl g1)\<rparr>) ?i
       else Some (g1\<lparr>g_readings := Suc (g_readings g1), g_pctl := set_active ?i p (g_pctl g1)\<rparr>)) \<bind>
      (\<lambda>g. Some (st, g))"
    using assms(3) g1(1) now h n(1) by (simp add: start_activepce_def Let_def)
  show ?thesis
  proof (cases "st = 0")
    case True
    with st sq g1(3) show ?thesis by simp
  next
    case False
    with st n(2) g1(3) show ?thesis by (auto simp: g_close_def close_pctl_activepce_def)
  qed
qed

lemma e_start_some:
  assumes "ready env g" "channel_ok (g_pctl g) (np_channel_index s)" "frame_block s = 0 \<Longrightarrow> ctrlhdr_fits s"
  shows "\<exists>st g'. e_start_activepce env s g = Some (st, g')"
proof (cases "frame_block s = 0")
  case True
  obtain st g' where s: "start_activepce env s (upd_stats update_stats_products_transmitted g) = Some (st, g')"
    "st \<in> {0, 1, 4}" "st = 0 \<longrightarrow> seq_number (active (g_pctl g') (np_channel_index s)) = frame_seq s"
    "channel_ok (g_pctl g') (np_channel_index s)"
    using start_some [of env "upd_stats update_stats_products_transmitted g" s] assms True by auto
  then have "st = 0 \<longrightarrow> log_pce_diag s g' = Some ()"
    by (simp add: log_pce_diag_def get_pctl_activepce_def)
  with s(1,2) True show ?thesis by (auto simp: e_start_activepce_def)
qed (simp add: e_start_activepce_def)

lemma update_some:
  assumes "ready env g" "channel_ok (g_pctl g) (np_channel_index s)" "frame_fits s"
  shows "\<exists>st g'. e_update_activepce env s g = Some (st, g')"
proof -
  let ?i = "np_channel_index s" and ?p = "active (g_pctl g) (np_channel_index s)"
  consider (other) "seq_number ?p \<noteq> frame_seq s"
    | (jump) "seq_number ?p = frame_seq s" "frame_block s \<noteq> recv_fragments ?p"
    | (nxt) "seq_number ?p = frame_seq s" "frame_block s = recv_fragments ?p" by blast
  then show ?thesis
  proof cases
    case other
    with assms(2) show ?thesis
      by (simp add: e_update_activepce_def update_activepce_def update_activepce_framecounter_def Let_def)
  next
    case jump
    with assms send_close_some [of env "upd_stats update_stats_products_missed g" ?i] show ?thesis
      by (auto simp: e_update_activepce_def update_activepce_def update_activepce_framecounter_def Let_def)
  next
    case nxt
    let ?p1 = "?p\<lparr>recv_fragments := recv_fragments ?p + 1\<rparr>"
    let ?g1 = "g\<lparr>g_pctl := set_active ?i ?p1 (g_pctl g)\<rparr>"
    have pk: "pce_ok ?p" using assms(1,2) active_ok by (auto simp: ready_def)
    obtain st m where sv: "save_in env s (saveunz_flag ?p) (pce_mf ?p) = Some (st, m)" "mf_inv m" "st = 0 \<or> st = -1"
      using save_in_ok [of "pce_mf ?p" s env "saveunz_flag ?p"] pk assms(3) by (auto simp: pce_ok_def)
    let ?p2 = "?p1\<lparr>pce_mf := m\<rparr>"
    define g2 where "g2 = ?g1\<lparr>g_pctl := set_active ?i ?p2 (g_pctl ?g1)\<rparr>"
    have ms: "update_activepce env s g = Some (st, g2)"
      using msave_frame_eq [of ?g1 s env] nxt assms(2) sv(1)
      by (simp add: update_activepce_def update_activepce_framecounter_def Let_def g2_def)
    have t: "touches env ?i g [] g2"
      using touches_trans [OF touches_set(1) [of g ?i ?p1 ?g1 env] touches_set(1) [of ?g1 ?i ?p2 g2 env]]
        assms(2) sv(2) by (simp add: pce_ok_def g2_def)
    have g2: "ready env g2" "channel_ok (g_pctl g2) ?i" "active (g_pctl g2) ?i = ?p2"
      using touches_ready [OF t assms(1)] touches_channel [OF t] assms(2) by (simp_all add: g2_def)
    from sv(3) show ?thesis
    proof
      assume "st = 0"
      with ms g2 nxt show ?thesis
        by (simp add: e_update_activepce_def log_pce_diag_def get_pctl_activepce_def)
    next
      assume "st = -1"
      with ms g2(1,2) send_close_some [of env "upd_stats update_stats_products_missed g2" ?i] show ?thesis
        by (auto simp: e_update_activepce_def)
    qed
  qed
qed

lemma end_some:
  assumes "ready env g" "channel_ok (g_pctl g) (np_channel_index s)"
  shows "\<exists>st g'. e_end_activepce env s g = Some (st, g')"
proof -
  let ?i = "np_channel_index s" and ?p = "active (g_pctl g) (np_channel_index s)"
  have "complete_activepce (g_pctl g) ?i (frame_seq s) \<noteq> None"
    using assms(2) by (simp add: complete_activepce_def Let_def)
  then obtain st pctl where c: "complete_activepce (g_pctl g) ?i (frame_seq s) = Some (st, pctl)"
    by auto
  define g1 where "g1 = g\<lparr>g_pctl := pctl\<rparr>"
  have "pctl = g_pctl g \<or> pctl = set_active ?i (?p\<lparr>f_complete := 1\<rparr>) (g_pctl g)"
    using c assms(2) by (auto simp: complete_activepce_def Let_def split: if_splits)
  then have t: "touches env ?i g [] g1"
    using touches_set(1) [of g ?i "?p\<lparr>f_complete := 1\<rparr>" g1 env] touches_same [of g1 g env ?i] assms(2)
    by (auto simp: g1_def pce_ok_def)
  have g1: "ready env g1" "channel_ok (g_pctl g1) ?i"
    using touches_ready [OF t assms(1)] touches_channel [OF t] assms(2) by simp_all
  show ?thesis
  proof (cases "st = 1")
    case True
    with c g_close_some [OF g1(2)] show ?thesis by (auto simp: e_end_activepce_def g1_def)
  next
    case False
    let ?g2 = "if st = 0 then upd_stats update_stats_products_completed g1
      else upd_stats update_stats_products_missed g1"
    have "ready env ?g2" "channel_ok (g_pctl ?g2) ?i" using g1 by simp_all
    from send_close_some [OF this] c False show ?thesis
      unfolding e_end_activepce_def g1_def by (cases "st = 0") auto
  qed
qed

lemma later_stages_some:
  assumes "ready env g" "channel_ok (g_pctl g) (np_channel_index s)" "frame_fits s" "frame_seq s \<noteq> 0"
    "chan_rel c (active (g_pctl g) (np_channel_index s))"
  shows "\<exists>st' g'. later_stages env t st s g = Some (st', g')"
proof (cases "st = 0 \<and> t AND PDH_TRANSFERTYPE_PROGRESS \<noteq> 0")
  case True
  obtain st2 g2 where u: "e_update_activepce env s g = Some (st2, g2)"
    using update_some [OF assms(1,2,3)] by blast
  obtain ps where "touches env (np_channel_index s) g ps g2"
    using update_sim [OF u assms(5) _ assms(4,3) refl] assms(1) by (auto simp: ready_def)
  from end_some [OF touches_ready [OF this assms(1)]] touches_channel [OF this] assms(2) True u show ?thesis
    by (auto simp: later_stages_def)
next
  case False
  with end_some [OF assms(1,2)] show ?thesis by (auto simp: later_stages_def)
qed

text \<open>A frame that makes the processor start a product.\<close>

definition opens_product :: "sbn_frame \<Rightarrow> bool" where
  "opens_product s \<longleftrightarrow>
     \<not> frame_has s (PDH_TRANSFERTYPE_ERROR OR PDH_TRANSFERTYPE_ABORT) \<and>
     frame_has s PDH_TRANSFERTYPE_START \<and> frame_block s = 0"

lemma data_frame_some:
  assumes "ready env g" "channel_ok (g_pctl g) (np_channel_index s)" "frame_fits s" "opens_product s \<Longrightarrow> ctrlhdr_fits s"
    "frame_seq s \<noteq> 0" "chan_rel c (active (g_pctl g) (np_channel_index s))"
  shows "\<exists>st s' g'. data_frame env s g = Some (st, s', g')"
proof -
  let ?i = "np_channel_index s"
  consider (abort) "frame_has s (PDH_TRANSFERTYPE_ERROR OR PDH_TRANSFERTYPE_ABORT)"
    | (start) "\<not> frame_has s (PDH_TRANSFERTYPE_ERROR OR PDH_TRANSFERTYPE_ABORT)"
        "frame_has s PDH_TRANSFERTYPE_START"
    | (other) "\<not> frame_has s (PDH_TRANSFERTYPE_ERROR OR PDH_TRANSFERTYPE_ABORT)"
        "\<not> frame_has s PDH_TRANSFERTYPE_START" by blast
  then show ?thesis
  proof cases
    case abort
    with g_close_some [of "upd_stats update_stats_products_aborted g" ?i] assms(2) show ?thesis
      by (auto simp: data_frame_def Let_def abort_activepce_def)
  next
    case start
    obtain s1 g0 where r: "note_retransmission s g = (s1, g0)" by fastforce
    have s1: "pdh s1 = pdh s" "np_channel_index s1 = ?i" "frame_fits s1" "frame_block s1 = 0 \<Longrightarrow> ctrlhdr_fits s1"
      and g0: "ready env g0" "g_pctl g0 = g_pctl g"
      using r assms(1,3,4) start by (auto simp: note_retransmission_def ctrlhdr_fits_def opens_product_def split: if_splits)
    have g0k: "g_ok g0" "chan_rel c (active (g_pctl g0) ?i)" "channel_ok (g_pctl g0) ?i"
      using g0 assms by (simp_all add: ready_def)
    obtain st1 g1 where e: "e_start_activepce env s1 g0 = Some (st1, g1)"
      using e_start_some [of env g0 s1] s1 g0 g0k by auto
    obtain ps c1 where t: "touches env ?i g0 ps g1" and c1: "chan_rel c1 (active (g_pctl g1) ?i)"
      using e_start_sim [OF e g0k(2,1)] s1 assms(5) by auto
    have "\<exists>st' g'. later_stages env (pdh_transfer_type (pdh s)) st1 s1 g1 = Some (st', g')"
      using touches_ready [OF t g0(1)] touches_channel [OF t] g0k(3) s1 assms(5) c1
      by (intro later_stages_some) auto
    with start r e show ?thesis by (auto simp: data_frame_def Let_def)
  next
    case other
    with later_stages_some [OF assms(1,2,3,5,6)] show ?thesis
      by (fastforce simp: data_frame_def Let_def)
  qed
qed

lemma data_frame_none:
  assumes "opens_product s" "\<not> ctrlhdr_fits s"
  shows "data_frame env s g = None"
proof -
  obtain s1 g0 where r: "note_retransmission s g = (s1, g0)" by fastforce
  have "pdh s1 = pdh s" "\<not> ctrlhdr_fits s1"
    using r assms(2) by (auto simp: note_retransmission_def ctrlhdr_fits_def split: if_splits)
  then have "e_start_activepce env s1 g0 = None"
    using assms(1)
    by (auto simp: e_start_activepce_def start_activepce_def opens_product_def ctrlhdr_fits_def copy_ctrlheader_def Let_def
        bind_eq_None_conv)
  with assms(1) r show ?thesis by (auto simp: data_frame_def opens_product_def Let_def)
qed

end
