(* ===== verification/Frame_Properties.thy ===== *)
theory Frame_Properties
  imports Frame_Simulation
begin

text \<open>
  The properties of the frame processor as a whole, over runs of frames of all channels, and a
  small system on which they are applied.
\<close>

section \<open>An example\<close>

text \<open>A product of one frame, and a system with one channel, its filters accepting everything.\<close>

definition example_product_frame :: bytes where
  "example_product_frame =
     [255, 0, 80, 0, 3, 5, 0, 0, 0, 0, 0, 1, 0, 0, 1, 88] @
     [17, 7, 0, 52, 0, 0, 0, 0, 0, 57, 1, 1, 0, 0, 0, 9] @
     [0, 0, 0, 36, 1, 0, 0, 57, 0, 0, 1, 4, 0, 1, 0, 1, 0, 0, 0, 0,
      0, 0, 0, 0, 0, 0, 0, 0, 0, 0, 0, 0, 0, 0, 0, 0] @
     (64 # replicate 23 0) @ example_wmo @ ascii ''OSOCBH'' @ [13, 13, 10] @ [65, 66, 67]"

definition example_env :: "(pctl_element_st list, timespec \<Rightarrow> bytes option) nbsp_env" where
  "example_env =
     \<lparr>env_alloc = (\<lambda>_. True), env_uncompress = no_zlib, env_bdb = list_bdb, env_lock = 0,
      env_clock = (\<lambda>n. Some (Timespec 100 (int n))), env_spooldir = ascii ''/v'', env_spoolsavefmt = 0,
      env_memfile_blocksize = 8, env_memfile_minsize = 8,
      env_np_regex_match = (\<lambda>_. 0), env_savez_regex_match = (\<lambda>_. 0)\<rparr>"

definition example_idle_pce :: pctl_element_st where
  "example_idle_pce = (example_pce 0 [])\<lparr>fpath_size := 45, pce_mf := (example_mf [1, 2, 3])\<lparr>mf_size := 0\<rparr>\<rparr>"

definition example_stats :: nbsp_stats_st where
  "example_stats =
     \<lparr>frames_processed = 0, frames_jumps = 0, frames_bad = 0, frames_received = 0,
      frames_data_size = 0, products_transmitted = 0, products_retransmitted = 0,
      products_retransmitted_c = 0, products_retransmitted_p = 0,
      products_retransmitted_i = 0, products_retransmitted_r = 0, products_completed = 0,
      products_missed = 0, products_bad = 0, products_aborted = 0, products_rejected = 0,
      products_rtx_index = 0, stats_f_valid = 0, stats_time = 0\<rparr>"

definition example_globals :: "(pctl_element_st list, timespec \<Rightarrow> bytes option) globals_st" where
  "example_globals =
     \<lparr>g_stats = example_stats, g_framep = [fst (unpack_fl_header (replicate 16 0))],
      g_pctl = \<lparr>pctldb = empty_pctldb, activepce = [example_idle_pce], outputmf = no_mf,
                out_pce = example_idle_pce, status_current = 0, status_last = 0\<rparr>,
      g_readings = 0, g_loadave_max_rtx = 0\<rparr>"

lemma example_run:
  "map_option (\<lambda>r. (map fst (fst r), map (\<lambda>p. (f_complete p, fname p)) (dbp (pctldb (g_pctl (snd r))))))
     (frame_run example_env [fresh_frame example_product_frame] example_globals) =
   Some ([0], [(1, ascii ''kwbc_sxus20-osocbh'')])"
  by code_simp

section \<open>Properties\<close>

lemma genuine_mono:
  assumes "genuine hs p" "subseq hs hs'"
  shows "genuine hs' p"
  using assms unfolding genuine_def on_channel_def
  by (meson subseq_filter subseq_order.trans)

lemma idle_system_inv:
  assumes "\<forall>p \<in> set (activepce (g_pctl g)). pce_ok p \<and> open_pce p = 0"
  shows "system_inv [] g"
proof -
  have "\<exists>c. chan_rel c (active (g_pctl g) i) \<and> chan_ok (on_channel i []) c" if "channel_ok (g_pctl g) i" for i
    using assms that by (intro exI [of _ Idle]) (auto simp: active_def channel_ok_def)
  with assms show ?thesis by (simp add: system_inv_def g_ok_def)
qed

text \<open>
  C1. Whatever frames arrive, of all the channels and in any order, as long as their product numbers are
  not 0 and their control headers are not larger than their data blocks, a product that reaches the
  queue marked as complete is genuine: its data are the contributions of frames of one channel, all
  of that product, numbered from 0 without a gap, in the order received, and at least as many as
  it has fragments. The reader starts with idle channels. The condition on the numbers is needed, as the
  last property of this theory shows.
\<close>

theorem complete_products_genuine:
  assumes run: "frame_run env ss g = Some (rs, g')"
    and idle: "\<forall>p \<in> set (activepce (g_pctl g)). pce_ok p \<and> open_pce p = 0"
    and ss: "\<forall>s \<in> set ss. well_formed_input s \<and> channel_ok (g_pctl g) (np_channel_index s)"
  shows "\<exists>ps. sends env (pctldb (g_pctl g)) ps (pctldb (g_pctl g')) \<and>
    (\<forall>p \<in> set ps. f_complete p = 1 \<longrightarrow> genuine (map snd rs) p)"
  using system_run [OF run idle_system_inv [OF idle] ss] genuine_mono by fastforce

lemma example_idle: "\<forall>p \<in> set (activepce (g_pctl example_globals)). pce_ok p \<and> open_pce p = 0"
  by (simp add: example_globals_def example_idle_pce_def example_pce_def example_mf_def pce_ok_def
      open_pce_def open_memfile_def mf_inv_def)

lemma example_input:
  "well_formed_input (fresh_frame example_product_frame) \<and>
   channel_ok (g_pctl example_globals) (np_channel_index (fresh_frame example_product_frame))"
  by code_simp

theorem complete_products_genuine_witness:
  "\<exists>rs g' ps. frame_run example_env [fresh_frame example_product_frame] example_globals = Some (rs, g') \<and>
     sends example_env (pctldb (g_pctl example_globals)) ps (pctldb (g_pctl g')) \<and>
     (\<forall>p \<in> set ps. f_complete p = 1 \<longrightarrow> genuine (map snd rs) p) \<and> length (dbp (pctldb (g_pctl g'))) = 1"
proof -
  obtain rs g' where r: "frame_run example_env [fresh_frame example_product_frame] example_globals = Some (rs, g')"
    and n: "length (dbp (pctldb (g_pctl g'))) = 1"
    using example_run by (cases "frame_run example_env [fresh_frame example_product_frame] example_globals") auto
  from complete_products_genuine [OF r example_idle] example_input n r show ?thesis by auto
qed

text \<open>
  C3. The frame processor refines the reassembly machine: on a data frame of a product whose number is not 0
  and whose control header and data lie inside the bytes received, it performs one step of
  the machine of the channel of the frame, the elements it sends to the queue are the products
  the machine emits, in order, and the elements of all the other channels stay as they are.
\<close>

theorem data_frame_refines:
  assumes "data_frame env s g = Some (st, s', g')" "chan_rel c (active (g_pctl g) (np_channel_index s))"
    "g_ok g" "frame_seq s \<noteq> 0" "frame_fits s"
  shows "\<exists>ps out c'. reasm_step s' c out c' \<and> list_all2 emits ps out \<and>
    chan_rel c' (active (g_pctl g') (np_channel_index s)) \<and>
    sends env (pctldb (g_pctl g)) ps (pctldb (g_pctl g')) \<and>
    (\<forall>j. 0 \<le> j \<and> j \<noteq> np_channel_index s \<longrightarrow> active (g_pctl g') j = active (g_pctl g) j)"
  using data_frame_sim [OF assms refl] unfolding touches_def by blast

definition example_unpacked :: sbn_frame where
  "example_unpacked = snd (sbn_unpack_frame no_zlib (fresh_frame example_product_frame))"

lemma example_unpacked_ok:
  "sbn_unpack_frame no_zlib (fresh_frame example_product_frame) = (0, example_unpacked)"
  "fh_sbn_command (fh example_unpacked) = SBN_COMMAND_DATA_TRANSFER"
  by code_simp+

lemma example_active_idle:
  "chan_rel Idle (active (g_pctl example_globals) (np_channel_index example_unpacked))"
  by code_simp

theorem data_frame_refines_witness:
  "\<exists>st s' g' ps out c'. data_frame example_env example_unpacked example_globals = Some (st, s', g') \<and>
    reasm_step s' Idle out c' \<and> list_all2 emits ps out \<and>
    chan_rel c' (active (g_pctl g') (np_channel_index example_unpacked)) \<and>
    sends example_env (pctldb (g_pctl example_globals)) ps (pctldb (g_pctl g')) \<and>
    (\<forall>j. 0 \<le> j \<and> j \<noteq> np_channel_index example_unpacked \<longrightarrow>
       active (g_pctl g') j = active (g_pctl example_globals) j)"
proof -
  note fits = unpacked_fits [OF example_unpacked_ok conjunct1 [OF example_input]]
  have ok: "g_ok example_globals" using example_idle by (simp add: g_ok_def)
  have "data_frame example_env example_unpacked example_globals \<noteq> None" by code_simp
  then obtain st s' g' where "data_frame example_env example_unpacked example_globals = Some (st, s', g')"
    by auto
  from data_frame_refines [OF this example_active_idle ok fits(2,1)] this show ?thesis by blast
qed

lemma example_ready: "ready example_env example_globals"
  using example_idle by (simp add: ready_def g_ok_def example_env_def example_globals_def example_idle_pce_def
      example_pce_def const_fpath_maxsize_def ascii_def)

lemma sbn_unpack_frame_channel: "np_channel_index (snd (sbn_unpack_frame u s)) = np_channel_index s"
proof -
  have "np_channel_index (snd (unpack_sbn_headers s)) = np_channel_index s" for s
    using unpack_sbn_headers_keeps(3) [of s] by (metis prod.collapse)
  moreover have "np_channel_index (snd (locate_ctrlhdr s b)) = np_channel_index s" for s b
    by (simp add: locate_ctrlhdr_def Let_def)
  moreover have "np_channel_index (locate_frdata s b) = np_channel_index s" for s b
    by (simp add: locate_frdata_def)
  moreover have "np_channel_index (snd (unz_first_frame u s)) = np_channel_index s" for s
    by (simp add: unz_first_frame_def Let_def split: prod.split)
  moreover have "np_channel_index (snd (locate_ccb s)) = np_channel_index s" for s
    by (simp add: locate_ccb_def Let_def)
  ultimately show ?thesis
    unfolding sbn_unpack_frame_def Let_def case_prod_beta by simp
qed

lemma sbnframeproc_faults:
  assumes inv: "system_inv hs g" and ready: "ready env g" and s: "well_formed_input s"
    and i: "channel_ok (g_pctl g) (np_channel_index s)" "nat (np_channel_index s) < length (g_framep g)"
    and u: "sbn_unpack_frame (env_uncompress env) s = (st, s1)"
  shows "sbnframeproc env s g = None \<longleftrightarrow>
    st = 0 \<and> fh_sbn_command (fh s1) = SBN_COMMAND_DATA_TRANSFER \<and> opens_product s1 \<and> \<not> ctrlhdr_fits s1"
proof -
  have ch: "np_channel_index s1 = np_channel_index s"
    using sbn_unpack_frame_channel [of "env_uncompress env" s] u by simp
  have up: "\<exists>g2. update_framep_info s1 (upd_stats f (upd_stats f' g)) = Some g2" for f f'
    using i ch by (simp add: update_framep_info_def Let_def channel_ok_def)
  obtain g1 where e: "e_sbn_unpack_frame env s g = Some (st, s1, g1)"
  proof (cases "st = 0 \<or> st = 3")
    case True
    from up [of "update_stats_frames 0" "update_stats_frames_received (word_of_int (rawdata_size s))"] True
    show ?thesis by (auto simp: e_sbn_unpack_frame_def Let_def u intro: that)
  next
    case False
    then show ?thesis by (simp add: e_sbn_unpack_frame_def Let_def u that)
  qed
  note g1 = e_sbn_unpack_frame_keeps(1) [OF e]
  show ?thesis
  proof (cases "st = 0 \<and> fh_sbn_command (fh s1) = SBN_COMMAND_DATA_TRANSFER")
    case False
    with e show ?thesis by (auto simp: sbnframeproc_def)
  next
    case True
    with u have u0: "sbn_unpack_frame (env_uncompress env) s = (0, s1)" and cmd: "fh_sbn_command (fh s1) = SBN_COMMAND_DATA_TRANSFER"
      by simp_all
    note f = unpacked_fits [OF u0 cmd s]
    obtain c where c: "chan_rel c (active (g_pctl g1) (np_channel_index s1))"
      using inv i(1) ch g1 by (auto simp: system_inv_def)
    have r: "ready env g1" using ready g1 by (simp add: ready_def g_ok_def)
    have "data_frame env s1 g1 = None \<longleftrightarrow> opens_product s1 \<and> \<not> ctrlhdr_fits s1"
      using data_frame_some [OF r _ f(1) _ f(2) c] data_frame_none i(1) g1 ch by fastforce
    with True e show ?thesis by (simp add: sbnframeproc_def)
  qed
qed



text \<open>
  C25. The only faults of the frame processor on a well-formed frame, with the conditions of the previous property on the
  rest, are the first frames with a control header of more than 58 bytes. For a data frame that is
  accepted the processor stops with the failed assertion of \<^verbatim>\<open>copy_ctrlheader\<close> if and only if the frame starts a
  product and its control header is larger than that, where the comment of the function says that such a header is
  treated as missing.
\<close>

theorem oversized_ctrlhdr_aborts:
  assumes "system_inv hs g" "ready env g" "well_formed_input s"
    and "channel_ok (g_pctl g) (np_channel_index s)" "nat (np_channel_index s) < length (g_framep g)"
    and u: "sbn_unpack_frame (env_uncompress env) s = (0, s1)" and cmd: "fh_sbn_command (fh s1) = SBN_COMMAND_DATA_TRANSFER"
  shows "sbnframeproc env s g = None \<longleftrightarrow>
    opens_product s1 \<and> int MAX_CTRLHDR_SIZE < pdh_data_block_offset (unpack_pd_header (drop FRAME_LEVEL_HEADER_SIZE (rawdata s)))"
proof -
  have "ctrlhdr_fits s1 \<longleftrightarrow>
      pdh_data_block_offset (unpack_pd_header (drop FRAME_LEVEL_HEADER_SIZE (rawdata s))) \<le> int MAX_CTRLHDR_SIZE"
    using sbn_unpack_frame_ok(1,3) [OF u cmd] by (auto simp: ctrlhdr_fits_def frame_located_def)
  with sbnframeproc_faults [OF assms(1-6)] cmd show ?thesis by auto
qed

text \<open>The first frame of a product with 59 bytes of control header.\<close>

definition example_long_header :: bytes where
  "example_long_header =
     [255, 0, 80, 0, 3, 5, 0, 0, 0, 0, 0, 1, 0, 0, 1, 88] @
     [17, 7, 0, 52, 0, 0, 0, 59, 0, 62, 1, 1, 0, 0, 0, 9] @
     [0, 0, 0, 36, 1, 0, 0, 57, 0, 0, 1, 4, 0, 1, 0, 1, 0, 0, 0, 0,
      0, 0, 0, 0, 0, 0, 0, 0, 0, 0, 0, 0, 0, 0, 0, 0] @
     (64 # replicate 58 0) @ [65, 66, 67]"

theorem oversized_ctrlhdr_aborts_witness:
  "sbnframeproc example_env (fresh_frame example_long_header) example_globals = None"
proof -
  let ?s = "fresh_frame example_long_header"
  let ?s1 = "snd (sbn_unpack_frame (env_uncompress example_env) ?s)"
  have s: "well_formed_input ?s" "channel_ok (g_pctl example_globals) (np_channel_index ?s)"
    "nat (np_channel_index ?s) < length (g_framep example_globals)"
    by code_simp+
  have "fst (sbn_unpack_frame (env_uncompress example_env) ?s) = 0" by code_simp
  then have u: "sbn_unpack_frame (env_uncompress example_env) ?s = (0, ?s1)" by (metis prod.collapse)
  have f: "fh_sbn_command (fh ?s1) = SBN_COMMAND_DATA_TRANSFER" "opens_product ?s1"
    "int MAX_CTRLHDR_SIZE < pdh_data_block_offset (unpack_pd_header (drop FRAME_LEVEL_HEADER_SIZE (rawdata ?s)))"
    by code_simp+
  from oversized_ctrlhdr_aborts [OF idle_system_inv [OF example_idle] example_ready s u f(1)] f(2,3) show ?thesis by simp
qed

text \<open>
  C39. A product number 0 is taken for that of an idle channel, whose element keeps the names and the counters of its
  last product. A frame with that number that continues and ends a product, and whose block number is the
  number of frames of the last product, is queued as a complete product: the path is that of the last
  product and the data are those of this one frame, although no product was started. The hypotheses are
  that the frame lies inside the bytes received, that it can be saved in memory, and that the processor returns.
\<close>

theorem unnumbered_frame_completes:
  fixes g :: "('q, 'b) globals_st"
  defines "p \<equiv> active (g_pctl g)"
  assumes run: "sbnframeproc env s0 g = Some (st, s', g')"
    and u: "sbn_unpack_frame (env_uncompress env) s0 = (0, s)" "fh_sbn_command (fh s) = SBN_COMMAND_DATA_TRANSFER" "frame_fits s"
    and idle: "channel_ok (g_pctl g) i" "i = np_channel_index s" "open_pce (p i) = 0" "pce_ok (p i)" "num_fragments (p i) = recv_fragments (p i)"
    and flags: "\<not> frame_has s (PDH_TRANSFERTYPE_ERROR OR PDH_TRANSFERTYPE_ABORT)" "\<not> frame_has s PDH_TRANSFERTYPE_START"
      "frame_has s PDH_TRANSFERTYPE_PROGRESS" "frame_has s PDH_TRANSFERTYPE_END"
    and frame: "frame_seq s = 0" "frame_block s = recv_fragments (p i)" "save_in env s (saveunz_flag (p i)) (pce_mf (p i)) = Some (0, m)"
  shows "\<exists>q. sends env (pctldb (g_pctl g)) [q] (pctldb (g_pctl g')) \<and> f_complete q = 1 \<and> fpath q = fpath (p i) \<and>
    mf_data (pce_mf q) = payload (saveunz_flag (p i)) s"
proof -
  obtain g0 where e: "e_sbn_unpack_frame env s0 g = Some (0, s, g0)" and d: "data_frame env s g0 = Some (st, s', g')"
    using run u(1,2) by (auto simp: sbnframeproc_def e_sbn_unpack_frame_def Let_def bind_eq_Some_conv)
  note g0 = e_sbn_unpack_frame_keeps(1) [OF e]
  let ?p1 = "(p i)\<lparr>recv_fragments := recv_fragments (p i) + 1\<rparr>"
  let ?g1 = "g0\<lparr>g_pctl := set_active i ?p1 (g_pctl g0)\<rparr>" and ?p2 = "?p1\<lparr>pce_mf := m\<rparr>"
  let ?g2 = "g0\<lparr>g_pctl := set_active i ?p2 (g_pctl ?g1)\<rparr>"
  have z: "seq_number (p i) = 0" "mf_size (pce_mf (p i)) = 0"
    using idle(3) by (auto simp: open_pce_def open_memfile_def split: if_splits)
  have up: "update_activepce env s g0 = Some (0, ?g2)"
    using msave_frame_eq [of ?g1 s env] idle frame z g0
    by (simp add: update_activepce_def update_activepce_framecounter_def Let_def p_def)
  have a2: "active (g_pctl ?g2) i = ?p2" "channel_ok (g_pctl ?g2) i" using idle(1) g0 by simp_all
  have "e_end_activepce env s ?g2 = Some (st, g')"
    using d flags up a2 idle(2) frame(1) z
    by (auto simp: data_frame_def later_stages_def e_update_activepce_def log_pce_diag_def get_pctl_activepce_def Let_def bind_eq_Some_conv)
  then obtain st1 g3 where sc: "g_send env (upd_stats update_stats_products_completed
      (?g2\<lparr>g_pctl := set_active i (?p2\<lparr>f_complete := 1\<rparr>) (g_pctl ?g2)\<rparr>)) i = Some (st1, g3)" "g_close g3 i = Some g'"
    using a2 idle(2,5) frame(1) z
    by (auto simp: e_end_activepce_def complete_activepce_def Let_def bind_eq_Some_conv)
  have "sends env (pctldb (g_pctl g)) [?p2\<lparr>f_complete := 1\<rparr>] (pctldb (g_pctl g'))"
    using send_close(1) [OF sc] idle(1) g0 by (simp add: touches_def)
  moreover have "mf_data m = payload (saveunz_flag (p i)) s"
    using save_in_ok [of "pce_mf (p i)" s env "saveunz_flag (p i)"] idle(4) u(3) frame(3) z(2) by (auto simp: pce_ok_def mf_data_def)
  ultimately show ?thesis by (intro exI [of _ "?p2\<lparr>f_complete := 1\<rparr>"]) simp
qed

text \<open>A frame of this kind.\<close>

definition example_unnumbered :: bytes where
  "example_unnumbered =
     [255, 0, 80, 0, 3, 5, 0, 0, 0, 0, 0, 1, 0, 0, 1, 88] @
     [17, 6, 0, 16, 0, 1, 0, 0, 0, 3, 1, 1, 0, 0, 0, 0] @ [68, 69, 70]"

theorem unnumbered_frame_completes_witness:
  "\<exists>st s' g' q. sbnframeproc example_env (fresh_frame example_unnumbered) example_globals = Some (st, s', g') \<and>
     sends example_env (pctldb (g_pctl example_globals)) [q] (pctldb (g_pctl g')) \<and> f_complete q = 1 \<and>
     fpath q = fpath (active (g_pctl example_globals) 0) \<and> mf_data (pce_mf q) = [68, 69, 70]"
proof -
  let ?s = "snd (sbn_unpack_frame no_zlib (fresh_frame example_unnumbered))" and ?p = "active (g_pctl example_globals) 0"
  have "sbnframeproc example_env (fresh_frame example_unnumbered) example_globals \<noteq> None" by code_simp
  then obtain st s' g' where run: "sbnframeproc example_env (fresh_frame example_unnumbered) example_globals = Some (st, s', g')" by auto
  have "fst (sbn_unpack_frame no_zlib (fresh_frame example_unnumbered)) = 0" by code_simp
  then have u: "sbn_unpack_frame (env_uncompress example_env) (fresh_frame example_unnumbered) = (0, ?s)"
    by (simp add: example_env_def prod_eq_iff)
  have s: "fh_sbn_command (fh ?s) = SBN_COMMAND_DATA_TRANSFER" "frame_fits ?s" by code_simp+
  have p: "channel_ok (g_pctl example_globals) 0" "0 = np_channel_index ?s" "open_pce ?p = 0" "num_fragments ?p = recv_fragments ?p"
    by code_simp+
  have ok: "pce_ok ?p" using example_idle by (simp add: example_globals_def active_def)
  have f: "\<not> frame_has ?s (PDH_TRANSFERTYPE_ERROR OR PDH_TRANSFERTYPE_ABORT)" "\<not> frame_has ?s PDH_TRANSFERTYPE_START"
    "frame_has ?s PDH_TRANSFERTYPE_PROGRESS" "frame_has ?s PDH_TRANSFERTYPE_END" "frame_seq ?s = 0" "frame_block ?s = recv_fragments ?p"
    by code_simp+
  have "map_option fst (save_in example_env ?s (saveunz_flag ?p) (pce_mf ?p)) = Some 0" by code_simp
  then obtain m where m: "save_in example_env ?s (saveunz_flag ?p) (pce_mf ?p) = Some (0, m)" by auto
  have "payload (saveunz_flag ?p) ?s = [68, 69, 70]" by code_simp
  with unnumbered_frame_completes [OF run u s p(1-3) ok p(4) f m] run show ?thesis by fastforce
qed

end
