(* ===== verification/Nreadn.thy ===== *)
theory Nreadn
  imports Bytes_Util
begin

text \<open>
  The timed reads and writes of \<^verbatim>\<open>src/nreadn.c\<close>: \<^verbatim>\<open>read1\<close> and \<^verbatim>\<open>write1\<close>, which wait with
  \<^verbatim>\<open>poll\<close>, and the loops over them. The system calls are the fields of \<open>os\<close>, on a state \<open>'s\<close> of
  the descriptor; what the code relies on is \<open>read_laws\<close> and \<open>write_laws\<close>: a read returns a
  prefix, not longer than asked, of the bytes to come, and a write takes a prefix.
\<close>

section \<open>System calls\<close>

record 's os =
  os_poll :: "u32 \<Rightarrow> 's \<Rightarrow> int \<times> bool \<times> 's" \<comment> \<open>status, and whether the event asked for is reported\<close>
  os_read :: "nat \<Rightarrow> 's \<Rightarrow> bytes option \<times> 's" \<comment> \<open>\<^const>\<open>None\<close>: error\<close>
  os_write :: "bytes \<Rightarrow> 's \<Rightarrow> nat option \<times> 's" \<comment> \<open>\<^const>\<open>None\<close>: error\<close>
  retry_interrupt :: "('s \<Rightarrow> int \<times> 's) option" \<comment> \<open>set by \<^verbatim>\<open>init_readn\<close>\<close>

definition init_readn :: "('s \<Rightarrow> int \<times> 's) option \<Rightarrow> 's os \<Rightarrow> 's os" where
  "init_readn f os = os\<lparr>retry_interrupt := f\<rparr>"

definition get_retry_interrupt :: "'s os \<Rightarrow> 's \<Rightarrow> int \<times> 's" where
  "get_retry_interrupt os s = (case retry_interrupt os of None \<Rightarrow> (0, s) | Some f \<Rightarrow> f s)"

section \<open>One read, one write\<close>

text \<open>The loop of polls, with the number of polls left.\<close>

fun poll_loop :: "'s os \<Rightarrow> u32 \<Rightarrow> nat \<Rightarrow> int \<Rightarrow> bool \<Rightarrow> 's \<Rightarrow> int \<times> bool \<times> 's" where
  "poll_loop os msecs 0 status ready s = (status, ready, s)"
| "poll_loop os msecs (Suc k) status ready s =
     (if status \<noteq> 0 then (status, ready, s)
      else
        let (r, s) = get_retry_interrupt os s in
        if r \<noteq> 0 then (status, ready, s)
        else let (status, ready, s) = os_poll os msecs s in poll_loop os msecs k status ready s)"

text \<open>The value returned, the bytes stored in the buffer, and the state.\<close>

definition read1 :: "'s os \<Rightarrow> nat \<Rightarrow> u32 \<Rightarrow> int \<Rightarrow> 's \<Rightarrow> int \<times> bytes \<times> 's" where
  "read1 os n msecs retry s =
     (let retry = (if retry < 0 then 0 else retry);
          (status, ready, s) = poll_loop os msecs (nat retry + 1) 0 False s
      in
      if status = 0 then (-2, [], s)
      else if status = -1 then (-1, [], s)
      else if ready then
        (case os_read os n s of
           (None, s) \<Rightarrow> (-1, [], s)
         | (Some bs, s) \<Rightarrow> (int (length bs), bs, s))
      else (0, [], s))"

definition write1 :: "'s os \<Rightarrow> bytes \<Rightarrow> u32 \<Rightarrow> int \<Rightarrow> 's \<Rightarrow> int \<times> 's" where
  "write1 os bs msecs retry s =
     (let retry = (if retry < 0 then 0 else retry);
          (status, ready, s) = poll_loop os msecs (nat retry + 1) 0 False s
      in
      if status = -1 then (-1, s)
      else if status > 0 \<and> ready then
        (case os_write os bs s of
           (None, s) \<Rightarrow> (-1, s)
         | (Some m, s) \<Rightarrow> (int m, s))
      else (0, s))"

section \<open>Loops\<close>

text \<open>
  The reading loop, at index \<open>i\<close> of the buffer. The result: the value returned, the buffer,
  the value stored in \<^verbatim>\<open>*eof\<close> if any, and the state.
\<close>

function sreadm_loop ::
  "'s os \<Rightarrow> bytes \<Rightarrow> nat \<Rightarrow> nat \<Rightarrow> u32 \<Rightarrow> int \<Rightarrow> 's \<Rightarrow> int \<times> bytes \<times> int option \<times> 's" where
  "sreadm_loop os buf n i msecs retry s =
     (if i < n then
        (let (m, bs, s) = read1 os (n - i) msecs retry s in
         if m < 0 then
           (if m = -2 \<and> i > 0 then (int i, buf, Some 0, s) else (m, buf, None, s))
         else if m = 0 then (int i, buf, Some 1, s)
         else sreadm_loop os (overwrite i bs buf) n (i + nat m) msecs retry s)
      else (int i, buf, None, s))"
  by auto
termination
  by (relation "measure (\<lambda>(os, buf, n, i, msecs, retry, s). n - i)") auto

declare sreadm_loop.simps [simp del]

definition sreadm :: "'s os \<Rightarrow> bytes \<Rightarrow> nat \<Rightarrow> u32 \<Rightarrow> int \<Rightarrow> 's \<Rightarrow> int \<times> bytes \<times> int option \<times> 's" where
  "sreadm os buf n msecs retry s = sreadm_loop os buf n 0 msecs retry s"

definition readm :: "'s os \<Rightarrow> bytes \<Rightarrow> nat \<Rightarrow> u32 \<Rightarrow> int \<Rightarrow> 's \<Rightarrow> int \<times> bytes \<times> 's" where
  "readm os buf n msecs retry s =
     (let (r, buf, _, s) = sreadm os buf n msecs retry s in (r, buf, s))"

definition sreadn :: "'s os \<Rightarrow> bytes \<Rightarrow> nat \<Rightarrow> u32 \<Rightarrow> int \<Rightarrow> 's \<Rightarrow> int \<times> bytes \<times> int option \<times> 's" where
  "sreadn os buf n secs retry s = sreadm os buf n (1000 * secs) retry s"

definition readn :: "'s os \<Rightarrow> bytes \<Rightarrow> nat \<Rightarrow> u32 \<Rightarrow> int \<Rightarrow> 's \<Rightarrow> int \<times> bytes \<times> 's" where
  "readn os buf n secs retry s =
     (let (r, buf, _, s) = sreadm os buf n (1000 * secs) retry s in (r, buf, s))"

text \<open>The only negative value of \<^const>\<open>write1\<close> is -1.\<close>

function writem_loop :: "'s os \<Rightarrow> bytes \<Rightarrow> nat \<Rightarrow> nat \<Rightarrow> u32 \<Rightarrow> int \<Rightarrow> 's \<Rightarrow> int \<times> 's" where
  "writem_loop os buf n i msecs retry s =
     (if i < n then
        (let (m, s) = write1 os (take (n - i) (drop i buf)) msecs retry s in
         if m < 0 then (-1, s)
         else if m = 0 then (int i, s)
         else writem_loop os buf n (i + nat m) msecs retry s)
      else (int i, s))"
  by auto
termination
  by (relation "measure (\<lambda>(os, buf, n, i, msecs, retry, s). n - i)") auto

declare writem_loop.simps [simp del]

definition writem :: "'s os \<Rightarrow> bytes \<Rightarrow> nat \<Rightarrow> u32 \<Rightarrow> int \<Rightarrow> 's \<Rightarrow> int \<times> 's" where
  "writem os buf n msecs retry s = writem_loop os buf n 0 msecs retry s"

definition writen :: "'s os \<Rightarrow> bytes \<Rightarrow> nat \<Rightarrow> u32 \<Rightarrow> int \<Rightarrow> 's \<Rightarrow> int \<times> 's" where
  "writen os buf n secs retry s = writem os buf n (1000 * secs) retry s"

text \<open>
  The reads of fifos: after a time-out, one more read without a poll, whose bytes go to the
  buffer whatever is returned.
\<close>

definition fifo_probe :: "'s os \<Rightarrow> nat \<Rightarrow> int \<times> bytes \<times> 's \<Rightarrow> int \<times> bytes \<times> 's" where
  "fifo_probe os n r =
     (let (m, buf, s) = r in
      if m = -2 then
        (case os_read os n s of
           (None, s) \<Rightarrow> (m, buf, s)
         | (Some bs, s) \<Rightarrow> (if bs = [] then 0 else m, overwrite 0 bs buf, s))
      else (m, buf, s))"

definition readn_fifo :: "'s os \<Rightarrow> bytes \<Rightarrow> nat \<Rightarrow> u32 \<Rightarrow> 's \<Rightarrow> int \<times> bytes \<times> 's" where
  "readn_fifo os buf n secs s = fifo_probe os n (readn os buf n secs 0 s)"

definition readm_fifo :: "'s os \<Rightarrow> bytes \<Rightarrow> nat \<Rightarrow> u32 \<Rightarrow> 's \<Rightarrow> int \<times> bytes \<times> 's" where
  "readm_fifo os buf n msecs s = fifo_probe os n (readm os buf n msecs 0 s)"

text \<open>
  \<^verbatim>\<open>dpgets\<close>, with the characters stored so far; \<^const>\<open>None\<close> when the size is 0 and the
  terminating character is written outside the buffer.
\<close>

function dpgets_loop :: "'s os \<Rightarrow> nat \<Rightarrow> bytes \<Rightarrow> 's \<Rightarrow> int \<times> bytes \<times> 's" where
  "dpgets_loop os n line s =
     (if length line + 1 < n then
        (case os_read os 1 s of
           (None, s) \<Rightarrow> (-1, line, s)
         | (Some [], s) \<Rightarrow> (int (length line), line @ [0], s)
         | (Some (c # _), s) \<Rightarrow>
             if c = 10 then (int (length line) + 1, line @ [c, 0], s)
             else dpgets_loop os n (line @ [c]) s)
      else (int (length line), line @ [0], s))"
  by auto
termination
  by (relation "measure (\<lambda>(os, n, line, s). n - length line)") auto

declare dpgets_loop.simps [simp del]

definition dpgets :: "'s os \<Rightarrow> bytes \<Rightarrow> nat \<Rightarrow> 's \<Rightarrow> (int \<times> bytes \<times> 's) option" where
  "dpgets os buf n s =
     (if n = 0 then None
      else let (r, line, s) = dpgets_loop os n [] s in Some (r, overwrite 0 line buf, s))"

section \<open>What is read and written\<close>

definition read_laws :: "'s os \<Rightarrow> ('s \<Rightarrow> bytes) \<Rightarrow> bool" where
  "read_laws os inp \<longleftrightarrow>
     (\<forall>n s bs s'. os_read os n s = (Some bs, s') \<longrightarrow> length bs \<le> n \<and> inp s = bs @ inp s') \<and>
     (\<forall>n s s'. os_read os n s = (None, s') \<longrightarrow> inp s' = inp s) \<and>
     (\<forall>msecs s. inp (snd (snd (os_poll os msecs s))) = inp s) \<and>
     (\<forall>s. inp (snd (get_retry_interrupt os s)) = inp s)"

definition write_laws :: "'s os \<Rightarrow> ('s \<Rightarrow> bytes) \<Rightarrow> bool" where
  "write_laws os out \<longleftrightarrow>
     (\<forall>bs s k s'. os_write os bs s = (Some k, s') \<longrightarrow> k \<le> length bs \<and> out s' = out s @ take k bs) \<and>
     (\<forall>bs s s'. os_write os bs s = (None, s') \<longrightarrow> out s' = out s) \<and>
     (\<forall>msecs s. out (snd (snd (os_poll os msecs s))) = out s) \<and>
     (\<forall>s. out (snd (get_retry_interrupt os s)) = out s)"

lemma poll_loop_keeps:
  assumes "\<And>msecs s. f (snd (snd (os_poll os msecs s))) = f s"
    and "\<And>s. f (snd (get_retry_interrupt os s)) = f s"
  shows "f (snd (snd (poll_loop os msecs k status ready s))) = f s"
proof (induction k arbitrary: status ready s)
  case (Suc k)
  obtain r s1 where r: "get_retry_interrupt os s = (r, s1)" by fastforce
  obtain st b s2 where p: "os_poll os msecs s1 = (st, b, s2)" by (metis prod_cases3)
  show ?case using Suc [of st b s2] assms(1) [of msecs s1] assms(2) [of s] by (simp add: r p)
qed simp

lemma read1_reads:
  assumes "read_laws os inp" "read1 os n msecs retry s = (m, bs, s')"
  shows "inp s = bs @ inp s'" "length bs \<le> n" "m < 0 \<and> bs = [] \<or> m = int (length bs)"
proof -
  obtain st b s1 where p: "poll_loop os msecs (nat (if retry < 0 then 0 else retry) + 1) 0 False s = (st, b, s1)"
    by (metis prod_cases3)
  have 1: "inp s1 = inp s"
    using assms(1) poll_loop_keeps [of inp os msecs _ 0 False s] p
    by (metis read_laws_def snd_conv)
  obtain o2 s2 where r: "os_read os n s1 = (o2, s2)" by fastforce
  have "inp s = bs @ inp s' \<and> length bs \<le> n \<and> (m < 0 \<and> bs = [] \<or> m = int (length bs))"
  proof (cases "st \<noteq> 0 \<and> st \<noteq> -1 \<and> b")
    case True
    with assms(2) p r have "case o2 of None \<Rightarrow> m = -1 \<and> bs = [] \<and> s' = s2
        | Some x \<Rightarrow> m = int (length x) \<and> bs = x \<and> s' = s2"
      by (cases o2) (auto simp: read1_def Let_def)
    with r 1 assms(1) show ?thesis
      by (cases o2) (auto simp: read_laws_def)
  next
    case False
    with assms(2) p 1 show ?thesis by (auto simp: read1_def Let_def split: if_splits)
  qed
  then show "inp s = bs @ inp s'" "length bs \<le> n" "m < 0 \<and> bs = [] \<or> m = int (length bs)" by auto
qed

lemma sreadm_loop_reads:
  assumes "read_laws os inp" "sreadm_loop os buf n i msecs retry s = (r, buf', e, s')"
    "i \<le> n" "i \<le> length buf"
  shows "\<exists>bs. inp s = bs @ inp s' \<and> i + length bs \<le> n \<and> buf' = overwrite i bs buf \<and>
    (0 \<le> r \<longrightarrow> r = int (i + length bs))"
  using assms
proof (induction os buf n i msecs retry s rule: sreadm_loop.induct)
  case (1 os buf n i msecs retry s)
  obtain m bs s1 where r1: "read1 os (n - i) msecs retry s = (m, bs, s1)" by (metis prod_cases3)
  note rd = read1_reads [OF "1.prems"(1) r1]
  show ?case
  proof (cases "i < n \<and> 0 < m")
    case True
    then have m: "m = int (length bs)" and le: "i + length bs \<le> n" using rd(2,3) by auto
    let ?b = "overwrite i bs buf"
    have "sreadm_loop os ?b n (i + nat m) msecs retry s1 = (r, buf', e, s')"
      using "1.prems"(2) True by (subst (asm) sreadm_loop.simps) (simp add: r1)
    moreover have "i + nat m \<le> length ?b" using "1.prems"(4) m by (simp add: overwrite_def)
    moreover have "i + nat m \<le> n" using le m by simp
    ultimately obtain cs where cs: "inp s1 = cs @ inp s'" "i + nat m + length cs \<le> n"
      "buf' = overwrite (i + nat m) cs ?b" "0 \<le> r \<longrightarrow> r = int (i + nat m + length cs)"
      using "1.IH" [of "(m, bs, s1)" m "(bs, s1)" bs s1] True r1 "1.prems"(1) by auto
    have "buf' = overwrite i (bs @ cs) buf"
      using cs(3) m overwrite_twice [of i buf bs cs] "1.prems"(4) by simp
    with cs rd(1) m show ?thesis by (intro exI [of _ "bs @ cs"]) auto
  next
    case False
    with "1.prems"(2,3) rd r1 show ?thesis
      by (subst (asm) sreadm_loop.simps) (auto split: if_splits)
  qed
qed

lemma write1_writes:
  assumes "write_laws os out" "write1 os bs msecs retry s = (m, s')"
  shows "m < 0 \<and> out s' = out s \<or> nat m \<le> length bs \<and> out s' = out s @ take (nat m) bs"
proof -
  obtain st b s1 where p: "poll_loop os msecs (nat (if retry < 0 then 0 else retry) + 1) 0 False s = (st, b, s1)"
    by (metis prod_cases3)
  have 1: "out s1 = out s"
    using assms(1) poll_loop_keeps [of out os msecs _ 0 False s] p
    by (metis write_laws_def snd_conv)
  obtain o2 s2 where w: "os_write os bs s1 = (o2, s2)" by fastforce
  have 2: "case o2 of None \<Rightarrow> out s2 = out s | Some k \<Rightarrow> k \<le> length bs \<and> out s2 = out s @ take k bs"
    using assms(1) w 1 by (cases o2) (auto simp: write_laws_def)
  show ?thesis
    using assms(2) p w 1 2 by (auto simp: write1_def Let_def split: if_splits option.splits)
qed

lemma writem_loop_writes:
  assumes "write_laws os out" "writem_loop os buf n i msecs retry s = (r, s')" "i \<le> n" "n \<le> length buf"
  shows "\<exists>k. i + k \<le> n \<and> out s' = out s @ take k (drop i buf) \<and> (0 \<le> r \<longrightarrow> r = int (i + k))"
  using assms
proof (induction os buf n i msecs retry s rule: writem_loop.induct)
  case (1 os buf n i msecs retry s)
  let ?c = "take (n - i) (drop i buf)"
  obtain m s1 where w1: "write1 os ?c msecs retry s = (m, s1)" by fastforce
  note wr = write1_writes [OF "1.prems"(1) w1]
  show ?case
  proof (cases "i < n \<and> 0 < m")
    case True
    then have le: "nat m \<le> n - i" and "out s1 = out s @ take (nat m) ?c"
      using wr "1.prems"(4) by auto
    then have o1: "out s1 = out s @ take (nat m) (drop i buf)" and le: "i + nat m \<le> n"
      using True by (auto simp: min_absorb1)
    have "writem_loop os buf n (i + nat m) msecs retry s1 = (r, s')"
      using "1.prems"(2) True by (subst (asm) writem_loop.simps) (simp add: w1)
    then obtain k where k: "i + nat m + k \<le> n" "out s' = out s1 @ take k (drop (i + nat m) buf)"
      "0 \<le> r \<longrightarrow> r = int (i + nat m + k)"
      using "1.IH" [of "(m, s1)" m s1] True w1 "1.prems"(1,4) le by auto
    have "take (nat m) (drop i buf) @ take k (drop (i + nat m) buf) = take (nat m + k) (drop i buf)"
      by (simp add: take_add add.commute [of i])
    with k o1 show ?thesis by (intro exI [of _ "nat m + k"]) auto
  next
    case False
    with "1.prems"(2,3) wr w1 show ?thesis
      by (subst (asm) writem_loop.simps) (auto split: if_splits intro: exI [of _ 0])
  qed
qed

lemma dpgets_loop_line:
  assumes "read_laws os inp" "dpgets_loop os n line s = (r, line', s')" "0 \<le> r" "length line < n"
    "10 \<notin> set line"
  shows "\<exists>l. inp s = l @ inp s' \<and> line' = line @ l @ [0] \<and> r = int (length (line @ l)) \<and>
    length (line @ l) < n \<and> 10 \<notin> set (butlast (line @ l))"
  using assms
proof (induction os n line s rule: dpgets_loop.induct)
  case (1 os n line s)
  show ?case
  proof (cases "length line + 1 < n")
    case False
    with "1.prems" show ?thesis by (subst (asm) dpgets_loop.simps) (auto dest: in_set_butlastD)
  next
    case True
    obtain o1 s1 where rd: "os_read os (Suc 0) s = (o1, s1)" by fastforce
    have step: "dpgets_loop os n line s = (case o1 of None \<Rightarrow> (-1, line, s1)
        | Some [] \<Rightarrow> (int (length line), line @ [0], s1)
        | Some (c # _) \<Rightarrow> if c = 10 then (int (length line) + 1, line @ [c, 0], s1)
            else dpgets_loop os n (line @ [c]) s1)"
      using True by (subst dpgets_loop.simps) (simp add: rd split: option.split list.split)
    consider "o1 = None" | "o1 = Some []" | c where "o1 = Some [c]" "inp s = c # inp s1"
    proof (cases o1)
      case (Some bs)
      with "1.prems"(1) rd have "length bs \<le> 1" "inp s = bs @ inp s1" by (auto simp: read_laws_def)
      with Some that(2,3) show ?thesis by (cases bs) auto
    qed (rule that(1))
    then show ?thesis
    proof cases
      case 1
      with "1.prems" step show ?thesis by simp
    next
      case 2
      with "1.prems" step rd show ?thesis by (auto simp: read_laws_def dest: in_set_butlastD)
    next
      case (3 c)
      show ?thesis
      proof (cases "c = 10")
        case True
        with 3 "1.prems" \<open>length line + 1 < n\<close> step show ?thesis by (intro exI [of _ "[c]"]) auto
      next
        case False
        with 3 step "1.prems" True "1.IH" [OF True, of o1 s1 "[c]" c "[]"] rd show ?thesis
          by auto
      qed
    qed
  qed
qed

lemma readn_stores:
  assumes "read_laws os inp" "readn os buf n secs retry s = (r, buf', s')"
  obtains bs where "inp s = bs @ inp s'" "length bs \<le> n" "buf' = overwrite 0 bs buf" "0 \<le> r \<longrightarrow> r = int (length bs)"
proof -
  obtain e where "sreadm_loop os buf n 0 (1000 * secs) retry s = (r, buf', e, s')"
    using assms(2) by (auto simp: readn_def sreadm_def split: prod.splits)
  from sreadm_loop_reads [OF assms(1) this] that show ?thesis by auto
qed

lemma readn_bytes:
  assumes "read_laws os inp" "n \<le> length buf" "readn os buf n secs retry s = (r, buf', s')"
  shows "length buf' = length buf"
    "0 \<le> r \<Longrightarrow> nat r \<le> n \<and> inp s = take (nat r) buf' @ inp s' \<and> drop (nat r) buf' = drop (nat r) buf"
proof -
  obtain bs where "inp s = bs @ inp s'" "length bs \<le> n" "buf' = overwrite 0 bs buf" "0 \<le> r \<longrightarrow> r = int (length bs)"
    by (rule readn_stores [OF assms(1,3)])
  with assms(2) show "length buf' = length buf"
    "0 \<le> r \<Longrightarrow> nat r \<le> n \<and> inp s = take (nat r) buf' @ inp s' \<and> drop (nat r) buf' = drop (nat r) buf"
    by (auto simp: overwrite_def)
qed

text \<open>A buffer that gets more bytes than it has is longer afterwards: the bytes were stored after its end.\<close>

lemma readn_overflows:
  assumes "read_laws os inp" "readn os buf n secs retry s = (r, buf', s')"
  shows "length buf' = max (length buf) (length (inp s) - length (inp s'))"
  by (rule readn_stores [OF assms]) (simp add: overwrite_def)

lemma readn_within:
  assumes "read_laws os inp" "readn os buf n secs retry s = (r, buf', s')" "length buf' \<le> length buf" "0 \<le> r"
  shows "length buf' = length buf" "nat r \<le> length buf" "inp s = take (nat r) buf' @ inp s'"
proof -
  obtain bs where "inp s = bs @ inp s'" "length bs \<le> n" "buf' = overwrite 0 bs buf" "0 \<le> r \<longrightarrow> r = int (length bs)"
    by (rule readn_stores [OF assms(1,2)])
  with assms(3,4) show "length buf' = length buf" "nat r \<le> length buf" "inp s = take (nat r) buf' @ inp s'"
    by (auto simp: overwrite_def)
qed

section \<open>Properties\<close>

text \<open>
  C29. A timed read that does not fail returns the number of bytes it stored; those are exactly
  the next bytes of the input, in order, whatever pieces the system delivered them in; the rest of
  the buffer is not touched and the rest of the input is still to come.
\<close>

theorem readn_reads:
  assumes "read_laws os inp" "n \<le> length buf" "readn os buf n secs retry s = (r, buf', s')" "0 \<le> r"
  shows "nat r \<le> n \<and> inp s = take (nat r) buf' @ inp s' \<and> drop (nat r) buf' = drop (nat r) buf"
  using readn_bytes [OF assms(1-3)] assms(4) by blast

text \<open>
  A timed write that does not fail has written exactly the first bytes of the buffer, as many
  as it returns, whatever the sizes of the single writes.
\<close>

theorem writen_writes:
  assumes "write_laws os out" "n \<le> length buf" "writen os buf n secs retry s = (r, s')" "0 \<le> r"
  shows "nat r \<le> n \<and> out s' = out s @ take (nat r) buf"
  using writem_loop_writes [of os out buf n 0 "1000 * secs" retry s r s'] assms
  by (auto simp: writen_def writem_def)

text \<open>
  A line read with \<^verbatim>\<open>dpgets\<close> is the next bytes of the input with a terminating zero: at most one
  less than the size of the buffer, and a line feed can only be its last character.
\<close>

theorem dpgets_line:
  assumes "read_laws os inp" "dpgets os buf n s = Some (r, buf', s')" "0 \<le> r"
  shows "\<exists>l. inp s = l @ inp s' \<and> r = int (length l) \<and> length l < n \<and> 10 \<notin> set (butlast l) \<and>
    buf' = overwrite 0 (l @ [0]) buf"
proof -
  obtain line' where "dpgets_loop os n [] s = (r, line', s')" "buf' = overwrite 0 line' buf" "0 < n"
    using assms(2) by (auto simp: dpgets_def split: if_splits prod.splits)
  with dpgets_loop_line [OF assms(1), of n "[]" s r line' s'] assms(3) show ?thesis by auto
qed

text \<open>A pipe that delivers its pieces one by one, and is not ready before the first.\<close>

fun pipe_read :: "nat \<Rightarrow> bytes list \<Rightarrow> bytes option \<times> bytes list" where
  "pipe_read n [] = (Some [], [])"
| "pipe_read n (c # cs) = (if length c \<le> n then (Some c, cs) else (Some (take n c), drop n c # cs))"

definition pipe_os :: "int \<Rightarrow> bytes list os" where
  "pipe_os ready = \<lparr>os_poll = (\<lambda>_ s. (ready, True, s)), os_read = pipe_read,
     os_write = (\<lambda>bs s. (Some (min 2 (length bs)), s @ [take (min 2 (length bs)) bs])), retry_interrupt = None\<rparr>"

lemma pipe_laws: "read_laws (pipe_os ready) concat" "write_laws (pipe_os ready) concat"
proof -
  have "length bs \<le> n \<and> concat s = bs @ concat s'" if "pipe_read n s = (Some bs, s')" for n s bs s'
    using that by (cases "(n, s)" rule: pipe_read.cases) (auto split: if_splits simp flip: append_assoc)
  moreover have "pipe_read n s \<noteq> (None, s')" for n s s'
    by (cases "(n, s)" rule: pipe_read.cases) auto
  ultimately show "read_laws (pipe_os ready) concat"
    by (auto simp: read_laws_def pipe_os_def get_retry_interrupt_def)
  show "write_laws (pipe_os ready) concat"
    by (auto simp: write_laws_def pipe_os_def get_retry_interrupt_def)
qed

theorem readn_reads_witness:
  "readn (pipe_os 1) [0, 0, 0, 0, 0] 4 1 0 [[1, 2, 3], [4, 5]] = (4, [1, 2, 3, 4, 0], [[5]]) \<and>
   concat [[1, 2, 3], [4, 5]] = take 4 [1, 2, 3, 4, 0] @ concat [[5 :: byte]]"
proof -
  have "readn (pipe_os 1) [0, 0, 0, 0, 0] 4 1 0 [[1, 2, 3], [4, 5]] = (4, [1, 2, 3, 4, 0], [[5]])"
    by code_simp
  with readn_reads [OF pipe_laws(1) _ this] show ?thesis by simp
qed

theorem writen_writes_witness:
  "writen (pipe_os 1) [1, 2, 3, 4, 5] 5 1 0 [] = (5, [[1, 2], [3, 4], [5]]) \<and>
   concat [[1, 2], [3, 4], [5]] = concat [] @ take 5 [1, 2, 3, 4, 5 :: byte]"
proof -
  have "writen (pipe_os 1) [1, 2, 3, 4, 5] 5 1 0 [] = (5, [[1, 2], [3, 4], [5]])" by code_simp
  with writen_writes [OF pipe_laws(2) _ this] show ?thesis by simp
qed

theorem dpgets_line_witness:
  "\<exists>l. concat [[65], [66, 10, 67 :: byte]] = l @ concat [[67]] \<and> 3 = int (length l) \<and> length l < 8 \<and>
     10 \<notin> set (butlast l) \<and> [65, 66, 10, 0] = overwrite 0 (l @ [0]) [0, 0, 0, 0]"
proof -
  have "dpgets (pipe_os 1) [0, 0, 0, 0] 8 [[65], [66, 10, 67]] = Some (3, [65, 66, 10, 0], [[67]])"
    by code_simp
  from dpgets_line [OF pipe_laws(1) this] show ?thesis by simp
qed

text \<open>
  A fifo read loses data that arrives after the poll timed out: the extra read, meant to detect
  the end of file, takes the bytes from the fifo, but the call still reports a time-out (-2).
\<close>

theorem readn_fifo_loses_data:
  "readn_fifo (pipe_os 0) [0, 0, 0, 0] 4 1 [[65, 66, 67]] = (-2, [65, 66, 67, 0], [])"
  by code_simp

end
