(* ===== verification/Packfp.thy ===== *)
theory Packfp
  imports Pctl Nreadn "HOL-Library.Monad_Syntax"
begin

text \<open>
  The packets with the path of a product, which the processor puts in the server and filter
  queues and the NBS2 protocol sends: the envelope of \<^verbatim>\<open>src/pack.c\<close>, the packing and the reception of
  \<^verbatim>\<open>src/packfp.c\<close> and the unpacking of \<^verbatim>\<open>src/packfpu.c\<close>. The pointers \<^verbatim>\<open>fname\<close> and \<^verbatim>\<open>fpath\<close> of the
  structure point into the packet and are offsets here. A \<^const>\<open>None\<close> is a failed assertion or an access
  outside the packet; a read that stores more bytes than the packet has room for is such an access.
\<close>

abbreviation NBS_ENVELOPE_SIZE :: nat where "NBS_ENVELOPE_SIZE \<equiv> 12"
abbreviation PACKID_FDATA :: u32 where "PACKID_FDATA \<equiv> 1"
abbreviation PACKID_FPATH :: u32 where "PACKID_FPATH \<equiv> 2"
abbreviation NBSFP_PINFO_SIZE :: nat where "NBSFP_PINFO_SIZE \<equiv> 8 + FNAME_SIZE + 1"

record packet_info_st =
  pk_seq_number :: u32
  pk_product_type :: int
  pk_product_category :: int
  pk_product_code :: int
  pk_np_channel_index :: int
  pk_fname :: nat
  pk_fpath :: nat
  packet :: "bytes option"
  packet_size :: nat

section \<open>Packing\<close>

definition nbs_pack_envelope :: "bytes \<Rightarrow> u32 \<Rightarrow> nat \<Rightarrow> (int \<times> bytes) option" where
  "nbs_pack_envelope p dataid data_size =
     (if length p < NBS_ENVELOPE_SIZE + data_size then None
      else
        let p = pack_uint32 p dataid 0;
            p = pack_uint32 p (of_nat data_size) 4;
            checksum = calc_checksum (drop NBS_ENVELOPE_SIZE p) data_size;
            p = pack_uint32 p checksum 8
        in Some (0, p))"

definition nbsfp_pack_fpath :: "packet_info_st \<Rightarrow> pctl_element_st \<Rightarrow> (int \<times> packet_info_st) option" where
  "nbsfp_pack_fpath pi pce =
     (let fpath_size = size_add 0 (fpath_size pce);
          data_size = NBSFP_PINFO_SIZE + fpath_size
      in
      case packet pi of
        None \<Rightarrow> None
      | Some p \<Rightarrow>
          if packet_size pi \<noteq> data_size + NBS_ENVELOPE_SIZE then None
          else if length p < packet_size pi then None
          else
            let p = pack_uint32 p (seq_number pce) NBS_ENVELOPE_SIZE;
                p = p[16 := word_of_int (pce_product_type pce),
                      17 := word_of_int (pce_product_category pce),
                      18 := word_of_int (pce_product_code pce),
                      19 := word_of_int (pce_np_channel_index pce)];
                p = overwrite 20 (strncpy (fname pce) (FNAME_SIZE + 1)) p;
                p = overwrite (NBS_ENVELOPE_SIZE + NBSFP_PINFO_SIZE) (strncpy (fpath pce) fpath_size) p
            in do {
              (status, p) \<leftarrow> nbs_pack_envelope p PACKID_FPATH data_size;
              Some (status, pi\<lparr>pk_fpath := NBS_ENVELOPE_SIZE + NBSFP_PINFO_SIZE,
                 pk_seq_number := seq_number pce,
                 pk_product_type := pce_product_type pce,
                 pk_product_category := pce_product_category pce,
                 pk_product_code := pce_product_code pce,
                 pk_np_channel_index := pce_np_channel_index pce,
                 packet := Some p\<rparr>)
            })"

section \<open>The memory of a packet\<close>

definition const_fpath_packet_maxsize :: "bytes \<Rightarrow> nat" where
  "const_fpath_packet_maxsize spooldir =
     const_fpath_maxsize spooldir + 1 + NBSFP_PINFO_SIZE + NBS_ENVELOPE_SIZE"

text \<open>The contents of the memory the allocator returns are the argument \<open>junk\<close>.\<close>

definition nbsfp_packetinfo_init ::
  "allocator \<Rightarrow> (nat \<Rightarrow> byte) \<Rightarrow> bytes \<Rightarrow> packet_info_st \<Rightarrow> int \<times> packet_info_st" where
  "nbsfp_packetinfo_init alloc junk spooldir pi =
     (let n = const_fpath_packet_maxsize spooldir in
      if \<not> can_alloc alloc n then (-1, pi\<lparr>packet := None\<rparr>)
      else (0, pi\<lparr>packet := Some (map junk [0..<n]), packet_size := n\<rparr>))"

definition nbsfp_packetinfo_cleanup :: "packet_info_st \<Rightarrow> packet_info_st" where
  "nbsfp_packetinfo_cleanup pi = pi\<lparr>packet := None, packet_size := 0\<rparr>"

abbreviation SIZEOF_PACKET_INFO :: nat where "SIZEOF_PACKET_INFO \<equiv> 56"

definition nbsfp_packetinfo_create ::
  "allocator \<Rightarrow> (nat \<Rightarrow> byte) \<Rightarrow> bytes \<Rightarrow> packet_info_st \<Rightarrow> int \<times> packet_info_st option" where
  "nbsfp_packetinfo_create alloc junk spooldir uninit =
     (if \<not> can_alloc alloc SIZEOF_PACKET_INFO then (-1, None)
      else
        let (status, pi) = nbsfp_packetinfo_init alloc junk spooldir uninit
        in if status \<noteq> 0 then (-1, None) else (0, Some pi))"

section \<open>Unpacking\<close>

text \<open>The bytes are read through a \<^verbatim>\<open>char\<close> pointer, and \<^verbatim>\<open>char\<close> is signed.\<close>

definition nbsfp_unpack_fpath :: "packet_info_st \<Rightarrow> (int \<times> packet_info_st) option" where
  "nbsfp_unpack_fpath pi =
     (case packet pi of
        None \<Rightarrow> None
      | Some p \<Rightarrow>
          if length p < NBS_ENVELOPE_SIZE then None
          else if unpack_uint32 p 0 \<noteq> PACKID_FPATH then Some (1, pi)
          else
            let data_size = sint (unpack_uint32 p 4);
                transmitted_checksum = unpack_uint32 p 8;
                q = drop NBS_ENVELOPE_SIZE p
            in
            if data_size < 0 \<or> int (length q) < data_size then None
            else if calc_checksum q (nat data_size) \<noteq> transmitted_checksum then Some (1, pi)
            else if length q < 8 then None
            else Some (0, pi\<lparr>pk_seq_number := unpack_uint32 q 0,
                   pk_product_type := sint (q ! 4),
                   pk_product_category := sint (q ! 5),
                   pk_product_code := sint (q ! 6),
                   pk_np_channel_index := sint (q ! 7),
                   pk_fname := NBS_ENVELOPE_SIZE + 8,
                   pk_fpath := NBS_ENVELOPE_SIZE + 8 + FNAME_SIZE + 1\<rparr>))"

section \<open>Receiving\<close>

definition recv_fp_packet ::
  "'s os \<Rightarrow> packet_info_st \<Rightarrow> u32 \<Rightarrow> int \<Rightarrow> 's \<Rightarrow> (int \<times> packet_info_st \<times> 's) option" where
  "recv_fp_packet os pi timeout_s retry s =
     (case packet pi of
        None \<Rightarrow> None
      | Some p \<Rightarrow>
          let (n, p1, s) = readn os p NBS_ENVELOPE_SIZE timeout_s retry s;
              pi = pi\<lparr>packet := Some p1\<rparr>
          in
          if length p1 > length p then None
          else if n = -1 then Some (-1, pi, s)
          else if n \<noteq> int NBS_ENVELOPE_SIZE then Some (1, pi, s)
          else if unpack_uint32 p1 0 \<noteq> PACKID_FPATH then Some (1, pi, s)
          else
            let data_size = unpack_uint32 p1 4 in
            if uint (data_size + of_nat NBS_ENVELOPE_SIZE) > int (packet_size pi) then Some (1, pi, s)
            else
              let (n, q, s) = readn os (drop NBS_ENVELOPE_SIZE p1) (unat data_size) timeout_s retry s;
                  pi = pi\<lparr>packet := Some (take NBS_ENVELOPE_SIZE p1 @ q)\<rparr>
              in
              if length q > length (drop NBS_ENVELOPE_SIZE p1) then None
              else if n = -1 then Some (-1, pi, s)
              else if n < 0 \<or> n \<noteq> uint data_size then Some (1, pi, s)
              else do {
                (status, pi) \<leftarrow> nbsfp_unpack_fpath pi;
                Some (if status \<noteq> 0 then 2 else status, pi, s)
              })"

section \<open>The packet of an element\<close>

text \<open>An element whose names fit, as the frame processor makes them.\<close>

definition names_fit :: "pctl_element_st \<Rightarrow> bool" where
  "names_fit pce \<longleftrightarrow>
     0 \<notin> set (fname pce) \<and> length (fname pce) \<le> FNAME_SIZE \<and>
     0 \<notin> set (fpath pce) \<and> int (length (fpath pce)) < fpath_size pce \<and> fpath_size pce < 2 ^ 30"

definition packet_body :: "bytes \<Rightarrow> pctl_element_st \<Rightarrow> bytes" where
  "packet_body p pce =
     overwrite 39 (strncpy (fpath pce) (nat (fpath_size pce)))
      (overwrite 20 (strncpy (fname pce) 19)
       ((pack_uint32 p (seq_number pce) 12)
          [16 := word_of_int (pce_product_type pce), 17 := word_of_int (pce_product_category pce),
           18 := word_of_int (pce_product_code pce), 19 := word_of_int (pce_np_channel_index pce)]))"

lemma names_fit_size: "names_fit pce \<Longrightarrow> size_add 0 (fpath_size pce) = nat (fpath_size pce)"
  by (simp add: names_fit_def)

lemma packet_body_length [simp]:
  "length p = 39 + nat (fpath_size pce) \<Longrightarrow> length (packet_body p pce) = length p"
  by (simp add: packet_body_def)

lemma packet_body_nth:
  assumes "length p = 39 + nat (fpath_size pce)"
  shows "packet_body p pce ! 16 = word_of_int (pce_product_type pce)"
    "packet_body p pce ! 17 = word_of_int (pce_product_category pce)"
    "packet_body p pce ! 18 = word_of_int (pce_product_code pce)"
    "packet_body p pce ! 19 = word_of_int (pce_np_channel_index pce)"
  using assms by (simp_all add: packet_body_def nth_overwrite)

lemma packet_body_seq:
  assumes "length p = 39 + nat (fpath_size pce)"
  shows "unpack_uint32 (packet_body p pce) 12 = seq_number pce"
proof -
  have "unpack_uint32 (packet_body p pce) 12 = unpack_uint32 (pack_uint32 p (seq_number pce) 12) 12"
    using assms by (intro w32.unpack_local) (simp add: byte_at_def packet_body_def nth_overwrite)
  with assms show ?thesis by (simp add: w32.unpack_pack)
qed

lemma drop_overwrite_at: "off \<le> length buf \<Longrightarrow> drop off (overwrite off xs buf) = xs @ drop (off + length xs) buf"
  by (simp add: overwrite_def)

lemma packet_body_fname:
  assumes "length p = 39 + nat (fpath_size pce)" "names_fit pce"
  shows "cstr (drop 20 (packet_body p pce)) = fname pce"
proof -
  have "take 19 (drop 20 (packet_body p pce)) = strncpy (fname pce) 19"
    using assms(1) by (intro nth_equalityI) (simp_all add: packet_body_def nth_overwrite)
  then have "cstr (take 19 (drop 20 (packet_body p pce))) = fname pce"
    using assms(2) by (simp add: cstr_strncpy names_fit_def)
  then have t: "take 19 (cstr (drop 20 (packet_body p pce))) = fname pce" by (simp add: cstr_take)
  moreover have "length (fname pce) < 19" using assms(2) by (simp add: names_fit_def)
  ultimately have "length (cstr (drop 20 (packet_body p pce))) < 19" by (metis length_take min_less_iff_disj less_irrefl)
  with t show ?thesis by simp
qed

lemma packet_body_fpath:
  assumes "length p = 39 + nat (fpath_size pce)" "names_fit pce"
  shows "cstr (drop 39 (packet_body p pce)) = fpath pce"
  using assms by (auto simp: packet_body_def drop_overwrite_at cstr_strncpy names_fit_def)

definition enveloped :: "u32 \<Rightarrow> nat \<Rightarrow> bytes \<Rightarrow> bytes" where
  "enveloped dataid n p = pack_uint32 (pack_uint32 (pack_uint32 p dataid 0) (of_nat n) 4)
     (calc_checksum (drop 12 p) n) 8"

lemma nbs_pack_envelope_eq:
  "12 + n \<le> length p \<Longrightarrow> nbs_pack_envelope p dataid n = Some (0, enveloped dataid n p)"
  by (simp add: nbs_pack_envelope_def enveloped_def Let_def w32.drop_pack_after)

lemma enveloped_fields:
  assumes "12 \<le> length p"
  shows "unpack_uint32 (enveloped dataid n p) 0 = dataid" "unpack_uint32 (enveloped dataid n p) 4 = of_nat n"
    "unpack_uint32 (enveloped dataid n p) 8 = calc_checksum (drop 12 p) n"
    "drop 12 (enveloped dataid n p) = drop 12 p" "length (enveloped dataid n p) = length p"
  using assms by (simp_all add: enveloped_def w32.unpack_pack w32.unpack_pack_other w32.drop_pack_after)

lemma nbsfp_pack_fpath_eq:
  assumes "packet pi = Some p" "length p = packet_size pi" "packet_size pi = 39 + nat (fpath_size pce)" "names_fit pce"
  shows "nbsfp_pack_fpath pi pce = Some (0, pi\<lparr>pk_fpath := 39, pk_seq_number := seq_number pce,
     pk_product_type := pce_product_type pce, pk_product_category := pce_product_category pce,
     pk_product_code := pce_product_code pce, pk_np_channel_index := pce_np_channel_index pce,
     packet := Some (enveloped PACKID_FPATH (27 + nat (fpath_size pce)) (packet_body p pce))\<rparr>)"
proof -
  have "nbs_pack_envelope (packet_body p pce) PACKID_FPATH (27 + nat (fpath_size pce)) =
      Some (0, enveloped PACKID_FPATH (27 + nat (fpath_size pce)) (packet_body p pce))"
    using assms by (intro nbs_pack_envelope_eq) simp
  with assms(1-3) show ?thesis
    by (simp add: nbsfp_pack_fpath_def names_fit_size [OF assms(4)] Let_def packet_body_def)
qed

text \<open>What a C \<^verbatim>\<open>int\<close> becomes when it is stored in a signed byte and read again.\<close>

definition signed_byte :: "int \<Rightarrow> int" where
  "signed_byte x = (x + 128) mod 256 - 128"

lemma sint_signed_byte: "sint (word_of_int x :: byte) = signed_byte x"
  by (simp add: int_word_sint signed_byte_def)

lemma signed_byte_simps:
  "-128 \<le> x \<Longrightarrow> x < 128 \<Longrightarrow> signed_byte x = x" "128 \<le> x \<Longrightarrow> x < 256 \<Longrightarrow> signed_byte x = x - 256"
proof -
  show "-128 \<le> x \<Longrightarrow> x < 128 \<Longrightarrow> signed_byte x = x" by (simp add: signed_byte_def)
  assume "128 \<le> x" "x < 256"
  then have "(x - 128 + 256) mod 256 = x - 128" by (simp only: mod_add_self2) simp
  then show "signed_byte x = x - 256" by (simp add: signed_byte_def add.commute)
qed

lemma packed_unpacks:
  assumes "packet pi = Some (enveloped PACKID_FPATH (27 + nat (fpath_size pce)) (packet_body p pce))"
    "length p = 39 + nat (fpath_size pce)" "names_fit pce"
  shows "nbsfp_unpack_fpath pi = Some (0, pi\<lparr>pk_seq_number := seq_number pce,
     pk_product_type := sint (word_of_int (pce_product_type pce) :: byte),
     pk_product_category := sint (word_of_int (pce_product_category pce) :: byte),
     pk_product_code := sint (word_of_int (pce_product_code pce) :: byte),
     pk_np_channel_index := sint (word_of_int (pce_np_channel_index pce) :: byte),
     pk_fname := 20, pk_fpath := 39\<rparr>)"
proof -
  let ?b = "packet_body p pce"
  define n where "n = 27 + nat (fpath_size pce)"
  define q where "q = drop 12 ?b"
  have len: "length ?b = 12 + n" using assms(2) by (simp add: n_def)
  have "n < 2 ^ 31" using assms(3) by (auto simp: n_def names_fit_def)
  then have sz: "sint (of_nat n :: u32) = int n" by (rule sint_of_nat_u32)
  have q: "length q = n" "27 \<le> n" "unpack_uint32 q 0 = seq_number pce"
    "q ! 4 = word_of_int (pce_product_type pce)" "q ! 5 = word_of_int (pce_product_category pce)"
    "q ! 6 = word_of_int (pce_product_code pce)" "q ! 7 = word_of_int (pce_np_channel_index pce)"
    using packet_body_seq [OF assms(2)] packet_body_nth [OF assms(2)] len
    by (simp_all add: q_def n_def w32.unpack_drop)
  note e = enveloped_fields [of ?b PACKID_FPATH n, folded q_def, unfolded len]
  show ?thesis
    unfolding nbsfp_unpack_fpath_def assms(1) n_def [symmetric] option.case Let_def
    using q e sz by simp
qed

section \<open>Properties\<close>

text \<open>
  C21. Packing an element and unpacking the packet gives the element back: the product number, the
  name and the path as the strings the offsets point to, and the three codes and the channel as signed
  bytes. A code from -128 to 127 is unchanged; one from 128 to 255, which the headers of the frames
  allow, comes back less 256.
\<close>

theorem nbsfp_roundtrip:
  assumes pi: "packet pi = Some p" "length p = packet_size pi" "packet_size pi = 39 + nat (fpath_size pce)"
    and pce: "names_fit pce"
  shows "\<exists>pi1 pi2 q. nbsfp_pack_fpath pi pce = Some (0, pi1) \<and> nbsfp_unpack_fpath pi1 = Some (0, pi2) \<and>
    packet pi2 = Some q \<and> pk_seq_number pi2 = seq_number pce \<and>
    pk_product_type pi2 = signed_byte (pce_product_type pce) \<and>
    pk_product_category pi2 = signed_byte (pce_product_category pce) \<and>
    pk_product_code pi2 = signed_byte (pce_product_code pce) \<and>
    pk_np_channel_index pi2 = signed_byte (pce_np_channel_index pce) \<and>
    cstr (drop (pk_fname pi2) q) = fname pce \<and> cstr (drop (pk_fpath pi2) q) = fpath pce"
proof -
  let ?q = "enveloped PACKID_FPATH (27 + nat (fpath_size pce)) (packet_body p pce)"
  have len: "length p = 39 + nat (fpath_size pce)" using pi by simp
  have d: "drop 20 ?q = drop 20 (packet_body p pce)" "drop 39 ?q = drop 39 (packet_body p pce)"
    by (simp_all add: enveloped_def w32.drop_pack_after)
  note pack = nbsfp_pack_fpath_eq [OF pi pce]
  show ?thesis
    unfolding pack using packed_unpacks [OF _ len pce] d packet_body_fname [OF len pce]
      packet_body_fpath [OF len pce] by (simp add: sint_signed_byte)
qed

definition example_packet :: packet_info_st where
  "example_packet = \<lparr>pk_seq_number = 0, pk_product_type = 0, pk_product_category = 0, pk_product_code = 0,
     pk_np_channel_index = 0, pk_fname = 0, pk_fpath = 0, packet = Some (replicate 45 255), packet_size = 45\<rparr>"

definition example_named :: "int \<Rightarrow> pctl_element_st" where
  "example_named t = (example_pce 9 [])\<lparr>fname := [65, 66], fpath := [47, 65], fpath_size := 6, pce_product_type := t\<rparr>"

lemmas example_packet_simps = example_packet_def example_named_def example_pce_def names_fit_def

theorem nbsfp_roundtrip_witness:
  "\<exists>pi1 pi2 q. nbsfp_pack_fpath example_packet (example_named 200) = Some (0, pi1) \<and>
    nbsfp_unpack_fpath pi1 = Some (0, pi2) \<and> packet pi2 = Some q \<and> pk_seq_number pi2 = 9 \<and>
    pk_product_type pi2 = -56 \<and> cstr (drop (pk_fname pi2) q) = [65, 66] \<and> cstr (drop (pk_fpath pi2) q) = [47, 65]"
  using nbsfp_roundtrip [of example_packet "replicate 45 255" "example_named 200"]
  by (auto simp: example_packet_simps signed_byte_def)

lemma nat_sint_u32:
  assumes "\<not> sint (w :: u32) < 0"
  shows "nat (sint w) = unat w"
proof -
  have s: "sint w = (uint w + 2147483648) mod 4294967296 - 2147483648"
    using int_word_sint [of "uint w", where 'a = 32] by simp
  have b: "0 \<le> uint w" "uint w < 4294967296" using uint_bounded [of w] by simp_all
  have "uint w < 2147483648"
  proof (rule ccontr)
    assume "\<not> uint w < 2147483648"
    with b have "(uint w - 2147483648 + 4294967296) mod 4294967296 = uint w - 2147483648"
      by (simp only: mod_add_self2) simp
    with s assms b show False by (simp add: algebra_simps)
  qed
  with s b have "sint w = uint w" by simp
  then show ?thesis by simp
qed

lemma unpack_success:
  assumes "nbsfp_unpack_fpath pi = Some (0, pi')" "packet pi = Some q"
  shows "packet pi' = Some q" "unpack_uint32 q 0 = PACKID_FPATH"
    "calc_checksum (drop 12 q) (unat (unpack_uint32 q 4)) = unpack_uint32 q 8"
proof -
  let ?d = "sint (unpack_uint32 q 4)"
  have c: "\<not> ?d < 0" "calc_checksum (drop 12 q) (nat ?d) = unpack_uint32 q 8"
    and "unpack_uint32 q 0 = PACKID_FPATH" "packet pi' = Some q"
    using assms by (auto simp: nbsfp_unpack_fpath_def Let_def split: if_splits)
  then show "unpack_uint32 q 0 = PACKID_FPATH" "packet pi' = Some q" by simp_all
  have "nat ?d = unat (unpack_uint32 q 4)"
    using c(1) by (simp add: nat_sint_u32)
  with c(2) show "calc_checksum (drop 12 q) (unat (unpack_uint32 q 4)) = unpack_uint32 q 8" by simp
qed

lemma recv_fp_packet_steps:
  assumes "recv_fp_packet os pi timeout_s retry s = Some (0, pi', s')"
  obtains p p1 s1 q1 where "readn os p 12 timeout_s retry s = (12, p1, s1)" "length p1 \<le> length p"
    "readn os (drop 12 p1) (unat (unpack_uint32 p1 4)) timeout_s retry s1 = (uint (unpack_uint32 p1 4), q1, s')"
    "length q1 \<le> length (drop 12 p1)"
    "nbsfp_unpack_fpath (pi\<lparr>packet := Some (take 12 p1 @ q1)\<rparr>) = Some (0, pi')"
proof -
  obtain p where p: "packet pi = Some p"
    using assms by (auto simp: recv_fp_packet_def split: option.splits)
  obtain r1 p1 s1 where 1: "readn os p 12 timeout_s retry s = (r1, p1, s1)" by (metis prod_cases3)
  let ?d = "unpack_uint32 p1 4"
  obtain r2 q1 s2 where 2: "readn os (drop 12 p1) (unat ?d) timeout_s retry s1 = (r2, q1, s2)"
    by (metis prod_cases3)
  show ?thesis
    using assms p 1 2
    by (intro that [of p p1 s1 q1])
      (auto simp: recv_fp_packet_def Let_def bind_eq_Some_conv split: if_splits)
qed

text \<open>
  C30. A packet received with status 0 is the next bytes of the stream: the envelope and as many
  bytes of data as it announces, none more, with the checksum of the data in the envelope.
\<close>

theorem recv_fp_packet_receives:
  assumes laws: "read_laws os inp" and recv: "recv_fp_packet os pi timeout_s retry s = Some (0, pi', s')"
  shows "\<exists>q. packet pi' = Some q \<and> unpack_uint32 q 0 = PACKID_FPATH \<and>
    inp s = take (12 + unat (unpack_uint32 q 4)) q @ inp s' \<and>
    calc_checksum (drop 12 q) (unat (unpack_uint32 q 4)) = unpack_uint32 q 8"
proof -
  obtain p p1 s1 q1 where r: "readn os p 12 timeout_s retry s = (12, p1, s1)" "length p1 \<le> length p"
    "readn os (drop 12 p1) (unat (unpack_uint32 p1 4)) timeout_s retry s1 = (uint (unpack_uint32 p1 4), q1, s')"
    "length q1 \<le> length (drop 12 p1)"
    "nbsfp_unpack_fpath (pi\<lparr>packet := Some (take 12 p1 @ q1)\<rparr>) = Some (0, pi')"
    by (rule recv_fp_packet_steps [OF recv])
  let ?q = "take 12 p1 @ q1" and ?n = "unat (unpack_uint32 p1 4)"
  note b1 = readn_within [OF laws r(1,2)]
  note b2 = readn_within [OF laws r(3,4)]
  have len: "12 \<le> length p1" "inp s = take 12 p1 @ inp s1" using b1 by simp_all
  moreover have "inp s1 = take ?n q1 @ inp s'" using b2(3) by simp
  ultimately have inp: "inp s = take (12 + ?n) ?q @ inp s'" by simp
  have "unpack_uint32 ?q 4 = unpack_uint32 p1 4"
    using len by (intro w32.unpack_local) (simp add: byte_at_def nth_append)
  with inp unpack_success [OF r(5), of ?q] show ?thesis by simp
qed

definition example_stream :: "bytes list" where
  "example_stream =
     (case nbsfp_pack_fpath example_packet (example_named 3) of
        Some (_, pi) \<Rightarrow> [take 20 (the (packet pi)), drop 20 (the (packet pi)), [7]]
      | None \<Rightarrow> [])"

theorem recv_fp_packet_receives_witness:
  "\<exists>pi' s' q. recv_fp_packet (pipe_os 1) example_packet 1 0 example_stream = Some (0, pi', s') \<and>
    packet pi' = Some q \<and> concat example_stream = take (12 + unat (unpack_uint32 q 4)) q @ concat s'"
proof -
  have "map_option fst (recv_fp_packet (pipe_os 1) example_packet 1 0 example_stream) = Some 0"
    by code_simp
  then obtain pi' s' where "recv_fp_packet (pipe_os 1) example_packet 1 0 example_stream = Some (0, pi', s')"
    by auto
  from recv_fp_packet_receives [OF pipe_laws(1) this] this show ?thesis by blast
qed

lemma wrapped_size:
  assumes "uint (d :: u32) \<ge> 2 ^ 32 - 12"
  shows "uint (d + 12) < 12"
proof -
  have "uint (d + 12) = (uint d + 12) mod 4294967296" by (simp add: uint_word_ariths)
  also have "\<dots> = (uint d - 4294967284 + 4294967296) mod 4294967296" by (simp add: algebra_simps)
  also have "\<dots> = uint d - 4294967284"
    using assms uint_bounded [of d] by (simp only: mod_add_self2) simp
  finally show ?thesis using uint_bounded [of d] by simp
qed

text \<open>
  C31. The check of the announced size wraps around. An envelope that announces one of the twelve largest
  32 bit sizes passes it, and the data are read with that size: what the peer sends next is stored after the
  end of the packet as soon as it is more than the packet has room for, and only then; a stream that stops
  before is reported as incomplete.
\<close>

theorem recv_fp_packet_size_wraps:
  assumes laws: "read_laws os inp"
    and pi: "packet pi = Some p" "packet_size pi = length p" "12 \<le> length p" "length p < 2 ^ 31"
    and env: "readn os p 12 timeout_s retry s = (12, p1, s1)" "unpack_uint32 p1 0 = PACKID_FPATH"
      "uint (unpack_uint32 p1 4) \<ge> 2 ^ 32 - 12"
    and data: "readn os (drop 12 p1) (unat (unpack_uint32 p1 4)) timeout_s retry s1 = (n, q, s2)"
  shows "recv_fp_packet os pi timeout_s retry s =
    (if length p < 12 + (length (inp s1) - length (inp s2)) then None
     else Some (if n = -1 then -1 else 1, pi\<lparr>packet := Some (take 12 p1 @ q)\<rparr>, s2))"
proof -
  let ?d = "unpack_uint32 p1 4"
  have len: "length p1 = length p" by (rule readn_bytes(1) [OF laws pi(3) env(1)])
  have q: "length q = max (length p - 12) (length (inp s1) - length (inp s2))"
    using readn_overflows [OF laws data] len by simp
  have "n \<noteq> uint ?d" if "length q \<le> length p - 12"
    using readn_within(2) [OF laws data] that len pi(4) env(3) by (auto simp: nat_le_iff)
  with pi env data len q wrapped_size [OF env(3)] show ?thesis
    by (auto simp: recv_fp_packet_def Let_def max_def)
qed

lemma readn_all_sent:
  assumes "length bs < n" "bs \<noteq> []"
  shows "readn (pipe_os 1) buf n 1 0 [bs] = (int (length bs), overwrite 0 bs buf, [])"
proof -
  have 1: "read1 (pipe_os 1) n 1000 0 [bs] = (int (length bs), bs, [])"
    using assms by (simp add: read1_def pipe_os_def get_retry_interrupt_def)
  have 2: "read1 (pipe_os 1) k 1000 0 [] = (0, [], [])" for k
    by (simp add: read1_def pipe_os_def get_retry_interrupt_def)
  show ?thesis
    using assms 1 2 by (simp add: readn_def sreadm_def sreadm_loop.simps [of _ _ n])
qed

theorem recv_fp_packet_size_wraps_witness:
  "recv_fp_packet (pipe_os 1) example_packet 1 0 [[0, 0, 0, 2, 255, 255, 255, 252, 0, 0, 0, 0], replicate 40 65] = None"
proof -
  let ?p = "[0, 0, 0, 2, 255, 255, 255, 252, 0, 0, 0, 0] @ replicate 33 255 :: bytes"
  have 1: "readn (pipe_os 1) (replicate 45 255) 12 1 0 [[0, 0, 0, 2, 255, 255, 255, 252, 0, 0, 0, 0], replicate 40 65] =
      (12, ?p, [replicate 40 65])"
    by code_simp
  have d: "unpack_uint32 ?p 0 = PACKID_FPATH" "unpack_uint32 ?p 4 = 0xfffffffc"
    by (simp_all add: unpack_uint32_def byte_at_def)
  have 2: "readn (pipe_os 1) (drop 12 ?p) (unat (unpack_uint32 ?p 4)) 1 0 [replicate 40 65] =
      (40, overwrite 0 (replicate 40 65) (drop 12 ?p), [])"
    unfolding d by (subst readn_all_sent) simp_all
  from recv_fp_packet_size_wraps [OF pipe_laws(1) _ _ _ _ 1 d(1) _ 2, of example_packet] show ?thesis
    unfolding d by (simp add: example_packet_def)
qed

end
