(* ===== verification/Qdb.thy ===== *)
theory Qdb
  imports Fifo Pctldb "HOL-Library.Monad_Syntax"
begin

text \<open>
  The queues of packets between the processor and the server and filter threads: the library
  \<^verbatim>\<open>src/libqdb/qdb.c\<close> (a table of channels, each a Berkeley DB queue of fixed-length records with a
  counter, a mutex and a condition) and its use in \<^verbatim>\<open>src/nbspq.c\<close>.

  The database is the record \<open>qdb_calls\<close> of its operations; the status of locking a mutex is an
  argument, and so are the wake-ups of a wait: for each its status and the channel as the other threads
  left it. The variable \<^verbatim>\<open>*dberror\<close> is passed in and returned. \<^const>\<open>None\<close> is a failed assertion, a read
  outside the data, or a wait that does not return.
\<close>

section \<open>Data\<close>

record 'q qdb_calls =
  qd_append :: "bytes \<Rightarrow> 'q \<Rightarrow> int \<times> 'q"
  qd_consume :: "'q \<Rightarrow> (int + bytes) \<times> 'q"
  qd_re_len :: "'q \<Rightarrow> int + u32"
  qd_stat :: "'q \<Rightarrow> int + u32"
  qd_truncate :: "'q \<Rightarrow> int \<times> 'q"

abbreviation QDB_FSTATUS_OK :: int where "QDB_FSTATUS_OK \<equiv> 0"
abbreviation QDB_FSTATUS_MAX_SOFT :: int where "QDB_FSTATUS_MAX_SOFT \<equiv> 1"
abbreviation QDB_FSTATUS_MAX_HARD :: int where "QDB_FSTATUS_MAX_HARD \<equiv> 2"
abbreviation QDB_FSTATUS_DBERROR :: int where "QDB_FSTATUS_DBERROR \<equiv> 4"

record 'q nbspq_st =
  q_dbp :: 'q
  q_n :: u32
  q_nmax :: u32
  f_memory_based :: int
  f_qdb_status :: int

record 'q nbsp_qtable_st =
  qt_softlimit :: int
  qt_hardlimit :: int
  qt_reclen :: u32
  qt_nbspq :: "'q nbspq_st list" \<comment> \<open>its length is the field \<^verbatim>\<open>n\<close>\<close>

record qdb_param_st =
  qp_dbname :: "bytes option"
  qp_has_dbenv :: bool
  qp_reclen :: u32

section \<open>One channel\<close>

definition set_qdb_status_flag :: "'q nbspq_st \<Rightarrow> int \<Rightarrow> int \<Rightarrow> 'q nbspq_st" where
  "set_qdb_status_flag q flag onoff =
     (if onoff \<noteq> 0 then q\<lparr>f_qdb_status := f_qdb_status q OR flag\<rparr>
      else q\<lparr>f_qdb_status := f_qdb_status q AND NOT flag\<rparr>)"

definition clear_qdb_status_flag :: "'q nbspq_st \<Rightarrow> 'q nbspq_st" where
  "clear_qdb_status_flag q = q\<lparr>f_qdb_status := QDB_FSTATUS_OK\<rparr>"

definition test_qdb_status_flag :: "'q nbspq_st \<Rightarrow> int \<Rightarrow> int" where
  "test_qdb_status_flag q flag = (if f_qdb_status q AND flag \<noteq> 0 then 1 else 0)"

definition qdb_n :: "'q nbspq_st \<Rightarrow> u32" where
  "qdb_n q = q_n q"

definition qdb_stat :: "'q qdb_calls \<Rightarrow> 'q nbspq_st \<Rightarrow> int \<times> 'q nbspq_st" where
  "qdb_stat bdb q = (case qd_stat bdb (q_dbp q) of Inl e \<Rightarrow> (e, q) | Inr n \<Rightarrow> (0, q\<lparr>q_n := n\<rparr>))"

text \<open>The result: the status, the value of \<^verbatim>\<open>*dberror\<close>, and the channel.\<close>

definition qdb_snd ::
  "'q qdb_calls \<Rightarrow> 'q nbspq_st \<Rightarrow> bytes \<Rightarrow> u32 \<Rightarrow> int \<Rightarrow> (int \<times> int \<times> 'q nbspq_st) option" where
  "qdb_snd bdb q p n dberror =
     (if length p < unat n then None
      else
        let (status, d) = qd_append bdb (take (unat n) p) (q_dbp q); q = q\<lparr>q_dbp := d\<rparr> in
        Some (if status = 0 then (0, dberror, q\<lparr>q_n := q_n q + 1\<rparr>) else (-1, status, q)))"

text \<open>
  The buffer is \<open>p\<close>, \<^const>\<open>None\<close> for a null pointer; its contents after the call are the record and
  what was behind it.
\<close>

definition qdb_rcv ::
  "allocator \<Rightarrow> 'q qdb_calls \<Rightarrow> 'q nbspq_st \<Rightarrow> bytes option \<Rightarrow> u32 \<Rightarrow> int \<Rightarrow>
   int \<times> int \<times> bytes option \<times> u32 \<times> 'q nbspq_st" where
  "qdb_rcv alloc bdb q p n dberror =
     (case qd_re_len bdb (q_dbp q) of
        Inl e \<Rightarrow> (-1, e, p, n, q)
      | Inr reclen \<Rightarrow>
          if p \<noteq> None \<and> n < reclen then (-1, EINVAL, p, n, q)
          else if p = None \<and> \<not> can_alloc alloc (unat reclen) then (-1, ENOMEM, p, n, q)
          else
            (case qd_consume bdb (q_dbp q) of
               (Inl e, d) \<Rightarrow> (-1, e, p, n, q\<lparr>q_dbp := d\<rparr>)
             | (Inr r, d) \<Rightarrow>
                 let p = Some (case p of None \<Rightarrow> r | Some buf \<Rightarrow> overwrite 0 r buf);
                     q = q\<lparr>q_dbp := d, q_n := q_n q - 1\<rparr>
                 in
                 if f_memory_based q \<noteq> 0 \<and> q_n q = 0 then
                   (let (status, d) = qd_truncate bdb d in (status, dberror, p, reclen, q\<lparr>q_dbp := d\<rparr>))
                 else (0, dberror, p, reclen, q)))"

text \<open>The statuses of the calls that open a channel, for the name of its file.\<close>

record 'q qdb_open_calls =
  oq_create :: int
  oq_set_re_len :: int
  oq_set_extentsize :: int
  oq_set_flags :: int
  oq_set_cachesize :: int
  oq_open :: int
  oq_malloc :: int
  oq_mutex :: int
  oq_cond :: int
  oq_db :: 'q

definition qdb_open ::
  "'q qdb_calls \<Rightarrow> (bytes option \<Rightarrow> 'q qdb_open_calls) \<Rightarrow> qdb_param_st \<Rightarrow> int \<Rightarrow> int \<times> int \<times> 'q nbspq_st option" where
  "qdb_open bdb calls param dberror =
     (let c = calls (qp_dbname param);
          file = (case qp_dbname param of None \<Rightarrow> False | Some name \<Rightarrow> name \<noteq> []);
          setup =
            (if file then [oq_set_extentsize c]
             else if qp_has_dbenv param then [oq_set_flags c]
             else [oq_set_flags c, oq_set_cachesize c]);
          status = first_error ([oq_create c, oq_set_re_len c] @ setup @ [oq_open c, oq_malloc c]);
          q = \<lparr>q_dbp = oq_db c, q_n = 0, q_nmax = 0xffffffff, f_memory_based = (if file then 0 else 1),
               f_qdb_status = QDB_FSTATUS_OK\<rparr>;
          (status, q) = (if status = 0 then qdb_stat bdb q else (status, q));
          status = (if status = 0 then first_error [oq_mutex c, oq_cond c] else status)
      in if status \<noteq> 0 then (-1, status, None) else (0, dberror, Some q))"

definition qdb_close :: "int \<Rightarrow> int \<Rightarrow> int \<times> int" where
  "qdb_close db_close dberror = (if db_close \<noteq> 0 then (-1, db_close) else (0, dberror))"

section \<open>The table of channels\<close>

fun hex :: "nat \<Rightarrow> bytes" where
  "hex n = (let d = (if n mod 16 < 10 then 48 + of_nat (n mod 16) else 87 + of_nat (n mod 16))
            in if n < 16 then [d] else hex (n div 16) @ [d])"

declare hex.simps [simp del]

text \<open>The file of a channel, as \<^verbatim>\<open>snprintf\<close> cuts it to its buffer; no file for a table in memory.\<close>

definition channel_dbname :: "bytes option \<Rightarrow> nat \<Rightarrow> bytes option" where
  "channel_dbname dbname i =
     (case dbname of
        None \<Rightarrow> None
      | Some name \<Rightarrow>
          if name = [] then Some name
          else Some (take (length name + 5) (name @ hex i @ ascii ''.db'')))"

text \<open>The channels opened before the first failure.\<close>

fun open_channels ::
  "'q qdb_calls \<Rightarrow> (bytes option \<Rightarrow> 'q qdb_open_calls) \<Rightarrow> qdb_param_st \<Rightarrow> int \<Rightarrow> nat list \<Rightarrow>
   int \<times> int \<times> 'q nbspq_st list" where
  "open_channels bdb calls param dberror [] = (0, dberror, [])"
| "open_channels bdb calls param dberror (i # is) =
     (case qdb_open bdb calls (param\<lparr>qp_dbname := channel_dbname (qp_dbname param) i\<rparr>) dberror of
        (status, dberror, None) \<Rightarrow> (status, dberror, [])
      | (status, dberror, Some q) \<Rightarrow>
          let (status, dberror, qs) = open_channels bdb calls param dberror is in (status, dberror, q # qs))"

text \<open>\<open>mallocs\<close>: 0 or the \<^verbatim>\<open>errno\<close> of the allocations of the table, the array and the name.\<close>

definition nbspqt_open ::
  "'q qdb_calls \<Rightarrow> (bytes option \<Rightarrow> 'q qdb_open_calls) \<Rightarrow> int \<times> int \<times> int \<Rightarrow> 8 word \<Rightarrow> int \<Rightarrow> int \<Rightarrow>
   qdb_param_st \<Rightarrow> int \<Rightarrow> int \<times> 'q nbsp_qtable_st option" where
  "nbspqt_open bdb calls mallocs num_queues soft hard param dberror =
     (let (m_table, m_array, m_name) = mallocs;
          memory_based_db = (qp_dbname param = None \<or> qp_dbname param = Some [])
      in
      if m_table \<noteq> 0 then (m_table, None)
      else if m_array \<noteq> 0 then (m_array, None)
      else if \<not> memory_based_db \<and> m_name \<noteq> 0 then (m_name, None)
      else
        let (status, dberror, qs) = open_channels bdb calls param dberror [0..<unat num_queues] in
        if status \<noteq> 0 then (dberror, None)
        else (dberror, Some \<lparr>qt_softlimit = soft, qt_hardlimit = hard, qt_reclen = qp_reclen param, qt_nbspq = qs\<rparr>))"

text \<open>The first error is returned; \<^verbatim>\<open>dberror1\<close> keeps its value between the channels.\<close>

fun close_loop :: "int list \<Rightarrow> int \<Rightarrow> int \<Rightarrow> int \<Rightarrow> int \<times> int" where
  "close_loop [] status dberror dberror1 = (status, dberror)"
| "close_loop (c # cs) status dberror dberror1 =
     (let (status1, dberror1) = qdb_close c dberror1 in
      if status = 0 then close_loop cs status1 dberror1 dberror1
      else close_loop cs status dberror dberror1)"

definition nbspqt_close :: "int list \<Rightarrow> int \<Rightarrow> int \<times> int" where
  "nbspqt_close db_closes dberror = close_loop db_closes 0 dberror 0"

definition queue_soft_limit :: "int \<Rightarrow> int \<Rightarrow> int" where
  "queue_soft_limit n soft = (if soft > 0 \<and> n \<ge> soft then 1 else 0)"

definition queue_hard_limit :: "int \<Rightarrow> int \<Rightarrow> int" where
  "queue_hard_limit n hard = (if hard > 0 \<and> n \<ge> hard then 1 else 0)"

definition valid_type :: "'q nbsp_qtable_st \<Rightarrow> int \<Rightarrow> bool" where
  "valid_type qt typ \<longleftrightarrow> 0 \<le> typ \<and> typ < int (length (qt_nbspq qt))"

abbreviation channel :: "'q nbsp_qtable_st \<Rightarrow> int \<Rightarrow> 'q nbspq_st" where
  "channel qt typ \<equiv> qt_nbspq qt ! nat typ"

definition set_channel :: "int \<Rightarrow> 'q nbspq_st \<Rightarrow> 'q nbsp_qtable_st \<Rightarrow> 'q nbsp_qtable_st" where
  "set_channel typ q qt = qt\<lparr>qt_nbspq := (qt_nbspq qt)[nat typ := q]\<rparr>"

definition nbspqt_n :: "'q nbsp_qtable_st \<Rightarrow> int \<Rightarrow> u32" where
  "nbspqt_n qt typ = q_n (channel qt typ)"

definition nbspqt_test_qdb_status_flag :: "'q nbsp_qtable_st \<Rightarrow> int \<Rightarrow> int \<Rightarrow> int" where
  "nbspqt_test_qdb_status_flag qt typ flag = test_qdb_status_flag (channel qt typ) flag"

text \<open>The flags that a sending sets, by its status.\<close>

definition flag_status :: "int \<Rightarrow> 'q nbspq_st \<Rightarrow> 'q nbspq_st" where
  "flag_status status q =
     (if status = 0 then set_qdb_status_flag q QDB_FSTATUS_MAX_SOFT 0
      else if status = -1 then set_qdb_status_flag q QDB_FSTATUS_DBERROR 1
      else if status = 1 then set_qdb_status_flag q QDB_FSTATUS_MAX_SOFT 1
      else if status = 2 then set_qdb_status_flag q QDB_FSTATUS_MAX_HARD 1
      else q)"

definition nbspqt_snd ::
  "'q qdb_calls \<Rightarrow> int \<Rightarrow> 'q nbsp_qtable_st \<Rightarrow> int \<Rightarrow> bytes \<Rightarrow> u32 \<Rightarrow> int \<Rightarrow>
   (int \<times> int \<times> 'q nbsp_qtable_st) option" where
  "nbspqt_snd bdb lock qt typ data data_size dberror =
     (if \<not> valid_type qt typ then None
      else if lock \<noteq> 0 then Some (-1, lock, qt)
      else
        let q = channel qt typ; n = sint (q_n q) in do {
          (status, dberror, q) \<leftarrow>
            (if queue_hard_limit n (qt_hardlimit qt) \<noteq> 0 then Some (2, dberror, q)
             else qdb_snd bdb (set_qdb_status_flag q QDB_FSTATUS_MAX_HARD 0) data data_size dberror);
          let (status, q) =
            (if status = 0
             then (if queue_soft_limit (c_int (n + 1)) (qt_softlimit qt) \<noteq> 0 then 1 else 0,
                   set_qdb_status_flag q QDB_FSTATUS_DBERROR 0)
             else (status, q));
          Some (status, dberror, set_channel typ (flag_status status q) qt)
        })"

fun q_wait_loop :: "'q nbspq_st \<Rightarrow> (int \<times> 'q nbspq_st) list \<Rightarrow> (int \<times> 'q nbspq_st) option" where
  "q_wait_loop q waits =
     (if q_n q \<noteq> 0 then Some (0, q)
      else
        case waits of
          [] \<Rightarrow> None
        | (status, q') # waits' \<Rightarrow> if status \<noteq> 0 then Some (status, q') else q_wait_loop q' waits')"

declare q_wait_loop.simps [simp del]

definition nbspqt_rcv ::
  "allocator \<Rightarrow> 'q qdb_calls \<Rightarrow> int \<Rightarrow> (int \<times> 'q nbspq_st) list \<Rightarrow> 'q nbsp_qtable_st \<Rightarrow> int \<Rightarrow>
   bytes option \<Rightarrow> u32 \<Rightarrow> int \<Rightarrow> (int \<times> int \<times> bytes option \<times> u32 \<times> 'q nbsp_qtable_st) option" where
  "nbspqt_rcv alloc bdb lock waits qt typ data data_size dberror =
     (if \<not> valid_type qt typ then None
      else if lock \<noteq> 0 then Some (-1, lock, data, data_size, qt)
      else do {
        (status, q) \<leftarrow> q_wait_loop (channel qt typ) waits;
        if q_n q = 0 then
          Some (if status = ETIMEDOUT then 1 else -1, if status = ETIMEDOUT then dberror else -1,
                data, data_size, set_channel typ q qt)
        else
          let (status, dberror, data, data_size, q) = qdb_rcv alloc bdb q data data_size dberror
          in Some (status, dberror, data, data_size, set_channel typ q qt)
      })"

abbreviation EPERM :: int where "EPERM \<equiv> 1"

definition nbspqt_rcv_cleanup :: "int \<Rightarrow> 'q nbsp_qtable_st \<Rightarrow> int \<Rightarrow> int \<Rightarrow> (int \<times> int) option" where
  "nbspqt_rcv_cleanup unlock qt typ dberror =
     (if \<not> valid_type qt typ then None
      else if unlock \<noteq> 0 \<and> unlock \<noteq> EPERM then Some (-1, unlock)
      else Some (0, dberror))"

definition queue_set_timeout :: "int \<Rightarrow> int \<Rightarrow> int \<Rightarrow> timespec" where
  "queue_set_timeout timeout_ms tvsec tvusec =
     Timespec (tvsec + timeout_ms div 1000) (tvusec * 1000 + timeout_ms mod 1000 * 1000000)"

section \<open>A channel as a list\<close>

text \<open>What is relied on: records are padded with spaces, appended and consumed in order.\<close>

definition record_of :: "nat \<Rightarrow> bytes \<Rightarrow> bytes" where
  "record_of reclen bs = bs @ replicate (reclen - length bs) 32"

definition qdb_laws :: "'q qdb_calls \<Rightarrow> ('q \<Rightarrow> bytes list) \<Rightarrow> nat \<Rightarrow> bool" where
  "qdb_laws bdb Q reclen \<longleftrightarrow>
     (\<forall>bs d st d'. qd_append bdb bs d = (st, d') \<longrightarrow> Q d' = (if st = 0 then Q d @ [record_of reclen bs] else Q d)) \<and>
     (\<forall>d r d'. qd_consume bdb d = (r, d') \<longrightarrow>
        (case r of Inl e \<Rightarrow> e \<noteq> 0 \<and> Q d' = Q d | Inr p \<Rightarrow> Q d = p # Q d')) \<and>
     (\<forall>d st d'. qd_truncate bdb d = (st, d') \<longrightarrow> Q d' = (if st = 0 then [] else Q d))"

lemma qdb_append:
  "qdb_laws bdb Q r \<Longrightarrow> qd_append bdb bs d = (st, d') \<Longrightarrow> Q d' = (if st = 0 then Q d @ [record_of r bs] else Q d)"
  by (simp add: qdb_laws_def)

lemma qdb_consume:
  "qdb_laws bdb Q r \<Longrightarrow> qd_consume bdb d = (x, d') \<Longrightarrow>
   (case x of Inl e \<Rightarrow> e \<noteq> 0 \<and> Q d' = Q d | Inr p \<Rightarrow> Q d = p # Q d')"
  by (simp add: qdb_laws_def)

lemma qdb_truncate:
  "qdb_laws bdb Q r \<Longrightarrow> qd_truncate bdb d = (st, d') \<Longrightarrow> Q d' = (if st = 0 then [] else Q d)"
  by (simp add: qdb_laws_def)

definition qchannel_contents :: "('q \<Rightarrow> bytes list) \<Rightarrow> int \<Rightarrow> 'q nbsp_qtable_st \<Rightarrow> bytes list" where
  "qchannel_contents Q typ qt = Q (q_dbp (channel qt typ))"

definition qchannel_inv ::
  "'q qdb_calls \<Rightarrow> ('q \<Rightarrow> bytes list) \<Rightarrow> nat \<Rightarrow> int \<Rightarrow> 'q nbsp_qtable_st \<Rightarrow> bool" where
  "qchannel_inv bdb Q reclen typ qt \<longleftrightarrow>
     qdb_laws bdb Q reclen \<and> valid_type qt typ \<and> unat (q_n (channel qt typ)) = length (qchannel_contents Q typ qt)"

text \<open>The operations as queue operations on one channel.\<close>

definition qchannel_put ::
  "'q qdb_calls \<Rightarrow> nat \<Rightarrow> int \<Rightarrow> int \<times> bytes \<times> u32 \<Rightarrow> 'q nbsp_qtable_st \<Rightarrow> bytes option \<times> 'q nbsp_qtable_st" where
  "qchannel_put bdb reclen typ i qt =
     (case i of (lock, data, n) \<Rightarrow>
        case nbspqt_snd bdb lock qt typ data n 0 of
          None \<Rightarrow> (None, qt)
        | Some (status, _, qt') \<Rightarrow>
            (if status \<in> {0, 1} then Some (record_of reclen (take (unat n) data)) else None, qt'))"

definition qchannel_take ::
  "'q qdb_calls \<Rightarrow> int \<Rightarrow> allocator \<times> int \<times> bytes option \<times> u32 \<Rightarrow> 'q nbsp_qtable_st \<Rightarrow>
   bytes option \<times> 'q nbsp_qtable_st" where
  "qchannel_take bdb typ j qt =
     (case j of (alloc, lock, data, n) \<Rightarrow>
        case nbspqt_rcv alloc bdb lock [(ETIMEDOUT, channel qt typ)] qt typ data n 0 of
          None \<Rightarrow> (None, qt)
        | Some (_, _, data', _, qt') \<Rightarrow>
            (if q_n (channel qt' typ) = q_n (channel qt typ) then None else data', qt'))"

definition qchannel_put_pre :: "int \<Rightarrow> int \<times> bytes \<times> u32 \<Rightarrow> 'q nbsp_qtable_st \<Rightarrow> bool" where
  "qchannel_put_pre typ i qt \<longleftrightarrow> q_n (channel qt typ) \<noteq> 0xffffffff"

definition holds_record :: "bytes \<Rightarrow> bytes \<Rightarrow> bool" where
  "holds_record buf r \<longleftrightarrow> take (length r) buf = r"

lemma channel_set [simp]:
  "valid_type qt typ \<Longrightarrow> channel (set_channel typ q qt) typ = q"
  "valid_type (set_channel typ q qt) t = valid_type qt t"
  by (auto simp: set_channel_def valid_type_def)

lemma set_flag_keeps [simp]:
  "q_dbp (set_qdb_status_flag q f b) = q_dbp q" "q_n (set_qdb_status_flag q f b) = q_n q"
  "q_dbp (flag_status st q) = q_dbp q" "q_n (flag_status st q) = q_n q"
  by (simp_all add: set_qdb_status_flag_def flag_status_def)

lemma nbspqt_snd_outcome:
  assumes "nbspqt_snd bdb lock qt typ data n e = Some (st, e', qt')" "qdb_laws bdb Q reclen"
  shows "valid_type qt typ"
    "(\<exists>q. qt' = set_channel typ q qt \<and>
       (st \<in> {0, 1} \<and> Q (q_dbp q) = Q (q_dbp (channel qt typ)) @ [record_of reclen (take (unat n) data)] \<and>
          q_n q = q_n (channel qt typ) + 1 \<and> queue_hard_limit (sint (q_n (channel qt typ))) (qt_hardlimit qt) = 0 \<or>
        st \<in> {-1, 2} \<and> Q (q_dbp q) = Q (q_dbp (channel qt typ)) \<and> q_n q = q_n (channel qt typ)))
     \<or> st = -1 \<and> qt' = qt"
proof -
  show v: "valid_type qt typ" using assms(1) by (simp add: nbspqt_snd_def split: if_splits)
  let ?q = "channel qt typ" and ?h = "queue_hard_limit (sint (q_n (channel qt typ))) (qt_hardlimit qt)"
  obtain s1 d1 where a: "qd_append bdb (take (unat n) data) (q_dbp ?q) = (s1, d1)" by fastforce
  note law = qdb_append [OF assms(2) a]
  consider "lock \<noteq> 0" | "lock = 0" "?h \<noteq> 0" | "lock = 0" "?h = 0" "s1 \<noteq> 0" | "lock = 0" "?h = 0" "s1 = 0" by blast
  then show "(\<exists>q. qt' = set_channel typ q qt \<and>
       (st \<in> {0, 1} \<and> Q (q_dbp q) = Q (q_dbp ?q) @ [record_of reclen (take (unat n) data)] \<and>
          q_n q = q_n ?q + 1 \<and> ?h = 0 \<or>
        st \<in> {-1, 2} \<and> Q (q_dbp q) = Q (q_dbp ?q) \<and> q_n q = q_n ?q))
     \<or> st = -1 \<and> qt' = qt"
    using assms(1) v a law
    by cases (auto simp: nbspqt_snd_def qdb_snd_def Let_def split: if_splits)
qed

lemma qdb_rcv_outcome:
  assumes "qdb_laws bdb Q reclen" "qdb_rcv alloc bdb q p n e = (st, e', p', n', q')"
    "unat (q_n q) = length (Q (q_dbp q))" "q_n q \<noteq> 0"
  shows "q_n q' = q_n q \<and> Q (q_dbp q') = Q (q_dbp q) \<or>
    (\<exists>r b. p' = Some b \<and> holds_record b r \<and> Q (q_dbp q) = r # Q (q_dbp q') \<and> q_n q' = q_n q - 1)"
proof -
  obtain x d where c: "qd_consume bdb (q_dbp q) = (x, d)" by fastforce
  obtain ts td where t: "qd_truncate bdb d = (ts, td)" by fastforce
  note law = qdb_consume [OF assms(1) c] and tr = qdb_truncate [OF assms(1) t]
  have h: "holds_record (case p of None \<Rightarrow> r | Some b \<Rightarrow> overwrite 0 r b) r" for r
    by (simp add: holds_record_def overwrite_def split: option.split)
  show ?thesis
  proof (cases x)
    case (Inl err)
    with assms(2) c law show ?thesis
      by (auto simp: qdb_rcv_def split: sum.splits if_splits)
  next
    case (Inr r)
    with law have r: "Q (q_dbp q) = r # Q d" by simp
    have empty: "Q d = []" if "q_n q = 1"
      using assms(3) that r by simp
    from assms(2) c Inr t r h [of r] tr empty show ?thesis
      by (auto simp: qdb_rcv_def Let_def split: sum.splits if_splits)
  qed
qed

lemma qchannel_put_law:
  assumes "qchannel_inv bdb Q reclen typ qt" "qchannel_put_pre typ i qt" "qchannel_put bdb reclen typ i qt = (en, qt')"
  shows "qchannel_inv bdb Q reclen typ qt' \<and>
    qchannel_contents Q typ qt' = qchannel_contents Q typ qt @ (case en of None \<Rightarrow> [] | Some e \<Rightarrow> [e])"
proof -
  obtain lock data n where i: "i = (lock, data, n)" by (cases i) auto
  show ?thesis
  proof (cases "nbspqt_snd bdb lock qt typ data n 0")
    case None
    with assms show ?thesis by (simp add: qchannel_put_def i)
  next
    case (Some r)
    obtain st e' qt1 where r: "r = (st, e', qt1)" by (cases r) auto
    have laws: "qdb_laws bdb Q reclen" using assms(1) by (simp add: qchannel_inv_def)
    note o = nbspqt_snd_outcome [OF Some [unfolded r] laws]
    have "unat (q_n (channel qt typ) + 1) = unat (q_n (channel qt typ)) + 1"
      using assms(2) by (simp add: qchannel_put_pre_def unat_inc_u32)
    with o assms(1,3) Some show ?thesis
      by (auto simp: qchannel_put_def i r qchannel_inv_def qchannel_contents_def)
  qed
qed

lemma qchannel_take_law:
  assumes "qchannel_inv bdb Q reclen typ qt" "qchannel_take bdb typ j qt = (t, qt')"
  shows "qchannel_inv bdb Q reclen typ qt' \<and>
    (case t of None \<Rightarrow> qchannel_contents Q typ qt' = qchannel_contents Q typ qt
     | Some t \<Rightarrow> \<exists>e. qchannel_contents Q typ qt = e # qchannel_contents Q typ qt' \<and> holds_record t e)"
proof -
  obtain alloc lock data n where j: "j = (alloc, lock, data, n)" by (cases j) auto
  let ?q = "channel qt typ"
  obtain st e' p' n' q' where r: "qdb_rcv alloc bdb ?q data n 0 = (st, e', p', n', q')"
    using prod_cases5 by blast
  have inv: "qdb_laws bdb Q reclen" "valid_type qt typ" "unat (q_n ?q) = length (Q (q_dbp ?q))"
    using assms(1) by (simp_all add: qchannel_inv_def qchannel_contents_def)
  have same: "set_channel typ ?q qt = qt" by (simp add: set_channel_def)
  consider (nothing) "lock \<noteq> 0 \<or> q_n ?q = 0" | (rcv) "lock = 0" "q_n ?q \<noteq> 0" by blast
  then show ?thesis
  proof cases
    case nothing
    then have "t = None \<and> qt' = qt"
      using assms(2) inv(2) same
      by (cases "lock = 0")
        (simp_all add: qchannel_take_def j nbspqt_rcv_def Let_def q_wait_loop.simps [of ?q])
    with assms(1) show ?thesis by simp
  next
    case rcv
    then have t: "t = (if q_n q' = q_n ?q then None else p')" "qt' = set_channel typ q' qt"
      using assms(2) inv(2) r
      by (simp_all add: qchannel_take_def j nbspqt_rcv_def Let_def q_wait_loop.simps [of ?q])
    from qdb_rcv_outcome [OF inv(1) r inv(3) rcv(2)] show ?thesis
    proof
      assume "q_n q' = q_n ?q \<and> Q (q_dbp q') = Q (q_dbp ?q)"
      with t inv show ?thesis by (simp add: qchannel_inv_def qchannel_contents_def)
    next
      assume "\<exists>x b. p' = Some b \<and> holds_record b x \<and> Q (q_dbp ?q) = x # Q (q_dbp q') \<and> q_n q' = q_n ?q - 1"
      then obtain x b where x: "p' = Some b" "holds_record b x" "Q (q_dbp ?q) = x # Q (q_dbp q')"
        "q_n q' = q_n ?q - 1" by blast
      have "unat (q_n ?q - 1) = length (Q (q_dbp q'))"
        using inv(3) x(3) by (simp add: unat_sub word_le_nat_alt)
      with x t inv show ?thesis by (simp add: qchannel_inv_def qchannel_contents_def)
    qed
  qed
qed

interpretation qch: fifo_queue "qchannel_inv bdb Q reclen typ" "qchannel_contents Q typ" "qchannel_put bdb reclen typ"
  "qchannel_take bdb typ" "qchannel_put_pre typ" "\<lambda>_ _. True" holds_record
  by unfold_locales (use qchannel_put_law qchannel_take_law in blast)+

section \<open>Properties\<close>

text \<open>
  C19. A channel of the packet queues is first-in first-out: over any sequence of sends and receives,
  also when some fail, the records taken out are, in order, the ones that were in the channel and
  then the ones that entered, and what is left are the rest.
\<close>

theorem qdb_channel_fifo:
  assumes "qchannel_inv bdb Q reclen typ qt"
    "fifo_pre (qchannel_put bdb reclen typ) (qchannel_take bdb typ) (qchannel_put_pre typ) (\<lambda>_ _. True) ops qt"
    "fifo_run (qchannel_put bdb reclen typ) (qchannel_take bdb typ) ops qt = (entered, taken, qt')"
  shows "\<exists>es. qchannel_contents Q typ qt @ entered = es @ qchannel_contents Q typ qt' \<and> list_all2 holds_record taken es"
  using qch.fifo_run_order [OF assms] by blast

text \<open>A database kept as a list of records.\<close>

definition list_qdb :: "u32 \<Rightarrow> bytes list qdb_calls" where
  "list_qdb reclen = \<lparr>qd_append = (\<lambda>bs d. (0, d @ [record_of (unat reclen) bs])),
     qd_consume = (\<lambda>d. case d of [] \<Rightarrow> (Inl 1, d) | r # d \<Rightarrow> (Inr r, d)),
     qd_re_len = (\<lambda>_. Inr reclen), qd_stat = (\<lambda>d. Inr (of_nat (length d))), qd_truncate = (\<lambda>_. (0, []))\<rparr>"

definition example_qtable :: "bytes list nbsp_qtable_st" where
  "example_qtable = \<lparr>qt_softlimit = 1, qt_hardlimit = 2, qt_reclen = 4,
     qt_nbspq = replicate 2 \<lparr>q_dbp = [], q_n = 0, q_nmax = 0xffffffff, f_memory_based = 1, f_qdb_status = 0\<rparr>\<rparr>"

definition example_qops :: "(int \<times> bytes \<times> u32, allocator \<times> int \<times> bytes option \<times> u32) qop list" where
  "example_qops = [Send (0, [1, 2, 3], 3), Send (0, [4], 1), Receive (\<lambda>_. True, 0, None, 0), Send (0, [5], 1)]"

lemma list_qdb_laws: "qdb_laws (list_qdb reclen) id (unat reclen)"
  by (auto simp: qdb_laws_def list_qdb_def split: list.splits)

lemma list_qdb_inv: "qchannel_inv (list_qdb 4) id 4 1 example_qtable"
  using list_qdb_laws [of 4]
  by (simp add: qchannel_inv_def qchannel_contents_def valid_type_def example_qtable_def)

theorem qdb_channel_fifo_witness:
  "\<exists>taken qt' es. fifo_run (qchannel_put (list_qdb 4) 4 1) (qchannel_take (list_qdb 4) 1) example_qops example_qtable =
      ([[1, 2, 3, 32], [4, 32, 32, 32], [5, 32, 32, 32]], taken, qt') \<and> taken = [[1, 2, 3, 32]] \<and>
     [[1, 2, 3, 32], [4, 32, 32, 32], [5, 32, 32, 32]] = es @ qchannel_contents id 1 qt' \<and>
     list_all2 holds_record taken es"
proof -
  let ?run = "fifo_run (qchannel_put (list_qdb 4) 4 1) (qchannel_take (list_qdb 4) 1) example_qops example_qtable"
  have pre: "fifo_pre (qchannel_put (list_qdb 4) 4 1) (qchannel_take (list_qdb 4) 1) (qchannel_put_pre 1) (\<lambda>_ _. True)
      example_qops example_qtable"
    by code_simp
  have e: "fst ?run = [[1, 2, 3, 32], [4, 32, 32, 32], [5, 32, 32, 32]]" "fst (snd ?run) = [[1, 2, 3, 32]]"
    by code_simp+
  then obtain qt' where r: "?run = ([[1, 2, 3, 32], [4, 32, 32, 32], [5, 32, 32, 32]], [[1, 2, 3, 32]], qt')"
    by (cases ?run) auto
  have "qchannel_contents id 1 example_qtable = []" by code_simp
  with qdb_channel_fifo [OF list_qdb_inv pre r] r show ?thesis by auto
qed

text \<open>
  The hard limit of a channel holds: a send never takes the number of records over it, and a send
  that is refused leaves every record in place; the other channels are not touched.
\<close>

theorem nbspqt_snd_limits:
  assumes inv: "qchannel_inv bdb Q reclen typ qt" and s: "nbspqt_snd bdb lock qt typ data n e = Some (st, e', qt')"
    and lim: "0 < qt_hardlimit qt" "qt_hardlimit qt < 2 ^ 31"
      "int (length (qchannel_contents Q typ qt)) \<le> qt_hardlimit qt"
  shows "int (length (qchannel_contents Q typ qt')) \<le> qt_hardlimit qt \<and>
    (st \<in> {2, -1} \<longrightarrow> qchannel_contents Q typ qt' = qchannel_contents Q typ qt) \<and>
    (\<forall>t. 0 \<le> t \<and> t \<noteq> typ \<longrightarrow> channel qt' t = channel qt t)"
proof -
  have laws: "qdb_laws bdb Q reclen" using inv by (simp add: qchannel_inv_def)
  note o = nbspqt_snd_outcome [OF s laws]
  have len: "length (qchannel_contents Q typ qt) = unat (q_n (channel qt typ))"
    using inv by (simp add: qchannel_inv_def)
  have "sint (q_n (channel qt typ)) = uint (q_n (channel qt typ))"
  proof -
    have "int (unat (q_n (channel qt typ))) < 2 ^ 31" using lim(2,3) len by linarith
    then have "unat (q_n (channel qt typ)) < 2 ^ 31" by (simp del: of_nat_unat)
    then have "sint (of_nat (unat (q_n (channel qt typ))) :: u32) = int (unat (q_n (channel qt typ)))"
      by (rule sint_of_nat_u32)
    then show ?thesis by simp
  qed
  then have "int (length (qchannel_contents Q typ qt)) < qt_hardlimit qt"
    if "queue_hard_limit (sint (q_n (channel qt typ))) (qt_hardlimit qt) = 0"
    using that lim(1) len by (simp add: queue_hard_limit_def split: if_splits)
  moreover have "channel (set_channel typ q qt) t = channel qt t" if "0 \<le> t" "t \<noteq> typ" for q t
    using that o(1) by (simp add: set_channel_def valid_type_def nat_eq_iff2)
  ultimately show ?thesis
    using o lim(3) by (auto simp: qchannel_contents_def)
qed

theorem nbspqt_snd_limits_witness:
  "\<exists>st e' qt'. nbspqt_snd (list_qdb 4) 0 example_qtable 1 [7] 1 0 = Some (st, e', qt') \<and> st = 1 \<and>
     int (length (qchannel_contents id 1 qt')) \<le> qt_hardlimit example_qtable"
proof -
  have "map_option fst (nbspqt_snd (list_qdb 4) 0 example_qtable 1 [7] 1 0) = Some 1" by code_simp
  then obtain e' qt' where r: "nbspqt_snd (list_qdb 4) 0 example_qtable 1 [7] 1 0 = Some (1, e', qt')" by auto
  with nbspqt_snd_limits [OF list_qdb_inv r] show ?thesis
    by (auto simp: example_qtable_def qchannel_contents_def)
qed

lemma bit_set_flag:
  "bit (f_qdb_status (set_qdb_status_flag q (2 ^ k) b)) m = (if m = k then b \<noteq> 0 else bit (f_qdb_status q) m)"
  unfolding set_qdb_status_flag_def by (simp add: bit_or_iff bit_and_iff bit_not_iff bit_exp_iff)

lemma test_flag_bit:
  "test_qdb_status_flag q (2 ^ k) = (if bit (f_qdb_status q) k then 1 else 0)"
  by (simp add: test_qdb_status_flag_def and_exp_eq_0_iff_not_bit)

lemma test_set_exp:
  "test_qdb_status_flag (set_qdb_status_flag q (2 ^ k) b) (2 ^ m) =
     (if m = k then (if b \<noteq> 0 then 1 else 0) else test_qdb_status_flag q (2 ^ m))"
  unfolding test_flag_bit bit_set_flag by simp

lemma test_set_flag:
  assumes "flag \<in> {QDB_FSTATUS_MAX_SOFT, QDB_FSTATUS_MAX_HARD, QDB_FSTATUS_DBERROR}"
    "flag' \<in> {QDB_FSTATUS_MAX_SOFT, QDB_FSTATUS_MAX_HARD, QDB_FSTATUS_DBERROR}"
  shows "test_qdb_status_flag (set_qdb_status_flag q flag b) flag' =
     (if flag = flag' then (if b \<noteq> 0 then 1 else 0) else test_qdb_status_flag q flag')"
proof -
  obtain k m :: nat where "flag = 2 ^ k" "flag' = 2 ^ m"
    using assms power_0 power_one_right [of "2 :: int"] by (metis insertE empty_iff numeral_Bit0_eq_double power2_eq_square)
  then show ?thesis by (simp add: test_set_exp)
qed

text \<open>
  After a send the flag of the hard limit of the channel tells whether it was refused for the
  limit, the flag of a database error is cleared by a success, and the flag of the soft limit then
  tells whether that limit is reached.
\<close>

theorem nbspqt_snd_flags:
  assumes "nbspqt_snd bdb 0 qt typ data n e = Some (st, e', qt')"
  shows "nbspqt_test_qdb_status_flag qt' typ QDB_FSTATUS_MAX_HARD = (if st = 2 then 1 else 0) \<and>
    (st \<in> {0, 1} \<longrightarrow> nbspqt_test_qdb_status_flag qt' typ QDB_FSTATUS_DBERROR = 0 \<and>
       nbspqt_test_qdb_status_flag qt' typ QDB_FSTATUS_MAX_SOFT = st) \<and>
    (st = -1 \<longrightarrow> nbspqt_test_qdb_status_flag qt' typ QDB_FSTATUS_DBERROR = 1)"
proof -
  let ?q = "channel qt typ" and ?h = "queue_hard_limit (sint (q_n (channel qt typ))) (qt_hardlimit qt)"
  have upd: "test_qdb_status_flag (q\<lparr>q_dbp := x\<rparr>) f = test_qdb_status_flag q f"
    "test_qdb_status_flag (q\<lparr>q_n := y\<rparr>) f = test_qdb_status_flag q f" for q x y f
    by (simp_all add: test_qdb_status_flag_def)
  obtain s1 d1 where a: "qd_append bdb (take (unat n) data) (q_dbp ?q) = (s1, d1)" by fastforce
  consider "?h \<noteq> 0" | "?h = 0" "s1 \<noteq> 0" | "?h = 0" "s1 = 0" by blast
  then show ?thesis
    using assms a
    by cases (auto simp: nbspqt_snd_def qdb_snd_def Let_def nbspqt_test_qdb_status_flag_def flag_status_def
        test_set_flag upd queue_soft_limit_def split: if_splits)
qed

theorem nbspqt_snd_flags_witness:
  "\<exists>e' qt'. nbspqt_snd (list_qdb 4) 0 example_qtable 1 [7] 1 0 = Some (1, e', qt') \<and>
     nbspqt_test_qdb_status_flag qt' 1 QDB_FSTATUS_MAX_HARD = 0 \<and>
     nbspqt_test_qdb_status_flag qt' 1 QDB_FSTATUS_MAX_SOFT = 1"
proof -
  have "map_option fst (nbspqt_snd (list_qdb 4) 0 example_qtable 1 [7] 1 0) = Some 1" by code_simp
  then obtain e' qt' where r: "nbspqt_snd (list_qdb 4) 0 example_qtable 1 [7] 1 0 = Some (1, e', qt')" by auto
  with nbspqt_snd_flags [OF r] show ?thesis by auto
qed

text \<open>
  The deadline of a timed wait is a valid time only if the microseconds of the clock and the
  milliseconds of the timeout add up to less than a second; otherwise its nanoseconds are too
  large, and a timed wait with such a deadline is an error.
\<close>

theorem queue_set_timeout_valid:
  "tv_nsec (queue_set_timeout timeout_ms tvsec tvusec) < 1000000000 \<longleftrightarrow>
   tvusec + 1000 * (timeout_ms mod 1000) < 1000000"
  by (auto simp: queue_set_timeout_def)

end
