(* ===== verification/Nbspq.thy ===== *)
theory Nbspq
  imports Qdb Packfp
begin

text \<open>
  The packet queues of the daemon, \<^verbatim>\<open>src/nbspq.c\<close>: opening, the sends and receives of the filter and
  server queues, and the periodic report of their limits. The globals it uses are \<open>nbspq_globals\<close>.
\<close>

abbreviation FILTER_Q_INDEX :: int where "FILTER_Q_INDEX \<equiv> 0"
abbreviation SERVER_Q_INDEX :: int where "SERVER_Q_INDEX \<equiv> 1"

record queue_state_st =
  qs_current :: int
  qs_last :: int

record 'q nbspq_globals =
  nq_qtable :: "'q nbsp_qtable_st"
  nq_appdata :: "queue_state_st list"
  queue_numchannels :: "8 word"
  queue_maxsize_soft :: int
  queue_maxsize_hard :: int
  f_filter_thread_created :: int
  f_server_thread_created :: int

section \<open>Operations\<close>

text \<open>
  When the allocation of the states fails, the loop that clears them writes through the null
  pointer (\<^const>\<open>None\<close>) unless there is no channel. A null table is not returned to the caller but only
  the status: \<open>Inl\<close> with the error code.
\<close>

definition init_nbspq ::
  "'q qdb_calls \<Rightarrow> (bytes option \<Rightarrow> 'q qdb_open_calls) \<Rightarrow> int \<Rightarrow> int \<times> int \<times> int \<Rightarrow> bytes \<Rightarrow> qdb_param_st \<Rightarrow> int \<Rightarrow>
   'q nbspq_globals \<Rightarrow> (int + 'q nbspq_globals) option" where
  "init_nbspq bdb calls calloc_errno mallocs spooldir param qerrno g =
     (if calloc_errno \<noteq> 0 then (if queue_numchannels g \<noteq> 0 then None else Some (Inl calloc_errno))
      else
        let qstate = replicate (unat (queue_numchannels g)) \<lparr>qs_current = 0, qs_last = 0\<rparr>;
            data_size = of_nat (const_fpath_packet_maxsize spooldir);
            dbname = (if valid_str (qp_dbname param) \<noteq> 0 then qp_dbname param else None);
            param = param\<lparr>qp_dbname := dbname, qp_reclen := data_size\<rparr>
        in
        case nbspqt_open bdb calls mallocs (queue_numchannels g) (queue_maxsize_soft g) (queue_maxsize_hard g) param qerrno of
          (e, None) \<Rightarrow> Some (Inl e)
        | (_, Some qt) \<Rightarrow> Some (Inr (g\<lparr>nq_qtable := qt, nq_appdata := qstate\<rparr>)))"

definition nbspq_set_quota_status1 :: "'q nbspq_globals \<Rightarrow> int \<Rightarrow> int \<Rightarrow> 'q nbspq_globals option" where
  "nbspq_set_quota_status1 g typ status =
     (if typ < 0 \<or> int (length (nq_appdata g)) \<le> typ then None
      else Some (g\<lparr>nq_appdata := (nq_appdata g)[nat typ := (nq_appdata g ! nat typ)\<lparr>qs_current := status\<rparr>]\<rparr>))"

definition e_nbspq_snd1 ::
  "'q qdb_calls \<Rightarrow> int \<Rightarrow> 'q nbspq_globals \<Rightarrow> int \<Rightarrow> bytes \<Rightarrow> nat \<Rightarrow> (int \<times> 'q nbspq_globals) option" where
  "e_nbspq_snd1 bdb lock g typ pkt pkt_size = do {
     (status, _, qt) \<leftarrow> nbspqt_snd bdb lock (nq_qtable g) typ pkt (of_nat pkt_size) 0;
     let g = g\<lparr>nq_qtable := qt\<rparr>;
     if status = -1 then Some (-1, g)
     else do {
       g \<leftarrow> nbspq_set_quota_status1 g typ status;
       Some (if status = 1 then 0 else if status = 2 then -1 else status, g)
     }
   }"

definition e_nbspq_snd_filter ::
  "'q qdb_calls \<Rightarrow> int \<Rightarrow> 'q nbspq_globals \<Rightarrow> bytes \<Rightarrow> nat \<Rightarrow> (int \<times> 'q nbspq_globals) option" where
  "e_nbspq_snd_filter bdb lock g pkt pkt_size =
     (if f_filter_thread_created g \<noteq> 0 then e_nbspq_snd1 bdb lock g FILTER_Q_INDEX pkt pkt_size
      else Some (0, g))"

definition e_nbspq_snd_server ::
  "'q qdb_calls \<Rightarrow> int \<Rightarrow> 'q nbspq_globals \<Rightarrow> bytes \<Rightarrow> nat \<Rightarrow> (int \<times> 'q nbspq_globals) option" where
  "e_nbspq_snd_server bdb lock g pkt pkt_size =
     (if f_server_thread_created g \<noteq> 0 then e_nbspq_snd1 bdb lock g SERVER_Q_INDEX pkt pkt_size
      else Some (0, g))"

text \<open>The result: the status, the packet and its size, and the globals.\<close>

definition e_nbspq_rcv1 ::
  "allocator \<Rightarrow> 'q qdb_calls \<Rightarrow> int \<Rightarrow> (int \<times> 'q nbspq_st) list \<Rightarrow> 'q nbspq_globals \<Rightarrow> int \<Rightarrow> bytes option \<Rightarrow> nat \<Rightarrow>
   (int \<times> bytes option \<times> nat \<times> 'q nbspq_globals) option" where
  "e_nbspq_rcv1 alloc bdb lock waits g typ pkt pkt_size = do {
     (status, _, pkt, n, qt) \<leftarrow> nbspqt_rcv alloc bdb lock waits (nq_qtable g) typ pkt (of_nat pkt_size) 0;
     Some (status, pkt, if status = 0 then unat n else pkt_size, g\<lparr>nq_qtable := qt\<rparr>)
   }"

definition e_nbspq_rcv_filter ::
  "allocator \<Rightarrow> 'q qdb_calls \<Rightarrow> int \<Rightarrow> (int \<times> 'q nbspq_st) list \<Rightarrow> 'q nbspq_globals \<Rightarrow> bytes option \<Rightarrow> nat \<Rightarrow>
   (int \<times> bytes option \<times> nat \<times> 'q nbspq_globals) option" where
  "e_nbspq_rcv_filter alloc bdb lock waits g = e_nbspq_rcv1 alloc bdb lock waits g FILTER_Q_INDEX"

definition e_nbspq_rcv_server ::
  "allocator \<Rightarrow> 'q qdb_calls \<Rightarrow> int \<Rightarrow> (int \<times> 'q nbspq_st) list \<Rightarrow> 'q nbspq_globals \<Rightarrow> bytes option \<Rightarrow> nat \<Rightarrow>
   (int \<times> bytes option \<times> nat \<times> 'q nbspq_globals) option" where
  "e_nbspq_rcv_server alloc bdb lock waits g = e_nbspq_rcv1 alloc bdb lock waits g SERVER_Q_INDEX"

text \<open>The message of a channel and its state after the report.\<close>

definition e_nbspq_quota1 :: "queue_state_st \<Rightarrow> queue_report \<times> queue_state_st" where
  "e_nbspq_quota1 qs =
     (if qs_current qs = 1 then Report_soft
      else if qs_current qs = 2 then Report_hard
      else if qs_current qs \<noteq> qs_last qs then Report_restored
      else Report_none,
      qs\<lparr>qs_last := qs_current qs\<rparr>)"

definition e_nbspq_report_quota :: "'q nbspq_globals \<Rightarrow> (queue_report list \<times> 'q nbspq_globals) option" where
  "e_nbspq_report_quota g =
     (let n = unat (queue_numchannels g) in
      if length (nq_appdata g) < n then None
      else
        let rs = map e_nbspq_quota1 (take n (nq_appdata g))
        in Some (map fst rs, g\<lparr>nq_appdata := map snd rs @ drop n (nq_appdata g)\<rparr>))"

section \<open>Lemmas\<close>

lemma qdb_rcv_success:
  assumes "qdb_laws bdb Q reclen" "qdb_rcv alloc bdb q p n e = (0, e', p', n', q')"
    "unat (q_n q) = length (Q (q_dbp q))" "q_n q \<noteq> 0"
  shows "\<exists>r rs. Q (q_dbp q) = r # rs \<and> p' = Some (case p of None \<Rightarrow> r | Some buf \<Rightarrow> overwrite 0 r buf)"
proof -
  obtain x d where c: "qd_consume bdb (q_dbp q) = (x, d)" by fastforce
  from assms(2) c qdb_consume [OF assms(1) c] show ?thesis
    by (cases x) (auto simp: qdb_rcv_def Let_def split: sum.splits if_splits prod.splits)
qed

lemma e_nbspq_snd1_outcome:
  assumes "e_nbspq_snd1 bdb 0 g typ pkt n = Some (r, g')" "qchannel_inv bdb Q reclen typ (nq_qtable g)"
    "q_n (channel (nq_qtable g) typ) \<noteq> 0xffffffff" "n < 2 ^ 32"
  shows "qchannel_inv bdb Q reclen typ (nq_qtable g')"
    "r = 0 \<and> qchannel_contents Q typ (nq_qtable g') = qchannel_contents Q typ (nq_qtable g) @ [record_of reclen (take n pkt)] \<or>
     r = -1 \<and> qchannel_contents Q typ (nq_qtable g') = qchannel_contents Q typ (nq_qtable g)"
proof -
  obtain st e' qt where s: "nbspqt_snd bdb 0 (nq_qtable g) typ pkt (of_nat n) 0 = Some (st, e', qt)"
    and g': "nq_qtable g' = qt" and r: "r = (if st = 1 then 0 else if st = 2 then -1 else st)"
    using assms(1)
    by (auto simp: e_nbspq_snd1_def nbspq_set_quota_status1_def bind_eq_Some_conv Let_def split: if_splits)
  have laws: "qdb_laws bdb Q reclen" using assms(2) by (simp add: qchannel_inv_def)
  let ?en = "if st \<in> {0, 1} then Some (record_of reclen (take (unat (of_nat n :: u32)) pkt)) else None"
  have put: "qchannel_put bdb reclen typ (0, pkt, of_nat n) (nq_qtable g) = (?en, qt)"
    by (simp add: qchannel_put_def s)
  have "st \<in> {0, 1} \<or> st \<in> {2, -1}" using nbspqt_snd_outcome(2) [OF s laws] by auto
  moreover have "unat (of_nat n :: u32) = n" using assms(4) by (simp add: unat_of_nat)
  moreover have "qchannel_inv bdb Q reclen typ qt \<and>
      qchannel_contents Q typ qt = qchannel_contents Q typ (nq_qtable g) @ (case ?en of None \<Rightarrow> [] | Some e \<Rightarrow> [e])"
    using assms(3) by (intro qchannel_put_law [OF assms(2) _ put]) (simp add: qchannel_put_pre_def)
  ultimately show "qchannel_inv bdb Q reclen typ (nq_qtable g')"
    "r = 0 \<and> qchannel_contents Q typ (nq_qtable g') = qchannel_contents Q typ (nq_qtable g) @ [record_of reclen (take n pkt)] \<or>
     r = -1 \<and> qchannel_contents Q typ (nq_qtable g') = qchannel_contents Q typ (nq_qtable g)"
    using g' r by auto
qed

lemma e_nbspq_rcv1_outcome:
  assumes "e_nbspq_rcv1 alloc bdb 0 waits g typ p n = Some (0, p', n', g')"
    "qchannel_inv bdb Q reclen typ (nq_qtable g)" "qchannel_contents Q typ (nq_qtable g) = r # rs"
  shows "p' = Some (case p of None \<Rightarrow> r | Some buf \<Rightarrow> overwrite 0 r buf)"
proof -
  let ?q = "channel (nq_qtable g) typ"
  have inv: "qdb_laws bdb Q reclen" "valid_type (nq_qtable g) typ" "unat (q_n ?q) = length (Q (q_dbp ?q))"
    using assms(2) by (simp_all add: qchannel_inv_def qchannel_contents_def)
  have Q: "Q (q_dbp ?q) = r # rs" using assms(3) by (simp add: qchannel_contents_def)
  with inv(3) have n: "q_n ?q \<noteq> 0" by auto
  then have w: "q_wait_loop ?q waits = Some (0, ?q)" by (simp add: q_wait_loop.simps)
  obtain st e' p1 n1 q1 where rc: "qdb_rcv alloc bdb ?q p (of_nat n) 0 = (st, e', p1, n1, q1)"
    using prod_cases5 by blast
  have "st = 0" "p1 = p'"
    using assms(1) inv(2) w n rc by (auto simp: e_nbspq_rcv1_def nbspqt_rcv_def bind_eq_Some_conv)
  with qdb_rcv_success [OF inv(1) _ inv(3) n] rc Q show ?thesis by fastforce
qed

section \<open>Properties\<close>

text \<open>
  C20. The path of a product reaches the server thread: the packet made from an element, sent to the
  empty server queue and received into a packet of the same size, unpacks to the number, the name
  and the path of the element.
\<close>

theorem queued_path_delivered:
  assumes pack: "nbsfp_pack_fpath pi pce = Some (0, pi1)" "packet pi = Some p0" "length p0 = packet_size pi"
      "packet_size pi = 39 + nat (fpath_size pce)" "names_fit pce"
    and queue: "qchannel_inv bdb Q (packet_size pi) SERVER_Q_INDEX (nq_qtable g)"
      "qchannel_contents Q SERVER_Q_INDEX (nq_qtable g) = []" "f_server_thread_created g = 1"
    and send: "e_nbspq_snd_server bdb 0 g (the (packet pi1)) (packet_size pi) = Some (0, g1)"
    and rcv: "e_nbspq_rcv_server alloc bdb 0 waits g1 (Some buf) n = Some (0, p', n', g2)" "length buf = packet_size pi"
  shows "\<exists>pi3 q. nbsfp_unpack_fpath (pi2\<lparr>packet := p'\<rparr>) = Some (0, pi3) \<and> packet pi3 = Some q \<and>
    pk_seq_number pi3 = seq_number pce \<and> cstr (drop (pk_fname pi3) q) = fname pce \<and>
    cstr (drop (pk_fpath pi3) q) = fpath pce"
proof -
  let ?b = "packet_body p0 pce" and ?n = "27 + nat (fpath_size pce)"
  let ?q = "enveloped PACKID_FPATH ?n ?b"
  have len: "length p0 = 39 + nat (fpath_size pce)" using pack by simp
  have p1: "packet pi1 = Some ?q"
    using pack(1) nbsfp_pack_fpath_eq [OF pack(2-5)] by auto
  have lq: "length ?q = packet_size pi" using len pack(4) enveloped_fields(5) [of ?b PACKID_FPATH ?n] by simp
  have "packet_size pi < 2 ^ 32" using pack(4,5) by (auto simp: names_fit_def)
  moreover have "q_n (channel (nq_qtable g) SERVER_Q_INDEX) \<noteq> 0xffffffff"
    using queue(1,2) by (auto simp: qchannel_inv_def)
  moreover have "e_nbspq_snd1 bdb 0 g SERVER_Q_INDEX ?q (packet_size pi) = Some (0, g1)"
    using send queue(3) p1 by (simp add: e_nbspq_snd_server_def)
  ultimately have "qchannel_inv bdb Q (packet_size pi) SERVER_Q_INDEX (nq_qtable g1)"
    "qchannel_contents Q SERVER_Q_INDEX (nq_qtable g1) = [?q]"
    using e_nbspq_snd1_outcome [OF _ queue(1)] queue(2) lq by (fastforce simp: record_of_def)+
  then have "p' = Some (overwrite 0 ?q buf)"
    using e_nbspq_rcv1_outcome [OF rcv(1) [unfolded e_nbspq_rcv_server_def]] by simp
  then have p': "p' = Some ?q" using rcv(2) lq by (simp add: overwrite_def)
  have d: "drop 20 ?q = drop 20 ?b" "drop 39 ?q = drop 39 ?b"
    by (simp_all add: enveloped_def w32.drop_pack_after)
  show ?thesis
    using packed_unpacks [of "pi2\<lparr>packet := p'\<rparr>" pce p0] p' len pack(5) d
      packet_body_fname [OF len pack(5)] packet_body_fpath [OF len pack(5)] by simp
qed

definition example_nbspq :: "bytes list nbspq_globals" where
  "example_nbspq = \<lparr>nq_qtable = example_qtable, nq_appdata = replicate 2 \<lparr>qs_current = 0, qs_last = 0\<rparr>,
     queue_numchannels = 2, queue_maxsize_soft = 1, queue_maxsize_hard = 2,
     f_filter_thread_created = 1, f_server_thread_created = 1\<rparr>"

theorem queued_path_delivered_witness:
  "\<exists>pi1 g1 p' n' g2 pi3 q.
     nbsfp_pack_fpath example_packet (example_named 3) = Some (0, pi1) \<and>
     e_nbspq_snd_server (list_qdb 45) 0 example_nbspq (the (packet pi1)) 45 = Some (0, g1) \<and>
     e_nbspq_rcv_server (\<lambda>_. True) (list_qdb 45) 0 [] g1 (Some (replicate 45 0)) 45 = Some (0, p', n', g2) \<and>
     nbsfp_unpack_fpath (example_packet\<lparr>packet := p'\<rparr>) = Some (0, pi3) \<and> packet pi3 = Some q \<and>
     cstr (drop (pk_fname pi3) q) = [65, 66] \<and> cstr (drop (pk_fpath pi3) q) = [47, 65]"
proof -
  have "map_option (\<lambda>(st, pi1). (st, map_option (\<lambda>(st, g1). (st, map_option fst
      (e_nbspq_rcv_server (\<lambda>_. True) (list_qdb 45) 0 [] g1 (Some (replicate 45 0)) 45)))
      (e_nbspq_snd_server (list_qdb 45) 0 example_nbspq (the (packet pi1)) 45)))
      (nbsfp_pack_fpath example_packet (example_named 3)) = Some (0, Some (0, Some 0))"
    by code_simp
  then obtain pi1 g1 p' n' g2 where r: "nbsfp_pack_fpath example_packet (example_named 3) = Some (0, pi1)"
    "e_nbspq_snd_server (list_qdb 45) 0 example_nbspq (the (packet pi1)) 45 = Some (0, g1)"
    "e_nbspq_rcv_server (\<lambda>_. True) (list_qdb 45) 0 [] g1 (Some (replicate 45 0)) 45 = Some (0, p', n', g2)"
    by auto
  have inv: "qchannel_inv (list_qdb 45) id 45 SERVER_Q_INDEX (nq_qtable example_nbspq)"
    using list_qdb_laws [of 45]
    by (simp add: qchannel_inv_def qchannel_contents_def valid_type_def example_qtable_def example_nbspq_def)
  have pk: "packet example_packet = Some (replicate 45 255)" "packet_size example_packet = 45"
    "length (replicate 45 (255 :: byte)) = packet_size example_packet"
    "packet_size example_packet = 39 + nat (fpath_size (example_named 3))" "names_fit (example_named 3)"
    by (simp_all add: example_packet_simps)
  have e: "qchannel_contents id SERVER_Q_INDEX (nq_qtable example_nbspq) = []" "f_server_thread_created example_nbspq = 1"
    by (simp_all add: qchannel_contents_def example_nbspq_def example_qtable_def)
  have "fname (example_named 3) = [65, 66]" "fpath (example_named 3) = [47, 65]" by (simp_all add: example_named_def)
  with queued_path_delivered [OF r(1) pk(1,3-5) inv [folded pk(2)] e r(2) [folded pk(2)] r(3), of example_packet]
  obtain pi3 q where "nbsfp_unpack_fpath (example_packet\<lparr>packet := p'\<rparr>) = Some (0, pi3)" "packet pi3 = Some q"
    "cstr (drop (pk_fname pi3) q) = [65, 66]" "cstr (drop (pk_fpath pi3) q) = [47, 65]"
    using pk(2) by auto
  with r show ?thesis by blast
qed

text \<open>
  The report of the limits is complete and does not repeat itself: it has one message per channel,
  and a second report without a send in between never announces a restored queue.
\<close>

theorem report_quota_settles:
  assumes "e_nbspq_report_quota g = Some (rs, g')" "e_nbspq_report_quota g' = Some (rs', g'')"
  shows "length rs = unat (queue_numchannels g) \<and> Report_restored \<notin> set rs' \<and> nq_appdata g'' = nq_appdata g'"
proof -
  let ?n = "unat (queue_numchannels g)"
  have q: "snd (e_nbspq_quota1 (snd (e_nbspq_quota1 s))) = snd (e_nbspq_quota1 s)"
    "fst (e_nbspq_quota1 (snd (e_nbspq_quota1 s))) \<noteq> Report_restored" for s
    by (simp_all add: e_nbspq_quota1_def)
  have "?n \<le> length (nq_appdata g)" "rs = map (fst \<circ> e_nbspq_quota1) (take ?n (nq_appdata g))"
    and g': "nq_appdata g' = map (snd \<circ> e_nbspq_quota1) (take ?n (nq_appdata g)) @ drop ?n (nq_appdata g)"
      "queue_numchannels g' = queue_numchannels g"
    using assms(1) by (auto simp: e_nbspq_report_quota_def Let_def split: if_splits)
  moreover from this have "take ?n (nq_appdata g') = map (snd \<circ> e_nbspq_quota1) (take ?n (nq_appdata g))"
    "drop ?n (nq_appdata g') = drop ?n (nq_appdata g)"
    by simp_all
  moreover have "rs' = map (fst \<circ> e_nbspq_quota1) (take ?n (nq_appdata g'))"
    "nq_appdata g'' = map (snd \<circ> e_nbspq_quota1) (take ?n (nq_appdata g')) @ drop ?n (nq_appdata g')"
    using assms(2) g'(2) by (auto simp: e_nbspq_report_quota_def Let_def split: if_splits)
  ultimately show ?thesis using q q(2) [symmetric] by auto
qed

theorem report_quota_settles_witness:
  "\<exists>g' rs' g''. e_nbspq_report_quota (example_nbspq\<lparr>nq_appdata := [\<lparr>qs_current = 0, qs_last = 2\<rparr>, \<lparr>qs_current = 1, qs_last = 0\<rparr>]\<rparr>) =
     Some ([Report_restored, Report_soft], g') \<and> e_nbspq_report_quota g' = Some (rs', g'') \<and> Report_restored \<notin> set rs'"
proof -
  let ?g = "example_nbspq\<lparr>nq_appdata := [\<lparr>qs_current = 0, qs_last = 2\<rparr>, \<lparr>qs_current = 1, qs_last = 0\<rparr>]\<rparr>"
  have "map_option (\<lambda>(rs, g'). (rs, e_nbspq_report_quota g' = None)) (e_nbspq_report_quota ?g) =
      Some ([Report_restored, Report_soft], False)"
    by code_simp
  then obtain g' rs' g'' where r: "e_nbspq_report_quota ?g = Some ([Report_restored, Report_soft], g')"
    "e_nbspq_report_quota g' = Some (rs', g'')"
    by (auto split: prod.splits)
  with report_quota_settles [OF r] show ?thesis by blast
qed

end
