(* ===== verification/Files.thy ===== *)
theory Files
  imports Nbsp_Prelude
begin

text \<open>
  The file helpers of \<^verbatim>\<open>src/file.c\<close>. The file system is a state \<open>'f\<close> with the system calls in
  \<open>fs_calls\<close>; what is relied on is \<open>fs_laws\<close>, over the directories and the regular files a state has.
  Paths are C strings.
\<close>

section \<open>System calls\<close>

datatype stat_result = Stat_error int | Stat_ok bool int \<comment> \<open>\<^verbatim>\<open>errno\<close>; a directory?, the size\<close>

abbreviation ENOENT :: int where "ENOENT \<equiv> 2"
abbreviation SLASH :: byte where "SLASH \<equiv> 47"

record 'f fs_calls =
  fs_stat :: "bytes \<Rightarrow> 'f \<Rightarrow> stat_result"
  fs_unlink :: "bytes \<Rightarrow> 'f \<Rightarrow> int \<times> 'f"
  fs_mkdir :: "bytes \<Rightarrow> 'f \<Rightarrow> int \<times> 'f"
  fs_open_trunc :: "bytes \<Rightarrow> 'f \<Rightarrow> int \<times> 'f" \<comment> \<open>a descriptor or -1\<close>
  fs_write :: "bytes \<Rightarrow> bytes \<Rightarrow> 'f \<Rightarrow> int \<times> 'f" \<comment> \<open>to the open file of that path\<close>

section \<open>Operations\<close>

definition file_exists :: "'f fs_calls \<Rightarrow> bytes \<Rightarrow> 'f \<Rightarrow> int" where
  "file_exists fs fname f =
     (case fs_stat fs fname f of Stat_error e \<Rightarrow> if e = ENOENT then 1 else -1 | Stat_ok _ _ \<Rightarrow> 0)"

definition file_delete :: "'f fs_calls \<Rightarrow> bytes \<Rightarrow> 'f \<Rightarrow> int \<times> 'f" where
  "file_delete fs fname f =
     (let status = file_exists fs fname f in
      if status = 0 then fs_unlink fs fname f
      else if status = 1 then (0, f)
      else (status, f))"

definition dir_exists :: "'f fs_calls \<Rightarrow> bytes \<Rightarrow> 'f \<Rightarrow> int" where
  "dir_exists fs dname f =
     (case fs_stat fs dname f of
        Stat_error e \<Rightarrow> if e = ENOENT then 1 else -1
      | Stat_ok isdir _ \<Rightarrow> if \<not> isdir then 2 else 0)"

definition get_file_size :: "'f fs_calls \<Rightarrow> bytes \<Rightarrow> 'f \<Rightarrow> int \<Rightarrow> int \<times> int" where
  "get_file_size fs fname f fsize =
     (case fs_stat fs fname f of Stat_error _ \<Rightarrow> (-1, fsize) | Stat_ok _ n \<Rightarrow> (0, n))"

text \<open>\<^verbatim>\<open>strchr\<close> from a position, as an index.\<close>

definition strchr_from :: "byte \<Rightarrow> bytes \<Rightarrow> nat \<Rightarrow> nat option" where
  "strchr_from c s i =
     (let j = length (takeWhile (\<lambda>b. b \<noteq> c) (drop i s)) in if i + j < length s then Some (i + j) else None)"

lemma strchr_from_Some:
  assumes "strchr_from c s i = Some j"
  shows "i \<le> j" "j < length s" "s ! j = c"
proof -
  let ?n = "length (takeWhile (\<lambda>b. b \<noteq> c) (drop i s))"
  have j: "j = i + ?n" "j < length s" using assms by (auto simp: strchr_from_def Let_def split: if_splits)
  then show "i \<le> j" "j < length s" by simp_all
  have "\<not> drop i s ! ?n \<noteq> c" using j by (intro nth_length_takeWhile) simp
  then show "s ! j = c" using j by simp
qed

text \<open>
  The loop that creates the directories on the way to a path, from the position \<open>p\<close>: the path cut at
  the next slash, if there is one, is the directory to make. An existing directory is not an error.
\<close>

definition make_one_dir :: "'f fs_calls \<Rightarrow> bytes \<Rightarrow> 'f \<Rightarrow> int \<times> 'f" where
  "make_one_dir fs path f =
     (let (status, f) = fs_mkdir fs path f
      in (if status \<noteq> 0 \<and> dir_exists fs path f = 0 then 0 else status, f))"

function dir_tree_loop :: "'f fs_calls \<Rightarrow> bytes \<Rightarrow> nat \<Rightarrow> 'f \<Rightarrow> int \<times> 'f" where
  "dir_tree_loop fs path p f =
     (let p' = (if byte_at path p = SLASH then p + 1 else p) in
      case strchr_from SLASH path p' of
        None \<Rightarrow> make_one_dir fs path f
      | Some s \<Rightarrow>
          let (status, f) = make_one_dir fs (take s path) f
          in if status = 0 then dir_tree_loop fs path s f else (status, f))"
  by auto
termination
proof (relation "measure (\<lambda>(fs, path, p, f). length path - p)", simp)
  fix path p p' and s :: nat
  assume p': "p' = (if byte_at path p = SLASH then p + 1 else p)" and s: "strchr_from SLASH path p' = Some s"
  note j = strchr_from_Some [OF s]
  have "p < s"
    using j p' by (cases "s = p") (auto simp: byte_at_def split: if_splits)
  with j(2) show "((fs :: 'f fs_calls, path, s, f2 :: 'f), fs, path, p, f :: 'f)
      \<in> measure (\<lambda>(fs, path, p, f). length path - p)" for fs f f2
    by simp
qed

declare dir_tree_loop.simps [simp del]

text \<open>\<^verbatim>\<open>path_ok\<close>: the copy of the path could be allocated.\<close>

definition make_dir_tree :: "'f fs_calls \<Rightarrow> bool \<Rightarrow> bytes option \<Rightarrow> 'f \<Rightarrow> int \<times> 'f" where
  "make_dir_tree fs path_ok path f =
     (case path of
        None \<Rightarrow> (1, f)
      | Some path \<Rightarrow>
          if path = [] then (1, f)
          else if \<not> path_ok then (-1, f)
          else dir_tree_loop fs path 0 f)"

definition make_dir_tree2 :: "'f fs_calls \<Rightarrow> bytes option \<Rightarrow> 'f \<Rightarrow> int \<times> 'f" where
  "make_dir_tree2 fs path f =
     (case path of
        None \<Rightarrow> (1, f)
      | Some path \<Rightarrow> if path = [] then (1, f) else dir_tree_loop fs path 0 f)"

text \<open>The function \<^verbatim>\<open>dirname\<close> of the C library.\<close>

definition strip_slashes :: "bytes \<Rightarrow> bytes" where
  "strip_slashes s = rev (dropWhile (\<lambda>b. b = SLASH) (rev s))"

definition dirname :: "bytes \<Rightarrow> bytes" where
  "dirname path =
     (let q = strip_slashes path in
      if q = [] then (if path = [] then [46] else [SLASH])
      else if SLASH \<notin> set q then [46]
      else let d = strip_slashes (rev (dropWhile (\<lambda>b. b \<noteq> SLASH) (rev q))) in if d = [] then [SLASH] else d)"

definition create_path_dirs :: "'f fs_calls \<Rightarrow> bool \<Rightarrow> bytes \<Rightarrow> 'f \<Rightarrow> int \<times> 'f" where
  "create_path_dirs fs copy_ok fname f =
     (if SLASH \<notin> set fname then (0, f)
      else if \<not> copy_ok then (-1, f)
      else make_dir_tree2 fs (Some (dirname fname)) f)"

text \<open>The index of the base name in the path.\<close>

definition findbasename :: "bytes option \<Rightarrow> nat option" where
  "findbasename path =
     (case path of
        None \<Rightarrow> None
      | Some path \<Rightarrow>
          if path = [] then None
          else if SLASH \<notin> set path then Some 0
          else
            let n = length (takeWhile (\<lambda>b. b \<noteq> SLASH) (rev path))
            in if n = 0 then None else Some (length path - n))"

definition make_temp_logfile :: "bool \<Rightarrow> bytes \<Rightarrow> bytes \<Rightarrow> bytes option" where
  "make_temp_logfile alloc_ok logfile ext = (if alloc_ok then Some (logfile @ ext) else None)"

section \<open>What the file system promises\<close>

text \<open>\<open>D\<close>: the directories of a state; \<open>R\<close>: its regular files and their contents.\<close>

definition fs_laws :: "'f fs_calls \<Rightarrow> ('f \<Rightarrow> bytes set) \<Rightarrow> ('f \<Rightarrow> bytes \<Rightarrow> bytes option) \<Rightarrow> bool" where
  "fs_laws fs D R \<longleftrightarrow>
     (\<forall>p f st f'. fs_mkdir fs p f = (st, f') \<longrightarrow> D f \<subseteq> D f' \<and> (st = 0 \<longrightarrow> p \<in> D f') \<and> R f' = R f) \<and>
     (\<forall>p f isdir n. fs_stat fs p f = Stat_ok isdir n \<longrightarrow> isdir = (p \<in> D f)) \<and>
     (\<forall>p f. fs_stat fs p f = Stat_error ENOENT \<longrightarrow> R f p = None) \<and>
     (\<forall>p f st f'. fs_unlink fs p f = (st, f') \<longrightarrow> D f' = D f \<and> R f' = (if st = 0 then (R f)(p := None) else R f)) \<and>
     (\<forall>p f fd f'. fs_open_trunc fs p f = (fd, f') \<longrightarrow> D f' = D f \<and> R f' = (if fd = -1 then R f else (R f)(p \<mapsto> []))) \<and>
     (\<forall>p bs f n f' old. fs_write fs p bs f = (n, f') \<longrightarrow> R f p = Some old \<longrightarrow>
        D f' = D f \<and> R f' = (if n < 0 then R f else (R f)(p \<mapsto> old @ take (nat n) bs)))"

lemma fs_mkdir_law:
  "fs_laws fs D R \<Longrightarrow> fs_mkdir fs p f = (st, f') \<Longrightarrow> D f \<subseteq> D f' \<and> (st = 0 \<longrightarrow> p \<in> D f') \<and> R f' = R f"
  by (simp add: fs_laws_def)

lemma fs_stat_law: "fs_laws fs D R \<Longrightarrow> fs_stat fs p f = Stat_ok isdir n \<Longrightarrow> isdir = (p \<in> D f)"
  by (simp add: fs_laws_def)

lemma fs_unlink_law:
  "fs_laws fs D R \<Longrightarrow> fs_unlink fs p f = (st, f') \<Longrightarrow> D f' = D f \<and> R f' = (if st = 0 then (R f)(p := None) else R f)"
  by (simp add: fs_laws_def)

lemma fs_open_law:
  "fs_laws fs D R \<Longrightarrow> fs_open_trunc fs p f = (fd, f') \<Longrightarrow>
   D f' = D f \<and> R f' = (if fd = -1 then R f else (R f)(p \<mapsto> []))"
  by (simp add: fs_laws_def)

lemma fs_write_law:
  "fs_laws fs D R \<Longrightarrow> fs_write fs p bs f = (n, f') \<Longrightarrow> R f p = Some old \<Longrightarrow>
   D f' = D f \<and> R f' = (if n < 0 then R f else (R f)(p \<mapsto> old @ take (nat n) bs))"
  by (simp add: fs_laws_def)

lemma file_delete_deletes:
  assumes "fs_laws fs D R" "file_delete fs p f = (st, f')"
  shows "R f' = (if st = 0 then (R f)(p := None) else R f)"
proof (cases "fs_stat fs p f")
  case (Stat_error e)
  then have "R f p = None" if "e = ENOENT" using assms(1) that by (simp add: fs_laws_def)
  with Stat_error assms(2) show ?thesis
    by (auto simp: file_delete_def file_exists_def Let_def split: if_splits)
next
  case (Stat_ok isdir n)
  with assms show ?thesis
    using fs_unlink_law [OF assms(1)] by (auto simp: file_delete_def file_exists_def Let_def)
qed

lemma make_one_dir_makes:
  assumes "fs_laws fs D R" "make_one_dir fs path f = (st, f')"
  shows "D f \<subseteq> D f'" "R f' = R f" "st = 0 \<Longrightarrow> path \<in> D f'"
proof -
  obtain st1 f1 where m: "fs_mkdir fs path f = (st1, f1)" by fastforce
  note law = fs_mkdir_law [OF assms(1) m]
  have "(st, f') = (if st1 \<noteq> 0 \<and> dir_exists fs path f1 = 0 then 0 else st1, f1)"
    unfolding assms(2) [symmetric] make_one_dir_def m by simp
  then have f': "f' = f1" "st = (if st1 \<noteq> 0 \<and> dir_exists fs path f1 = 0 then 0 else st1)" by blast+
  have ex: "path \<in> D f1" if "dir_exists fs path f1 = 0"
    using that fs_stat_law [OF assms(1), of path f1]
    by (cases "fs_stat fs path f1") (auto simp: dir_exists_def split: if_splits)
  show "D f \<subseteq> D f'" "R f' = R f" using law f' by simp_all
  show "path \<in> D f'" if "st = 0" using law f' ex that by (simp split: if_splits)
qed

lemma strchr_from_first:
  assumes "i \<le> t" "t < length s" "s ! t = c"
  shows "\<exists>j. strchr_from c s i = Some j \<and> j \<le> t"
proof -
  let ?n = "length (takeWhile (\<lambda>b. b \<noteq> c) (drop i s))"
  have "?n \<le> t - i"
  proof (rule ccontr)
    assume "\<not> ?n \<le> t - i"
    then have lt: "t - i < ?n" by simp
    have "takeWhile (\<lambda>b. b \<noteq> c) (drop i s) ! (t - i) \<noteq> c"
      using nth_mem [OF lt] by (auto dest: set_takeWhileD)
    with takeWhile_nth [OF lt] assms show False by simp
  qed
  with assms show ?thesis by (auto simp: strchr_from_def Let_def)
qed

lemma dir_tree_loop_step:
  assumes "p' = (if byte_at path p = SLASH then p + 1 else p)"
  shows "strchr_from SLASH path p' = None \<Longrightarrow> dir_tree_loop fs path p f = make_one_dir fs path f"
    "strchr_from SLASH path p' = Some s \<Longrightarrow> make_one_dir fs (take s path) f = (st, f1) \<Longrightarrow>
     dir_tree_loop fs path p f = (if st = 0 then dir_tree_loop fs path s f1 else (st, f1))"
  unfolding dir_tree_loop.simps [of fs path p f] assms [symmetric] Let_def by simp_all

lemma dir_tree_loop_makes:
  assumes "fs_laws fs D R" "dir_tree_loop fs path p f = (0, f')"
  shows "D f \<subseteq> D f' \<and> R f' = R f \<and> path \<in> D f' \<and>
    (\<forall>s. p < s \<and> s < length path \<and> path ! s = SLASH \<longrightarrow> take s path \<in> D f')"
  using assms
proof (induction fs path p f rule: dir_tree_loop.induct)
  case (1 fs path p f)
  define p' where "p' = (if byte_at path p = SLASH then p + 1 else p)"
  show ?case
  proof (cases "strchr_from SLASH path p'")
    case None
    have "\<not> (p < s \<and> s < length path \<and> path ! s = SLASH)" for s
    proof
      assume s: "p < s \<and> s < length path \<and> path ! s = SLASH"
      then have "p' \<le> s" by (simp add: p'_def)
      from strchr_from_first [OF this, of path SLASH] s None show False by simp
    qed
    moreover have mk: "make_one_dir fs path f = (0, f')"
      using "1.prems"(2) dir_tree_loop_step(1) [OF p'_def None, of fs f] by simp
    ultimately show ?thesis using make_one_dir_makes [OF "1.prems"(1) mk] by auto
  next
    case (Some s)
    obtain st f1 where m: "make_one_dir fs (take s path) f = (st, f1)" by fastforce
    from "1.prems"(2) Some m have st: "st = 0" and rec: "dir_tree_loop fs path s f1 = (0, f')"
      using dir_tree_loop_step(2) [OF p'_def Some m] by (simp_all split: if_splits)
    note one = make_one_dir_makes [OF "1.prems"(1) m]
    have IH: "D f1 \<subseteq> D f' \<and> R f' = R f1 \<and> path \<in> D f' \<and>
        (\<forall>t. s < t \<and> t < length path \<and> path ! t = SLASH \<longrightarrow> take t path \<in> D f')"
      using "1.IH" [OF p'_def Some m [symmetric] refl st "1.prems"(1) rec] .
    have "take t path \<in> D f'" if "p < t" "t < length path" "path ! t = SLASH" for t
    proof -
      have "p' \<le> t" using that(1) by (simp add: p'_def)
      then have "s \<le> t" using strchr_from_first [OF _ that(2,3), of p'] Some by auto
      then consider "t = s" | "s < t" by linarith
      then show ?thesis
      proof cases
        case 1
        with one(3) [OF st] IH show ?thesis by blast
      next
        case 2
        with IH that show ?thesis by blast
      qed
    qed
    with IH one(1,2) show ?thesis by (intro conjI) (blast, simp, blast, blast)
  qed
qed

section \<open>Properties\<close>

text \<open>
  Creating a directory tree that succeeds leaves the directory of the path and the directory of
  every proper prefix of it, cut at a slash, in existence, and no file changed.
\<close>

theorem make_dir_tree_creates:
  assumes "fs_laws fs D R" "make_dir_tree fs path_ok (Some path) f = (0, f')"
  shows "path \<in> D f' \<and> (\<forall>s. 0 < s \<and> s < length path \<and> path ! s = SLASH \<longrightarrow> take s path \<in> D f') \<and>
    D f \<subseteq> D f' \<and> R f' = R f"
  using assms dir_tree_loop_makes [OF assms(1), of path 0 f f']
  by (auto simp: make_dir_tree_def split: if_splits)

text \<open>A file system kept as a set of directories and a map of files.\<close>

definition map_fs :: "(bytes set \<times> (bytes \<Rightarrow> bytes option)) fs_calls" where
  "map_fs =
     \<lparr>fs_stat = (\<lambda>p f. if p \<in> fst f then Stat_ok True 0
         else case snd f p of None \<Rightarrow> Stat_error ENOENT | Some c \<Rightarrow> Stat_ok False (int (length c))),
      fs_unlink = (\<lambda>p f. if snd f p = None then (-1, f) else (0, (fst f, (snd f)(p := None)))),
      fs_mkdir = (\<lambda>p f. if p \<in> fst f then (-1, f) else (0, (insert p (fst f), snd f))),
      fs_open_trunc = (\<lambda>p f. (3, (fst f, (snd f)(p \<mapsto> [])))),
      fs_write = (\<lambda>p bs f. (int (length bs), (fst f, (snd f)(p \<mapsto> (case snd f p of None \<Rightarrow> [] | Some old \<Rightarrow> old) @ bs))))\<rparr>"

lemma map_fs_laws: "fs_laws map_fs fst snd"
  by (auto simp: fs_laws_def map_fs_def split: option.splits if_splits)

theorem make_dir_tree_creates_witness:
  "let f' = snd (make_dir_tree map_fs True (Some [47, 97, 47, 98]) ({[47, 97]}, \<lambda>_. None))
   in [47, 97, 47, 98] \<in> fst f' \<and> [47, 97] \<in> fst f'"
proof -
  let ?r = "make_dir_tree map_fs True (Some [47, 97, 47, 98]) ({[47, 97]}, \<lambda>_. None)"
  have "fst ?r = 0" by code_simp
  then have "?r = (0, snd ?r)" by (metis prod.collapse)
  from make_dir_tree_creates [OF map_fs_laws this] show ?thesis
    by (auto simp: Let_def elim: allE [of _ "2 :: nat"])
qed

end
