(* ===== verification/Spooldb.thy ===== *)
theory Spooldb
  imports Memfile "HOL-Library.Monad_Syntax"
begin

text \<open>
  The bookkeeping of the spool directory, \<^verbatim>\<open>src/spooldb.c\<close>: a circular array with the paths of the
  files in the directory. An insertion deletes the file whose slot it takes. The array is one buffer
  of \<^verbatim>\<open>numslots * keysize\<close> bytes, as in the code; \<open>ring\<close> is what it stands for, the paths from the
  oldest to the newest, and the insertion is proved to drop the oldest and append the new one.

  The function \<^verbatim>\<open>destroy_key\<close> is an argument, on a state \<open>'f\<close> of the file system. \<^const>\<open>None\<close> is a failed
  assertion or an access outside the buffer.
\<close>

section \<open>Operations\<close>

record spooldb_st =
  sd_numslots :: u32
  sd_keysize :: nat
  sd_slot :: u32
  sd_index :: u32
  sd_slotptr :: nat \<comment> \<open>as an offset in \<^verbatim>\<open>keys\<close>\<close>
  sd_keys :: bytes

abbreviation SIZEOF_SPOOLDB :: nat where "SIZEOF_SPOOLDB \<equiv> 40"

definition spooldb_init :: "allocator \<Rightarrow> u32 \<Rightarrow> int \<Rightarrow> spooldb_st option option" where
  "spooldb_init alloc numslots keysize =
     (if \<not> (numslots > 0 \<and> keysize > 0) then None
      else if \<not> can_alloc alloc SIZEOF_SPOOLDB \<or> \<not> can_alloc alloc (unat numslots * nat keysize) then Some None
      else Some (Some
        \<lparr>sd_numslots = numslots, sd_keysize = nat keysize, sd_slot = 0, sd_index = 0, sd_slotptr = 0,
         sd_keys = replicate (unat numslots * nat keysize) 0\<rparr>))"

definition spooldb_insert ::
  "(bytes \<Rightarrow> 'f \<Rightarrow> int \<times> 'f) \<Rightarrow> spooldb_st \<Rightarrow> bytes \<Rightarrow> 'f \<Rightarrow> (int \<times> spooldb_st \<times> 'f) option" where
  "spooldb_insert destroy_key sd key f =
     (let keysize = length key + 1 in
      if keysize > sd_keysize sd then None
      else if length (sd_keys sd) < sd_slotptr sd + keysize then None
      else
        let (status, f) = destroy_key (cstr (drop (sd_slotptr sd) (sd_keys sd))) f;
            sd = sd\<lparr>sd_keys := overwrite (sd_slotptr sd) (key @ [0]) (sd_keys sd),
                     sd_slot := sd_slot sd + 1,
                     sd_index := sd_index sd + of_nat (sd_keysize sd),
                     sd_slotptr := sd_slotptr sd + sd_keysize sd\<rparr>;
            sd = (if sd_slot sd = sd_numslots sd then sd\<lparr>sd_slot := 0, sd_index := 0, sd_slotptr := 0\<rparr> else sd)
        in Some (status, sd, f))"

definition spooldb_get_slot :: "spooldb_st \<Rightarrow> u32" where
  "spooldb_get_slot sd = sd_slot sd"

text \<open>
  The file: the structure as it was in memory, unless it is short, and the keys. What the writes
  return is an argument: whether the file is opened and how many bytes each write takes.
\<close>

type_synonym spooldb_file = "spooldb_st option \<times> bytes"

definition spooldb_write :: "bool \<Rightarrow> int \<Rightarrow> (nat \<Rightarrow> int) \<Rightarrow> spooldb_st \<Rightarrow> int \<times> spooldb_file option" where
  "spooldb_write opened n_struct n_keys sd =
     (if \<not> opened then (-1, None)
      else if n_struct \<noteq> int SIZEOF_SPOOLDB then (-1, Some (None, []))
      else
        let n = unat (sd_numslots sd * of_nat (sd_keysize sd)); m = n_keys n in
        (if m \<noteq> int n then -1 else 0, Some (Some sd, take (nat m) (sd_keys sd))))"

text \<open>\<open>failed\<close>: whether each of the two reads returns an error.\<close>

definition spooldb_read :: "bool \<times> bool \<Rightarrow> spooldb_file option \<Rightarrow> spooldb_st \<Rightarrow> int \<times> spooldb_st" where
  "spooldb_read failed file sd =
     (case file of
        None \<Rightarrow> (-1, sd)
      | Some (saved, keys) \<Rightarrow>
          if fst failed then (-1, sd)
          else
            case saved of
              None \<Rightarrow> (1, sd)
            | Some saved \<Rightarrow>
                if sd_keysize saved \<noteq> sd_keysize sd \<or> sd_numslots saved > sd_numslots sd then (1, sd)
                else
                  let sd = sd\<lparr>sd_slot := sd_slot saved, sd_index := sd_index saved, sd_slotptr := unat (sd_index saved)\<rparr>;
                      n = unat (sd_numslots saved * of_nat (sd_keysize saved))
                  in
                  if snd failed then (-1, sd)
                  else (if length (take n keys) \<noteq> n then 1 else 0, sd\<lparr>sd_keys := overwrite 0 (take n keys) (sd_keys sd)\<rparr>))"

section \<open>The array as a ring\<close>

definition slot_key :: "spooldb_st \<Rightarrow> nat \<Rightarrow> bytes" where
  "slot_key sd i = cstr (take (sd_keysize sd) (drop (i * sd_keysize sd) (sd_keys sd)))"

definition ring :: "spooldb_st \<Rightarrow> bytes list" where
  "ring sd = rotate (unat (sd_slot sd)) (map (slot_key sd) [0..<unat (sd_numslots sd)])"

definition spooldb_inv :: "spooldb_st \<Rightarrow> bool" where
  "spooldb_inv sd \<longleftrightarrow>
     0 < sd_keysize sd \<and> length (sd_keys sd) = unat (sd_numslots sd) * sd_keysize sd \<and>
     sd_slot sd < sd_numslots sd \<and> sd_slotptr sd = unat (sd_slot sd) * sd_keysize sd \<and>
     sd_index sd = of_nat (sd_slotptr sd) \<and>
     (\<forall>i < unat (sd_numslots sd). 0 \<in> set (take (sd_keysize sd) (drop (i * sd_keysize sd) (sd_keys sd))))"

lemma slot_bound:
  assumes "i < n"
  shows "i * k + k \<le> n * (k :: nat)"
proof -
  have "Suc i * k \<le> n * k" using assms by (intro mult_le_mono1) simp
  then show ?thesis by (simp add: add.commute)
qed

lemma slots_apart:
  assumes "i \<noteq> j"
  shows "i * k + k \<le> j * (k :: nat) \<or> j * k + k \<le> i * k"
  using slot_bound [of i j k] slot_bound [of j i k] assms by (cases "i < j") auto

lemma take_drop_overwrite_outside:
  assumes "off + length xs \<le> a \<or> a + k \<le> off" "off + length xs \<le> length buf"
  shows "take k (drop a (overwrite off xs buf)) = take k (drop a buf)"
  using assms by (intro nth_equalityI) (auto simp: nth_overwrite)

lemma cstr_append_zero: "0 \<in> set xs \<Longrightarrow> cstr (xs @ ys) = cstr xs"
  by (induction xs) (auto simp: cstr_Cons)

section \<open>Insertion\<close>

lemma spooldb_insert_slots:
  assumes inv: "spooldb_inv sd" and key: "0 \<notin> set key" "length key < sd_keysize sd"
    and ins: "spooldb_insert destroy sd key f = Some (st, sd', f')"
  shows "(st, f') = destroy (slot_key sd (unat (sd_slot sd))) f"
    "sd_numslots sd' = sd_numslots sd" "sd_keysize sd' = sd_keysize sd"
    "unat (sd_slot sd') = (if Suc (unat (sd_slot sd)) = unat (sd_numslots sd) then 0 else Suc (unat (sd_slot sd)))"
    "sd_slotptr sd' = unat (sd_slot sd') * sd_keysize sd" "sd_index sd' = of_nat (sd_slotptr sd')"
    "sd_keys sd' = overwrite (sd_slotptr sd) (key @ [0]) (sd_keys sd)"
proof -
  let ?k = "sd_keysize sd" and ?n = "unat (sd_numslots sd)" and ?s = "unat (sd_slot sd)"
  have s: "?s < ?n" and ptr: "sd_slotptr sd = ?s * ?k" and len: "length (sd_keys sd) = ?n * ?k"
    using inv by (simp_all add: spooldb_inv_def word_less_nat_alt)
  have s1: "unat (sd_slot sd + 1) = Suc ?s"
    using s by (intro unat_inc_u32 [simplified]) (use unat_u32_less [of "sd_numslots sd"] in auto)
  have wrap: "sd_slot sd + 1 = sd_numslots sd \<longleftrightarrow> Suc ?s = ?n"
    using s1 by (metis word_unat_eq_iff)
  have "0 \<in> set (take ?k (drop (?s * ?k) (sd_keys sd)))" using inv s by (simp add: spooldb_inv_def)
  then have old: "cstr (drop (sd_slotptr sd) (sd_keys sd)) = slot_key sd ?s"
    unfolding slot_key_def ptr by (metis append_take_drop_id cstr_append_zero)
  have bound: "\<not> length (sd_keys sd) < sd_slotptr sd + (length key + 1)"
    using slot_bound [OF s, of ?k] key(2) len ptr by simp
  obtain st1 f1 where d: "destroy (slot_key sd ?s) f = (st1, f1)" by fastforce
  have ix: "sd_index sd = of_nat (?s * ?k)" using inv ptr by (simp add: spooldb_inv_def)
  note ins' = ins [unfolded spooldb_insert_def Let_def old d prod.case]
  show "(st, f') = destroy (slot_key sd ?s) f" "sd_numslots sd' = sd_numslots sd" "sd_keysize sd' = sd_keysize sd"
    "unat (sd_slot sd') = (if Suc ?s = ?n then 0 else Suc ?s)"
    "sd_keys sd' = overwrite (sd_slotptr sd) (key @ [0]) (sd_keys sd)"
    using ins' key(2) bound wrap s1 d by (auto split: if_splits)
  show "sd_slotptr sd' = unat (sd_slot sd') * ?k" "sd_index sd' = of_nat (sd_slotptr sd')"
    using ins' key(2) bound wrap s1 ptr ix by (auto split: if_splits simp: algebra_simps)
qed

lemma spooldb_insert_ring:
  assumes inv: "spooldb_inv sd" and key: "0 \<notin> set key" "length key < sd_keysize sd"
  shows "\<exists>sd'. spooldb_insert destroy sd key f = Some (fst (destroy (hd (ring sd)) f), sd', snd (destroy (hd (ring sd)) f)) \<and>
    ring sd' = tl (ring sd) @ [key] \<and> spooldb_inv sd' \<and> sd_keysize sd' = sd_keysize sd \<and>
    sd_numslots sd' = sd_numslots sd"
proof -
  let ?k = "sd_keysize sd" and ?n = "unat (sd_numslots sd)" and ?s = "unat (sd_slot sd)"
  let ?keys = "map (slot_key sd) [0..<?n]"
  have s: "?s < ?n" and ptr: "sd_slotptr sd = ?s * ?k" and len: "length (sd_keys sd) = ?n * ?k"
    using inv by (simp_all add: spooldb_inv_def word_less_nat_alt)
  have fits: "sd_slotptr sd + length (key @ [0]) \<le> length (sd_keys sd)"
    using slot_bound [OF s, of ?k] key(2) len ptr by simp
  then obtain st sd' f' where ins: "spooldb_insert destroy sd key f = Some (st, sd', f')"
    using key(2) by (cases "destroy (cstr (drop (sd_slotptr sd) (sd_keys sd))) f") (simp add: spooldb_insert_def Let_def)
  note o = spooldb_insert_slots [OF inv key ins]
  have slots: "take ?k (drop (i * ?k) (sd_keys sd')) =
      (if i = ?s then key @ [0] @ drop (length key + 1) (take ?k (drop (i * ?k) (sd_keys sd)))
       else take ?k (drop (i * ?k) (sd_keys sd)))" if "i < ?n" for i
  proof (cases "i = ?s")
    case True
    have "drop (sd_slotptr sd) (sd_keys sd') = key @ [0] @ drop (sd_slotptr sd + length key + 1) (sd_keys sd)"
      using fits o(7) by (simp add: overwrite_def)
    moreover obtain d where "?k = Suc (length key + d)" using key(2) less_imp_Suc_add by blast
    ultimately show ?thesis using True ptr by (simp add: drop_take add.commute)
  next
    case False
    with slots_apart [OF False, of ?k] key(2) fits show ?thesis
      unfolding o(7) by (subst take_drop_overwrite_outside) (auto simp: ptr)
  qed
  have sk: "slot_key sd' i = (if i = ?s then key else slot_key sd i)" if "i < ?n" for i
    using slots [OF that] key(1) by (auto simp: slot_key_def o(3))
  have "map (slot_key sd') [0..<?n] = ?keys[?s := key]"
    using sk by (intro nth_equalityI) (auto simp: nth_list_update)
  then have r: "ring sd' = tl (ring sd) @ [key]" "hd (ring sd) = slot_key sd ?s"
    using rotate_replace(1) [of ?s ?keys key] rotate_replace(2) [of ?s ?keys] s unfolding ring_def o(2,4) by simp_all
  have "sd_slot sd' < sd_numslots sd" using o(4) s by (auto simp: word_less_nat_alt)
  moreover have "0 \<in> set (take ?k (drop (i * ?k) (sd_keys sd')))" if "i < ?n" for i
    using slots [OF that] inv that by (auto simp: spooldb_inv_def)
  moreover have "length (sd_keys sd') = length (sd_keys sd)" using fits o(7) by simp
  ultimately have "spooldb_inv sd'"
    using inv o by (simp add: spooldb_inv_def)
  with ins r o(1-3) show ?thesis by (metis fst_conv snd_conv)
qed

lemma spooldb_init_ring:
  assumes "spooldb_init alloc n k = Some (Some sd)"
  shows "spooldb_inv sd" "ring sd = replicate (unat n) []" "sd_keysize sd = nat k" "sd_numslots sd = n"
    "sd_keys sd = replicate (unat n * nat k) 0"
proof -
  have n: "0 < n" "0 < k" and sd: "sd = \<lparr>sd_numslots = n, sd_keysize = nat k, sd_slot = 0, sd_index = 0,
      sd_slotptr = 0, sd_keys = replicate (unat n * nat k) 0\<rparr>"
    using assms by (auto simp: spooldb_init_def split: if_splits)
  have sl: "take (nat k) (drop (i * nat k) (sd_keys sd)) = replicate (nat k) 0" if "i < unat n" for i
    using slot_bound [OF that, of "nat k"] by (simp add: sd take_replicate min_absorb1 le_diff_conv2)
  then show "spooldb_inv sd" using n by (auto simp: spooldb_inv_def sd)
  have "map (slot_key sd) [0..<unat n] = replicate (unat n) []"
    using sl cstr_replicate0 [of "[]" "nat k"] by (intro nth_equalityI) (auto simp: slot_key_def sd)
  then show "ring sd = replicate (unat n) []" by (simp add: ring_def sd)
  show "sd_keysize sd = nat k" "sd_numslots sd = n" "sd_keys sd = replicate (unat n * nat k) 0"
    by (simp_all add: sd)
qed

text \<open>A sequence of insertions: the statuses, the array and the state of the file system.\<close>

fun spooldb_run ::
  "(bytes \<Rightarrow> 'f \<Rightarrow> int \<times> 'f) \<Rightarrow> spooldb_st \<Rightarrow> bytes list \<Rightarrow> 'f \<Rightarrow> (int list \<times> spooldb_st \<times> 'f) option" where
  "spooldb_run destroy sd [] f = Some ([], sd, f)"
| "spooldb_run destroy sd (key # keys) f = do {
     (st, sd, f) \<leftarrow> spooldb_insert destroy sd key f;
     (sts, sd, f) \<leftarrow> spooldb_run destroy sd keys f;
     Some (st # sts, sd, f)
   }"

lemma spooldb_run_ring:
  assumes "spooldb_inv sd" "\<forall>key \<in> set keys. 0 \<notin> set key \<and> length key < sd_keysize sd"
  shows "\<exists>sts sd'. spooldb_run destroy sd keys f =
      Some (sts, sd', fold (\<lambda>k f. snd (destroy k f)) (take (length keys) (ring sd @ keys)) f) \<and>
    ring sd' = drop (length keys) (ring sd @ keys) \<and> spooldb_inv sd'"
  using assms
proof (induction keys arbitrary: sd f)
  case Nil
  then show ?case by simp
next
  case (Cons key keys)
  let ?f = "snd (destroy (hd (ring sd)) f)"
  have "ring sd \<noteq> []"
    using Cons.prems(1) by (auto simp: ring_def spooldb_inv_def word_less_nat_alt)
  then obtain r rs where r: "ring sd = r # rs" by (cases "ring sd") auto
  obtain sd1 where 1: "spooldb_insert destroy sd key f = Some (fst (destroy (hd (ring sd)) f), sd1, ?f)"
    "ring sd1 = tl (ring sd) @ [key]" "spooldb_inv sd1" "sd_keysize sd1 = sd_keysize sd"
    using spooldb_insert_ring [OF Cons.prems(1), of key destroy f] Cons.prems(2) by auto
  obtain sts sd' where 2: "spooldb_run destroy sd1 keys ?f =
      Some (sts, sd', fold (\<lambda>k f. snd (destroy k f)) (take (length keys) (ring sd1 @ keys)) ?f)"
    "ring sd' = drop (length keys) (ring sd1 @ keys)" "spooldb_inv sd'"
    using Cons.IH [OF 1(3), of ?f] Cons.prems(2) 1(4) by auto
  show ?case using 1 2 r by simp
qed

section \<open>Saving and restoring\<close>

lemma spooldb_size:
  assumes "unat n * k < 2 ^ 32"
  shows "unat (n * of_nat k :: u32) = unat n * k"
proof (cases "n = 0")
  case False
  then have "1 \<le> unat n" by (simp add: Suc_le_eq unat_gt_0)
  then have "k \<le> unat n * k" by simp
  with assms have "k < 2 ^ 32" by (rule le_less_trans [rotated])
  with assms show ?thesis by (simp add: unat_word_ariths unat_of_nat)
qed simp

lemma rotate_padded:
  assumes "s \<le> length xs" "\<not> P a"
  shows "filter P (rotate s (xs @ replicate m a)) = filter P (rotate s xs)"
  using assms by (simp add: rotate_drop_take_le)

lemma spooldb_restore:
  assumes inv: "spooldb_inv sd" and size: "unat (sd_numslots sd) * sd_keysize sd < 2 ^ 32"
    and init: "spooldb_init alloc n' (int (sd_keysize sd)) = Some (Some sd0)" and n': "sd_numslots sd \<le> n'"
    and rd: "spooldb_read (False, False) (Some (Some sd, sd_keys sd)) sd0 = (st, sd')"
  shows "st = 0 \<and> spooldb_inv sd' \<and> filter (\<lambda>k. k \<noteq> []) (ring sd') = filter (\<lambda>k. k \<noteq> []) (ring sd)"
proof -
  let ?k = "sd_keysize sd" and ?n = "unat (sd_numslots sd)"
  let ?new = "sd0\<lparr>sd_slot := sd_slot sd, sd_index := sd_index sd, sd_slotptr := unat (sd_index sd),
      sd_keys := overwrite 0 (sd_keys sd) (sd_keys sd0)\<rparr>"
  have len: "length (sd_keys sd) = ?n * ?k" and s: "unat (sd_slot sd) < ?n"
    and ptr: "sd_slotptr sd = unat (sd_slot sd) * ?k" "sd_index sd = of_nat (sd_slotptr sd)" and k: "0 < ?k"
    using inv by (simp_all add: spooldb_inv_def word_less_nat_alt)
  have sd0: "sd_keysize sd0 = ?k" "sd_numslots sd0 = n'" "spooldb_inv sd0"
    "sd_keys sd0 = replicate (unat n' * ?k) 0"
    using spooldb_init_ring [OF init] by simp_all
  have nn: "?n \<le> unat n'" using n' by (simp add: word_le_nat_alt)
  then have nk: "?n * ?k \<le> unat n' * ?k" by simp
  have "\<not> sd_numslots sd0 < sd_numslots sd" using n' sd0(2) by simp
  then have new: "st = 0" "sd' = ?new"
    using rd sd0(1) len by (simp_all add: spooldb_read_def Let_def spooldb_size [OF size])
  have keys: "sd_keys sd' = sd_keys sd @ replicate (unat n' * ?k - ?n * ?k) 0"
    using new(2) sd0(4) len nk by (simp add: overwrite_def)
  have slot: "take ?k (drop (i * ?k) (sd_keys sd')) =
      (if i < ?n then take ?k (drop (i * ?k) (sd_keys sd)) else replicate ?k 0)" if "i < unat n'" for i
  proof (cases "i < ?n")
    case True
    with slot_bound [OF True, of ?k] len show ?thesis by (simp add: keys)
  next
    case False
    then have "?n * ?k \<le> i * ?k" by simp
    with slot_bound [OF that, of ?k] False len show ?thesis
      by (simp add: keys take_replicate min_absorb1)
  qed
  have sk: "map (slot_key sd') [0..<unat n'] = map (slot_key sd) [0..<?n] @ replicate (unat n' - ?n) []"
    using slot nn cstr_replicate0 [of "[]" ?k] new(2) sd0(1)
    by (intro nth_equalityI) (auto simp: slot_key_def nth_append)
  have "filter (\<lambda>k. k \<noteq> []) (ring sd') = filter (\<lambda>k. k \<noteq> []) (ring sd)"
  proof -
    have "sd_slot sd' = sd_slot sd" "sd_numslots sd' = n'" using new(2) sd0(2) by simp_all
    then show ?thesis using s unfolding ring_def by (simp add: sk rotate_padded)
  qed
  moreover have "unat (sd_index sd) = sd_slotptr sd"
  proof -
    have "sd_slotptr sd \<le> ?n * ?k" using s unfolding ptr(1) by simp
    with size show ?thesis unfolding ptr(2) by (simp add: unat_of_nat)
  qed
  moreover have "0 \<in> set (take ?k (drop (i * ?k) (sd_keys sd')))" if "i < unat n'" for i
    using slot [OF that] inv k by (simp add: spooldb_inv_def)
  ultimately show ?thesis
    using new sd0 ptr k s nn nk keys len by (auto simp: spooldb_inv_def word_less_nat_alt)
qed

section \<open>Properties\<close>

text \<open>
  C17. The spool bookkeeping keeps exactly the newest paths: after any number of insertions into a new
  array of n slots the array holds the last n paths, from the oldest to the newest, and the files
  deleted are, in the order of their insertion, all the older ones (and the empty slots at first).
\<close>

theorem spooldb_keeps_newest:
  assumes "spooldb_init alloc n k = Some (Some sd)" "\<forall>key \<in> set keys. 0 \<notin> set key \<and> int (length key) < k"
  shows "\<exists>sts sd'. spooldb_run destroy sd keys f =
      Some (sts, sd', fold (\<lambda>k f. snd (destroy k f)) (take (length keys) (replicate (unat n) [] @ keys)) f) \<and>
    ring sd' = drop (length keys) (replicate (unat n) [] @ keys)"
proof -
  note i = spooldb_init_ring [OF assms(1)]
  have "\<forall>key \<in> set keys. 0 \<notin> set key \<and> length key < sd_keysize sd" using assms(2) i(3) by auto
  from spooldb_run_ring [OF i(1) this, of destroy f] i(2) show ?thesis by auto
qed

theorem spooldb_keeps_newest_witness:
  "\<exists>sd sts sd'. spooldb_init (\<lambda>_. True) 2 4 = Some (Some sd) \<and>
     spooldb_run (\<lambda>k f. (0, f @ [k])) sd [[1], [2], [3]] [] = Some (sts, sd', [[], [], [1]]) \<and> ring sd' = [[2], [3]]"
proof -
  obtain sd where i: "spooldb_init (\<lambda>_. True) 2 4 = Some (Some sd)"
    by (simp add: spooldb_init_def can_alloc_def)
  have l: "replicate (unat (2 :: u32)) [] @ [[1], [2], [3 :: byte]] = [[], [], [1], [2], [3]]" by code_simp
  from spooldb_keeps_newest [OF i, of "[[1], [2], [3]]" "\<lambda>k f. (0, f @ [k])" "[]"] i show ?thesis
    unfolding l by (simp del: spooldb_run.simps)
qed

text \<open>
  C18. The array survives a restart: written to its file and read back, without errors of the calls, into a new array with the same
  key size and at least as many slots, it holds the same paths in the same order.
\<close>

theorem spooldb_roundtrip:
  assumes "spooldb_inv sd" "unat (sd_numslots sd) * sd_keysize sd < 2 ^ 32"
    "spooldb_write True (int SIZEOF_SPOOLDB) int sd = (0, file)"
    "spooldb_init alloc n' (int (sd_keysize sd)) = Some (Some sd0)" "sd_numslots sd \<le> n'"
    "spooldb_read (False, False) file sd0 = (st, sd')"
  shows "st = 0 \<and> spooldb_inv sd' \<and> filter (\<lambda>k. k \<noteq> []) (ring sd') = filter (\<lambda>k. k \<noteq> []) (ring sd)"
proof -
  have "length (sd_keys sd) = unat (sd_numslots sd) * sd_keysize sd" using assms(1) by (simp add: spooldb_inv_def)
  then have "file = Some (Some sd, sd_keys sd)"
    using assms(3) by (auto simp: spooldb_write_def spooldb_size [OF assms(2)] Let_def)
  with spooldb_restore [OF assms(1,2,4,5)] assms(6) show ?thesis by simp
qed

definition example_spooldb :: spooldb_st where
  "example_spooldb = \<lparr>sd_numslots = 2, sd_keysize = 3, sd_slot = 1, sd_index = 3, sd_slotptr = 3,
     sd_keys = [65, 66, 0, 67, 0, 0]\<rparr>"

theorem spooldb_roundtrip_witness:
  "\<exists>file sd0 sd'. spooldb_write True (int SIZEOF_SPOOLDB) int example_spooldb = (0, file) \<and>
     spooldb_init (\<lambda>_. True) 3 3 = Some (Some sd0) \<and> spooldb_read (False, False) file sd0 = (0, sd') \<and>
     filter (\<lambda>k. k \<noteq> []) (ring sd') = [[67], [65, 66]]"
proof -
  have inv: "spooldb_inv example_spooldb"
  proof -
    have "0 \<in> set (take 3 (drop (i * 3) [65, 66, 0, 67, 0, 0 :: byte]))" if "i < 2" for i :: nat
      using that by (cases i) (auto simp: less_Suc_eq)
    then show ?thesis by (simp add: spooldb_inv_def example_spooldb_def)
  qed
  obtain fl where w: "spooldb_write True (int SIZEOF_SPOOLDB) int example_spooldb = (0, fl)"
    by (simp add: spooldb_write_def Let_def)
  obtain sd0 where i: "spooldb_init (\<lambda>_. True) 3 (int (sd_keysize example_spooldb)) = Some (Some sd0)"
    by (simp add: spooldb_init_def can_alloc_def example_spooldb_def)
  obtain st sd' where r: "spooldb_read (False, False) fl sd0 = (st, sd')" by fastforce
  have "filter (\<lambda>k. k \<noteq> []) (ring example_spooldb) = [[67], [65, 66]]" by code_simp
  with spooldb_roundtrip [OF inv _ w i _ r] w i r show ?thesis by (simp add: example_spooldb_def)
qed

end
