(* ===== verification/Rtxdb.thy ===== *)
theory Rtxdb
  imports Bytes_Util Pctldb
begin

text \<open>
  The database of the products received, used to decide what to do with retransmissions:
  \<^verbatim>\<open>src/rtxdb.c\<close> and its logging wrappers \<^verbatim>\<open>src/ertxdb.c\<close>. It is a pair of Berkeley DB btrees from
  sequence numbers to a status (0 received, 1 failed), the current and the previous one; a
  truncation empties the previous one and exchanges them. The database calls are \<open>rtx_calls\<close>.
\<close>

section \<open>Data\<close>

record 'd rtx_calls =
  rx_put :: "u32 \<Rightarrow> int \<Rightarrow> 'd \<Rightarrow> int \<times> 'd"
  rx_get :: "u32 \<Rightarrow> 'd \<Rightarrow> int + int"
  rx_truncate :: "'d \<Rightarrow> int \<times> 'd"

record 'd nbsp_rtxdb_st =
  dbp_c :: 'd
  dbp_o :: 'd

text \<open>The keys of the btrees are compared as unsigned numbers.\<close>

definition rtxdb_compare :: "u32 \<Rightarrow> u32 \<Rightarrow> int" where
  "rtxdb_compare a b = (if a < b then -1 else if a > b then 1 else 0)"

section \<open>Operations\<close>

record 'd rtx_open_calls =
  ox_create :: int
  ox_compare :: int
  ox_open :: int
  ox_db :: 'd

definition rtxdb_fullname :: "bytes option \<Rightarrow> byte \<Rightarrow> bytes option" where
  "rtxdb_fullname dbfname digit =
     (if valid_str dbfname = 1 then map_option (\<lambda>name. cstr name @ [digit]) dbfname else None)"

text \<open>\<open>mallocs\<close>: 0 or the \<^verbatim>\<open>errno\<close> of the allocations of the file name and of the structure.\<close>

definition nbsp_rtxdb_open ::
  "(bytes option \<Rightarrow> 'd rtx_open_calls) \<Rightarrow> int \<times> int \<Rightarrow> bytes option \<Rightarrow> int \<times> 'd nbsp_rtxdb_st option" where
  "nbsp_rtxdb_open calls mallocs dbfname =
     (let (m_name, m_st) = mallocs;
          c1 = calls (rtxdb_fullname dbfname 49);
          c2 = calls (rtxdb_fullname dbfname 50)
      in
      if valid_str dbfname = 1 \<and> m_name \<noteq> 0 then (m_name, None)
      else
        let status = first_error
              [ox_create c1, ox_compare c1, ox_open c1, ox_create c2, ox_compare c2, ox_open c2, m_st]
        in (status, if status = 0 then Some \<lparr>dbp_c = ox_db c1, dbp_o = ox_db c2\<rparr> else None))"

definition rtxdb_write_record :: "'d rtx_calls \<Rightarrow> 'd \<Rightarrow> u32 \<Rightarrow> int \<Rightarrow> int \<times> 'd" where
  "rtxdb_write_record bdb d seqnum fstatus = rx_put bdb seqnum fstatus d"

definition rtxdb_read_record :: "'d rtx_calls \<Rightarrow> 'd \<Rightarrow> u32 \<Rightarrow> int + int" where
  "rtxdb_read_record bdb d seqnum = rx_get bdb seqnum d"

definition nbsp_rtxdb_put :: "'d rtx_calls \<Rightarrow> 'd nbsp_rtxdb_st \<Rightarrow> u32 \<Rightarrow> int \<Rightarrow> int \<times> 'd nbsp_rtxdb_st" where
  "nbsp_rtxdb_put bdb db seqnum fstatus =
     (let (status, d) = rtxdb_write_record bdb (dbp_c db) seqnum fstatus in (status, db\<lparr>dbp_c := d\<rparr>))"

text \<open>An error code, or the status found.\<close>

definition nbsp_rtxdb_get :: "'d rtx_calls \<Rightarrow> 'd nbsp_rtxdb_st \<Rightarrow> u32 \<Rightarrow> int + int" where
  "nbsp_rtxdb_get bdb db seqnum =
     (case rtxdb_read_record bdb (dbp_c db) seqnum of
        Inl _ \<Rightarrow> rtxdb_read_record bdb (dbp_o db) seqnum
      | Inr fstatus \<Rightarrow> Inr fstatus)"

definition nbsp_rtxdb_truncate :: "'d rtx_calls \<Rightarrow> 'd nbsp_rtxdb_st \<Rightarrow> int \<times> 'd nbsp_rtxdb_st" where
  "nbsp_rtxdb_truncate bdb db =
     (let (status, d) = rx_truncate bdb (dbp_o db) in (status, \<lparr>dbp_c = d, dbp_o = dbp_c db\<rparr>))"

definition nbsp_rtxdb_log_err :: "int \<Rightarrow> int" where
  "nbsp_rtxdb_log_err status = (if status > 0 then -1 else if status < 0 then 1 else status)"

text \<open>The wrappers, on the global \<^verbatim>\<open>g.rtxdb\<close>, \<^const>\<open>None\<close> when the mechanism is disabled.\<close>

definition e_nbsp_rtxdb_open ::
  "(bytes option \<Rightarrow> 'd rtx_open_calls) \<Rightarrow> int \<times> int \<Rightarrow> int \<Rightarrow> bytes option \<Rightarrow> int \<times> 'd nbsp_rtxdb_st option" where
  "e_nbsp_rtxdb_open calls mallocs rtxdb_slots dbfname =
     (if rtxdb_slots = 0 then (0, None)
      else let (status, db) = nbsp_rtxdb_open calls mallocs dbfname in (nbsp_rtxdb_log_err status, db))"

definition e_nbsp_rtxdb_put :: "'d rtx_calls \<Rightarrow> 'd nbsp_rtxdb_st option \<Rightarrow> u32 \<Rightarrow> int \<Rightarrow> int \<times> 'd nbsp_rtxdb_st option" where
  "e_nbsp_rtxdb_put bdb rtxdb seqnum fstatus =
     (case rtxdb of
        None \<Rightarrow> (0, None)
      | Some db \<Rightarrow>
          let (status, db) = nbsp_rtxdb_put bdb db seqnum fstatus
          in (nbsp_rtxdb_log_err status, Some db))"

definition e_nbsp_rtxdb_put_ok :: "'d rtx_calls \<Rightarrow> 'd nbsp_rtxdb_st option \<Rightarrow> u32 \<Rightarrow> int \<times> 'd nbsp_rtxdb_st option" where
  "e_nbsp_rtxdb_put_ok bdb rtxdb seqnum = e_nbsp_rtxdb_put bdb rtxdb seqnum 0"

definition e_nbsp_rtxdb_put_fail :: "'d rtx_calls \<Rightarrow> 'd nbsp_rtxdb_st option \<Rightarrow> u32 \<Rightarrow> int \<times> 'd nbsp_rtxdb_st option" where
  "e_nbsp_rtxdb_put_fail bdb rtxdb seqnum = e_nbsp_rtxdb_put bdb rtxdb seqnum 1"

definition e_nbsp_rtxdb_get_fstatus :: "'d rtx_calls \<Rightarrow> 'd nbsp_rtxdb_st option \<Rightarrow> u32 \<Rightarrow> int" where
  "e_nbsp_rtxdb_get_fstatus bdb rtxdb seqnum =
     (case rtxdb of
        None \<Rightarrow> -2
      | Some db \<Rightarrow> (case nbsp_rtxdb_get bdb db seqnum of Inl _ \<Rightarrow> -1 | Inr fstatus \<Rightarrow> fstatus))"

definition e_nbsp_rtxdb_truncate :: "'d rtx_calls \<Rightarrow> 'd nbsp_rtxdb_st option \<Rightarrow> int \<times> 'd nbsp_rtxdb_st option" where
  "e_nbsp_rtxdb_truncate bdb rtxdb =
     (case rtxdb of
        None \<Rightarrow> (0, None)
      | Some db \<Rightarrow> let (status, db) = nbsp_rtxdb_truncate bdb db in (nbsp_rtxdb_log_err status, Some db))"

section \<open>Two generations of records\<close>

definition rtx_laws :: "'d rtx_calls \<Rightarrow> ('d \<Rightarrow> u32 \<Rightarrow> int option) \<Rightarrow> bool" where
  "rtx_laws bdb M \<longleftrightarrow>
     (\<forall>k v d st d'. rx_put bdb k v d = (st, d') \<longrightarrow> M d' = (if st = 0 then (M d)(k \<mapsto> v) else M d)) \<and>
     (\<forall>k d. rx_get bdb k d = (case M d k of None \<Rightarrow> Inl DB_NOTFOUND | Some v \<Rightarrow> Inr v)) \<and>
     (\<forall>d st d'. rx_truncate bdb d = (st, d') \<longrightarrow> M d' = (if st = 0 then Map.empty else M d))"

text \<open>What the pair of btrees stands for: the current one over the previous one.\<close>

definition rtx_map :: "('d \<Rightarrow> u32 \<Rightarrow> int option) \<Rightarrow> 'd nbsp_rtxdb_st \<Rightarrow> u32 \<Rightarrow> int option" where
  "rtx_map M db = M (dbp_o db) ++ M (dbp_c db)"

lemma nbsp_rtxdb_get_map:
  assumes "rtx_laws bdb M"
  shows "nbsp_rtxdb_get bdb db k = (case rtx_map M db k of None \<Rightarrow> Inl DB_NOTFOUND | Some v \<Rightarrow> Inr v)"
  using assms
  by (auto simp: nbsp_rtxdb_get_def rtxdb_read_record_def rtx_laws_def rtx_map_def map_add_def split: option.splits)

lemma nbsp_rtxdb_put_map:
  assumes "rtx_laws bdb M" "nbsp_rtxdb_put bdb db k v = (st, db')"
  shows "rtx_map M db' = (if st = 0 then (rtx_map M db)(k \<mapsto> v) else rtx_map M db)"
  using assms
  by (auto simp: nbsp_rtxdb_put_def rtxdb_write_record_def rtx_laws_def rtx_map_def split: prod.splits)

lemma nbsp_rtxdb_put_current:
  assumes "rtx_laws bdb M" "nbsp_rtxdb_put bdb db k v = (st, db')"
  shows "M (dbp_c db') = (if st = 0 then (M (dbp_c db))(k \<mapsto> v) else M (dbp_c db))"
  using assms
  by (auto simp: nbsp_rtxdb_put_def rtxdb_write_record_def rtx_laws_def split: prod.splits)

lemma nbsp_rtxdb_truncate_map:
  assumes "rtx_laws bdb M" "nbsp_rtxdb_truncate bdb db = (0, db')"
  shows "rtx_map M db' = M (dbp_c db)" "M (dbp_c db') = Map.empty"
  using assms
  by (auto simp: nbsp_rtxdb_truncate_def rtx_laws_def rtx_map_def split: prod.splits)

text \<open>
  Any sequence of insertions and truncations that succeed, and what is known of a product after it: the
  operations are scanned from the last one back, over at most \<open>g\<close> truncations.
\<close>

datatype rtx_op = Put u32 int | Truncate

fun rtx_run :: "'d rtx_calls \<Rightarrow> rtx_op list \<Rightarrow> 'd nbsp_rtxdb_st \<Rightarrow> 'd nbsp_rtxdb_st option" where
  "rtx_run bdb [] db = Some db"
| "rtx_run bdb (op # ops) db =
     (let (status, db) = (case op of Put k v \<Rightarrow> nbsp_rtxdb_put bdb db k v | Truncate \<Rightarrow> nbsp_rtxdb_truncate bdb db)
      in if status = 0 then rtx_run bdb ops db else None)"

fun recorded :: "nat \<Rightarrow> rtx_op list \<Rightarrow> u32 \<Rightarrow> int option" where
  "recorded g [] = Map.empty"
| "recorded g (Put k v # ops) = (recorded g ops)(k \<mapsto> v)"
| "recorded 0 (Truncate # ops) = Map.empty"
| "recorded (Suc g) (Truncate # ops) = recorded g ops"

lemma rtx_run_snoc:
  "rtx_run bdb (ops @ [op]) db = Some db' \<longleftrightarrow>
   (\<exists>db1. rtx_run bdb ops db = Some db1 \<and> rtx_run bdb [op] db1 = Some db')"
  by (induction ops arbitrary: db) (auto simp: Let_def split: prod.splits)

lemma rtx_run_recorded:
  assumes "rtx_laws bdb M" "rtx_run bdb ops db = Some db'" "M (dbp_c db) = Map.empty" "M (dbp_o db) = Map.empty"
  shows "M (dbp_c db') = recorded 0 (rev ops) \<and> rtx_map M db' = recorded 1 (rev ops)"
  using assms(2)
proof (induction ops arbitrary: db' rule: rev_induct)
  case Nil
  with assms(3,4) show ?case by (simp add: rtx_map_def)
next
  case (snoc op ops)
  then obtain db1 where r: "rtx_run bdb ops db = Some db1" "rtx_run bdb [op] db1 = Some db'"
    unfolding rtx_run_snoc by blast
  note IH = snoc.IH [OF r(1)]
  show ?case
  proof (cases op)
    case (Put k v)
    with r(2) have "nbsp_rtxdb_put bdb db1 k v = (0, db')" by (auto split: prod.splits if_splits)
    from nbsp_rtxdb_put_map [OF assms(1) this] nbsp_rtxdb_put_current [OF assms(1) this] IH Put show ?thesis by simp
  next
    case Truncate
    with r(2) have "nbsp_rtxdb_truncate bdb db1 = (0, db')" by (auto split: prod.splits if_splits)
    from nbsp_rtxdb_truncate_map [OF assms(1) this] IH Truncate show ?thesis by simp
  qed
qed

section \<open>Properties\<close>

text \<open>
  C32. The records live for two generations. After any sequence of insertions and truncations that succeed, in
  a database that was empty, the lookup of a product gives the status it was last put with, if no more than one
  truncation was made since, and is not found otherwise, whatever other products were put.
\<close>

theorem rtxdb_generations:
  assumes "rtx_laws bdb M" "M (dbp_c db) = Map.empty" "M (dbp_o db) = Map.empty" "rtx_run bdb ops db = Some db'"
  shows "nbsp_rtxdb_get bdb db' k = (case recorded 1 (rev ops) k of None \<Rightarrow> Inl DB_NOTFOUND | Some v \<Rightarrow> Inr v)"
  using rtx_run_recorded [OF assms(1,4,2,3)] by (simp add: nbsp_rtxdb_get_map [OF assms(1)])

text \<open>A database kept as a map.\<close>

definition map_rtx :: "(u32 \<Rightarrow> int option) rtx_calls" where
  "map_rtx = \<lparr>rx_put = (\<lambda>k v d. (0, d(k \<mapsto> v))),
     rx_get = (\<lambda>k d. case d k of None \<Rightarrow> Inl DB_NOTFOUND | Some v \<Rightarrow> Inr v), rx_truncate = (\<lambda>_. (0, Map.empty))\<rparr>"

lemma map_rtx_laws: "rtx_laws map_rtx id"
  by (simp add: rtx_laws_def map_rtx_def)

definition empty_rtxdb :: "(u32 \<Rightarrow> int option) nbsp_rtxdb_st" where
  "empty_rtxdb = \<lparr>dbp_c = Map.empty, dbp_o = Map.empty\<rparr>"

theorem rtxdb_generations_witness:
  "\<exists>db. rtx_run map_rtx [Put 7 1, Truncate, Put 8 0, Put 9 1, Truncate, Put 9 0] empty_rtxdb = Some db \<and>
     nbsp_rtxdb_get map_rtx db 7 = Inl DB_NOTFOUND \<and> nbsp_rtxdb_get map_rtx db 8 = Inr 0 \<and>
     nbsp_rtxdb_get map_rtx db 9 = Inr 0"
proof -
  let ?ops = "[Put 7 1, Truncate, Put 8 0, Put 9 1, Truncate, Put 9 0]"
  have "rtx_run map_rtx ?ops empty_rtxdb \<noteq> None"
    by (simp add: nbsp_rtxdb_put_def nbsp_rtxdb_truncate_def rtxdb_write_record_def map_rtx_def)
  then obtain db where r: "rtx_run map_rtx ?ops empty_rtxdb = Some db" by auto
  have "id (dbp_c empty_rtxdb) = Map.empty" "id (dbp_o empty_rtxdb) = Map.empty" by (simp_all add: empty_rtxdb_def)
  from rtxdb_generations [OF map_rtx_laws this r] r show ?thesis by simp
qed

end
