(* ===== verification/Spoolbdb.thy ===== *)
theory Spoolbdb
  imports Pctldb "HOL-Library.Monad_Syntax"
begin

text \<open>
  The memory spool of \<^verbatim>\<open>src/libspoolbdb\<close>: one database of files (\<^verbatim>\<open>spoolbdb.c\<close>), its read buffers, and the
  circular array of databases (\<^verbatim>\<open>spoolbdbv.c\<close>), each with a budget of bytes; when the current one has
  used its budget the next one is truncated and becomes the current one. \<open>generations\<close> is what the
  array stands for: the maps of the databases from the current one to the oldest.

  Berkeley DB is the record \<open>sp_calls\<close>, with \<open>sp_laws\<close> what is relied on. The array is the list of
  the databases between the two null sentinels, and \<^verbatim>\<open>wrdb\<close> an index in it.
\<close>

section \<open>One database\<close>

record 'd sp_calls =
  sp_put :: "bytes \<Rightarrow> bytes \<Rightarrow> 'd \<Rightarrow> int \<times> 'd"
  sp_get :: "bytes \<Rightarrow> nat \<Rightarrow> 'd \<Rightarrow> bdb_get"
  sp_truncate :: "'d \<Rightarrow> int \<times> 'd"

record spoolbuf_st =
  sb_buffer :: "bytes option"
  sb_buffer_size :: u32
  sb_max_buffer_size :: u32
  sb_readp :: nat \<comment> \<open>as an offset in the buffer\<close>
  sb_nread :: u32

abbreviation SIZEOF_SPOOLBUF :: nat where "SIZEOF_SPOOLBUF \<equiv> 32"

definition spoolbuf_create :: "allocator \<Rightarrow> spoolbuf_st option" where
  "spoolbuf_create alloc =
     (if \<not> can_alloc alloc SIZEOF_SPOOLBUF then None
      else Some \<lparr>sb_buffer = None, sb_buffer_size = 0, sb_max_buffer_size = 0, sb_readp = 0, sb_nread = 0\<rparr>)"

definition spoolbuf_data :: "spoolbuf_st \<Rightarrow> bytes option" where
  "spoolbuf_data sb = sb_buffer sb"

definition spoolbuf_datasize :: "spoolbuf_st \<Rightarrow> nat" where
  "spoolbuf_datasize sb = unat (sb_buffer_size sb)"

definition spoolbuf_maxsize :: "spoolbuf_st \<Rightarrow> nat" where
  "spoolbuf_maxsize sb = unat (sb_max_buffer_size sb)"

text \<open>The bytes copied to the caller; \<^const>\<open>None\<close> is a copy from outside the buffer.\<close>

definition spoolbuf_read :: "spoolbuf_st \<Rightarrow> nat \<Rightarrow> (bytes \<times> spoolbuf_st) option" where
  "spoolbuf_read sb n =
     (if sb_nread sb = sb_buffer_size sb then Some ([], sb)
      else
        let n = (if size_add (unat (sb_nread sb)) (int n) > unat (sb_buffer_size sb)
                 then unat (sb_buffer_size sb - sb_nread sb) else n)
        in case sb_buffer sb of
             None \<Rightarrow> None
           | Some buf \<Rightarrow>
               if length buf < sb_readp sb + n then None
               else Some (take n (drop (sb_readp sb) buf),
                      sb\<lparr>sb_nread := sb_nread sb + of_nat n, sb_readp := sb_readp sb + n\<rparr>))"

definition spoolbuf_read_init :: "spoolbuf_st \<Rightarrow> spoolbuf_st" where
  "spoolbuf_read_init sb = sb\<lparr>sb_readp := 0, sb_nread := 0\<rparr>"

text \<open>
  The calls that open a database, by what they return: creation of the handle, the memory pool flag,
  and the opening with the file, the name of the database, whether it is read only, and the mode.
\<close>

record 'd sp_open_calls =
  osp_create :: int
  osp_set_flags :: int
  osp_open :: "bytes option \<Rightarrow> bytes option \<Rightarrow> bool \<Rightarrow> int \<Rightarrow> int"
  osp_db :: 'd

definition spoolbdb_open_create ::
  "'d sp_open_calls \<Rightarrow> bool \<Rightarrow> bytes option \<Rightarrow> int \<Rightarrow> int \<Rightarrow> int \<times> 'd option" where
  "spoolbdb_open_create c has_dbenv dbfname dbmode f_mpool_nofile =
     (if \<not> has_dbenv then (EINVAL, None)
      else if dbfname = None \<and> f_mpool_nofile = 0 then (EINVAL, None)
      else
        let status = first_error [osp_create c,
              if dbfname = None \<or> f_mpool_nofile = 1 then osp_set_flags c else 0,
              if dbfname = None then osp_open c None None False dbmode
              else if f_mpool_nofile \<noteq> 0 then osp_open c None dbfname False dbmode
              else osp_open c dbfname None False dbmode]
        in (status, if status = 0 then Some (osp_db c) else None))"

definition spoolbdb_open_rdonly :: "'d sp_open_calls \<Rightarrow> bool \<Rightarrow> bytes option \<Rightarrow> int \<Rightarrow> int \<times> 'd option" where
  "spoolbdb_open_rdonly c has_dbenv dbfname f_mpool_nofile =
     (if \<not> has_dbenv \<or> dbfname = None then (EINVAL, None)
      else
        let status = first_error [osp_create c,
              if f_mpool_nofile \<noteq> 0 then osp_open c None dbfname True 0 else osp_open c dbfname None True 0]
        in (status, if status = 0 then Some (osp_db c) else None))"

definition spoolbdb_open ::
  "'d sp_open_calls \<Rightarrow> bool \<Rightarrow> bytes option \<Rightarrow> int \<Rightarrow> int \<Rightarrow> int \<Rightarrow> int \<times> 'd option" where
  "spoolbdb_open c has_dbenv dbfname dbmode f_mpool_nofile f_rdonly =
     (if f_rdonly = 1 then spoolbdb_open_rdonly c has_dbenv dbfname f_mpool_nofile
      else spoolbdb_open_create c has_dbenv dbfname dbmode f_mpool_nofile)"

text \<open>The buffer written has at least as many bytes as its stated size.\<close>

definition spoolbdb_write2 :: "'d sp_calls \<Rightarrow> 'd \<Rightarrow> bytes \<Rightarrow> bytes \<Rightarrow> u32 \<Rightarrow> int \<times> 'd" where
  "spoolbdb_write2 bdb d fkey buf bufsize = sp_put bdb (cstr fkey) (take (unat bufsize) buf) d"

definition spoolbdb_write :: "'d sp_calls \<Rightarrow> 'd \<Rightarrow> bytes \<Rightarrow> spoolbuf_st \<Rightarrow> int \<times> 'd" where
  "spoolbdb_write bdb d fkey sb =
     spoolbdb_write2 bdb d fkey (case sb_buffer sb of None \<Rightarrow> [] | Some buf \<Rightarrow> buf) (sb_buffer_size sb)"

text \<open>The new buffer after a small one; its contents are those of the record read into it.\<close>

definition spoolbdb_read :: "allocator \<Rightarrow> 'd sp_calls \<Rightarrow> 'd \<Rightarrow> bytes \<Rightarrow> spoolbuf_st \<Rightarrow> int \<times> spoolbuf_st" where
  "spoolbdb_read alloc bdb d fkey sb =
     (let key = cstr fkey;
          loaded = (\<lambda>v sb. (0 :: int, sb\<lparr>sb_buffer := (case sb_buffer sb of
               None \<Rightarrow> if v = [] then None else Some v | Some buf \<Rightarrow> Some (overwrite 0 v buf)),
             sb_buffer_size := of_nat (length v), sb_readp := 0, sb_nread := 0\<rparr>))
      in
      case sp_get bdb key (unat (sb_max_buffer_size sb)) d of
        Got v \<Rightarrow> loaded v sb
      | Get_error e \<Rightarrow> (e, sb)
      | Buffer_small n \<Rightarrow>
          if \<not> can_alloc alloc n then (ENOMEM, sb)
          else
            let sb = sb\<lparr>sb_buffer := Some (replicate n 0), sb_max_buffer_size := of_nat n\<rparr> in
            case sp_get bdb key (unat (sb_max_buffer_size sb)) d of
              Got v \<Rightarrow> loaded v sb
            | Get_error e \<Rightarrow> (e, sb)
            | Buffer_small _ \<Rightarrow> (DB_BUFFER_SMALL, sb))"

section \<open>The circular array\<close>

record 'd spoolbdbv_st =
  sv_dbs :: "'d list" \<comment> \<open>\<^verbatim>\<open>dbv[1] ... dbv[Ndb]\<close>\<close>
  sv_wrdb :: nat
  sv_n :: u32
  sv_maxsize :: u32
  sv_size :: u32

text \<open>The next and the previous element, around the sentinels.\<close>

definition next_db :: "'d spoolbdbv_st \<Rightarrow> nat \<Rightarrow> nat" where
  "next_db sv j = (if j + 1 = length (sv_dbs sv) then 0 else j + 1)"

definition prev_db :: "'d spoolbdbv_st \<Rightarrow> nat \<Rightarrow> nat" where
  "prev_db sv j = (if j = 0 then length (sv_dbs sv) - 1 else j - 1)"

text \<open>The three sets of flags an environment is opened with.\<close>

datatype dbenv_flags = DBENV_FLAGS_PRIVATE | DBENV_FLAGS_SHARED | DBENV_FLAGS_RDONLY

record env_calls =
  env_create :: int
  env_set_cachesize :: "u32 \<Rightarrow> int"
  env_open :: "bytes option \<Rightarrow> dbenv_flags \<Rightarrow> int \<Rightarrow> int"

definition spoolbdbv_env_open :: "env_calls \<Rightarrow> bytes option \<Rightarrow> int \<Rightarrow> u32 \<Rightarrow> int \<Rightarrow> int" where
  "spoolbdbv_env_open c dbhome dbenv_mode dbcache_mb f_rdonly =
     (let cache_size = dbcache_mb * 1024 * 1024 in
      if dbhome = None \<and> dbenv_mode \<noteq> 0 then EINVAL
      else first_error [env_create c, env_set_cachesize c cache_size,
        env_open c dbhome
          (if dbhome = None then DBENV_FLAGS_PRIVATE
           else if f_rdonly = 1 then DBENV_FLAGS_RDONLY else DBENV_FLAGS_SHARED) dbenv_mode])"

fun open_dbs ::
  "(nat \<Rightarrow> 'd sp_open_calls) \<Rightarrow> bytes option \<Rightarrow> int \<Rightarrow> int \<Rightarrow> int \<Rightarrow> nat list \<Rightarrow> int \<times> 'd list" where
  "open_dbs calls dbfname dbmode nofile rdonly [] = (0, [])"
| "open_dbs calls dbfname dbmode nofile rdonly (i # is) =
     (let name = map_option (\<lambda>f. f @ ascii ''.'' @ dec i) dbfname in
      case spoolbdb_open (calls i) True name dbmode nofile rdonly of
        (status, None) \<Rightarrow> (status, [])
      | (status, Some d) \<Rightarrow> let (status, ds) = open_dbs calls dbfname dbmode nofile rdonly is in (status, d # ds))"

text \<open>\<open>mallocs\<close>: 0 or the \<^verbatim>\<open>errno\<close> of the allocations of the array and of the file name.\<close>

definition spoolbdbv_db_open ::
  "(nat \<Rightarrow> 'd sp_open_calls) \<Rightarrow> int \<times> int \<Rightarrow> u32 \<Rightarrow> u32 \<Rightarrow> bytes option \<Rightarrow> int \<Rightarrow> int \<Rightarrow> int \<Rightarrow>
   int \<times> 'd spoolbdbv_st option" where
  "spoolbdbv_db_open calls mallocs Ndb maxsize dbfname dbmode nofile rdonly =
     (let (m_array, m_name) = mallocs in
      if m_array \<noteq> 0 then (m_array, None)
      else if dbfname \<noteq> None \<and> m_name \<noteq> 0 then (m_name, None)
      else
        let (status, ds) = open_dbs calls dbfname dbmode nofile rdonly [1..<unat Ndb + 1] in
        if status \<noteq> 0 then (status, None)
        else (0, Some \<lparr>sv_dbs = ds, sv_wrdb = 0, sv_n = 0, sv_maxsize = maxsize, sv_size = 0\<rparr>))"

text \<open>
  \<^const>\<open>None\<close> is a failed assertion; \<open>m_init\<close> are the results of the allocation and of the mutex. The
  sizes are computed in 32 bits, so a budget of 4096 megabytes or more wraps.
\<close>

definition spoolbdbv_open ::
  "(nat \<Rightarrow> 'd sp_open_calls) \<Rightarrow> env_calls \<Rightarrow> int \<times> int \<Rightarrow> int \<times> int \<Rightarrow> bytes option \<Rightarrow> int \<Rightarrow>
   u32 \<Rightarrow> u32 \<Rightarrow> u32 \<Rightarrow> bytes option \<Rightarrow> int \<Rightarrow> int \<Rightarrow> int \<Rightarrow> (int \<times> 'd spoolbdbv_st option) option" where
  "spoolbdbv_open calls env m_init m_db dbhome dbenv_mode dbcache_mb maxsize_per128 Ndb dbfname dbmode nofile rdonly =
     (let cache_size = dbcache_mb * 1024 * 1024; maxsize = cache_size div 128 * maxsize_per128 in
      if \<not> (dbcache_mb \<ge> 1 \<and> Ndb \<ge> 1 \<and> maxsize_per128 \<le> 128) then None
      else if dbhome = None \<and> (dbfname \<noteq> None \<or> nofile = 0) then Some (EINVAL, None)
      else
        let status = first_error [fst m_init, snd m_init,
              spoolbdbv_env_open env dbhome dbenv_mode (dbcache_mb * Ndb) rdonly] in
        if status \<noteq> 0 then Some (status, None)
        else Some (spoolbdbv_db_open calls m_db Ndb maxsize dbfname dbmode nofile rdonly))"

text \<open>
  The emergency truncation, from the last database to the first; each one truncated becomes the
  current one.
\<close>

fun truncate_loop :: "'d sp_calls \<Rightarrow> nat \<Rightarrow> 'd spoolbdbv_st \<Rightarrow> int \<times> 'd spoolbdbv_st" where
  "truncate_loop bdb 0 sv = (0, sv)"
| "truncate_loop bdb (Suc i) sv =
     (let (status, d) = sp_truncate bdb (sv_dbs sv ! i); sv = sv\<lparr>sv_dbs := (sv_dbs sv)[i := d]\<rparr> in
      if status = 0 then truncate_loop bdb i (sv\<lparr>sv_wrdb := i, sv_n := 0, sv_size := 0\<rparr>)
      else (status, sv))"

definition spoolbdbv_truncate :: "'d sp_calls \<Rightarrow> int \<Rightarrow> 'd spoolbdbv_st \<Rightarrow> int \<times> 'd spoolbdbv_st" where
  "spoolbdbv_truncate bdb lock sv =
     (if lock \<noteq> 0 then (lock, sv) else truncate_loop bdb (length (sv_dbs sv)) sv)"

definition spoolbdbv_truncate_oldest :: "'d sp_calls \<Rightarrow> int \<Rightarrow> 'd spoolbdbv_st \<Rightarrow> int \<times> 'd spoolbdbv_st" where
  "spoolbdbv_truncate_oldest bdb lock sv =
     (if lock \<noteq> 0 then (lock, sv)
      else
        let j = next_db sv (sv_wrdb sv);
            (status, d) = sp_truncate bdb (sv_dbs sv ! j);
            sv = sv\<lparr>sv_dbs := (sv_dbs sv)[j := d]\<rparr>
        in (status, if status = 0 then sv\<lparr>sv_wrdb := j, sv_n := 0, sv_size := 0\<rparr> else sv))"

definition spoolbdbv_write2_unlocked ::
  "'d sp_calls \<Rightarrow> 'd spoolbdbv_st \<Rightarrow> bytes \<Rightarrow> bytes \<Rightarrow> u32 \<Rightarrow> int \<times> 'd spoolbdbv_st" where
  "spoolbdbv_write2_unlocked bdb sv fkey data datasize =
     (if datasize > sv_maxsize sv then (ENOMEM, sv)
      else
        let (status, sv) =
              (if sv_size sv + datasize > sv_maxsize sv then
                 let j = next_db sv (sv_wrdb sv);
                     (status, d) = sp_truncate bdb (sv_dbs sv ! j);
                     sv = sv\<lparr>sv_wrdb := j, sv_dbs := (sv_dbs sv)[j := d]\<rparr>
                 in (status, if status = 0 then sv\<lparr>sv_n := 0, sv_size := 0\<rparr> else sv)
               else (0, sv))
        in
        if status \<noteq> 0 then (status, sv)
        else
          let (status, d) = spoolbdb_write2 bdb (sv_dbs sv ! sv_wrdb sv) fkey data datasize;
              sv = sv\<lparr>sv_dbs := (sv_dbs sv)[sv_wrdb sv := d]\<rparr>
          in (status, if status = 0 then sv\<lparr>sv_n := sv_n sv + 1, sv_size := sv_size sv + datasize\<rparr> else sv))"

definition spoolbdbv_write_unlocked ::
  "'d sp_calls \<Rightarrow> 'd spoolbdbv_st \<Rightarrow> bytes \<Rightarrow> spoolbuf_st \<Rightarrow> int \<times> 'd spoolbdbv_st" where
  "spoolbdbv_write_unlocked bdb sv fkey sb =
     spoolbdbv_write2_unlocked bdb sv fkey (case sb_buffer sb of None \<Rightarrow> [] | Some buf \<Rightarrow> buf) (sb_buffer_size sb)"

definition spoolbdbv_write2 ::
  "'d sp_calls \<Rightarrow> int \<Rightarrow> 'd spoolbdbv_st \<Rightarrow> bytes \<Rightarrow> bytes \<Rightarrow> u32 \<Rightarrow> int \<times> 'd spoolbdbv_st" where
  "spoolbdbv_write2 bdb lock sv fkey data datasize =
     (if lock \<noteq> 0 then (lock, sv) else spoolbdbv_write2_unlocked bdb sv fkey data datasize)"

definition spoolbdbv_write ::
  "'d sp_calls \<Rightarrow> int \<Rightarrow> 'd spoolbdbv_st \<Rightarrow> bytes \<Rightarrow> spoolbuf_st \<Rightarrow> int \<times> 'd spoolbdbv_st" where
  "spoolbdbv_write bdb lock sv fkey sb =
     (if lock \<noteq> 0 then (lock, sv) else spoolbdbv_write_unlocked bdb sv fkey sb)"

text \<open>
  The search goes back from the current database. The counter only bounds the recursion: the loop is
  back at the current database after as many steps as there are databases.
\<close>

fun read_loop ::
  "allocator \<Rightarrow> 'd sp_calls \<Rightarrow> 'd spoolbdbv_st \<Rightarrow> bytes \<Rightarrow> nat \<Rightarrow> nat \<Rightarrow> int \<times> spoolbuf_st \<Rightarrow> int \<times> spoolbuf_st" where
  "read_loop alloc bdb sv fkey 0 j r = r"
| "read_loop alloc bdb sv fkey (Suc k) j r =
     (if fst r \<noteq> DB_NOTFOUND then r
      else
        let j = prev_db sv j in
        if j = sv_wrdb sv then r
        else read_loop alloc bdb sv fkey k j (spoolbdb_read alloc bdb (sv_dbs sv ! j) fkey (snd r)))"

definition spoolbdbv_read_unlocked ::
  "allocator \<Rightarrow> 'd sp_calls \<Rightarrow> 'd spoolbdbv_st \<Rightarrow> bytes \<Rightarrow> spoolbuf_st \<Rightarrow> int \<times> spoolbuf_st" where
  "spoolbdbv_read_unlocked alloc bdb sv fkey sb =
     read_loop alloc bdb sv fkey (length (sv_dbs sv)) (sv_wrdb sv)
       (spoolbdb_read alloc bdb (sv_dbs sv ! sv_wrdb sv) fkey sb)"

definition spoolbdbv_read ::
  "allocator \<Rightarrow> 'd sp_calls \<Rightarrow> int \<Rightarrow> 'd spoolbdbv_st \<Rightarrow> bytes \<Rightarrow> spoolbuf_st \<Rightarrow> int \<times> spoolbuf_st" where
  "spoolbdbv_read alloc bdb lock sv fkey sb =
     (if lock \<noteq> 0 then (lock, sb) else spoolbdbv_read_unlocked alloc bdb sv fkey sb)"

section \<open>What the array stands for\<close>

text \<open>
  Berkeley DB as documented for these calls, with \<open>M\<close> the map a database stands for: a successful
  \<^verbatim>\<open>put\<close> stores, a failed one changes nothing, a successful \<^verbatim>\<open>truncate\<close> empties, \<^verbatim>\<open>get\<close> reads into a
  buffer that is large enough, and the size of a record has 32 bits.
\<close>

definition sp_laws :: "'d sp_calls \<Rightarrow> ('d \<Rightarrow> bytes \<rightharpoonup> bytes) \<Rightarrow> bool" where
  "sp_laws bdb M \<longleftrightarrow>
     (\<forall>k v d. M (snd (sp_put bdb k v d)) = (if fst (sp_put bdb k v d) = 0 then (M d)(k \<mapsto> v) else M d)) \<and>
     (\<forall>d. fst (sp_truncate bdb d) = 0 \<longrightarrow> M (snd (sp_truncate bdb d)) = Map.empty) \<and>
     (\<forall>k n d. sp_get bdb k n d =
        (case M d k of None \<Rightarrow> Get_error DB_NOTFOUND
         | Some v \<Rightarrow> if length v \<le> n then Got v else Buffer_small (length v))) \<and>
     (\<forall>k v d. M d k = Some v \<longrightarrow> int (length v) < 2 ^ 32)"

text \<open>The maps from the current database to the oldest, and the search through them.\<close>

definition generations :: "('d \<Rightarrow> bytes \<rightharpoonup> bytes) \<Rightarrow> 'd spoolbdbv_st \<Rightarrow> (bytes \<rightharpoonup> bytes) list" where
  "generations M sv = map M (rev (rotate (Suc (sv_wrdb sv)) (sv_dbs sv)))"

fun newest :: "(bytes \<rightharpoonup> bytes) list \<Rightarrow> bytes \<Rightarrow> bytes option" where
  "newest [] k = None"
| "newest (m # ms) k = (case m k of None \<Rightarrow> newest ms k | Some v \<Rightarrow> Some v)"

definition spoolbdbv_inv :: "'d spoolbdbv_st \<Rightarrow> bool" where
  "spoolbdbv_inv sv \<longleftrightarrow> sv_wrdb sv < length (sv_dbs sv) \<and> sv_size sv \<le> sv_maxsize sv"

definition spoolbuf_inv :: "spoolbuf_st \<Rightarrow> bool" where
  "spoolbuf_inv sb \<longleftrightarrow>
     (case sb_buffer sb of None \<Rightarrow> sb_max_buffer_size sb = 0 | Some buf \<Rightarrow> length buf = unat (sb_max_buffer_size sb)) \<and>
     sb_buffer_size sb \<le> sb_max_buffer_size sb \<and> sb_nread sb \<le> sb_buffer_size sb \<and> sb_readp sb = unat (sb_nread sb)"

definition spoolbuf_contents :: "spoolbuf_st \<Rightarrow> bytes" where
  "spoolbuf_contents sb = take (unat (sb_buffer_size sb)) (case sb_buffer sb of None \<Rightarrow> [] | Some buf \<Rightarrow> buf)"

section \<open>The laws as lemmas\<close>

lemma sp_put_law:
  "sp_laws bdb M \<Longrightarrow> M (snd (sp_put bdb k v d)) = (if fst (sp_put bdb k v d) = 0 then (M d)(k \<mapsto> v) else M d)"
  unfolding sp_laws_def by (elim conjE) (erule allE)+

lemma sp_truncate_law: "sp_laws bdb M \<Longrightarrow> fst (sp_truncate bdb d) = 0 \<Longrightarrow> M (snd (sp_truncate bdb d)) = Map.empty"
  unfolding sp_laws_def by (elim conjE) iprover

lemma sp_get_law:
  "sp_laws bdb M \<Longrightarrow> sp_get bdb k n d = (case M d k of None \<Rightarrow> Get_error DB_NOTFOUND
     | Some v \<Rightarrow> if length v \<le> n then Got v else Buffer_small (length v))"
  unfolding sp_laws_def by (elim conjE) iprover

lemma sp_size_law: "sp_laws bdb M \<Longrightarrow> M d k = Some v \<Longrightarrow> int (length v) < 2 ^ 32"
  unfolding sp_laws_def by (elim conjE) iprover

section \<open>Buffers\<close>

lemma unat_u32: "unat (x :: u32) < 2 ^ 32"
  by (rule order_less_le_trans [OF unsigned_less]) simp

lemma size_add_u32: "a < 2 ^ 32 \<Longrightarrow> n < 2 ^ 32 \<Longrightarrow> size_add a (int n) = a + n"
  by (subst size_add_small) simp_all

lemma spoolbdb_read_found:
  assumes laws: "sp_laws bdb M" and inv: "spoolbuf_inv sb" and v: "M d (cstr fkey) = Some v"
    and alloc: "\<And>n. alloc n"
  shows "\<exists>sb'. spoolbdb_read alloc bdb d fkey sb = (0, sb') \<and> spoolbuf_inv sb' \<and> spoolbuf_contents sb' = v \<and> sb_nread sb' = 0"
proof -
  note room = sp_size_law [OF laws v]
  have n: "unat (of_nat (length v) :: u32) = length v" using room by (simp add: unat_of_nat)
  have a: "can_alloc alloc (length v)" using room alloc by (simp add: can_alloc_def)
  note g = sp_get_law [OF laws, of "cstr fkey" _ d, simplified v option.simps]
  show ?thesis
    using inv n a
    by (cases "sb_buffer sb"; cases "length v \<le> unat (sb_max_buffer_size sb)")
      (auto simp: spoolbdb_read_def g Let_def spoolbuf_inv_def spoolbuf_contents_def word_le_nat_alt overwrite_def)
qed

lemma spoolbdb_read_missing:
  assumes "sp_laws bdb M" and "M d (cstr fkey) = None"
  shows "spoolbdb_read alloc bdb d fkey sb = (DB_NOTFOUND, sb)"
  using assms(2) by (simp add: spoolbdb_read_def sp_get_law [OF assms(1)] Let_def)

lemma spoolbuf_read_chunk:
  assumes inv: "spoolbuf_inv sb" and n: "n < 2 ^ 32"
  defines "k \<equiv> min n (length (spoolbuf_contents sb) - unat (sb_nread sb))"
  shows "\<exists>sb'. spoolbuf_read sb n = Some (take n (drop (unat (sb_nread sb)) (spoolbuf_contents sb)), sb') \<and>
    spoolbuf_inv sb' \<and> spoolbuf_contents sb' = spoolbuf_contents sb \<and> unat (sb_nread sb') = unat (sb_nread sb) + k"
proof (cases "sb_nread sb = sb_buffer_size sb")
  case True
  then show ?thesis using inv
    by (auto simp: spoolbuf_read_def spoolbuf_inv_def spoolbuf_contents_def k_def split: option.splits)
next
  case False
  have le: "unat (sb_nread sb) \<le> unat (sb_buffer_size sb)" "unat (sb_buffer_size sb) \<le> unat (sb_max_buffer_size sb)"
    using inv by (simp_all add: spoolbuf_inv_def word_le_nat_alt)
  have "unat (sb_nread sb) \<noteq> unat (sb_buffer_size sb)" using False by (simp add: word_unat_eq_iff)
  then have lt: "unat (sb_nread sb) < unat (sb_buffer_size sb)" using le by simp
  then obtain buf where buf: "sb_buffer sb = Some buf" "length buf = unat (sb_max_buffer_size sb)"
    using inv le by (auto simp: spoolbuf_inv_def split: option.splits)
  have c: "spoolbuf_contents sb = take (unat (sb_buffer_size sb)) buf"
    and lc: "length (spoolbuf_contents sb) = unat (sb_buffer_size sb)"
    using buf le by (simp_all add: spoolbuf_contents_def)
  have b: "unat (sb_nread sb) < 2 ^ 32" by (rule unat_u32)
  have add: "size_add (unat (sb_nread sb)) (int n) = unat (sb_nread sb) + n" using b n by (rule size_add_u32)
  have sub: "unat (sb_buffer_size sb - sb_nread sb) = unat (sb_buffer_size sb) - unat (sb_nread sb)"
    using inv by (simp add: unat_sub spoolbuf_inv_def)
  have k: "(if unat (sb_nread sb) + n > unat (sb_buffer_size sb) then unat (sb_buffer_size sb) - unat (sb_nread sb) else n) = k"
    unfolding k_def lc by auto
  have kle: "unat (sb_nread sb) + k \<le> unat (sb_buffer_size sb)" using le unfolding k_def lc by auto
  have bs: "unat (sb_buffer_size sb) < 2 ^ 32" by (rule unat_u32)
  have wk: "unat (sb_nread sb + of_nat k) = unat (sb_nread sb) + k"
    using kle bs by (simp add: unat_word_ariths unat_of_nat)
  have r: "sb_readp sb = unat (sb_nread sb)" using inv by (simp add: spoolbuf_inv_def)
  have "take k (drop (unat (sb_nread sb)) buf) = take n (drop (unat (sb_nread sb)) (spoolbuf_contents sb))"
    unfolding k_def lc unfolding c by (simp add: drop_take min.commute)
  moreover have "spoolbuf_read sb n = Some (take k (drop (unat (sb_nread sb)) buf),
      sb\<lparr>sb_nread := sb_nread sb + of_nat k, sb_readp := unat (sb_nread sb) + k\<rparr>)"
    unfolding spoolbuf_read_def add sub k Let_def using False buf r kle le by simp
  ultimately show ?thesis using buf kle le wk inv
    by (simp add: spoolbuf_inv_def spoolbuf_contents_def word_le_nat_alt)
qed

section \<open>Reading\<close>

lemma generations_nth:
  assumes "sv_wrdb sv < length (sv_dbs sv)" and "i < length (sv_dbs sv)"
  shows "generations M sv ! i =
    M (sv_dbs sv ! (if i \<le> sv_wrdb sv then sv_wrdb sv - i else sv_wrdb sv + length (sv_dbs sv) - i))"
proof -
  have "rev (rotate (Suc (sv_wrdb sv)) (sv_dbs sv)) =
      rev (take (Suc (sv_wrdb sv)) (sv_dbs sv)) @ rev (drop (Suc (sv_wrdb sv)) (sv_dbs sv))"
    using assms(1) by (simp add: rotate_drop_take_le del: rotate_Suc)
  then show ?thesis using assms
    by (auto simp: generations_def nth_append rev_nth min_def intro!: arg_cong [of _ _ M] arg_cong [of _ _ "(!) (sv_dbs sv)"])
qed

lemma length_generations [simp]: "length (generations M sv) = length (sv_dbs sv)"
  by (simp add: generations_def)

text \<open>The database \<open>i\<close> steps back from the current one.\<close>

definition back_db :: "'d spoolbdbv_st \<Rightarrow> nat \<Rightarrow> nat" where
  "back_db sv i = (if i \<le> sv_wrdb sv then sv_wrdb sv - i else sv_wrdb sv + length (sv_dbs sv) - i)"

lemma prev_back_db:
  assumes "sv_wrdb sv < length (sv_dbs sv)" and "i < length (sv_dbs sv)"
  shows "Suc i < length (sv_dbs sv) \<Longrightarrow> prev_db sv (back_db sv i) = back_db sv (Suc i) \<and> back_db sv (Suc i) \<noteq> sv_wrdb sv"
    and "Suc i = length (sv_dbs sv) \<Longrightarrow> prev_db sv (back_db sv i) = sv_wrdb sv"
  using assms by (auto simp: prev_db_def back_db_def)

lemma read_loop_newest:
  assumes laws: "sp_laws bdb M" and wr: "sv_wrdb sv < length (sv_dbs sv)" and inv: "spoolbuf_inv sb"
    and alloc: "\<And>n. alloc n"
    and i: "i < length (sv_dbs sv)" and k: "k + i = length (sv_dbs sv)"
  shows "(case newest (drop i (generations M sv)) (cstr fkey) of
      None \<Rightarrow> read_loop alloc bdb sv fkey k (back_db sv i) (spoolbdb_read alloc bdb (sv_dbs sv ! back_db sv i) fkey sb) = (DB_NOTFOUND, sb)
    | Some v \<Rightarrow> \<exists>sb'. read_loop alloc bdb sv fkey k (back_db sv i) (spoolbdb_read alloc bdb (sv_dbs sv ! back_db sv i) fkey sb) = (0, sb') \<and>
        spoolbuf_inv sb' \<and> spoolbuf_contents sb' = v \<and> sb_nread sb' = 0)"
  using i k
proof (induction k arbitrary: i)
  case (Suc k)
  let ?d = "sv_dbs sv ! back_db sv i"
  have g: "generations M sv ! i = M ?d" unfolding back_db_def by (rule generations_nth [OF wr Suc.prems(1)])
  have dr: "drop i (generations M sv) = M ?d # drop (Suc i) (generations M sv)"
    using Suc.prems(1) g by (simp add: Cons_nth_drop_Suc [symmetric])
  show ?case
  proof (cases "M ?d (cstr fkey)")
    case (Some v)
    obtain sb' where "spoolbdb_read alloc bdb ?d fkey sb = (0, sb')" "spoolbuf_inv sb'"
      "spoolbuf_contents sb' = v" "sb_nread sb' = 0"
      using spoolbdb_read_found [OF laws inv Some, of alloc] alloc by blast
    with Some dr show ?thesis by simp
  next
    case None
    have r: "spoolbdb_read alloc bdb ?d fkey sb = (DB_NOTFOUND, sb)" by (rule spoolbdb_read_missing [OF laws None])
    show ?thesis
    proof (cases "Suc i = length (sv_dbs sv)")
      case True
      then show ?thesis using r None dr prev_back_db(2) [OF wr Suc.prems(1) True] by simp
    next
      case False
      then have i: "Suc i < length (sv_dbs sv)" using Suc.prems(1) by simp
      have e: "read_loop alloc bdb sv fkey (Suc k) (back_db sv i) (spoolbdb_read alloc bdb ?d fkey sb) =
          read_loop alloc bdb sv fkey k (back_db sv (Suc i)) (spoolbdb_read alloc bdb (sv_dbs sv ! back_db sv (Suc i)) fkey sb)"
        using prev_back_db(1) [OF wr Suc.prems(1) i] by (simp add: r Let_def)
      have n: "newest (drop i (generations M sv)) (cstr fkey) = newest (drop (Suc i) (generations M sv)) (cstr fkey)"
        by (simp add: dr None)
      show ?thesis unfolding e n by (rule Suc.IH [OF i]) (use Suc.prems(2) in simp)
    qed
  qed
qed simp

section \<open>Writing\<close>

lemma next_db_rotate:
  assumes "sv_wrdb sv < length (sv_dbs sv)"
  shows "next_db sv (sv_wrdb sv) < length (sv_dbs sv)"
    and "rotate (Suc (sv_wrdb sv)) (sv_dbs sv) = rotate (next_db sv (sv_wrdb sv)) (sv_dbs sv)"
proof -
  show "next_db sv (sv_wrdb sv) < length (sv_dbs sv)" using assms by (auto simp: next_db_def)
  show "rotate (Suc (sv_wrdb sv)) (sv_dbs sv) = rotate (next_db sv (sv_wrdb sv)) (sv_dbs sv)"
    by (cases "sv_wrdb sv + 1 = length (sv_dbs sv)") (simp_all add: next_db_def del: rotate_Suc)
qed

lemma generations_replace:
  assumes "sv_wrdb sv < length (sv_dbs sv)" and "sv_dbs sv' = (sv_dbs sv)[sv_wrdb sv := d]" and "sv_wrdb sv' = sv_wrdb sv"
  shows "generations M sv' = M d # tl (generations M sv)"
proof (rule nth_equalityI)
  show "length (generations M sv') = length (M d # tl (generations M sv))" using assms by simp
  fix i assume "i < length (generations M sv')"
  then show "generations M sv' ! i = (M d # tl (generations M sv)) ! i"
    using assms by (cases i) (auto simp: generations_nth nth_tl)
qed

lemma generations_advance:
  assumes "sv_wrdb sv < length (sv_dbs sv)" and "sv_wrdb sv' = next_db sv (sv_wrdb sv)"
    and "sv_dbs sv' = (sv_dbs sv)[next_db sv (sv_wrdb sv) := d]"
  shows "generations M sv' = M d # butlast (generations M sv)"
proof -
  let ?j = "next_db sv (sv_wrdb sv)"
  note j = next_db_rotate [OF assms(1)]
  have wr': "sv_wrdb sv' < length (sv_dbs sv')" using j assms by simp
  have "rotate (Suc (sv_wrdb sv')) (sv_dbs sv') = rotate (next_db sv' (sv_wrdb sv')) (sv_dbs sv')"
    by (rule next_db_rotate(2) [OF wr'])
  also have "\<dots> = rotate (if Suc ?j = length (sv_dbs sv) then 0 else Suc ?j) ((sv_dbs sv)[?j := d])"
    using assms(2,3) by (simp add: next_db_def del: rotate_Suc)
  also have "\<dots> = tl (rotate ?j (sv_dbs sv)) @ [d]" by (rule rotate_replace(1) [OF j(1)])
  finally show ?thesis unfolding generations_def j(2) 
    by (simp add: butlast_rev map_butlast [symmetric] del: rotate_Suc)
qed

definition write_gens :: "(bytes \<rightharpoonup> bytes) list \<Rightarrow> bool \<Rightarrow> bytes \<Rightarrow> bytes \<Rightarrow> (bytes \<rightharpoonup> bytes) list" where
  "write_gens gens fits k v = (if fits then (hd gens)(k \<mapsto> v) # tl gens else [k \<mapsto> v] # butlast gens)"

lemma write2_ok:
  assumes laws: "sp_laws bdb M" and inv: "spoolbdbv_inv sv"
    and w: "spoolbdbv_write2_unlocked bdb sv fkey data datasize = (0, sv')"
    and len: "length data = unat datasize" and nowrap: "unat (sv_maxsize sv) < 2 ^ 31"
  defines "fits \<equiv> unat (sv_size sv) + unat datasize \<le> unat (sv_maxsize sv)"
  shows "generations M sv' = write_gens (generations M sv) fits (cstr fkey) data"
    and "spoolbdbv_inv sv'" and "sv_maxsize sv' = sv_maxsize sv" and "length (sv_dbs sv') = length (sv_dbs sv)"
    and "unat (sv_size sv') = (if fits then unat (sv_size sv) + unat datasize else unat datasize)"
    and "unat datasize \<le> unat (sv_maxsize sv)"
proof -
  show le: "unat datasize \<le> unat (sv_maxsize sv)"
    using w by (cases "datasize > sv_maxsize sv") (simp_all add: spoolbdbv_write2_unlocked_def word_less_nat_alt)
  have sz: "unat (sv_size sv) \<le> unat (sv_maxsize sv)" and wr: "sv_wrdb sv < length (sv_dbs sv)"
    using inv by (simp_all add: spoolbdbv_inv_def word_le_nat_alt)
  have sum: "unat (sv_size sv + datasize) = unat (sv_size sv) + unat datasize"
    using le sz nowrap by (simp add: unat_word_ariths)
  have nle: "\<not> datasize > sv_maxsize sv" using le by (simp add: word_less_nat_alt)
  have cond: "sv_size sv + datasize > sv_maxsize sv \<longleftrightarrow> \<not> fits"
    by (simp add: word_less_nat_alt sum fits_def not_le)
  have tk: "take (unat datasize) data = data" using len by simp
  have "generations M sv' = write_gens (generations M sv) fits (cstr fkey) data \<and> spoolbdbv_inv sv' \<and>
    sv_maxsize sv' = sv_maxsize sv \<and> length (sv_dbs sv') = length (sv_dbs sv) \<and>
    unat (sv_size sv') = (if fits then unat (sv_size sv) + unat datasize else unat datasize)"
  proof (cases fits)
    case True
    let ?p = "sp_put bdb (cstr fkey) data (sv_dbs sv ! sv_wrdb sv)"
    have put: "fst ?p = 0" and sv': "sv' = sv\<lparr>sv_dbs := (sv_dbs sv)[sv_wrdb sv := snd ?p],
        sv_n := sv_n sv + 1, sv_size := sv_size sv + datasize\<rparr>"
      using w True nle cond
      by (auto simp: spoolbdbv_write2_unlocked_def spoolbdb_write2_def tk Let_def split: prod.splits if_splits)
    have hd: "hd (generations M sv) = M (sv_dbs sv ! sv_wrdb sv)"
      using wr generations_nth [OF wr, of 0 M] length_generations [of M sv] by (cases "generations M sv") force+
    have "generations M sv' = M (snd ?p) # tl (generations M sv)"
      using wr by (rule generations_replace) (simp_all add: sv')
    then show ?thesis
      using True sp_put_law [OF laws, of "cstr fkey" data "sv_dbs sv ! sv_wrdb sv"] put wr sum
      by (simp add: write_gens_def hd sv' spoolbdbv_inv_def word_le_nat_alt fits_def)
  next
    case False
    let ?j = "next_db sv (sv_wrdb sv)" let ?t = "sp_truncate bdb (sv_dbs sv ! ?j)"
    let ?p = "sp_put bdb (cstr fkey) data (snd ?t)"
    note j = next_db_rotate(1) [OF wr]
    have tr: "fst ?t = 0" and put: "fst ?p = 0" and sv': "sv' = sv\<lparr>sv_wrdb := ?j, sv_dbs := (sv_dbs sv)[?j := snd ?p],
        sv_n := 1, sv_size := datasize\<rparr>"
      using w False nle cond j
      by (auto simp: spoolbdbv_write2_unlocked_def spoolbdb_write2_def tk Let_def split: prod.splits if_splits)
    have "generations M sv' = M (snd ?p) # butlast (generations M sv)"
      using wr by (rule generations_advance) (simp_all add: sv')
    then show ?thesis
      using False sp_put_law [OF laws, of "cstr fkey" data "snd ?t"] sp_truncate_law [OF laws tr] put j le
      by (simp add: write_gens_def sv' spoolbdbv_inv_def word_le_nat_alt)
  qed
  then show "generations M sv' = write_gens (generations M sv) fits (cstr fkey) data"
    and "spoolbdbv_inv sv'" and "sv_maxsize sv' = sv_maxsize sv" and "length (sv_dbs sv') = length (sv_dbs sv)"
    and "unat (sv_size sv') = (if fits then unat (sv_size sv) + unat datasize else unat datasize)" by simp_all
qed

text \<open>A sequence of writes, all successful.\<close>

fun spool_all :: "'d sp_calls \<Rightarrow> (bytes \<times> bytes) list \<Rightarrow> 'd spoolbdbv_st \<Rightarrow> 'd spoolbdbv_st option" where
  "spool_all bdb [] sv = Some sv"
| "spool_all bdb ((fkey, data) # ws) sv =
     (case spoolbdbv_write2 bdb 0 sv fkey data (of_nat (length data)) of
        (status, sv) \<Rightarrow> if status = 0 then spool_all bdb ws sv else None)"

definition total_size :: "(bytes \<times> bytes) list \<Rightarrow> nat" where
  "total_size ws = sum_list (map (length \<circ> snd) ws)"

lemma newest_write_gens_other:
  assumes "k \<noteq> k'" and "2 \<le> length gens"
  shows "newest (write_gens gens True k v) k' = newest gens k'"
    and "newest (butlast (write_gens gens True k v)) k' = newest (butlast gens) k'"
    and "newest (write_gens gens False k v) k' = newest (butlast gens) k'"
  using assms by (cases gens; auto simp: write_gens_def)+

lemma newest_write_gens_same: "gens \<noteq> [] \<Longrightarrow> newest (write_gens gens fits k v) k = Some v"
  by (cases gens) (simp_all add: write_gens_def)

text \<open>
  With \<open>left\<close> more bytes to come: the file is not only in the oldest database, and one turn of the
  array keeps it; or what is to come fits in the current database.
\<close>

definition retained :: "('d \<Rightarrow> bytes \<rightharpoonup> bytes) \<Rightarrow> 'd spoolbdbv_st \<Rightarrow> bytes \<Rightarrow> bytes \<Rightarrow> nat \<Rightarrow> bool" where
  "retained M sv k v left \<longleftrightarrow>
     newest (butlast (generations M sv)) k = Some v \<and> left \<le> unat (sv_maxsize sv) \<or>
     newest (generations M sv) k = Some v \<and> unat (sv_size sv) + left \<le> unat (sv_maxsize sv)"

lemma newest_butlast: "newest (butlast gens) k = Some v \<Longrightarrow> newest gens k = Some v"
  by (induction gens) (auto split: if_splits option.splits)

definition spool_ok :: "nat \<Rightarrow> 'd spoolbdbv_st \<Rightarrow> bool" where
  "spool_ok N sv \<longleftrightarrow> spoolbdbv_inv sv \<and> unat (sv_maxsize sv) < 2 ^ 31 \<and> length (sv_dbs sv) = N"

lemma write2_retains:
  assumes laws: "sp_laws bdb M" and ok: "spool_ok N sv" "2 \<le> N"
    and w: "spoolbdbv_write2 bdb 0 sv fkey data (of_nat (length data)) = (0, sv')"
    and len: "length data < 2 ^ 32" and other: "cstr fkey \<noteq> k"
    and ret: "retained M sv k v (length data + left)"
  shows "spool_ok N sv' \<and> retained M sv' k v left"
proof -
  have n: "unat (of_nat (length data) :: u32) = length data" using len by (simp add: unat_of_nat)
  have w': "spoolbdbv_write2_unlocked bdb sv fkey data (of_nat (length data)) = (0, sv')"
    using w by (simp add: spoolbdbv_write2_def)
  note W = write2_ok [OF laws _ w' n [symmetric]]
  have 2: "2 \<le> length (generations M sv)" using ok by (simp add: spool_ok_def)
  show ?thesis
    using W ok ret newest_write_gens_other [OF other 2, of data] newest_butlast [of "generations M sv" k v]
    by (cases "unat (sv_size sv) + length data \<le> unat (sv_maxsize sv)")
      (auto simp: spool_ok_def retained_def n)
qed

lemma spool_all_retains:
  assumes laws: "sp_laws bdb M" and N: "2 \<le> N"
  shows "spool_all bdb ws sv = Some sv' \<Longrightarrow> spool_ok N sv \<Longrightarrow> (\<forall>(fkey, data) \<in> set ws. cstr fkey \<noteq> k \<and> length data < 2 ^ 32) \<Longrightarrow>
    retained M sv k v (total_size ws) \<Longrightarrow> spool_ok N sv' \<and> retained M sv' k v 0"
proof (induction ws arbitrary: sv)
  case (Cons w ws)
  obtain fkey data where w: "w = (fkey, data)" by force
  from Cons.prems(1) obtain sv1 where sv1: "spoolbdbv_write2 bdb 0 sv fkey data (of_nat (length data)) = (0, sv1)"
      "spool_all bdb ws sv1 = Some sv'"
    by (auto simp: w split: prod.splits if_splits)
  have "spool_ok N sv1 \<and> retained M sv1 k v (total_size ws)"
    using write2_retains [OF laws Cons.prems(2) N sv1(1), of k v "total_size ws"] Cons.prems(3,4) by (simp add: w total_size_def)
  then show ?case using Cons.IH [OF sv1(2)] Cons.prems(3) by (simp add: w)
qed (simp add: total_size_def)

lemma spoolbdbv_read_newest:
  assumes laws: "sp_laws bdb M" and inv: "spoolbdbv_inv sv" "spoolbuf_inv sb"
    and alloc: "\<And>n. alloc n"
  shows "case newest (generations M sv) (cstr fkey) of
      None \<Rightarrow> spoolbdbv_read alloc bdb 0 sv fkey sb = (DB_NOTFOUND, sb)
    | Some v \<Rightarrow> \<exists>sb'. spoolbdbv_read alloc bdb 0 sv fkey sb = (0, sb') \<and> spoolbuf_inv sb' \<and>
        spoolbuf_contents sb' = v \<and> sb_nread sb' = 0"
proof -
  have wr: "sv_wrdb sv < length (sv_dbs sv)" using inv(1) by (simp add: spoolbdbv_inv_def)
  then have n: "0 < length (sv_dbs sv)" "length (sv_dbs sv) + 0 = length (sv_dbs sv)" by auto
  have e: "spoolbdbv_read alloc bdb 0 sv fkey sb = read_loop alloc bdb sv fkey (length (sv_dbs sv)) (back_db sv 0)
      (spoolbdb_read alloc bdb (sv_dbs sv ! back_db sv 0) fkey sb)"
    by (simp add: spoolbdbv_read_def spoolbdbv_read_unlocked_def back_db_def)
  show ?thesis unfolding e using read_loop_newest [OF laws wr inv(2), of alloc 0 "length (sv_dbs sv)" fkey] alloc n by (simp del: read_loop.simps)
qed

section \<open>Properties\<close>

text \<open>An implementation of the database calls, by maps.\<close>

definition short_records :: "(bytes \<rightharpoonup> bytes) \<Rightarrow> bytes \<rightharpoonup> bytes" where
  "short_records d k = (case d k of None \<Rightarrow> None | Some v \<Rightarrow> if int (length v) < 2 ^ 32 then Some v else None)"

definition map_sp :: "(bytes \<rightharpoonup> bytes) sp_calls" where
  "map_sp = \<lparr>sp_put = (\<lambda>k v d. if int (length v) < 2 ^ 32 then (0, d(k \<mapsto> v)) else (EINVAL, d)),
     sp_get = (\<lambda>k n d. case short_records d k of None \<Rightarrow> Get_error DB_NOTFOUND
        | Some v \<Rightarrow> if length v \<le> n then Got v else Buffer_small (length v)),
     sp_truncate = (\<lambda>d. (0, Map.empty))\<rparr>"

lemma map_sp_laws: "sp_laws map_sp short_records"
  by (auto simp: sp_laws_def map_sp_def short_records_def fun_eq_iff split: option.splits)

definition empty_spool :: "nat \<Rightarrow> u32 \<Rightarrow> (bytes \<rightharpoonup> bytes) spoolbdbv_st" where
  "empty_spool N maxsize = \<lparr>sv_dbs = replicate N Map.empty, sv_wrdb = 0, sv_n = 0, sv_maxsize = maxsize, sv_size = 0\<rparr>"

definition empty_buf :: spoolbuf_st where
  "empty_buf = \<lparr>sb_buffer = None, sb_buffer_size = 0, sb_max_buffer_size = 0, sb_readp = 0, sb_nread = 0\<rparr>"

text \<open>
  C8. A successful write of a file to the memory spool changes the generations of the array in one of
  two ways only. If the file fits in what is left of the budget of the current database it is stored
  there. Otherwise the oldest generation, and no other, is dropped, and the file is the whole of a new
  current one. The invariant of the array is kept and no database exceeds its budget. A read returns
  the file of the newest generation that has the key, or the status of a missing key.
\<close>

theorem spoolbdbv_refines_generations:
  assumes "sp_laws bdb M" and "spoolbdbv_inv sv" and "length data = unat datasize" and "unat (sv_maxsize sv) < 2 ^ 31"
    and "\<And>n. alloc n" and "spoolbuf_inv sb"
  shows "(\<forall>sv'. spoolbdbv_write2 bdb 0 sv fkey data datasize = (0, sv') \<longrightarrow>
      spoolbdbv_inv sv' \<and> length (generations M sv') = length (generations M sv) \<and>
      generations M sv' =
        (if unat (sv_size sv) + unat datasize \<le> unat (sv_maxsize sv)
         then (hd (generations M sv))(cstr fkey \<mapsto> data) # tl (generations M sv)
         else [cstr fkey \<mapsto> data] # butlast (generations M sv))) \<and>
    (case newest (generations M sv) (cstr fkey) of
       None \<Rightarrow> spoolbdbv_read alloc bdb 0 sv fkey sb = (DB_NOTFOUND, sb)
     | Some v \<Rightarrow> \<exists>sb'. spoolbdbv_read alloc bdb 0 sv fkey sb = (0, sb') \<and> spoolbuf_contents sb' = v)"
proof (intro conjI allI impI)
  fix sv' assume "spoolbdbv_write2 bdb 0 sv fkey data datasize = (0, sv')"
  then have w: "spoolbdbv_write2_unlocked bdb sv fkey data datasize = (0, sv')" by (simp add: spoolbdbv_write2_def)
  note W = write2_ok [OF assms(1,2) w assms(3,4)]
  show "spoolbdbv_inv sv'" by (rule W(2))
  show "length (generations M sv') = length (generations M sv)" using W(4) by simp
  show "generations M sv' =
        (if unat (sv_size sv) + unat datasize \<le> unat (sv_maxsize sv)
         then (hd (generations M sv))(cstr fkey \<mapsto> data) # tl (generations M sv)
         else [cstr fkey \<mapsto> data] # butlast (generations M sv))"
    using W(1) by (simp add: write_gens_def)
next
  show "case newest (generations M sv) (cstr fkey) of
       None \<Rightarrow> spoolbdbv_read alloc bdb 0 sv fkey sb = (DB_NOTFOUND, sb)
     | Some v \<Rightarrow> \<exists>sb'. spoolbdbv_read alloc bdb 0 sv fkey sb = (0, sb') \<and> spoolbuf_contents sb' = v"
    using spoolbdbv_read_newest [of bdb M sv sb alloc fkey] assms
    by (cases "newest (generations M sv) (cstr fkey)") auto
qed

theorem spoolbdbv_refines_generations_witness:
  "spoolbdbv_inv (empty_spool 2 4) \<and>
   (\<exists>sv'. spoolbdbv_write2 map_sp 0 (empty_spool 2 4) [1] [2, 3] 2 = (0, sv') \<and>
      generations short_records sv' = [[[1] \<mapsto> [2, 3]], Map.empty])"
proof -
  have inv: "spoolbdbv_inv (empty_spool 2 4)" "spoolbuf_inv empty_buf"
    by (simp_all add: spoolbdbv_inv_def empty_spool_def spoolbuf_inv_def empty_buf_def)
  have r: "replicate 2 x = [x, x]" for x :: "bytes \<rightharpoonup> bytes" by (simp add: numeral_2_eq_2)
  have g: "generations short_records (empty_spool 2 4) = [Map.empty, Map.empty]"
    by (simp add: generations_def empty_spool_def r short_records_def fun_eq_iff)
  have c: "unat (sv_size (empty_spool 2 4)) + unat (2 :: u32) \<le> unat (sv_maxsize (empty_spool 2 4))"
    and m: "unat (sv_maxsize (empty_spool 2 4)) < 2 ^ 31" and l: "length [2, 3 :: 8 word] = unat (2 :: u32)" by (simp_all add: empty_spool_def)
  have k: "cstr [1] = [1 :: 8 word]" by code_simp
  note T = spoolbdbv_refines_generations [OF map_sp_laws inv(1) l m, where alloc = "\<lambda>n. True" and sb = empty_buf and fkey = "[1]", OF TrueI inv(2)]
  have "fst (spoolbdbv_write2 map_sp 0 (empty_spool 2 4) [1] [2, 3] 2) = 0" by code_simp
  then obtain sv' where w: "spoolbdbv_write2 map_sp 0 (empty_spool 2 4) [1] [2, 3] 2 = (0, sv')"
    by (cases "spoolbdbv_write2 map_sp 0 (empty_spool 2 4) [1] [2, 3] 2") simp
  then show ?thesis using mp [OF spec [OF conjunct1 [OF T]] w] inv c by (simp add: g k)
qed

text \<open>
  C33. A file written to a memory spool of at least two databases is still read back, byte for byte,
  after further writes of other files, as long as these amount to at most the budget of one database.
\<close>

theorem spool_retention:
  assumes laws: "sp_laws bdb M" and inv: "spoolbdbv_inv sv" and two: "2 \<le> length (sv_dbs sv)"
    and nowrap: "unat (sv_maxsize sv) < 2 ^ 31" and alloc: "\<And>n. alloc n" and buf: "spoolbuf_inv sb"
    and sizes: "length data < 2 ^ 32" "\<forall>(k, d) \<in> set ws. cstr k \<noteq> cstr fkey \<and> length d < 2 ^ 32"
    and budget: "total_size ws \<le> unat (sv_maxsize sv)"
    and run: "spool_all bdb ((fkey, data) # ws) sv = Some sv'"
  shows "\<exists>sb'. spoolbdbv_read alloc bdb 0 sv' fkey sb = (0, sb') \<and> spoolbuf_contents sb' = data"
proof -
  let ?n = "of_nat (length data) :: u32"
  have n: "unat ?n = length data" using sizes(1) by (simp add: unat_of_nat)
  from run obtain sv1 where w: "spoolbdbv_write2_unlocked bdb sv fkey data ?n = (0, sv1)"
      and run1: "spool_all bdb ws sv1 = Some sv'"
    by (auto simp: spoolbdbv_write2_def split: prod.splits if_splits)
  note W = write2_ok [OF laws inv w n [symmetric] nowrap]
  have ok: "spool_ok (length (sv_dbs sv)) sv1" using W nowrap by (simp add: spool_ok_def)
  have "newest (butlast (generations M sv1)) (cstr fkey) = Some data"
    unfolding W(1) using two length_generations [of M sv] by (cases "generations M sv") (auto simp: write_gens_def)
  then have "retained M sv1 (cstr fkey) data (total_size ws)" using budget W(3) by (simp add: retained_def)
  from spool_all_retains [OF laws two run1 ok sizes(2) this]
  have ok': "spool_ok (length (sv_dbs sv)) sv'" and "newest (generations M sv') (cstr fkey) = Some data"
    using newest_butlast [of "generations M sv'" "cstr fkey" data] by (auto simp: retained_def)
  then show ?thesis
    using spoolbdbv_read_newest [OF laws _ buf, of sv' alloc fkey] alloc ok' by (simp add: spool_ok_def) blast
qed

theorem spool_retention_witness:
  "\<exists>sv' sb'. spool_all map_sp [([1], [2, 3, 4]), ([5], [6, 7, 8])] (empty_spool 2 4) = Some sv' \<and>
     spoolbdbv_read (\<lambda>n. True) map_sp 0 sv' [1] empty_buf = (0, sb') \<and> spoolbuf_contents sb' = [2, 3, 4]"
proof -
  have ex: "spool_all map_sp [([1], [2, 3, 4]), ([5], [6, 7, 8])] (empty_spool 2 4) \<noteq> None" by code_simp
  then obtain sv' where sv': "spool_all map_sp [([1], [2, 3, 4]), ([5], [6, 7, 8])] (empty_spool 2 4) = Some sv'" by auto
  have inv: "spoolbdbv_inv (empty_spool 2 4)" "spoolbuf_inv empty_buf" "2 \<le> length (sv_dbs (empty_spool 2 4))"
    "unat (sv_maxsize (empty_spool 2 4)) < 2 ^ 31" "total_size [([5], [6, 7, 8])] \<le> unat (sv_maxsize (empty_spool 2 4))"
    by (simp_all add: spoolbdbv_inv_def empty_spool_def spoolbuf_inv_def empty_buf_def total_size_def)
  have k: "cstr [5 :: 8 word] \<noteq> cstr [1]" by code_simp
  show ?thesis
    using spool_retention [OF map_sp_laws inv(1,3,4) _ inv(2) _ _ inv(5) sv', of "\<lambda>n. True"] sv' k by auto
qed

end
