(* ===== verification/Mspool.thy ===== *)
theory Mspool
  imports Spoolbdb
begin

text \<open>
  The memory spool as the threads of the program use it: the read slots (\<^verbatim>\<open>src/libspoolbdb/spoolslots.c\<close>),
  the spool made of the databases and the slots (\<^verbatim>\<open>src/libspoolbdb/mspoolbdb.c\<close>), and the functions of
  the program (\<^verbatim>\<open>src/nbspmspoolbdb.c\<close>), which make room when the databases run out of memory.

  \<open>ms_env\<close> gathers what the calls depend on: the allocator, Berkeley DB and the results of the mutex
  and condition calls. A wait for a free slot is a list with one entry per wake-up, the status of the
  wait and the slots as the other threads left them; a list that ends too early is a wait that does
  not return (\<^const>\<open>None\<close>), as is a failed assertion. The messages are left out.
\<close>

section \<open>Read slots\<close>

record spoolbuf_slots_st =
  ss_numslots :: int
  ss_spoolb :: "spoolbuf_st list" \<comment> \<open>of length \<^verbatim>\<open>maxslots\<close>\<close>
  ss_status :: "int list"

definition ss_maxslots :: "spoolbuf_slots_st \<Rightarrow> int" where
  "ss_maxslots ss = int (length (ss_spoolb ss))"

record 'd ms_env =
  ms_alloc :: allocator
  ms_bdb :: "'d sp_calls"
  ms_db_lock :: int
  ms_slots_lock :: int
  ms_slots_unlock :: int
  ms_slots_signal :: int

abbreviation SIZEOF_SPOOLBUF_SLOTS :: nat where "SIZEOF_SPOOLBUF_SLOTS \<equiv> 112"

text \<open>\<open>m_init\<close>, \<open>c_init\<close>: the results of the initialisation of the mutex and of the condition variable.\<close>

definition spoolbuf_slots_create :: "allocator \<Rightarrow> int \<Rightarrow> int \<Rightarrow> int \<Rightarrow> spoolbuf_slots_st option option" where
  "spoolbuf_slots_create alloc m_init c_init N =
     (if N \<le> 0 then None
      else if \<not> can_alloc alloc SIZEOF_SPOOLBUF_SLOTS then Some None
      else if first_error [m_init, c_init] \<noteq> 0 then Some None
      else if \<not> can_alloc alloc (4 * nat N) \<or> \<not> can_alloc alloc (8 * nat N) then Some None
      else
        case spoolbuf_create alloc of
          None \<Rightarrow> Some None
        | Some sb \<Rightarrow> Some (Some \<lparr>ss_numslots = 0, ss_spoolb = replicate (nat N) sb, ss_status = replicate (nat N) 0\<rparr>))"

text \<open>The first slot that is not open.\<close>

fun free_slot :: "int list \<Rightarrow> nat" where
  "free_slot [] = 0"
| "free_slot (st # sts) = (if st = 0 then 0 else Suc (free_slot sts))"

definition spoolbuf_slots_open1 ::
  "'d ms_env \<Rightarrow> spoolbuf_slots_st \<Rightarrow> 'd spoolbdbv_st \<Rightarrow> bytes \<Rightarrow> int \<Rightarrow> int \<Rightarrow> (int \<times> int \<times> spoolbuf_slots_st) option" where
  "spoolbuf_slots_open1 env ss sv fkey sd f_read_unlocked =
     (let i = free_slot (ss_status ss) in
      if \<not> i < length (ss_spoolb ss) then None
      else
        let (status, sb) =
              (if f_read_unlocked \<noteq> 0 then spoolbdbv_read_unlocked (ms_alloc env) (ms_bdb env) sv fkey (ss_spoolb ss ! i)
               else spoolbdbv_read (ms_alloc env) (ms_bdb env) (ms_db_lock env) sv fkey (ss_spoolb ss ! i));
            ss = ss\<lparr>ss_spoolb := (ss_spoolb ss)[i := sb]\<rparr>
        in
        if status = 0 then
          Some (0, int i, ss\<lparr>ss_numslots := ss_numslots ss + 1, ss_status := (ss_status ss)[i := 1]\<rparr>)
        else Some (status, sd, ss))"

fun slot_wait_loop :: "spoolbuf_slots_st \<Rightarrow> (int \<times> spoolbuf_slots_st) list \<Rightarrow> (int \<times> spoolbuf_slots_st) option" where
  "slot_wait_loop ss waits =
     (if ss_numslots ss \<noteq> ss_maxslots ss then Some (0, ss)
      else
        case waits of
          [] \<Rightarrow> None
        | (status, ss') # waits' \<Rightarrow> if status \<noteq> 0 then Some (status, ss') else slot_wait_loop ss' waits')"

declare slot_wait_loop.simps [simp del]

definition spoolbuf_slots_open ::
  "'d ms_env \<Rightarrow> (int \<times> spoolbuf_slots_st) list \<Rightarrow> spoolbuf_slots_st \<Rightarrow> 'd spoolbdbv_st \<Rightarrow> bytes \<Rightarrow> int \<Rightarrow>
   (int \<times> int \<times> spoolbuf_slots_st) option" where
  "spoolbuf_slots_open env waits ss sv fkey sd =
     (if ms_slots_lock env \<noteq> 0 then Some (ms_slots_lock env, sd, ss)
      else do {
        (status, ss) \<leftarrow> slot_wait_loop ss waits;
        if status \<noteq> 0 then Some (status, sd, ss)
        else do {
          (status, sd, ss) \<leftarrow> spoolbuf_slots_open1 env ss sv fkey sd 0;
          Some (if status = 0 then ms_slots_unlock env else status, sd, ss)
        }
      })"

text \<open>\<^const>\<open>None\<close>: the slot number is out of the array.\<close>

definition spoolbuf_slots_close_unlocked :: "spoolbuf_slots_st \<Rightarrow> int \<Rightarrow> (int \<times> spoolbuf_slots_st) option" where
  "spoolbuf_slots_close_unlocked ss sd =
     (if 0 \<le> sd \<and> sd < ss_maxslots ss
      then Some (0, ss\<lparr>ss_numslots := ss_numslots ss - 1, ss_status := (ss_status ss)[nat sd := 0]\<rparr>)
      else None)"

definition spoolbuf_slots_close :: "'d ms_env \<Rightarrow> spoolbuf_slots_st \<Rightarrow> int \<Rightarrow> (int \<times> spoolbuf_slots_st) option" where
  "spoolbuf_slots_close env ss sd =
     (if ms_slots_lock env \<noteq> 0 then Some (ms_slots_lock env, ss)
      else do {
        (_, ss) \<leftarrow> spoolbuf_slots_close_unlocked ss sd;
        Some (if ms_slots_signal env = 0 then ms_slots_unlock env else ms_slots_signal env, ss)
      })"

definition spoolbuf_slots_read :: "spoolbuf_slots_st \<Rightarrow> int \<Rightarrow> nat \<Rightarrow> (bytes \<times> spoolbuf_slots_st) option" where
  "spoolbuf_slots_read ss sd n =
     (if 0 \<le> sd \<and> sd < ss_maxslots ss then do {
        (data, sb) \<leftarrow> spoolbuf_read (ss_spoolb ss ! nat sd) n;
        Some (data, ss\<lparr>ss_spoolb := (ss_spoolb ss)[nat sd := sb]\<rparr>)
      } else None)"

definition spoolbuf_slots_datasize :: "spoolbuf_slots_st \<Rightarrow> int \<Rightarrow> nat option" where
  "spoolbuf_slots_datasize ss sd =
     (if 0 \<le> sd \<and> sd < ss_maxslots ss then Some (spoolbuf_datasize (ss_spoolb ss ! nat sd)) else None)"

definition spoolbuf_slots_open_unlocked ::
  "'d ms_env \<Rightarrow> spoolbuf_slots_st \<Rightarrow> 'd spoolbdbv_st \<Rightarrow> bytes \<Rightarrow> int \<Rightarrow> (int \<times> int \<times> spoolbuf_slots_st) option" where
  "spoolbuf_slots_open_unlocked env ss sv fkey sd = spoolbuf_slots_open1 env ss sv fkey sd 1"

section \<open>The spool\<close>

record 'd mspoolbdb_st =
  ms_spoolbdbv :: "'d spoolbdbv_st"
  ms_spoolslots :: spoolbuf_slots_st

text \<open>\<open>m_ms\<close>: 0 or the \<^verbatim>\<open>errno\<close> of the allocation of the spool; \<open>e_slots\<close>: \<^verbatim>\<open>errno\<close> when the slots fail.\<close>

definition cspoolbdb_create ::
  "(nat \<Rightarrow> 'd sp_open_calls) \<Rightarrow> env_calls \<Rightarrow> int \<Rightarrow> int \<times> int \<Rightarrow> int \<times> int \<Rightarrow> allocator \<Rightarrow> int \<times> int \<Rightarrow> int \<Rightarrow>
   bytes option \<Rightarrow> int \<Rightarrow> u32 \<Rightarrow> u32 \<Rightarrow> bytes option \<Rightarrow> int \<Rightarrow> u32 \<Rightarrow> int \<Rightarrow> int \<Rightarrow> int \<Rightarrow>
   (int \<times> 'd mspoolbdb_st option) option" where
  "cspoolbdb_create calls env m_ms m_init m_db alloc ss_init e_slots
       dbhome dbenv_mode dbcache_mb maxsize_per128 dbfname dbfile_mode Ndb Nslots nofile rdonly =
     (if Nslots < 1 then Some (EINVAL, None)
      else if m_ms \<noteq> 0 then Some (m_ms, None)
      else do {
        (status, dbv) \<leftarrow> spoolbdbv_open calls env m_init m_db dbhome dbenv_mode dbcache_mb maxsize_per128 Ndb
                            dbfname dbfile_mode nofile rdonly;
        (case dbv of
           None \<Rightarrow> Some (status, None)
         | Some dbv \<Rightarrow> do {
             ss \<leftarrow> spoolbuf_slots_create alloc (fst ss_init) (snd ss_init) Nslots;
             Some (case ss of None \<Rightarrow> (e_slots, None)
                   | Some ss \<Rightarrow> (0, Some \<lparr>ms_spoolbdbv = dbv, ms_spoolslots = ss\<rparr>))
           })
      })"

definition mspoolbdb_create ::
  "(nat \<Rightarrow> 'd sp_open_calls) \<Rightarrow> env_calls \<Rightarrow> int \<Rightarrow> int \<times> int \<Rightarrow> int \<times> int \<Rightarrow> allocator \<Rightarrow> int \<times> int \<Rightarrow> int \<Rightarrow>
   bytes option \<Rightarrow> int \<Rightarrow> u32 \<Rightarrow> u32 \<Rightarrow> u32 \<Rightarrow> int \<Rightarrow> (int \<times> 'd mspoolbdb_st option) option" where
  "mspoolbdb_create calls env m_ms m_init m_db alloc ss_init e_slots dbhome dbenv_mode dbcache_mb maxsize_per128 Ndb Nslots =
     cspoolbdb_create calls env m_ms m_init m_db alloc ss_init e_slots dbhome dbenv_mode dbcache_mb maxsize_per128
       None 0 Ndb Nslots 1 0"

definition mspoolbdb_insert :: "'d ms_env \<Rightarrow> 'd mspoolbdb_st \<Rightarrow> bytes \<Rightarrow> bytes \<Rightarrow> u32 \<Rightarrow> int \<times> 'd mspoolbdb_st" where
  "mspoolbdb_insert env ms fkey fdata fdata_size =
     (let (status, sv) = spoolbdbv_write2 (ms_bdb env) (ms_db_lock env) (ms_spoolbdbv ms) fkey fdata fdata_size
      in (status, ms\<lparr>ms_spoolbdbv := sv\<rparr>))"

definition mspoolbdb_slots_open ::
  "'d ms_env \<Rightarrow> (int \<times> spoolbuf_slots_st) list \<Rightarrow> 'd mspoolbdb_st \<Rightarrow> bytes \<Rightarrow> int \<Rightarrow> (int \<times> int \<times> 'd mspoolbdb_st) option" where
  "mspoolbdb_slots_open env waits ms fkey sd = do {
     (status, sd, ss) \<leftarrow> spoolbuf_slots_open env waits (ms_spoolslots ms) (ms_spoolbdbv ms) fkey sd;
     Some (status, sd, ms\<lparr>ms_spoolslots := ss\<rparr>)
   }"

definition mspoolbdb_slots_close :: "'d ms_env \<Rightarrow> 'd mspoolbdb_st \<Rightarrow> int \<Rightarrow> (int \<times> 'd mspoolbdb_st) option" where
  "mspoolbdb_slots_close env ms sd = do {
     (status, ss) \<leftarrow> spoolbuf_slots_close env (ms_spoolslots ms) sd;
     Some (status, ms\<lparr>ms_spoolslots := ss\<rparr>)
   }"

definition mspoolbdb_slots_read :: "'d mspoolbdb_st \<Rightarrow> int \<Rightarrow> nat \<Rightarrow> (bytes \<times> 'd mspoolbdb_st) option" where
  "mspoolbdb_slots_read ms sd n = do {
     (data, ss) \<leftarrow> spoolbuf_slots_read (ms_spoolslots ms) sd n;
     Some (data, ms\<lparr>ms_spoolslots := ss\<rparr>)
   }"

definition mspoolbdb_slots_datasize :: "'d mspoolbdb_st \<Rightarrow> int \<Rightarrow> nat option" where
  "mspoolbdb_slots_datasize ms sd = spoolbuf_slots_datasize (ms_spoolslots ms) sd"

definition cspoolbdb_slots_open_unlocked ::
  "'d ms_env \<Rightarrow> 'd mspoolbdb_st \<Rightarrow> bytes \<Rightarrow> int \<Rightarrow> (int \<times> int \<times> 'd mspoolbdb_st) option" where
  "cspoolbdb_slots_open_unlocked env ms fkey sd = do {
     (status, sd, ss) \<leftarrow> spoolbuf_slots_open_unlocked env (ms_spoolslots ms) (ms_spoolbdbv ms) fkey sd;
     Some (status, sd, ms\<lparr>ms_spoolslots := ss\<rparr>)
   }"

definition cspoolbdb_slots_close_unlocked :: "'d mspoolbdb_st \<Rightarrow> int \<Rightarrow> (int \<times> 'd mspoolbdb_st) option" where
  "cspoolbdb_slots_close_unlocked ms sd = do {
     (status, ss) \<leftarrow> spoolbuf_slots_close_unlocked (ms_spoolslots ms) sd;
     Some (status, ms\<lparr>ms_spoolslots := ss\<rparr>)
   }"

definition mspoolbdb_truncate :: "'d ms_env \<Rightarrow> 'd mspoolbdb_st \<Rightarrow> int \<times> 'd mspoolbdb_st" where
  "mspoolbdb_truncate env ms =
     (let (status, sv) = spoolbdbv_truncate (ms_bdb env) (ms_db_lock env) (ms_spoolbdbv ms)
      in (status, ms\<lparr>ms_spoolbdbv := sv\<rparr>))"

definition mspoolbdb_truncate_oldest :: "'d ms_env \<Rightarrow> 'd mspoolbdb_st \<Rightarrow> int \<times> 'd mspoolbdb_st" where
  "mspoolbdb_truncate_oldest env ms =
     (let (status, sv) = spoolbdbv_truncate_oldest (ms_bdb env) (ms_db_lock env) (ms_spoolbdbv ms)
      in (status, ms\<lparr>ms_spoolbdbv := sv\<rparr>))"

section \<open>The functions of the program\<close>

abbreviation FKEY_SPOOLBDB_SIZE :: nat where "FKEY_SPOOLBDB_SIZE \<equiv> 10"

abbreviation FNAME_SEQNUM_SEPCHAR :: byte where "FNAME_SEQNUM_SEPCHAR \<equiv> 95"

text \<open>What follows the last occurrence of a character, as \<^verbatim>\<open>strrchr\<close> finds it.\<close>

definition after_last :: "byte \<Rightarrow> bytes \<Rightarrow> bytes option" where
  "after_last c s = (if c \<in> set (cstr s) then Some (rev (takeWhile (\<lambda>b. b \<noteq> c) (rev (cstr s)))) else None)"

text \<open>The key, or \<^const>\<open>None\<close> for the error status.\<close>

definition get_fpath_key :: "bytes \<Rightarrow> bytes option" where
  "get_fpath_key path =
     (case after_last FNAME_SEQNUM_SEPCHAR path of
        None \<Rightarrow> None
      | Some p \<Rightarrow> if strlen p > FKEY_SPOOLBDB_SIZE then None else Some p)"

text \<open>
  The insertion with its recovery, in two stages, when the databases have no memory. \<^const>\<open>None\<close>: the
  path has no key (the assertion fails).
\<close>

definition nbsp_mspoolbdb_insert1 :: "'d ms_env \<Rightarrow> 'd mspoolbdb_st \<Rightarrow> bytes \<Rightarrow> bytes \<Rightarrow> nat \<Rightarrow> (int \<times> 'd mspoolbdb_st) option" where
  "nbsp_mspoolbdb_insert1 env ms path fdata fdata_size = do {
     fkey \<leftarrow> get_fpath_key path;
     if int fdata_size > 2 ^ 32 - 1 then Some (-1, ms)
     else
       let size32 = of_nat fdata_size;
           (status, ms) = mspoolbdb_insert env ms fkey fdata size32;
           (status, ms) =
             (if status = ENOMEM then
                let (status, ms) = mspoolbdb_truncate_oldest env ms in
                if status = 0 then mspoolbdb_insert env ms fkey fdata size32 else (status, ms)
              else (status, ms));
           (status, ms) =
             (if status = ENOMEM then
                let (status, ms) = mspoolbdb_truncate env ms in
                if status = 0 then mspoolbdb_insert env ms fkey fdata size32 else (status, ms)
              else (status, ms))
       in Some (if status \<noteq> 0 then -1 else 0, ms)
   }"

definition nbsp_mspoolbdb_open1 ::
  "'d ms_env \<Rightarrow> (int \<times> spoolbuf_slots_st) list \<Rightarrow> 'd mspoolbdb_st \<Rightarrow> bytes \<Rightarrow> (int \<times> 'd mspoolbdb_st) option" where
  "nbsp_mspoolbdb_open1 env waits ms path = do {
     fkey \<leftarrow> get_fpath_key path;
     (status, sd, ms) \<leftarrow> mspoolbdb_slots_open env waits ms fkey (-1);
     Some (if status \<noteq> 0 then if status = DB_NOTFOUND then -2 else -1 else sd, ms)
   }"

definition nbsp_mspoolbdb_close1 :: "'d ms_env \<Rightarrow> 'd mspoolbdb_st \<Rightarrow> int \<Rightarrow> (int \<times> 'd mspoolbdb_st) option" where
  "nbsp_mspoolbdb_close1 env ms sd = do {
     (status, ms) \<leftarrow> mspoolbdb_slots_close env ms sd;
     Some (if status \<noteq> 0 then -1 else 0, ms)
   }"

definition nbsp_mspoolbdb_read1 :: "'d mspoolbdb_st \<Rightarrow> int \<Rightarrow> nat \<Rightarrow> (bytes \<times> 'd mspoolbdb_st) option" where
  "nbsp_mspoolbdb_read1 ms sd n = mspoolbdb_slots_read ms sd n"

definition nbsp_mspoolbdb_datasize1 :: "'d mspoolbdb_st \<Rightarrow> int \<Rightarrow> nat option" where
  "nbsp_mspoolbdb_datasize1 ms sd = mspoolbdb_slots_datasize ms sd"

definition nbsp_mspoolbdb_fpathsize1 ::
  "'d ms_env \<Rightarrow> (int \<times> spoolbuf_slots_st) list \<Rightarrow> 'd mspoolbdb_st \<Rightarrow> bytes \<Rightarrow> nat \<Rightarrow> (int \<times> nat \<times> 'd mspoolbdb_st) option" where
  "nbsp_mspoolbdb_fpathsize1 env waits ms path sz = do {
     (sd, ms) \<leftarrow> nbsp_mspoolbdb_open1 env waits ms path;
     if sd < 0 then Some (-1, sz, ms)
     else do {
       sz \<leftarrow> nbsp_mspoolbdb_datasize1 ms sd;
       (_, ms) \<leftarrow> nbsp_mspoolbdb_close1 env ms sd;
       Some (0, sz, ms)
     }
   }"

section \<open>Reads keep the buffers in order\<close>

lemma spoolbdb_read_inv:
  assumes laws: "sp_laws bdb M" and inv: "spoolbuf_inv sb"
  shows "spoolbuf_inv (snd (spoolbdb_read alloc bdb d fkey sb))"
proof (cases "M d (cstr fkey)")
  case None
  then show ?thesis using inv spoolbdb_read_missing [OF laws None] by simp
next
  case (Some v)
  note room = sp_size_law [OF laws Some]
  have n: "unat (of_nat (length v) :: u32) = length v" using room by (simp add: unat_of_nat)
  note g = sp_get_law [OF laws, of "cstr fkey" _ d, simplified Some option.simps]
  show ?thesis
    using inv n
    by (cases "sb_buffer sb"; cases "length v \<le> unat (sb_max_buffer_size sb)"; cases "can_alloc alloc (length v)")
      (auto simp: spoolbdb_read_def g Let_def spoolbuf_inv_def word_le_nat_alt overwrite_def)
qed

lemma read_loop_inv:
  assumes laws: "sp_laws bdb M"
  shows "spoolbuf_inv (snd r) \<Longrightarrow> spoolbuf_inv (snd (read_loop alloc bdb sv fkey k j r))"
proof (induction k arbitrary: j r)
  case (Suc k)
  then show ?case using spoolbdb_read_inv [OF laws Suc.prems] by (simp add: Let_def)
qed simp

lemma spoolbdbv_read_inv:
  assumes "sp_laws bdb M" and "spoolbuf_inv sb"
  shows "spoolbuf_inv (snd (spoolbdbv_read alloc bdb lock sv fkey sb))"
  using assms read_loop_inv [OF assms(1) spoolbdb_read_inv [OF assms]]
  by (simp add: spoolbdbv_read_def spoolbdbv_read_unlocked_def)

lemma spoolbuf_read_inv:
  assumes inv: "spoolbuf_inv sb" and n: "n < 2 ^ 32"
  obtains sb' where "spoolbuf_read sb n = Some (take n (drop (unat (sb_nread sb)) (spoolbuf_contents sb)), sb')"
    "spoolbuf_inv sb'" "spoolbuf_contents sb' = spoolbuf_contents sb"
    "unat (sb_nread sb') = min (unat (sb_nread sb) + n) (length (spoolbuf_contents sb))"
proof -
  have "unat (sb_nread sb) \<le> length (spoolbuf_contents sb)"
    using inv by (auto simp: spoolbuf_inv_def spoolbuf_contents_def word_le_nat_alt split: option.splits)
  with spoolbuf_read_chunk [OF assms] show ?thesis using that by (force simp: min_def split: if_splits)
qed

section \<open>Slots shared by threads\<close>

text \<open>
  The states of the slots with a record, for each open slot, of the file it was opened with, and the
  steps of the threads in any order: a reader opens a slot that is free, reads from its own slot or
  closes it, and the processor changes the databases.
\<close>

type_synonym owners = "int \<rightharpoonup> bytes"

inductive slots_step ::
  "'d ms_env \<Rightarrow> 'd mspoolbdb_st \<times> owners \<Rightarrow> 'd mspoolbdb_st \<times> owners \<Rightarrow> bool" for env where
  Open_slot: "ss_numslots (ms_spoolslots ms) \<noteq> ss_maxslots (ms_spoolslots ms) \<Longrightarrow>
     mspoolbdb_slots_open env [] ms fkey (-1) = Some (0, sd, ms') \<Longrightarrow>
     slots_step env (ms, ow) (ms', ow(sd \<mapsto> spoolbuf_contents (ss_spoolb (ms_spoolslots ms') ! nat sd)))"
| Open_fails: "ss_numslots (ms_spoolslots ms) \<noteq> ss_maxslots (ms_spoolslots ms) \<Longrightarrow>
     mspoolbdb_slots_open env [] ms fkey (-1) = Some (status, sd, ms') \<Longrightarrow> status \<noteq> 0 \<Longrightarrow>
     slots_step env (ms, ow) (ms', ow)"
| Read_slot: "ow sd \<noteq> None \<Longrightarrow> n < 2 ^ 32 \<Longrightarrow> mspoolbdb_slots_read ms sd n = Some (data, ms') \<Longrightarrow>
     slots_step env (ms, ow) (ms', ow)"
| Close_slot: "ow sd \<noteq> None \<Longrightarrow> mspoolbdb_slots_close env ms sd = Some (0, ms') \<Longrightarrow>
     slots_step env (ms, ow) (ms', ow(sd := None))"
| Change_db: "slots_step env (ms, ow) (ms\<lparr>ms_spoolbdbv := sv\<rparr>, ow)"

inductive slots_reachable :: "'d ms_env \<Rightarrow> 'd mspoolbdb_st \<times> owners \<Rightarrow> bool" for env where
  slots_start: "spoolbuf_slots_create alloc m c N = Some (Some ss) \<Longrightarrow>
     slots_reachable env (\<lparr>ms_spoolbdbv = sv, ms_spoolslots = ss\<rparr>, Map.empty)"
| slots_next: "slots_reachable env s \<Longrightarrow> slots_step env s s' \<Longrightarrow> slots_reachable env s'"

definition slots_inv :: "'d mspoolbdb_st \<times> owners \<Rightarrow> bool" where
  "slots_inv s \<longleftrightarrow> (let ss = ms_spoolslots (fst s); ow = snd s in
     length (ss_status ss) = length (ss_spoolb ss) \<and>
     dom ow = {int i | i. i < length (ss_status ss) \<and> ss_status ss ! i \<noteq> 0} \<and>
     ss_numslots ss = int (length (filter (\<lambda>st. st \<noteq> 0) (ss_status ss))) \<and>
     (\<forall>i < length (ss_spoolb ss). spoolbuf_inv (ss_spoolb ss ! i)) \<and>
     (\<forall>i f. ow (int i) = Some f \<longrightarrow> spoolbuf_contents (ss_spoolb ss ! i) = f))"

lemma free_slot_first:
  "free_slot sts \<le> length sts" "free_slot sts < length sts \<Longrightarrow> sts ! free_slot sts = 0"
  "free_slot sts = length sts \<longleftrightarrow> (\<forall>st \<in> set sts. st \<noteq> 0)"
  by (induction sts) auto

lemma length_filter_update:
  assumes "i < length xs"
  shows "length (filter P (xs[i := x])) + (if P (xs ! i) then 1 else 0) = length (filter P xs) + (if P x then 1 else 0)"
  using assms
proof (induction xs arbitrary: i)
  case (Cons a xs)
  then show ?case using Cons.IH [of "i - 1"] by (cases i) (simp_all split: if_splits)
qed simp

text \<open>The slot that is opened was free, and its buffer then holds the file; nothing else changes.\<close>

lemma spoolbuf_slots_open1_outcome:
  assumes laws: "sp_laws (ms_bdb env) M" and len: "length (ss_status ss) = length (ss_spoolb ss)"
    and free: "\<exists>st \<in> set (ss_status ss). st = 0"
    and inv: "\<forall>i < length (ss_spoolb ss). spoolbuf_inv (ss_spoolb ss ! i)"
  obtains i status sb where "i < length (ss_status ss)" "ss_status ss ! i = 0" "spoolbuf_inv sb"
    "(status, sb) = spoolbdbv_read (ms_alloc env) (ms_bdb env) (ms_db_lock env) sv fkey (ss_spoolb ss ! i)"
    "spoolbuf_slots_open1 env ss sv fkey sd 0 = Some (if status = 0
       then (0, int i, ss\<lparr>ss_spoolb := (ss_spoolb ss)[i := sb], ss_numslots := ss_numslots ss + 1, ss_status := (ss_status ss)[i := 1]\<rparr>)
       else (status, sd, ss\<lparr>ss_spoolb := (ss_spoolb ss)[i := sb]\<rparr>))"
proof -
  let ?i = "free_slot (ss_status ss)"
  have i: "?i < length (ss_status ss)" using free_slot_first(1,3) [of "ss_status ss"] free by force
  obtain status sb where r: "spoolbdbv_read (ms_alloc env) (ms_bdb env) (ms_db_lock env) sv fkey (ss_spoolb ss ! ?i) = (status, sb)"
    by force
  have "spoolbuf_inv sb" using spoolbdbv_read_inv [OF laws] inv i len r by (metis snd_conv)
  moreover have "spoolbuf_slots_open1 env ss sv fkey sd 0 = Some (if status = 0
       then (0, int ?i, ss\<lparr>ss_spoolb := (ss_spoolb ss)[?i := sb], ss_numslots := ss_numslots ss + 1, ss_status := (ss_status ss)[?i := 1]\<rparr>)
       else (status, sd, ss\<lparr>ss_spoolb := (ss_spoolb ss)[?i := sb]\<rparr>))"
    using i len by (simp add: spoolbuf_slots_open1_def r Let_def)
  ultimately show ?thesis using that [OF i free_slot_first(2) [OF i] _ r [symmetric]] by simp
qed

lemma slots_open_free:
  assumes "ss_numslots ss \<noteq> ss_maxslots ss" and "ms_slots_lock env = 0"
  shows "spoolbuf_slots_open env waits ss sv fkey sd =
    map_option (\<lambda>(status, sd, ss). (if status = 0 then ms_slots_unlock env else status, sd, ss)) (spoolbuf_slots_open1 env ss sv fkey sd 0)"
  using assms
  by (cases "spoolbuf_slots_open1 env ss sv fkey sd 0") (auto simp: spoolbuf_slots_open_def slot_wait_loop.simps [of ss])

lemma slots_inv_free:
  assumes "slots_inv (ms, ow)" and "ss_numslots (ms_spoolslots ms) \<noteq> ss_maxslots (ms_spoolslots ms)"
  shows "\<exists>st \<in> set (ss_status (ms_spoolslots ms)). st = 0"
proof (rule ccontr)
  assume "\<not> ?thesis"
  then have "filter (\<lambda>st. st \<noteq> 0) (ss_status (ms_spoolslots ms)) = ss_status (ms_spoolslots ms)" by (auto intro: filter_True)
  with assms show False by (simp add: slots_inv_def Let_def ss_maxslots_def)
qed

lemma slots_inv_start:
  assumes "spoolbuf_slots_create alloc m c N = Some (Some ss)"
  shows "slots_inv (\<lparr>ms_spoolbdbv = sv, ms_spoolslots = ss\<rparr>, Map.empty)"
  using assms
  by (auto simp: spoolbuf_slots_create_def slots_inv_def spoolbuf_create_def spoolbuf_inv_def split: if_splits option.splits)

lemma slots_inv_open:
  assumes laws: "sp_laws (ms_bdb env) M" and unlock: "ms_slots_unlock env = 0" and inv: "slots_inv (ms, ow)"
    and free: "ss_numslots (ms_spoolslots ms) \<noteq> ss_maxslots (ms_spoolslots ms)"
    and o: "mspoolbdb_slots_open env [] ms fkey (-1) = Some (status, sd, ms')"
  shows "slots_inv (ms', if status = 0 then ow(sd \<mapsto> spoolbuf_contents (ss_spoolb (ms_spoolslots ms') ! nat sd)) else ow)"
    and "status = 0 \<Longrightarrow> ow sd = None \<and> 0 \<le> sd"
proof -
  let ?ss = "ms_spoolslots ms"
  have "(slots_inv (ms', if status = 0 then ow(sd \<mapsto> spoolbuf_contents (ss_spoolb (ms_spoolslots ms') ! nat sd)) else ow)) \<and>
    (status = 0 \<longrightarrow> ow sd = None \<and> 0 \<le> sd)"
  proof (cases "ms_slots_lock env = 0")
    case False
    then have "ms' = ms" "status \<noteq> 0" using o by (auto simp: mspoolbdb_slots_open_def spoolbuf_slots_open_def)
    then show ?thesis using inv by simp
  next
    case True
    have I: "length (ss_status ?ss) = length (ss_spoolb ?ss)" "\<forall>i < length (ss_spoolb ?ss). spoolbuf_inv (ss_spoolb ?ss ! i)"
      "dom ow = {int i | i. i < length (ss_status ?ss) \<and> ss_status ?ss ! i \<noteq> 0}"
      "ss_numslots ?ss = int (length (filter (\<lambda>st. st \<noteq> 0) (ss_status ?ss)))"
      "\<And>i f. ow (int i) = Some f \<Longrightarrow> spoolbuf_contents (ss_spoolb ?ss ! i) = f"
      using inv by (simp_all add: slots_inv_def Let_def)
    obtain i st sb where i: "i < length (ss_status ?ss)" "ss_status ?ss ! i = 0" "spoolbuf_inv sb"
      and open1: "spoolbuf_slots_open1 env ?ss (ms_spoolbdbv ms) fkey (-1) 0 = Some (if st = 0
       then (0, int i, ?ss\<lparr>ss_spoolb := (ss_spoolb ?ss)[i := sb], ss_numslots := ss_numslots ?ss + 1, ss_status := (ss_status ?ss)[i := 1]\<rparr>)
       else (st, -1, ?ss\<lparr>ss_spoolb := (ss_spoolb ?ss)[i := sb]\<rparr>))"
      by (rule spoolbuf_slots_open1_outcome [OF laws I(1) slots_inv_free [OF inv free] I(2)])
    have "int i \<notin> dom ow" using i(2) unfolding I(3) by auto
    then have none: "ow (int i) = None" by auto
    have upd: "\<forall>j < length (ss_spoolb ?ss). spoolbuf_inv ((ss_spoolb ?ss)[i := sb] ! j)"
      using I(2) i(3) by (metis nth_list_update_eq nth_list_update_neq)
    have other: "ow (int j) = Some f \<Longrightarrow> spoolbuf_contents ((ss_spoolb ?ss)[i := sb] ! j) = f" for j f
      using I(5) none by (cases "j = i") auto
    have d: "insert (int i) (dom ow) = {int j | j. j < length (ss_status ?ss) \<and> (ss_status ?ss)[i := 1] ! j \<noteq> 0}"
      unfolding I(3) using i(1) by (auto simp: nth_list_update)
    show ?thesis
    proof (cases "st = 0")
      case True
      then have s: "status = 0" "sd = int i" "ms' = ms\<lparr>ms_spoolslots :=
          ?ss\<lparr>ss_spoolb := (ss_spoolb ?ss)[i := sb], ss_numslots := ss_numslots ?ss + 1, ss_status := (ss_status ?ss)[i := 1]\<rparr>\<rparr>"
        using o open1 slots_open_free [OF free \<open>ms_slots_lock env = 0\<close>] unlock by (auto simp: mspoolbdb_slots_open_def)
      show ?thesis
        using none upd other d I(1,4,5) i(1,2) length_filter_update [of i "ss_status ?ss" "\<lambda>st. st \<noteq> 0" 1]
        by (auto simp: s slots_inv_def Let_def)
    next
      case False
      then have s: "status = st" "ms' = ms\<lparr>ms_spoolslots := ?ss\<lparr>ss_spoolb := (ss_spoolb ?ss)[i := sb]\<rparr>\<rparr>"
        using o open1 slots_open_free [OF free \<open>ms_slots_lock env = 0\<close>] by (auto simp: mspoolbdb_slots_open_def)
      show ?thesis using False upd other I by (auto simp: s slots_inv_def Let_def)
    qed
  qed
  then show "slots_inv (ms', if status = 0 then ow(sd \<mapsto> spoolbuf_contents (ss_spoolb (ms_spoolslots ms') ! nat sd)) else ow)"
    and "status = 0 \<Longrightarrow> ow sd = None \<and> 0 \<le> sd" by auto
qed

lemma slots_inv_owned:
  assumes "slots_inv (ms, ow)" and "ow sd \<noteq> None"
  obtains i f where "sd = int i" "i < length (ss_spoolb (ms_spoolslots ms))" "ow sd = Some f"
    "ss_status (ms_spoolslots ms) ! i \<noteq> 0" "spoolbuf_inv (ss_spoolb (ms_spoolslots ms) ! i)"
    "spoolbuf_contents (ss_spoolb (ms_spoolslots ms) ! i) = f"
proof -
  have "sd \<in> dom ow" using assms(2) by blast
  then obtain i where "sd = int i" "i < length (ss_spoolb (ms_spoolslots ms))" "ss_status (ms_spoolslots ms) ! i \<noteq> 0"
    using assms(1) by (auto simp: slots_inv_def Let_def)
  with assms show ?thesis using that by (auto simp: slots_inv_def Let_def)
qed

lemma slots_inv_read:
  assumes inv: "slots_inv (ms, ow)" and own: "ow sd \<noteq> None" "n < 2 ^ 32"
  obtains data ms' where "mspoolbdb_slots_read ms sd n = Some (data, ms')" "slots_inv (ms', ow)"
proof -
  let ?ss = "ms_spoolslots ms"
  obtain i f where i: "sd = int i" "i < length (ss_spoolb ?ss)" "spoolbuf_inv (ss_spoolb ?ss ! i)"
    using slots_inv_owned [OF inv own(1)] by metis
  obtain data sb where sb: "spoolbuf_read (ss_spoolb ?ss ! i) n = Some (data, sb)" "spoolbuf_inv sb"
      "spoolbuf_contents sb = spoolbuf_contents (ss_spoolb ?ss ! i)"
    using spoolbuf_read_inv [OF i(3) own(2)] by metis
  have "\<forall>j < length (ss_spoolb ?ss). spoolbuf_inv (ss_spoolb ?ss ! j)" using inv by (simp add: slots_inv_def Let_def)
  then have u: "\<forall>j < length (ss_spoolb ?ss). spoolbuf_inv ((ss_spoolb ?ss)[i := sb] ! j)"
    using sb(2) by (metis nth_list_update_eq nth_list_update_neq)
  have c: "spoolbuf_contents ((ss_spoolb ?ss)[i := sb] ! j) = spoolbuf_contents (ss_spoolb ?ss ! j)" for j
    using sb(3) by (cases "j = i") (auto simp: i(2))
  show ?thesis
    using that [of data "ms\<lparr>ms_spoolslots := ?ss\<lparr>ss_spoolb := (ss_spoolb ?ss)[i := sb]\<rparr>\<rparr>"] inv i sb u c
    by (simp add: mspoolbdb_slots_read_def spoolbuf_slots_read_def ss_maxslots_def slots_inv_def Let_def)
qed

lemma slots_inv_close:
  assumes inv: "slots_inv (ms, ow)" and own: "ow sd \<noteq> None" and c: "mspoolbdb_slots_close env ms sd = Some (0, ms')"
  shows "slots_inv (ms', ow(sd := None))"
proof -
  let ?ss = "ms_spoolslots ms"
  obtain i f where i: "sd = int i" "i < length (ss_spoolb ?ss)" "ss_status ?ss ! i \<noteq> 0"
    using slots_inv_owned [OF inv own] by metis
  have ms': "ms' = ms\<lparr>ms_spoolslots := ?ss\<lparr>ss_numslots := ss_numslots ?ss - 1, ss_status := (ss_status ?ss)[i := 0]\<rparr>\<rparr>"
    using c i by (auto simp: mspoolbdb_slots_close_def spoolbuf_slots_close_def spoolbuf_slots_close_unlocked_def ss_maxslots_def split: if_splits)
  have len: "length (ss_status ?ss) = length (ss_spoolb ?ss)"
    and d: "dom ow = {int j | j. j < length (ss_status ?ss) \<and> ss_status ?ss ! j \<noteq> 0}"
    using inv by (simp_all add: slots_inv_def Let_def)
  have "dom ow - {int i} = {int j | j. j < length (ss_status ?ss) \<and> (ss_status ?ss)[i := 0] ! j \<noteq> 0}"
    unfolding d using i len by (auto simp: nth_list_update split: if_splits)
  then show ?thesis
    using inv i len length_filter_update [of i "ss_status ?ss" "\<lambda>st. st \<noteq> 0" 0]
    by (auto simp: ms' slots_inv_def Let_def)
qed

lemma slots_reachable_inv:
  assumes laws: "sp_laws (ms_bdb env) M" and unlock: "ms_slots_unlock env = 0"
  shows "slots_reachable env s \<Longrightarrow> slots_inv s"
proof (induction rule: slots_reachable.induct)
  case (slots_start alloc m c N ss sv)
  then show ?case by (rule slots_inv_start)
next
  case (slots_next s s')
  from slots_next.hyps(2) slots_next.IH show ?case
  proof (induction rule: slots_step.induct)
    case (Open_slot ms fkey sd ms' ow)
    from slots_inv_open(1) [OF laws unlock Open_slot(3) Open_slot(1,2)] show ?case by simp
  next
    case (Open_fails ms fkey status sd ms' ow)
    from slots_inv_open(1) [OF laws unlock Open_fails(4) Open_fails(1,2)] Open_fails(3) show ?case by simp
  next
    case (Read_slot ow sd n ms data ms')
    from slots_inv_read [OF Read_slot(4,1,2)] Read_slot(3) show ?case by (metis option.inject prod.inject)
  next
    case (Close_slot ow sd ms ms')
    then show ?case by (auto intro: slots_inv_close)
  next
    case (Change_db ms ow sv)
    then show ?case by (simp add: slots_inv_def)
  qed
qed

section \<open>Insertion\<close>

lemma spoolbdbv_write2_keeps:
  assumes "spoolbdbv_inv sv" and "unat (sv_maxsize sv) < 2 ^ 31"
    and w: "spoolbdbv_write2 bdb lock sv fkey data datasize = (status, sv')"
  shows "spoolbdbv_inv sv' \<and> sv_maxsize sv' = sv_maxsize sv"
proof -
  have wr: "sv_wrdb sv < length (sv_dbs sv)" "next_db sv (sv_wrdb sv) < length (sv_dbs sv)"
    using assms(1) next_db_rotate(1) [of sv] by (simp_all add: spoolbdbv_inv_def)
  have sum: "unat (sv_size sv + datasize) = unat (sv_size sv) + unat datasize" if "\<not> datasize > sv_maxsize sv"
    using that assms(1,2) by (simp add: spoolbdbv_inv_def word_le_nat_alt word_less_nat_alt unat_word_ariths)
  show ?thesis
    using w wr assms(1) sum
    by (auto simp: spoolbdbv_write2_def spoolbdbv_write2_unlocked_def spoolbdbv_inv_def Let_def not_less
        split: if_splits prod.splits)
qed

lemma spoolbdbv_truncate_oldest_keeps:
  assumes "spoolbdbv_inv sv" and "spoolbdbv_truncate_oldest bdb lock sv = (status, sv')"
  shows "spoolbdbv_inv sv' \<and> sv_maxsize sv' = sv_maxsize sv"
  using assms next_db_rotate(1) [of sv]
  by (auto simp: spoolbdbv_truncate_oldest_def spoolbdbv_inv_def Let_def split: if_splits prod.splits)

lemma truncate_loop_keeps:
  "truncate_loop bdb i sv = (status, sv') \<Longrightarrow> spoolbdbv_inv sv \<Longrightarrow> i \<le> length (sv_dbs sv) \<Longrightarrow>
   spoolbdbv_inv sv' \<and> sv_maxsize sv' = sv_maxsize sv"
proof (induction bdb i sv arbitrary: status rule: truncate_loop.induct)
  case (2 bdb i sv)
  obtain st d where t: "sp_truncate bdb (sv_dbs sv ! i) = (st, d)" by force
  show ?case
  proof (cases "st = 0")
    case True
    let ?sv = "sv\<lparr>sv_dbs := (sv_dbs sv)[i := d], sv_wrdb := i, sv_n := 0, sv_size := 0\<rparr>"
    have "truncate_loop bdb i ?sv = (status, sv')" using "2.prems"(1) True t by (simp add: Let_def)
    moreover have "spoolbdbv_inv ?sv" using "2.prems" by (simp add: spoolbdbv_inv_def)
    ultimately show ?thesis using "2.IH" [OF t [symmetric] refl refl True] "2.prems"(3) by simp
  next
    case False
    then show ?thesis using "2.prems" t by (auto simp: Let_def spoolbdbv_inv_def)
  qed
qed simp

lemma spoolbdbv_truncate_keeps:
  assumes "spoolbdbv_inv sv" and "spoolbdbv_truncate bdb lock sv = (status, sv')"
  shows "spoolbdbv_inv sv' \<and> sv_maxsize sv' = sv_maxsize sv"
  using assms truncate_loop_keeps [of bdb "length (sv_dbs sv)" sv status sv']
  by (auto simp: spoolbdbv_truncate_def split: if_splits)

text \<open>Each stage of an insertion keeps the invariant of the databases and leaves the slots alone.\<close>

definition spool_state :: "u32 \<Rightarrow> spoolbuf_slots_st \<Rightarrow> 'd mspoolbdb_st \<Rightarrow> bool" where
  "spool_state maxsize ss ms \<longleftrightarrow>
     spoolbdbv_inv (ms_spoolbdbv ms) \<and> sv_maxsize (ms_spoolbdbv ms) = maxsize \<and> ms_spoolslots ms = ss"

lemma spool_state_stage:
  assumes st: "spool_state maxsize ss ms" and nowrap: "unat maxsize < 2 ^ 31"
  shows "mspoolbdb_insert env ms fkey data n = (status, ms') \<Longrightarrow> spool_state maxsize ss ms'"
    and "mspoolbdb_truncate_oldest env ms = (status, ms') \<Longrightarrow> spool_state maxsize ss ms'"
    and "mspoolbdb_truncate env ms = (status, ms') \<Longrightarrow> spool_state maxsize ss ms'"
proof -
  let ?sv = "ms_spoolbdbv ms" let ?b = "ms_bdb env" let ?l = "ms_db_lock env"
  have inv: "spoolbdbv_inv ?sv" and max: "unat (sv_maxsize ?sv) < 2 ^ 31" using st nowrap by (simp_all add: spool_state_def)
  obtain s1 v1 where w: "spoolbdbv_write2 ?b ?l ?sv fkey data n = (s1, v1)" by force
  obtain s2 v2 where o: "spoolbdbv_truncate_oldest ?b ?l ?sv = (s2, v2)" by force
  obtain s3 v3 where t: "spoolbdbv_truncate ?b ?l ?sv = (s3, v3)" by force
  show "mspoolbdb_insert env ms fkey data n = (status, ms') \<Longrightarrow> spool_state maxsize ss ms'"
    using spoolbdbv_write2_keeps [OF inv max w] st by (auto simp: mspoolbdb_insert_def w spool_state_def)
  show "mspoolbdb_truncate_oldest env ms = (status, ms') \<Longrightarrow> spool_state maxsize ss ms'"
    using spoolbdbv_truncate_oldest_keeps [OF inv o] st by (auto simp: mspoolbdb_truncate_oldest_def o spool_state_def)
  show "mspoolbdb_truncate env ms = (status, ms') \<Longrightarrow> spool_state maxsize ss ms'"
    using spoolbdbv_truncate_keeps [OF inv t] st by (auto simp: mspoolbdb_truncate_def t spool_state_def)
qed

lemma mspoolbdb_insert_newest:
  assumes laws: "sp_laws (ms_bdb env) M" and st: "spool_state maxsize ss ms" and nowrap: "unat maxsize < 2 ^ 31"
    and i: "mspoolbdb_insert env ms fkey data n = (0, ms')" and n: "length data = unat n"
  shows "newest (generations M (ms_spoolbdbv ms')) (cstr fkey) = Some data"
proof -
  let ?sv = "ms_spoolbdbv ms"
  have inv: "spoolbdbv_inv ?sv" and max: "unat (sv_maxsize ?sv) < 2 ^ 31" using st nowrap by (simp_all add: spool_state_def)
  have w: "spoolbdbv_write2_unlocked (ms_bdb env) ?sv fkey data n = (0, ms_spoolbdbv ms')"
    using i by (auto simp: mspoolbdb_insert_def spoolbdbv_write2_def split: prod.splits if_splits)
  have "generations M ?sv \<noteq> []" using inv length_generations [of M ?sv] by (force simp: spoolbdbv_inv_def)
  then show ?thesis unfolding write2_ok(1) [OF laws inv w n max] by (rule newest_write_gens_same)
qed

text \<open>A stage ends in a good state, and when its status is 0 its last action was an insertion.\<close>

definition stage_ok ::
  "'d ms_env \<Rightarrow> bytes \<Rightarrow> bytes \<Rightarrow> u32 \<Rightarrow> u32 \<Rightarrow> spoolbuf_slots_st \<Rightarrow> int \<times> 'd mspoolbdb_st \<Rightarrow> bool" where
  "stage_ok env fkey data n maxsize ss r \<longleftrightarrow> spool_state maxsize ss (snd r) \<and>
     (fst r = 0 \<longrightarrow> (\<exists>ms. spool_state maxsize ss ms \<and> mspoolbdb_insert env ms fkey data n = (0, snd r)))"

lemma stage_ok_insert:
  assumes "spool_state maxsize ss ms" and "unat maxsize < 2 ^ 31"
  shows "stage_ok env fkey data n maxsize ss (mspoolbdb_insert env ms fkey data n)"
proof -
  obtain st ms' where i: "mspoolbdb_insert env ms fkey data n = (st, ms')" by force
  with assms spool_state_stage(1) [OF assms i] show ?thesis by (auto simp: stage_ok_def)
qed

lemma stage_ok_retry:
  assumes ok: "stage_ok env fkey data n maxsize ss (st, ms)" and nowrap: "unat maxsize < 2 ^ 31"
    and T: "\<And>status ms'. T ms = (status, ms') \<Longrightarrow> spool_state maxsize ss ms'"
  shows "stage_ok env fkey data n maxsize ss (if st = ENOMEM
     then let (status, ms) = T ms in if status = 0 then mspoolbdb_insert env ms fkey data n else (status, ms) else (st, ms))"
proof -
  obtain st' ms' where t: "T ms = (st', ms')" by force
  note st' = T [OF t]
  show ?thesis using ok st' stage_ok_insert [OF st' nowrap] by (simp add: t stage_ok_def)
qed

lemma nbsp_mspoolbdb_insert1_ok:
  assumes laws: "sp_laws (ms_bdb env) M" and st: "spool_state maxsize ss ms" and nowrap: "unat maxsize < 2 ^ 31"
    and i: "nbsp_mspoolbdb_insert1 env ms path data (length data) = Some (0, ms')"
  obtains fkey where "get_fpath_key path = Some fkey" "spool_state maxsize ss ms'"
    "newest (generations M (ms_spoolbdbv ms')) (cstr fkey) = Some data" "int (length data) < 2 ^ 32"
proof -
  from i obtain fkey where k: "get_fpath_key path = Some fkey" and small: "int (length data) < 2 ^ 32"
    by (auto simp: nbsp_mspoolbdb_insert1_def bind_eq_Some_conv split: if_splits)
  let ?n = "of_nat (length data) :: u32" let ?ok = "stage_ok env fkey data ?n maxsize ss"
  have n: "length data = unat ?n" using small by (simp add: unat_of_nat)
  obtain s1 m1 where e1: "mspoolbdb_insert env ms fkey data ?n = (s1, m1)" by force
  obtain s2 m2 where e2: "(if s1 = ENOMEM then let (status, ms) = mspoolbdb_truncate_oldest env m1 in
      if status = 0 then mspoolbdb_insert env ms fkey data ?n else (status, ms) else (s1, m1)) = (s2, m2)" by force
  obtain s3 m3 where e3: "(if s2 = ENOMEM then let (status, ms) = mspoolbdb_truncate env m2 in
      if status = 0 then mspoolbdb_insert env ms fkey data ?n else (status, ms) else (s2, m2)) = (s3, m3)" by force
  have o1: "?ok (s1, m1)" using stage_ok_insert [OF st nowrap] e1 by metis
  then have "spool_state maxsize ss m1" by (simp add: stage_ok_def)
  from stage_ok_retry [OF o1 nowrap, of "mspoolbdb_truncate_oldest env"] spool_state_stage(2) [OF this nowrap]
  have o2: "?ok (s2, m2)" unfolding e2 by blast
  then have "spool_state maxsize ss m2" by (simp add: stage_ok_def)
  from stage_ok_retry [OF o2 nowrap, of "mspoolbdb_truncate env"] spool_state_stage(3) [OF this nowrap]
  have o3: "?ok (s3, m3)" unfolding e3 by blast
  have "nbsp_mspoolbdb_insert1 env ms path data (length data) = Some (if s3 \<noteq> 0 then -1 else 0, m3)"
    using small unfolding nbsp_mspoolbdb_insert1_def k bind.simps e1 Let_def prod.case e2 [unfolded Let_def] e3 [unfolded Let_def] by simp
  then have s3: "s3 = 0" "m3 = ms'" using i by (simp_all split: if_splits)
  with o3 obtain ms1 where ms1: "spool_state maxsize ss ms1" "mspoolbdb_insert env ms1 fkey data ?n = (0, ms')"
    by (auto simp: stage_ok_def)
  from that [OF k spool_state_stage(1) [OF ms1(1) nowrap ms1(2)] mspoolbdb_insert_newest [OF laws ms1(1) nowrap ms1(2) n] small]
  show ?thesis .
qed

section \<open>Reading a file through its slot\<close>

fun read_chunks :: "'d mspoolbdb_st \<Rightarrow> int \<Rightarrow> nat list \<Rightarrow> bytes option" where
  "read_chunks ms sd [] = Some []"
| "read_chunks ms sd (n # ns) = do {
     (data, ms) \<leftarrow> nbsp_mspoolbdb_read1 ms sd n;
     rest \<leftarrow> read_chunks ms sd ns;
     Some (data @ rest)
   }"

lemma read_chunks_contents:
  assumes "i < length (ss_spoolb (ms_spoolslots ms))" and "spoolbuf_inv (ss_spoolb (ms_spoolslots ms) ! i)"
    and "\<forall>n \<in> set ns. n < 2 ^ 32"
  shows "read_chunks ms (int i) ns = Some (take (sum_list ns)
     (drop (unat (sb_nread (ss_spoolb (ms_spoolslots ms) ! i))) (spoolbuf_contents (ss_spoolb (ms_spoolslots ms) ! i))))"
  using assms
proof (induction ns arbitrary: ms)
  case (Cons n ns)
  let ?ss = "ms_spoolslots ms" let ?sb = "ss_spoolb ?ss ! i"
  obtain sb where sb: "spoolbuf_read ?sb n = Some (take n (drop (unat (sb_nread ?sb)) (spoolbuf_contents ?sb)), sb)"
    "spoolbuf_inv sb" "spoolbuf_contents sb = spoolbuf_contents ?sb"
    "unat (sb_nread sb) = min (unat (sb_nread ?sb) + n) (length (spoolbuf_contents ?sb))"
    using spoolbuf_read_inv [OF Cons.prems(2), of n] Cons.prems(3) by auto
  let ?ms = "ms\<lparr>ms_spoolslots := ?ss\<lparr>ss_spoolb := (ss_spoolb ?ss)[i := sb]\<rparr>\<rparr>"
  have r: "nbsp_mspoolbdb_read1 ms (int i) n = Some (take n (drop (unat (sb_nread ?sb)) (spoolbuf_contents ?sb)), ?ms)"
    using sb(1) Cons.prems(1)
    by (simp add: nbsp_mspoolbdb_read1_def mspoolbdb_slots_read_def spoolbuf_slots_read_def ss_maxslots_def)
  have "read_chunks ?ms (int i) ns = Some (take (sum_list ns) (drop (unat (sb_nread sb)) (spoolbuf_contents sb)))"
    using Cons.IH [of ?ms] Cons.prems sb(2) by simp
  then show ?case using sb(3,4) r
    by (cases "unat (sb_nread ?sb) + n \<le> length (spoolbuf_contents ?sb)")
      (simp_all add: take_add min_def add.commute)
qed simp

lemma nbsp_mspoolbdb_open1_newest:
  assumes laws: "sp_laws (ms_bdb env) M" and locks: "ms_db_lock env = 0" "ms_slots_lock env = 0" "ms_slots_unlock env = 0"
    and alloc: "\<And>n. ms_alloc env n" and inv: "slots_inv (ms, ow)" "spoolbdbv_inv (ms_spoolbdbv ms)"
    and free: "ss_numslots (ms_spoolslots ms) \<noteq> ss_maxslots (ms_spoolslots ms)"
    and key: "get_fpath_key path = Some fkey" "newest (generations M (ms_spoolbdbv ms)) (cstr fkey) = Some data"
  obtains i ms' where "nbsp_mspoolbdb_open1 env waits ms path = Some (int i, ms')" "ow (int i) = None"
    "i < length (ss_spoolb (ms_spoolslots ms'))" "spoolbuf_inv (ss_spoolb (ms_spoolslots ms') ! i)"
    "spoolbuf_contents (ss_spoolb (ms_spoolslots ms') ! i) = data" "sb_nread (ss_spoolb (ms_spoolslots ms') ! i) = 0"
proof -
  let ?ss = "ms_spoolslots ms" let ?sv = "ms_spoolbdbv ms"
  have I: "length (ss_status ?ss) = length (ss_spoolb ?ss)" "\<forall>i < length (ss_spoolb ?ss). spoolbuf_inv (ss_spoolb ?ss ! i)"
    "dom ow = {int i | i. i < length (ss_status ?ss) \<and> ss_status ?ss ! i \<noteq> 0}"
    using inv(1) by (simp_all add: slots_inv_def Let_def)
  obtain i st sb where i: "i < length (ss_status ?ss)" "ss_status ?ss ! i = 0"
    and rd: "(st, sb) = spoolbdbv_read (ms_alloc env) (ms_bdb env) (ms_db_lock env) ?sv fkey (ss_spoolb ?ss ! i)"
    and o: "spoolbuf_slots_open1 env ?ss ?sv fkey (-1) 0 = Some (if st = 0
       then (0, int i, ?ss\<lparr>ss_spoolb := (ss_spoolb ?ss)[i := sb], ss_numslots := ss_numslots ?ss + 1, ss_status := (ss_status ?ss)[i := 1]\<rparr>)
       else (st, -1, ?ss\<lparr>ss_spoolb := (ss_spoolb ?ss)[i := sb]\<rparr>))"
    by (rule spoolbuf_slots_open1_outcome [OF laws I(1) slots_inv_free [OF inv(1) free] I(2)])
  have "spoolbuf_inv (ss_spoolb ?ss ! i)" using I i by simp
  then obtain sb' where "spoolbdbv_read (ms_alloc env) (ms_bdb env) 0 ?sv fkey (ss_spoolb ?ss ! i) = (0, sb')"
    and sb: "spoolbuf_inv sb'" "spoolbuf_contents sb' = data" "sb_nread sb' = 0"
    using spoolbdbv_read_newest [OF laws inv(2), of "ss_spoolb ?ss ! i" "ms_alloc env" fkey] alloc key(2) by auto
  then have "st = 0" "sb = sb'" using rd locks(1) by simp_all
  moreover have "int i \<notin> dom ow" using i(2) unfolding I(3) by auto
  then have "ow (int i) = None" by auto
  ultimately show ?thesis
    using that [of i "ms\<lparr>ms_spoolslots := ?ss\<lparr>ss_spoolb := (ss_spoolb ?ss)[i := sb], ss_numslots := ss_numslots ?ss + 1,
        ss_status := (ss_status ?ss)[i := 1]\<rparr>\<rparr>"] slots_open_free [OF free locks(2), of waits ?sv fkey "-1"] o sb I(1) i locks(3) key(1)
    by (simp add: nbsp_mspoolbdb_open1_def mspoolbdb_slots_open_def)
qed

section \<open>Properties\<close>

text \<open>
  C12. A product inserted in the memory spool with status 0, also when that needed the truncation of
  databases, is read back: opening its path gives a slot that no other thread has open, its size is
  the size of the product, and reading it in chunks of any sizes gives the bytes of the product in
  order.
\<close>

theorem mspool_roundtrip:
  assumes laws: "sp_laws (ms_bdb env) M" and locks: "ms_db_lock env = 0" "ms_slots_lock env = 0" "ms_slots_unlock env = 0"
    and alloc: "\<And>n. ms_alloc env n" and inv: "slots_inv (ms, ow)" "spoolbdbv_inv (ms_spoolbdbv ms)"
    and nowrap: "unat (sv_maxsize (ms_spoolbdbv ms)) < 2 ^ 31"
    and free: "ss_numslots (ms_spoolslots ms) \<noteq> ss_maxslots (ms_spoolslots ms)"
    and ins: "nbsp_mspoolbdb_insert1 env ms path data (length data) = Some (0, ms1)"
    and ns: "\<forall>n \<in> set ns. n < 2 ^ 32"
  shows "\<exists>sd ms2. nbsp_mspoolbdb_open1 env waits ms1 path = Some (sd, ms2) \<and> 0 \<le> sd \<and> ow sd = None \<and>
    nbsp_mspoolbdb_datasize1 ms2 sd = Some (length data) \<and> read_chunks ms2 sd ns = Some (take (sum_list ns) data)"
proof -
  have st: "spool_state (sv_maxsize (ms_spoolbdbv ms)) (ms_spoolslots ms) ms" using inv(2) by (simp add: spool_state_def)
  obtain fkey where k: "get_fpath_key path = Some fkey" "newest (generations M (ms_spoolbdbv ms1)) (cstr fkey) = Some data"
    and small: "int (length data) < 2 ^ 32" and st1: "spool_state (sv_maxsize (ms_spoolbdbv ms)) (ms_spoolslots ms) ms1"
    by (rule nbsp_mspoolbdb_insert1_ok [OF laws st nowrap ins])
  have inv1: "slots_inv (ms1, ow)" "spoolbdbv_inv (ms_spoolbdbv ms1)" "ss_numslots (ms_spoolslots ms1) \<noteq> ss_maxslots (ms_spoolslots ms1)"
    using inv free st1 by (simp_all add: slots_inv_def spool_state_def)
  obtain i ms2 where o: "nbsp_mspoolbdb_open1 env waits ms1 path = Some (int i, ms2)" "ow (int i) = None"
    and i: "i < length (ss_spoolb (ms_spoolslots ms2))" "spoolbuf_inv (ss_spoolb (ms_spoolslots ms2) ! i)"
      "spoolbuf_contents (ss_spoolb (ms_spoolslots ms2) ! i) = data" "sb_nread (ss_spoolb (ms_spoolslots ms2) ! i) = 0"
    by (rule nbsp_mspoolbdb_open1_newest [OF laws locks alloc inv1 k])
  have "spoolbuf_datasize (ss_spoolb (ms_spoolslots ms2) ! i) = length data"
    using i(2,3) by (auto simp: spoolbuf_datasize_def spoolbuf_contents_def spoolbuf_inv_def word_le_nat_alt split: option.splits)
  then show ?thesis using o i read_chunks_contents [OF i(1,2) ns]
    by (simp add: nbsp_mspoolbdb_datasize1_def mspoolbdb_slots_datasize_def spoolbuf_slots_datasize_def ss_maxslots_def)
qed

text \<open>
  C9. Whatever the order of the operations of the readers and the processor, the number of open slots
  is the number of slots in use and never exceeds the array, each open slot keeps the file it was
  opened with until it is closed, and while there is a free slot an opening returns, never in a slot
  that is in use.
\<close>

theorem mspool_slots_isolated:
  assumes laws: "sp_laws (ms_bdb env) M" and unlock: "ms_slots_unlock env = 0" and reach: "slots_reachable env (ms, ow)"
  shows "ss_numslots (ms_spoolslots ms) = int (card (dom ow)) \<and> ss_numslots (ms_spoolslots ms) \<le> ss_maxslots (ms_spoolslots ms) \<and>
    (\<forall>sd f. ow sd = Some f \<longrightarrow> 0 \<le> sd \<and> sd < ss_maxslots (ms_spoolslots ms) \<and>
       spoolbuf_contents (ss_spoolb (ms_spoolslots ms) ! nat sd) = f) \<and>
    (ss_numslots (ms_spoolslots ms) \<noteq> ss_maxslots (ms_spoolslots ms) \<longrightarrow>
       (\<exists>status sd ms'. mspoolbdb_slots_open env [] ms fkey (-1) = Some (status, sd, ms') \<and> (status = 0 \<longrightarrow> ow sd = None)))"
proof -
  let ?ss = "ms_spoolslots ms"
  have inv: "slots_inv (ms, ow)" by (rule slots_reachable_inv [OF laws unlock reach])
  have "dom ow = {int i | i. i < length (ss_status ?ss) \<and> ss_status ?ss ! i \<noteq> 0}"
    using inv by (simp add: slots_inv_def Let_def)
  then have "dom ow = int ` {i. i < length (ss_status ?ss) \<and> ss_status ?ss ! i \<noteq> 0}" by (simp add: setcompr_eq_image)
  then have "card (dom ow) = length (filter (\<lambda>st. st \<noteq> 0) (ss_status ?ss))"
    by (simp add: card_image length_filter_conv_card)
  then have n: "ss_numslots ?ss = int (card (dom ow)) \<and> ss_numslots ?ss \<le> ss_maxslots ?ss"
    using inv length_filter_le [of "\<lambda>st. st \<noteq> 0" "ss_status ?ss"] by (simp add: slots_inv_def Let_def ss_maxslots_def)
  have own: "0 \<le> sd \<and> sd < ss_maxslots ?ss \<and> spoolbuf_contents (ss_spoolb ?ss ! nat sd) = f" if "ow sd = Some f" for sd f
    using inv that by (elim slots_inv_owned [of ms ow sd]) (simp_all add: ss_maxslots_def)
  have "\<exists>status sd ms'. mspoolbdb_slots_open env [] ms fkey (-1) = Some (status, sd, ms') \<and> (status = 0 \<longrightarrow> ow sd = None)"
    if free: "ss_numslots ?ss \<noteq> ss_maxslots ?ss"
  proof -
    have I: "length (ss_status ?ss) = length (ss_spoolb ?ss)" "\<forall>i < length (ss_spoolb ?ss). spoolbuf_inv (ss_spoolb ?ss ! i)"
      using inv by (simp_all add: slots_inv_def Let_def)
    have "\<exists>r. spoolbuf_slots_open1 env ?ss (ms_spoolbdbv ms) fkey (-1) 0 = Some r"
      by (rule spoolbuf_slots_open1_outcome [OF laws I(1) slots_inv_free [OF inv free] I(2)]) blast
    then have "\<exists>r. mspoolbdb_slots_open env [] ms fkey (-1) = Some r"
      by (cases "ms_slots_lock env = 0")
        (auto simp: mspoolbdb_slots_open_def slots_open_free [OF free], simp add: spoolbuf_slots_open_def)
    then obtain r where r: "mspoolbdb_slots_open env [] ms fkey (-1) = Some r" by blast
    obtain status sd ms' where "r = (status, sd, ms')" by (cases r) auto
    with r slots_inv_open(2) [OF laws unlock inv free] show ?thesis by blast
  qed
  with n own show ?thesis by blast
qed

text \<open>An empty spool of two databases and two slots, and the environment of its calls.\<close>

definition example_slots :: spoolbuf_slots_st where
  "example_slots = \<lparr>ss_numslots = 0, ss_spoolb = [empty_buf, empty_buf], ss_status = [0, 0]\<rparr>"

definition example_mspool :: "(bytes \<rightharpoonup> bytes) mspoolbdb_st" where
  "example_mspool = \<lparr>ms_spoolbdbv = empty_spool 2 8, ms_spoolslots = example_slots\<rparr>"

definition example_ms_env :: "(bytes \<rightharpoonup> bytes) ms_env" where
  "example_ms_env = \<lparr>ms_alloc = (\<lambda>n. True), ms_bdb = map_sp, ms_db_lock = 0, ms_slots_lock = 0, ms_slots_unlock = 0,
     ms_slots_signal = 0\<rparr>"

lemma example_slots_created: "spoolbuf_slots_create (\<lambda>n. True) 0 0 2 = Some (Some example_slots)"
proof -
  have "replicate 2 empty_buf = [empty_buf, empty_buf]" "replicate 2 (0 :: int) = [0, 0]" by (simp_all add: numeral_2_eq_2)
  moreover have "spoolbuf_create (\<lambda>n. True) = Some empty_buf"
    by (simp add: spoolbuf_create_def can_alloc_def empty_buf_def)
  ultimately show ?thesis by (simp add: spoolbuf_slots_create_def can_alloc_def example_slots_def)
qed

lemma example_mspool_reachable: "slots_reachable example_ms_env (example_mspool, Map.empty)"
  unfolding example_mspool_def by (rule slots_start [OF example_slots_created])

theorem mspool_slots_isolated_witness:
  "slots_reachable example_ms_env (example_mspool, Map.empty) \<and>
   (\<exists>status sd ms'. mspoolbdb_slots_open example_ms_env [] example_mspool [97] (-1) = Some (status, sd, ms'))"
proof -
  have laws: "sp_laws (ms_bdb example_ms_env) short_records" and u: "ms_slots_unlock example_ms_env = 0"
    using map_sp_laws by (simp_all add: example_ms_env_def)
  have free: "ss_numslots (ms_spoolslots example_mspool) \<noteq> ss_maxslots (ms_spoolslots example_mspool)"
    by (simp add: example_mspool_def example_slots_def ss_maxslots_def)
  from mspool_slots_isolated [OF laws u example_mspool_reachable, of "[97]"] free example_mspool_reachable
  show ?thesis by blast
qed

theorem mspool_roundtrip_witness:
  "\<exists>ms1 sd ms2. nbsp_mspoolbdb_insert1 example_ms_env example_mspool [97, 95, 49] [1, 2, 3, 4, 5] 5 = Some (0, ms1) \<and>
     nbsp_mspoolbdb_open1 example_ms_env [] ms1 [97, 95, 49] = Some (sd, ms2) \<and>
     read_chunks ms2 sd [2, 2, 2] = Some [1, 2, 3, 4, 5]"
proof -
  have laws: "sp_laws (ms_bdb example_ms_env) short_records"
    and e: "ms_db_lock example_ms_env = 0" "ms_slots_lock example_ms_env = 0" "ms_slots_unlock example_ms_env = 0" "\<And>n. ms_alloc example_ms_env n"
    using map_sp_laws by (simp_all add: example_ms_env_def)
  have inv: "slots_inv (example_mspool, Map.empty)"
    by (rule slots_reachable_inv [OF laws _ example_mspool_reachable]) (simp add: example_ms_env_def)
  have sv: "spoolbdbv_inv (ms_spoolbdbv example_mspool)" "unat (sv_maxsize (ms_spoolbdbv example_mspool)) < 2 ^ 31"
    by (simp_all add: example_mspool_def empty_spool_def spoolbdbv_inv_def)
  have free: "ss_numslots (ms_spoolslots example_mspool) \<noteq> ss_maxslots (ms_spoolslots example_mspool)"
    by (simp add: example_mspool_def example_slots_def ss_maxslots_def)
  have "map_option fst (nbsp_mspoolbdb_insert1 example_ms_env example_mspool [97, 95, 49] [1, 2, 3, 4, 5] 5) = Some 0" by code_simp
  then obtain ms1 where ms1: "nbsp_mspoolbdb_insert1 example_ms_env example_mspool [97, 95, 49] [1, 2, 3, 4, 5] 5 = Some (0, ms1)" by auto
  then have i: "nbsp_mspoolbdb_insert1 example_ms_env example_mspool [97, 95, 49] [1, 2, 3, 4, 5] (length [1, 2, 3, 4, 5 :: byte]) = Some (0, ms1)"
    by (simp add: eval_nat_numeral)
  have ns: "\<forall>n \<in> set [2, 2, 2 :: nat]. n < 2 ^ 32" by simp
  from mspool_roundtrip [OF laws e inv sv free i ns, of "[]"] ms1 show ?thesis by auto
qed

end
