(* ===== verification/Ure.thy ===== *)
theory Ure
  imports Memfile "HOL-Library.Monad_Syntax"
begin

text \<open>
  Splitting of strings (\<^verbatim>\<open>src/strsplit.c\<close>), the lists of regular expressions that select products
  (\<^verbatim>\<open>src/ure.c\<close>) and the eight lists of the program (\<^verbatim>\<open>src/nbspre.c\<close>).

  A split string is the buffer with the delimiters overwritten by zeros and the offsets of the fields
  in it. \<^const>\<open>None\<close> is a null dereference, an access outside an array or a failed assertion. The functions
  \<^verbatim>\<open>regcomp\<close> and \<^verbatim>\<open>regexec\<close> are the parameters \<open>re_calls\<close>.
\<close>

section \<open>Splitting\<close>

record strsplit_st =
  sp_buf :: bytes
  sp_argc :: int
  sp_argv :: "nat list"

abbreviation STRSPLIT_FLAG_INCEMPTY :: int where "STRSPLIT_FLAG_INCEMPTY \<equiv> 0"
abbreviation STRSPLIT_FLAG_IGNEMPTY :: int where "STRSPLIT_FLAG_IGNEMPTY \<equiv> 1"
abbreviation SIZEOF_STRSPLIT :: nat where "SIZEOF_STRSPLIT \<equiv> 24"

text \<open>
  The count of the fields: \<open>b\<close> characters in the current field, \<open>n\<close> fields before it. The counters do not
  overflow for strings of less than 2 GB, the only ones considered.
\<close>

fun count_fields :: "bytes \<Rightarrow> int \<Rightarrow> bytes \<Rightarrow> int \<Rightarrow> int \<Rightarrow> int" where
  "count_fields delim flags [] b n = (if b \<noteq> 0 \<or> flags = STRSPLIT_FLAG_INCEMPTY then n + 1 else n)"
| "count_fields delim flags (c # cs) b n =
     (if c \<in> set delim then
        count_fields delim flags cs 0 (if b \<noteq> 0 \<or> flags = STRSPLIT_FLAG_INCEMPTY then n + 1 else n)
      else count_fields delim flags cs (b + 1) n)"

definition strsplit_init :: "allocator \<Rightarrow> int \<Rightarrow> bytes \<Rightarrow> strsplit_st option" where
  "strsplit_init alloc n s =
     (if can_alloc alloc (strlen s + 1) \<and> can_alloc alloc (8 * nat n) \<and> can_alloc alloc SIZEOF_STRSPLIT
      then Some \<lparr>sp_buf = cstr s @ [0], sp_argc = n, sp_argv = replicate (nat n) 0\<rparr> else None)"

text \<open>\<^verbatim>\<open>strsep\<close> of the C library, at an offset of the buffer.\<close>

definition strsep :: "bytes \<Rightarrow> bytes \<Rightarrow> nat \<Rightarrow> bytes \<times> nat option" where
  "strsep delim buf pos =
     (let j = pos + length (takeWhile (\<lambda>b. b \<noteq> 0 \<and> b \<notin> set delim) (drop pos buf)) in
      if j < length buf \<and> buf ! j \<noteq> 0 then (buf[j := 0], Some (j + 1)) else (buf, None))"

text \<open>The loop of \<^verbatim>\<open>strsplit\<close>: the offsets found so far are \<open>argv\<close>.\<close>

function strsplit_loop :: "bytes \<Rightarrow> int \<Rightarrow> int \<Rightarrow> bytes \<Rightarrow> nat \<Rightarrow> nat list \<Rightarrow> (bytes \<times> nat list) option" where
  "strsplit_loop delim flags argc buf pos argv =
     (case strsep delim buf pos of
        (buf', nextp) \<Rightarrow>
          if byte_at buf' pos \<noteq> 0 \<or> flags = STRSPLIT_FLAG_INCEMPTY then
            if int (length argv) \<ge> argc then None
            else (case nextp of None \<Rightarrow> Some (buf', argv @ [pos])
                  | Some p \<Rightarrow> strsplit_loop delim flags argc buf' p (argv @ [pos]))
          else (case nextp of None \<Rightarrow> Some (buf', argv)
                | Some p \<Rightarrow> strsplit_loop delim flags argc buf' p argv))"
  by auto
termination
  by (relation "measure (\<lambda>(delim, flags, argc, buf, pos, argv). length buf - pos)")
    (auto simp: strsep_def Let_def split: if_splits)

declare strsplit_loop.simps [simp del]

definition strsplit :: "strsplit_st \<Rightarrow> bytes \<Rightarrow> int \<Rightarrow> strsplit_st option" where
  "strsplit strp delim flags = do {
     (buf, argv) \<leftarrow> strsplit_loop delim flags (sp_argc strp) (sp_buf strp) 0 [];
     if sp_argc strp = int (length argv) then Some (strp\<lparr>sp_buf := buf, sp_argv := argv\<rparr>) else None
   }"

text \<open>
  A structure that is large enough is reused, but the new string is not copied into it. The result
  \<open>Some None\<close> is the null pointer returned for an empty string; a failed allocation is dereferenced.
\<close>

definition strsplit_recreate ::
  "allocator \<Rightarrow> bytes option \<Rightarrow> bytes \<Rightarrow> int \<Rightarrow> strsplit_st option \<Rightarrow> strsplit_st option option" where
  "strsplit_recreate alloc s delim flags strp =
     (case s of
        None \<Rightarrow> Some None
      | Some s \<Rightarrow>
          if cstr s = [] then Some None
          else
            let n = count_fields delim flags (cstr s) 0 0;
                new_strp =
                  (case strp of
                     Some st \<Rightarrow> if sp_argc st \<ge> n \<and> strlen (sp_buf st) \<ge> strlen s then Some st else strsplit_init alloc n s
                   | None \<Rightarrow> strsplit_init alloc n s)
            in do {
              st \<leftarrow> new_strp;
              st \<leftarrow> strsplit st delim flags;
              Some (Some st)
            })"

definition strsplit_create :: "allocator \<Rightarrow> bytes option \<Rightarrow> bytes \<Rightarrow> int \<Rightarrow> strsplit_st option option" where
  "strsplit_create alloc s delim flags = strsplit_recreate alloc s delim flags None"

definition split_strings :: "strsplit_st \<Rightarrow> bytes list" where
  "split_strings st = map (\<lambda>i. cstr (drop i (sp_buf st))) (sp_argv st)"

section \<open>Lists of regular expressions\<close>

record 'r re_calls =
  re_comp :: "bytes \<Rightarrow> int + 'r"
  re_exec :: "'r \<Rightarrow> bytes \<Rightarrow> int"

abbreviation REG_NOMATCH :: int where "REG_NOMATCH \<equiv> 1"

abbreviation UWILDREGEX_FLAG_VALID :: int where "UWILDREGEX_FLAG_VALID \<equiv> 0"
abbreviation UWILDREGEX_FLAG_NULL :: int where "UWILDREGEX_FLAG_NULL \<equiv> 1"
abbreviation UWILDREGEX_FLAG_EMPTY :: int where "UWILDREGEX_FLAG_EMPTY \<equiv> 2"
abbreviation UWILDREGEX_FLAG_INVALID :: int where "UWILDREGEX_FLAG_INVALID \<equiv> 3"
abbreviation UWILDREGEX_DELIM :: bytes where "UWILDREGEX_DELIM \<equiv> [44]"
abbreviation UWILDREGEX_NEGCHAR :: byte where "UWILDREGEX_NEGCHAR \<equiv> 33"
abbreviation UWILDREGEX_ERRBUFFER_SIZE :: nat where "UWILDREGEX_ERRBUFFER_SIZE \<equiv> 128"
abbreviation SIZEOF_UWILDREGEX :: nat where "SIZEOF_UWILDREGEX \<equiv> 48"
abbreviation SIZEOF_REGEX :: nat where "SIZEOF_REGEX \<equiv> 64"

text \<open>The \<^verbatim>\<open>nre\<close> expressions; the text of the last error is left out.\<close>

record 'r uwildregex_st =
  ur_re :: "'r list"
  ur_negate_flag :: "int list"
  ur_flag :: int
  ur_errcode :: int

definition uwildregex_create :: "allocator \<Rightarrow> 'r uwildregex_st option" where
  "uwildregex_create alloc =
     (if can_alloc alloc SIZEOF_UWILDREGEX \<and> can_alloc alloc UWILDREGEX_ERRBUFFER_SIZE
      then Some \<lparr>ur_re = [], ur_negate_flag = [], ur_flag = UWILDREGEX_FLAG_NULL, ur_errcode = 0\<rparr> else None)"

text \<open>The loop that compiles the patterns: the error code, or the expressions with their flags.\<close>

fun compile_patterns :: "'r re_calls \<Rightarrow> bytes list \<Rightarrow> int + ('r \<times> int) list" where
  "compile_patterns re [] = Inr []"
| "compile_patterns re (p # ps) =
     (let (neg, p) = (if p \<noteq> [] \<and> hd p = UWILDREGEX_NEGCHAR then (1, tl p) else (0, p)) in
      case re_comp re p of
        Inl e \<Rightarrow> Inl e
      | Inr r \<Rightarrow> (case compile_patterns re ps of Inl e \<Rightarrow> Inl e | Inr rs \<Rightarrow> Inr ((r, neg) # rs)))"

text \<open>\<open>Some\<close> of the status and the structure.\<close>

definition uwildregex_init ::
  "allocator \<Rightarrow> 'r re_calls \<Rightarrow> 'r uwildregex_st \<Rightarrow> bytes option \<Rightarrow> (int \<times> 'r uwildregex_st) option" where
  "uwildregex_init alloc re r uwildregex =
     (case uwildregex of
        None \<Rightarrow> Some (0, r\<lparr>ur_flag := UWILDREGEX_FLAG_NULL\<rparr>)
      | Some patt \<Rightarrow>
          if cstr patt = [] then Some (0, r\<lparr>ur_flag := UWILDREGEX_FLAG_EMPTY\<rparr>)
          else do {
            uwildsplit \<leftarrow> strsplit_create alloc (Some patt) UWILDREGEX_DELIM STRSPLIT_FLAG_IGNEMPTY;
            (case uwildsplit of
               None \<Rightarrow> Some (-1, r)
             | Some uwildsplit \<Rightarrow>
                 if \<not> can_alloc alloc (SIZEOF_REGEX * nat (sp_argc uwildsplit)) \<or> \<not> can_alloc alloc (4 * nat (sp_argc uwildsplit))
                 then Some (-1, r)
                 else
                   case compile_patterns re (split_strings uwildsplit) of
                     Inl e \<Rightarrow> Some (1, r\<lparr>ur_errcode := e, ur_flag := UWILDREGEX_FLAG_INVALID, ur_re := []\<rparr>)
                   | Inr rs \<Rightarrow> Some (0, r\<lparr>ur_re := map fst rs, ur_negate_flag := map snd rs,
                         ur_flag := UWILDREGEX_FLAG_VALID\<rparr>))
          })"

fun match_loop :: "'r re_calls \<Rightarrow> bytes \<Rightarrow> ('r \<times> int) list \<Rightarrow> int \<Rightarrow> int" where
  "match_loop re s [] status = status"
| "match_loop re s ((r, neg) # rs) status =
     (let errcode = re_exec re r s in
      if errcode = 0 then match_loop re s rs neg
      else if errcode \<noteq> REG_NOMATCH then -1
      else match_loop re s rs status)"

definition uwildregex_match :: "'r re_calls \<Rightarrow> 'r uwildregex_st \<Rightarrow> bytes \<Rightarrow> int" where
  "uwildregex_match re r s =
     (if ur_flag r = UWILDREGEX_FLAG_NULL \<or> ur_flag r = UWILDREGEX_FLAG_INVALID then 0
      else if ur_flag r = UWILDREGEX_FLAG_EMPTY then 1
      else match_loop re s (zip (ur_re r) (ur_negate_flag r)) 1)"

section \<open>The lists of the program\<close>

record 'r nbsp_regex =
  np_regex :: "'r uwildregex_st"
  filterq_regex :: "'r uwildregex_st"
  serverq_regex :: "'r uwildregex_st"
  nbs1_regex :: "'r uwildregex_st"
  nbs2_regex :: "'r uwildregex_st"
  emwin_regex :: "'r uwildregex_st"
  savez_regex :: "'r uwildregex_st"
  rtxdb_regex :: "'r uwildregex_st"

text \<open>The status, and the structure when it is 0.\<close>

definition nbsp_regex_create :: "allocator \<Rightarrow> 'r re_calls \<Rightarrow> bytes option \<Rightarrow> (int \<times> 'r uwildregex_st option) option" where
  "nbsp_regex_create alloc re patt_accept =
     (case uwildregex_create alloc of
        None \<Rightarrow> Some (-1, None)
      | Some rp \<Rightarrow> do {
          (status, rp) \<leftarrow> uwildregex_init alloc re rp patt_accept;
          Some (status, if status = 0 then Some rp else None)
        })"

text \<open>One after the other, up to the first that fails.\<close>

fun create_regexes :: "allocator \<Rightarrow> 'r re_calls \<Rightarrow> bytes option list \<Rightarrow> (int \<times> 'r uwildregex_st list) option" where
  "create_regexes alloc re [] = Some (0, [])"
| "create_regexes alloc re (p # ps) = do {
     (status, rp) \<leftarrow> nbsp_regex_create alloc re p;
     (case rp of
        None \<Rightarrow> Some (status, [])
      | Some rp \<Rightarrow> do {
          (status, rs) \<leftarrow> create_regexes alloc re ps;
          Some (status, rp # rs)
        })
   }"

text \<open>The patterns are in the order of the source: np, filterq, serverq, nbs1, nbs2, emwin, savez, rtxdb.\<close>

definition init_nbsp_regex :: "allocator \<Rightarrow> 'r re_calls \<Rightarrow> bytes option list \<Rightarrow> (int \<times> 'r nbsp_regex option) option" where
  "init_nbsp_regex alloc re patts = do {
     (status, rs) \<leftarrow> create_regexes alloc re patts;
     Some (case rs of
        [np, filterq, serverq, nbs1, nbs2, emwin, savez, rtxdb] \<Rightarrow>
          (status, Some \<lparr>np_regex = np, filterq_regex = filterq, serverq_regex = serverq, nbs1_regex = nbs1,
             nbs2_regex = nbs2, emwin_regex = emwin, savez_regex = savez, rtxdb_regex = rtxdb\<rparr>)
      | _ \<Rightarrow> (status, None))
   }"

definition np_regex_match :: "'r re_calls \<Rightarrow> 'r nbsp_regex \<Rightarrow> bytes \<Rightarrow> int" where
  "np_regex_match re g name = uwildregex_match re (np_regex g) name"

definition filterq_regex_match :: "'r re_calls \<Rightarrow> 'r nbsp_regex \<Rightarrow> bytes \<Rightarrow> int" where
  "filterq_regex_match re g name = uwildregex_match re (filterq_regex g) name"

definition serverq_regex_match :: "'r re_calls \<Rightarrow> 'r nbsp_regex \<Rightarrow> bytes \<Rightarrow> int" where
  "serverq_regex_match re g name = uwildregex_match re (serverq_regex g) name"

definition nbs1_regex_match :: "'r re_calls \<Rightarrow> 'r nbsp_regex \<Rightarrow> bytes \<Rightarrow> int" where
  "nbs1_regex_match re g name = uwildregex_match re (nbs1_regex g) name"

definition nbs2_regex_match :: "'r re_calls \<Rightarrow> 'r nbsp_regex \<Rightarrow> bytes \<Rightarrow> int" where
  "nbs2_regex_match re g name = uwildregex_match re (nbs2_regex g) name"

definition emwin_regex_match :: "'r re_calls \<Rightarrow> 'r nbsp_regex \<Rightarrow> bytes \<Rightarrow> int" where
  "emwin_regex_match re g name = uwildregex_match re (emwin_regex g) name"

definition savez_regex_match :: "'r re_calls \<Rightarrow> 'r nbsp_regex \<Rightarrow> bytes \<Rightarrow> int" where
  "savez_regex_match re g name = uwildregex_match re (savez_regex g) name"

definition rtxdb_regex_match :: "'r re_calls \<Rightarrow> 'r nbsp_regex \<Rightarrow> bytes \<Rightarrow> int" where
  "rtxdb_regex_match re g name = uwildregex_match re (rtxdb_regex g) name"

section \<open>Splitting is splitting\<close>

text \<open>The reference: the fields between the delimiters, empty ones included.\<close>

fun split_by :: "('a \<Rightarrow> bool) \<Rightarrow> 'a list \<Rightarrow> 'a list list" where
  "split_by P [] = [[]]"
| "split_by P (c # cs) =
     (if P c then [] # split_by P cs else (case split_by P cs of f # fs \<Rightarrow> (c # f) # fs | [] \<Rightarrow> [[c]]))"

definition wanted :: "int \<Rightarrow> bytes list \<Rightarrow> bytes list" where
  "wanted flags fs = filter (\<lambda>f. f \<noteq> [] \<or> flags = STRSPLIT_FLAG_INCEMPTY) fs"

lemma split_by_nonempty [simp]: "split_by P cs \<noteq> []"
  by (induction cs) (auto split: list.splits)

lemma split_by_field: "(\<And>x. x \<in> set f \<Longrightarrow> \<not> P x) \<Longrightarrow> split_by P f = [f]"
  by (induction f) auto

lemma split_by_delim: "(\<And>x. x \<in> set f \<Longrightarrow> \<not> P x) \<Longrightarrow> P c \<Longrightarrow> split_by P (f @ c # cs) = f # split_by P cs"
  by (induction f) auto

lemma count_fields_split:
  "0 \<le> b \<Longrightarrow> count_fields delim flags cs b n =
     n + (if b \<noteq> 0 \<or> hd (split_by (\<lambda>c. c \<in> set delim) cs) \<noteq> [] \<or> flags = STRSPLIT_FLAG_INCEMPTY then 1 else 0) +
     int (length (wanted flags (tl (split_by (\<lambda>c. c \<in> set delim) cs))))"
proof (induction cs arbitrary: b n)
  case (Cons c cs)
  obtain f fs where f: "split_by (\<lambda>c. c \<in> set delim) cs = f # fs" by (cases "split_by (\<lambda>c. c \<in> set delim) cs") auto
  show ?case using Cons.prems Cons.IH [of 0] Cons.IH [of "b + 1"] f by (auto simp: wanted_def)
qed (simp add: wanted_def)

lemma count_fields_wanted:
  "count_fields delim flags cs 0 0 = int (length (wanted flags (split_by (\<lambda>c. c \<in> set delim) cs)))"
  using count_fields_split [of 0 delim flags cs 0]
  by (cases "split_by (\<lambda>c. c \<in> set delim) cs") (auto simp: wanted_def)

lemma strsep_last:
  assumes "0 \<notin> set f" and "set f \<inter> set delim = {}"
  shows "strsep delim (pre @ f @ [0]) (length pre) = (pre @ f @ [0], None)"
proof -
  have "takeWhile (\<lambda>b. b \<noteq> 0 \<and> b \<notin> set delim) (f @ [0]) = f"
    using assms by (subst takeWhile_append2) auto
  then show ?thesis by (simp add: strsep_def nth_append)
qed

lemma strsep_field:
  assumes "0 \<notin> set f" and "set f \<inter> set delim = {}" and "c \<noteq> 0" and "c \<in> set delim"
  shows "strsep delim (pre @ f @ c # rest) (length pre) = (pre @ f @ 0 # rest, Some (Suc (length pre + length f)))"
proof -
  have "takeWhile (\<lambda>b. b \<noteq> 0 \<and> b \<notin> set delim) (f @ c # rest) = f"
    using assms by (subst takeWhile_append2) auto
  then show ?thesis using assms(3) by (simp add: strsep_def nth_append list_update_append)
qed

lemma cstr_field: "0 \<notin> set f \<Longrightarrow> cstr (f @ 0 # rest) = f"
  unfolding cstr_def by (subst takeWhile_append2) auto

lemma byte_at_field: "0 \<notin> set f \<Longrightarrow> (byte_at (pre @ f @ 0 # rest) (length pre) \<noteq> 0) = (f \<noteq> [])"
  by (cases f) (auto simp: byte_at_def nth_append)

text \<open>The first field of a string, and the delimiter and the string after it.\<close>

lemma first_field:
  obtains f where "cs = f" "set f \<inter> D = {}"
  | f c r where "cs = f @ c # r" "set f \<inter> D = {}" "c \<in> D"
proof (cases "set cs \<inter> D = {}")
  case False
  then obtain x where "x \<in> set cs" "x \<in> D" by blast
  from split_list_first_prop [of cs "\<lambda>x. x \<in> D"] this show ?thesis using that(2) by blast
qed (use that(1) in blast)

text \<open>
  From a position after a zero the loop finds the wanted fields of the rest; what is before the
  position does not change.
\<close>

lemma strsplit_loop_fields:
  assumes "0 \<notin> set cs" and "int (length argv + length (wanted flags (split_by (\<lambda>c. c \<in> set delim) cs))) \<le> argc"
  shows "\<exists>t offs. strsplit_loop delim flags argc (pre @ cs @ [0]) (length pre) argv = Some (pre @ t, argv @ offs) \<and>
     (\<forall>i \<in> set offs. length pre \<le> i) \<and>
     map (\<lambda>i. cstr (drop i (pre @ t))) offs = wanted flags (split_by (\<lambda>c. c \<in> set delim) cs)"
  using assms
proof (induction "length cs" arbitrary: cs pre argv rule: less_induct)
  case less
  let ?S = "split_by (\<lambda>c. c \<in> set delim)"
  show ?case
  proof (cases rule: first_field [of cs "set delim"])
    case (1 f)
    then have S: "?S cs = [cs]" by (intro split_by_field) auto
    have "strsep delim (pre @ cs @ [0]) (length pre) = (pre @ cs @ [0], None)" using strsep_last less.prems(1) 1 by simp
    then have "strsplit_loop delim flags argc (pre @ cs @ [0]) (length pre) argv =
        (if cs \<noteq> [] \<or> flags = STRSPLIT_FLAG_INCEMPTY then Some (pre @ cs @ [0], argv @ [length pre]) else Some (pre @ cs @ [0], argv))"
      using less.prems byte_at_field [of cs pre "[]"]
      by (subst strsplit_loop.simps) (auto simp: S wanted_def split: if_splits)
    then show ?thesis using less.prems(1) cstr_field [of cs "[]"]
      by (cases "cs \<noteq> [] \<or> flags = STRSPLIT_FLAG_INCEMPTY") (auto simp: S wanted_def)
  next
    case (2 f c r)
    let ?pre = "pre @ f @ [0]" let ?w = "f \<noteq> [] \<or> flags = STRSPLIT_FLAG_INCEMPTY"
    have S: "?S cs = f # ?S r" unfolding 2(1) using 2 by (intro split_by_delim) auto
    have z: "0 \<notin> set f" "c \<noteq> 0" "0 \<notin> set r" using less.prems(1) 2(1) by auto
    let ?argv = "if ?w then argv @ [length pre] else argv"
    have step: "strsplit_loop delim flags argc (pre @ cs @ [0]) (length pre) argv =
        strsplit_loop delim flags argc (?pre @ r @ [0]) (length ?pre) ?argv"
      using less.prems(2) strsep_field [OF z(1) 2(2) z(2) 2(3), of pre "r @ [0]"] byte_at_field [OF z(1), of pre "r @ [0]"]
      by (subst strsplit_loop.simps) (auto simp: 2(1) S [unfolded 2(1)] wanted_def split: if_splits)
    have "int (length ?argv + length (wanted flags (?S r))) \<le> argc" using less.prems(2) by (cases ?w) (auto simp: S wanted_def)
    from less.hyps [OF _ z(3) this, of ?pre] 2(1) obtain t offs where
      t: "strsplit_loop delim flags argc (?pre @ r @ [0]) (length ?pre) ?argv = Some (?pre @ t, ?argv @ offs)"
        "\<forall>i \<in> set offs. length ?pre \<le> i" "map (\<lambda>i. cstr (drop i (?pre @ t))) offs = wanted flags (?S r)" by auto
    have "cstr (drop (length pre) (?pre @ t)) = f" using cstr_field [OF z(1)] by simp
    then show ?thesis using t step
      by (intro exI [of _ "f @ 0 # t"] exI [of _ "(if ?w then [length pre] else []) @ offs"]) (auto simp: S wanted_def)
  qed
qed

lemma strsplit_create_fields:
  assumes "\<forall>n. alloc n" and "cstr s \<noteq> []" and "int (length s) < 2 ^ 32"
  shows "\<exists>st. strsplit_create alloc (Some s) delim flags = Some (Some st) \<and>
     split_strings st = wanted flags (split_by (\<lambda>c. c \<in> set delim) (cstr s)) \<and> sp_argc st = int (length (sp_argv st))"
proof -
  let ?fs = "wanted flags (split_by (\<lambda>c. c \<in> set delim) (cstr s))" let ?n = "count_fields delim flags (cstr s) 0 0"
  have z: "0 \<notin> set (cstr s)" by (auto simp: cstr_def dest: set_takeWhileD)
  have n: "?n = int (length ?fs)" by (rule count_fields_wanted)
  have le: "length (split_by P (cs :: bytes)) \<le> Suc (length cs)" for P cs
    by (induction cs) (auto split: list.splits)
  have "length ?fs \<le> Suc (length (cstr s))" unfolding wanted_def by (rule order_trans [OF length_filter_le le])
  moreover have "length (cstr s) \<le> length s" unfolding cstr_def by (rule length_takeWhile_le)
  ultimately have "can_alloc alloc (strlen s + 1)" "can_alloc alloc (8 * nat ?n)" "can_alloc alloc SIZEOF_STRSPLIT"
    using assms(1,3) n by (simp_all add: can_alloc_def strlen_def)
  then have i: "strsplit_init alloc ?n s = Some \<lparr>sp_buf = cstr s @ [0], sp_argc = ?n, sp_argv = replicate (nat ?n) 0\<rparr>"
    by (simp add: strsplit_init_def)
  obtain t offs where "strsplit_loop delim flags ?n (cstr s @ [0]) 0 [] = Some (t, offs)" "map (\<lambda>i. cstr (drop i t)) offs = ?fs"
    using strsplit_loop_fields [OF z, of "[]" flags delim ?n "[]"] n by auto
  moreover from this(2) have "length offs = length ?fs" by (metis length_map)
  ultimately show ?thesis using assms(2) i
    by (simp add: strsplit_create_def strsplit_recreate_def Let_def strsplit_def split_strings_def n)
qed

section \<open>Selection\<close>

text \<open>
  The reference: the patterns are tried from left to right and the last one that matches decides.
\<close>

definition pattern_of :: "bytes \<Rightarrow> int \<times> bytes" where
  "pattern_of p = (if p \<noteq> [] \<and> hd p = UWILDREGEX_NEGCHAR then (1, tl p) else (0, p))"

definition last_match :: "(bytes \<Rightarrow> bytes \<Rightarrow> bool) \<Rightarrow> bytes list \<Rightarrow> bytes \<Rightarrow> int" where
  "last_match matches ps s =
     (case rev (filter (\<lambda>p. matches (snd (pattern_of p)) s) ps) of [] \<Rightarrow> 1 | p # _ \<Rightarrow> fst (pattern_of p))"

text \<open>
  What is relied on for the patterns of a list: they compile, and an expression either matches or not,
  \<open>matches\<close> telling which.
\<close>

definition re_laws :: "'r re_calls \<Rightarrow> (bytes \<Rightarrow> bytes \<Rightarrow> bool) \<Rightarrow> bytes set \<Rightarrow> bool" where
  "re_laws re matches ps \<longleftrightarrow>
     (\<forall>p \<in> ps. \<exists>r. re_comp re p = Inr r \<and> (\<forall>s. re_exec re r s = (if matches p s then 0 else REG_NOMATCH)))"

lemma compile_patterns_ok:
  assumes "re_laws re matches (snd ` pattern_of ` set ps)"
  shows "\<exists>rs. compile_patterns re ps = Inr rs \<and> length rs = length ps \<and>
     (\<forall>i < length ps. snd (rs ! i) = fst (pattern_of (ps ! i)) \<and>
        (\<forall>s. re_exec re (fst (rs ! i)) s = (if matches (snd (pattern_of (ps ! i))) s then 0 else REG_NOMATCH)))"
  using assms
proof (induction ps)
  case (Cons p ps)
  from Cons.prems obtain r where r: "re_comp re (snd (pattern_of p)) = Inr r"
      "\<forall>s. re_exec re r s = (if matches (snd (pattern_of p)) s then 0 else REG_NOMATCH)"
    by (auto simp: re_laws_def)
  from Cons obtain rs where rs: "compile_patterns re ps = Inr rs" "length rs = length ps"
     "\<forall>i < length ps. snd (rs ! i) = fst (pattern_of (ps ! i)) \<and>
        (\<forall>s. re_exec re (fst (rs ! i)) s = (if matches (snd (pattern_of (ps ! i))) s then 0 else REG_NOMATCH))"
    by (auto simp: re_laws_def)
  have "compile_patterns re (p # ps) = Inr ((r, fst (pattern_of p)) # rs)"
    using r(1) rs(1) by (auto simp: pattern_of_def split: if_splits)
  then show ?case using r(2) rs(2,3) by (auto simp: nth_Cons split: nat.splits)
qed simp

lemma match_loop_last:
  assumes "length rs = length ps"
    and "\<forall>i < length ps. snd (rs ! i) = fst (pattern_of (ps ! i)) \<and>
        re_exec re (fst (rs ! i)) s = (if matches (snd (pattern_of (ps ! i))) s then 0 else REG_NOMATCH)"
  shows "match_loop re s rs status =
    (case rev (filter (\<lambda>p. matches (snd (pattern_of p)) s) ps) of [] \<Rightarrow> status | p # _ \<Rightarrow> fst (pattern_of p))"
  using assms
proof (induction rs ps arbitrary: status rule: list_induct2)
  case (Cons r rs p ps)
  obtain q n where r: "r = (q, n)" by force
  have "\<forall>i < length ps. snd (rs ! i) = fst (pattern_of (ps ! i)) \<and>
        re_exec re (fst (rs ! i)) s = (if matches (snd (pattern_of (ps ! i))) s then 0 else REG_NOMATCH)"
    using Cons.prems by (metis Suc_less_eq length_Cons nth_Cons_Suc)
  note IH = Cons.IH [OF this]
  have "n = fst (pattern_of p)" "re_exec re q s = (if matches (snd (pattern_of p)) s then 0 else REG_NOMATCH)"
    using Cons.prems [rule_format, of 0] by (simp_all add: r)
  then show ?case using IH by (simp add: r Let_def split: list.splits)
qed simp

section \<open>Properties\<close>

text \<open>
  C16. Splitting a string returns, without running out of its array, exactly the fields between the
  delimiters in order; with the flag that ignores empty fields, those that are not empty.
\<close>

theorem strsplit_splits:
  assumes "\<forall>n. alloc n" and "cstr s \<noteq> []" and "int (length s) < 2 ^ 32"
  shows "\<exists>st. strsplit_create alloc (Some s) delim flags = Some (Some st) \<and>
     split_strings st = filter (\<lambda>f. f \<noteq> [] \<or> flags = STRSPLIT_FLAG_INCEMPTY) (split_by (\<lambda>c. c \<in> set delim) (cstr s))"
  using strsplit_create_fields [OF assms] by (auto simp: wanted_def)

theorem strsplit_splits_witness:
  "\<exists>st. strsplit_create (\<lambda>n. True) (Some (ascii ''ab,,c'')) [44] STRSPLIT_FLAG_IGNEMPTY = Some (Some st) \<and>
     split_strings st = [ascii ''ab'', ascii ''c'']"
proof -
  have "filter (\<lambda>f. f \<noteq> [] \<or> STRSPLIT_FLAG_IGNEMPTY = STRSPLIT_FLAG_INCEMPTY) (split_by (\<lambda>c. c \<in> set [44]) (cstr (ascii ''ab,,c''))) =
      [ascii ''ab'', ascii ''c'']" and "cstr (ascii ''ab,,c'') \<noteq> []" and "int (length (ascii ''ab,,c'')) < 2 ^ 32"
    by code_simp+
  with strsplit_splits [of "\<lambda>n. True" "ascii ''ab,,c''" "[44]" STRSPLIT_FLAG_IGNEMPTY] show ?thesis by simp
qed

text \<open>
  C15. A product name is selected by a list of patterns exactly as documented: the comma-separated
  patterns are applied from left to right, a leading exclamation mark negates one, and the name is
  accepted (0) if the last pattern that matches is not negated, rejected (1) if it is negated or
  nothing matches.
\<close>

theorem uwildregex_selects:
  assumes alloc: "\<forall>n. alloc n" and patt: "cstr patt \<noteq> []" "int (length patt) < 2 ^ 32"
    and ps: "ps = filter (\<lambda>f. f \<noteq> []) (split_by (\<lambda>c. c = 44) (cstr patt))"
    and laws: "re_laws re matches (snd ` pattern_of ` set ps)"
  shows "\<exists>r. nbsp_regex_create alloc re (Some patt) = Some (0, Some r) \<and> uwildregex_match re r s = last_match matches ps s"
proof -
  obtain st where st: "strsplit_create alloc (Some patt) UWILDREGEX_DELIM STRSPLIT_FLAG_IGNEMPTY = Some (Some st)"
      "split_strings st = ps" "sp_argc st = int (length (sp_argv st))"
    using strsplit_create_fields [OF alloc patt, of UWILDREGEX_DELIM STRSPLIT_FLAG_IGNEMPTY] ps by (auto simp: wanted_def)
  obtain rs where rs: "compile_patterns re ps = Inr rs" "length rs = length ps" 
     "\<forall>i < length ps. snd (rs ! i) = fst (pattern_of (ps ! i)) \<and>
        (\<forall>s. re_exec re (fst (rs ! i)) s = (if matches (snd (pattern_of (ps ! i))) s then 0 else REG_NOMATCH))"
    using compile_patterns_ok [OF laws] by blast
  have le: "length (split_by P (cs :: bytes)) \<le> Suc (length cs)" for P cs
    by (induction cs) (auto split: list.splits)
  have "length ps \<le> Suc (length (cstr patt))" unfolding ps by (rule order_trans [OF length_filter_le le])
  moreover have "length (cstr patt) \<le> length patt" unfolding cstr_def by (rule length_takeWhile_le)
  moreover have "length (sp_argv st) = length ps" using st(2) by (auto simp: split_strings_def)
  ultimately have a: "can_alloc alloc (SIZEOF_REGEX * nat (sp_argc st))" "can_alloc alloc (4 * nat (sp_argc st))"
      "can_alloc alloc SIZEOF_UWILDREGEX" "can_alloc alloc UWILDREGEX_ERRBUFFER_SIZE"
    using alloc patt(2) st(3) by (simp_all add: can_alloc_def)
  have m: "match_loop re s rs 1 = last_match matches ps s"
    unfolding last_match_def by (rule match_loop_last) (use rs in simp_all)
  have "zip (map fst rs) (map snd rs) = rs" by (simp add: zip_map_fst_snd)
  then show ?thesis using a patt(1) st rs(1) m
    by (simp add: nbsp_regex_create_def uwildregex_create_def uwildregex_init_def uwildregex_match_def)
qed

text \<open>A matcher of literal prefixes, for an instance of the library.\<close>

definition prefix_re :: "bytes re_calls" where
  "prefix_re = \<lparr>re_comp = Inr, re_exec = (\<lambda>p s. if take (length p) s = p then 0 else REG_NOMATCH)\<rparr>"

lemma prefix_re_laws: "re_laws prefix_re (\<lambda>p s. take (length p) s = p) ps"
  by (simp add: re_laws_def prefix_re_def)

theorem uwildregex_selects_witness:
  "\<exists>r. nbsp_regex_create (\<lambda>n. True) prefix_re (Some (ascii ''k,!kw'')) = Some (0, Some r) \<and>
     uwildregex_match prefix_re r (ascii ''kwbc'') = 1"
proof -
  have "last_match (\<lambda>p s. take (length p) s = p) (filter (\<lambda>f. f \<noteq> []) (split_by (\<lambda>c. c = 44) (cstr (ascii ''k,!kw'')))) (ascii ''kwbc'') = 1"
    and "cstr (ascii ''k,!kw'') \<noteq> []" and "int (length (ascii ''k,!kw'')) < 2 ^ 32" by code_simp+
  with uwildregex_selects [of "\<lambda>n. True" "ascii ''k,!kw''", OF _ _ _ refl prefix_re_laws, of "ascii ''kwbc''"] show ?thesis by simp
qed

text \<open>
  A structure that is reused for another string keeps the fields of the old one: after splitting
  ``abc'', splitting ``xyz'' in the same structure returns ``abc'' again.
\<close>

theorem strsplit_recreate_stale:
  "(case strsplit_create (\<lambda>n. True) (Some (ascii ''abc'')) (ascii '','') STRSPLIT_FLAG_IGNEMPTY of
      Some (Some st) \<Rightarrow>
        (case strsplit_recreate (\<lambda>n. True) (Some (ascii ''xyz'')) (ascii '','') STRSPLIT_FLAG_IGNEMPTY (Some st) of
           Some (Some st') \<Rightarrow> split_strings st' = [ascii ''abc'']
         | _ \<Rightarrow> False)
    | _ \<Rightarrow> False)"
  by code_simp

end
