(* ===== verification/Stoi.thy ===== *)
theory Stoi
  imports Memfile
begin

text \<open>
  The conversions of strings to numbers of \<^verbatim>\<open>src/stoi.c\<close>, with \<^verbatim>\<open>strtol\<close> and \<^verbatim>\<open>strtoul\<close> of the C library
  in base 10. The conversion to \<^verbatim>\<open>double\<close> is not modelled. The result is the status and the value stored.
\<close>

section \<open>The C library\<close>

fun number :: "bytes \<Rightarrow> nat \<Rightarrow> nat" where
  "number [] n = n"
| "number (d # ds) n = number ds (10 * n + (unat d - 48))"

text \<open>A number at the start of a string: its sign, its digits and what follows.\<close>

definition scan_number :: "bytes \<Rightarrow> (bool \<times> nat \<times> bytes) option" where
  "scan_number s =
     (let s = dropWhile isspace s;
          (neg, s) = (if s \<noteq> [] \<and> hd s = 45 then (True, tl s) else if s \<noteq> [] \<and> hd s = 43 then (False, tl s) else (False, s));
          ds = takeWhile isdigit s
      in if ds = [] then None else Some (neg, number ds 0, dropWhile isdigit s))"

text \<open>The value, what is not converted, and whether the value is out of range.\<close>

definition strtol :: "bytes \<Rightarrow> int \<times> bytes \<times> bool" where
  "strtol s =
     (case scan_number s of
        None \<Rightarrow> (0, s, False)
      | Some (neg, n, rest) \<Rightarrow>
          let v = (if neg then - int n else int n) in
          if v > 2 ^ 63 - 1 then (2 ^ 63 - 1, rest, True)
          else if v < - (2 ^ 63) then (- (2 ^ 63), rest, True)
          else (v, rest, False))"

definition strtoul :: "bytes \<Rightarrow> int \<times> bytes \<times> bool" where
  "strtoul s =
     (case scan_number s of
        None \<Rightarrow> (0, s, False)
      | Some (neg, n, rest) \<Rightarrow>
          if int n > 2 ^ 64 - 1 then (2 ^ 64 - 1, rest, True)
          else ((if neg then - int n else int n) mod 2 ^ 64, rest, False))"

section \<open>Conversions\<close>

definition strto_int :: "bytes \<Rightarrow> int \<Rightarrow> int \<times> int" where
  "strto_int s val =
     (case strtol (cstr s) of
        (v, end_s, erange) \<Rightarrow>
          if end_s = cstr s \<or> end_s \<noteq> [] \<or> erange then (1, val) else (0, c_int v))"

definition strto_uint :: "bytes \<Rightarrow> u32 \<Rightarrow> int \<times> u32" where
  "strto_uint s val =
     (case strtoul (cstr s) of
        (v, end_s, erange) \<Rightarrow>
          if end_s = cstr s \<or> end_s \<noteq> [] \<or> erange then (1, val) else (0, word_of_int v))"

definition strto_u16 :: "bytes \<Rightarrow> 16 word \<Rightarrow> int \<times> 16 word" where
  "strto_u16 s val =
     (let (status, u) = strto_uint s 0 in
      if status = 0 \<and> u \<le> 0xffff then (status, ucast u) else (1, val))"

definition strto_u32 :: "bytes \<Rightarrow> u32 \<Rightarrow> int \<times> u32" where
  "strto_u32 s val =
     (let (status, u) = strto_uint s 0 in
      if status = 0 \<and> u \<le> 0xffffffff then (status, u) else (1, val))"

section \<open>Printing and converting\<close>

lemma number_append: "number (xs @ ys) n = number ys (number xs n)"
  by (induction xs arbitrary: n) auto

lemma number_dec: "number (dec n) 0 = n"
proof (induction n rule: dec.induct)
  case (1 n)
  have d: "unat (48 + of_nat k :: byte) - 48 = k" if "k < 10" for k
    using that by (simp add: unat_word_ariths unat_of_nat)
  show ?case
  proof (cases "n < 10")
    case True
    then show ?thesis by (subst dec.simps) (simp add: d)
  next
    case False
    then show ?thesis using 1 [OF False] d [of "n mod 10"] by (subst dec.simps) (simp add: number_append)
  qed
qed

lemma scan_dec: "scan_number (dec n) = Some (False, n, [])"
proof -
  obtain d ds where dn: "dec n = d # ds" by (cases "dec n") auto
  have all: "\<forall>b \<in> set (dec n). isdigit b" using dec_digits by blast
  then have "isdigit d" by (simp add: dn)
  then have d: "\<not> isspace d" "d \<noteq> 45" "d \<noteq> 43" by (auto simp: isdigit_def isspace_def word_le_nat_alt)
  have "takeWhile isdigit (dec n) = dec n" "dropWhile isdigit (dec n) = []" using all by simp_all
  moreover have "dropWhile isspace (dec n) = dec n" using d(1) by (simp add: dn)
  ultimately show ?thesis using d number_dec [of n] by (simp add: scan_number_def dn)
qed

lemma cstr_dec [simp]: "cstr (dec n) = dec n"
  unfolding cstr_def by (rule takeWhile_eq_all_conv [THEN iffD2]) (metis dec_no_zero)

section \<open>Properties\<close>

text \<open>
  A number printed in decimal is converted back to itself if it has 32 bits. A number of up to 64
  bits that does not fit is not refused: it is accepted with its value modulo 2 to the 32.
\<close>

theorem strto_u32_decimal:
  assumes "int n < 2 ^ 64"
  shows "strto_u32 (dec n) val = (0, of_nat n)"
proof -
  have "strto_uint (dec n) 0 = (0, of_nat n)"
    using assms not_sym [OF dec_nonempty [of n]] by (simp add: strto_uint_def strtoul_def scan_dec)
  moreover have "(of_nat n :: u32) \<le> 0xffffffff"
    by (simp add: word_le_nat_alt unat_of_nat less_Suc_eq_le [symmetric])
  ultimately show ?thesis by (simp add: strto_u32_def)
qed

theorem strto_u32_decimal_witness: "strto_u32 (dec 4294967297) 7 = (0, 1)"
  using strto_u32_decimal [of 4294967297 7] by simp

end
