(* ===== verification/Processor.thy ===== *)
theory Processor
  imports Pctl Stats Nbspq Files Spooldb Rtxdb Mspool Ure
begin

text \<open>
  The product processor, \<^verbatim>\<open>src/nbsp.c\<close>, with the functions it uses of \<^verbatim>\<open>src/efile.c\<close>, \<^verbatim>\<open>src/spooltype.c\<close>,
  \<^verbatim>\<open>src/espooldb.c\<close> and \<^verbatim>\<open>src/qstate.c\<close>. It takes the products from the queue of the readers, decides
  about retransmissions, assembles and saves them in the spool, and announces them to the filters
  and to the server.

  The state \<open>proc_st\<close> has the globals it works on; \<open>proc_env\<close> has the configuration and the libraries.
  What is appended to the two log files of products is kept; the other messages are left out.
\<close>

section \<open>State\<close>

record ('q, 'b, 'n, 'd, 'f, 'x) proc_st =
  pr_pctl :: "('q, 'b) pctl_st"
  pr_stats :: nbsp_stats_st
  pr_queues :: "'n nbspq_globals"
  pr_fs :: 'f
  pr_spooldb :: "spooldb_st option"
  pr_mspool :: "'d mspoolbdb_st option"
  pr_cspool :: "'d mspoolbdb_st option"
  pr_rtxdb :: "'x nbsp_rtxdb_st option"
  pr_packetinfo :: packet_info_st
  pr_missinglog :: bytes
  pr_rtxlog :: bytes
  pr_rtxdb_truncate_flag :: int

record ('q, 'b, 'n, 'd, 'f, 'x, 'r) proc_env =
  pe_alloc :: allocator
  pe_bdb :: "('q, 'b) bdb"
  pe_lock :: int \<comment> \<open>of the product queue\<close>
  pe_waits :: "(int \<times> ('q, 'b) pctldb_st) list"
  pe_qbdb :: "'n qdb_calls"
  pe_qlock :: int \<comment> \<open>of the packet queues\<close>
  pe_fs :: "'f fs_calls"
  pe_copy_ok :: bool \<comment> \<open>a path can be copied\<close>
  pe_ms :: "'d ms_env"
  pe_rtx :: "'x rtx_calls"
  pe_re :: "'r re_calls"
  pe_regex :: "'r nbsp_regex"
  pe_uncompress :: uncompress
  pe_spooltype :: int
  pe_rtxdb_default_process :: int
  pe_logs_open :: bool \<comment> \<open>the log files can be opened\<close>
  pe_trylock :: int \<comment> \<open>of the truncation flag\<close>

section \<open>The kind of spool\<close>

abbreviation SPOOLTYPE_FS :: int where "SPOOLTYPE_FS \<equiv> 1"
abbreviation SPOOLTYPE_MBDB :: int where "SPOOLTYPE_MBDB \<equiv> 2"
abbreviation SPOOLTYPE_FMBDB :: int where "SPOOLTYPE_FMBDB \<equiv> 3"
abbreviation SPOOLTYPE_CBDB :: int where "SPOOLTYPE_CBDB \<equiv> 4"
abbreviation SPOOLTYPE_MCBDB :: int where "SPOOLTYPE_MCBDB \<equiv> 5"

definition spooltype_fsspool :: "int \<Rightarrow> int" where
  "spooltype_fsspool spooltype = (if spooltype = SPOOLTYPE_FS then 1 else 0)"

definition spooltype_mspool :: "int \<Rightarrow> int" where
  "spooltype_mspool spooltype = (if spooltype = SPOOLTYPE_MBDB \<or> spooltype = SPOOLTYPE_FMBDB then 1 else 0)"

definition spooltype_mspool_nodbhome :: "int \<Rightarrow> int" where
  "spooltype_mspool_nodbhome spooltype = (if spooltype = SPOOLTYPE_MBDB then 1 else 0)"

definition spooltype_cspool :: "int \<Rightarrow> int" where
  "spooltype_cspool spooltype = (if spooltype = SPOOLTYPE_CBDB \<or> spooltype = SPOOLTYPE_MCBDB then 1 else 0)"

definition spooltype_cspool_nofile :: "int \<Rightarrow> int" where
  "spooltype_cspool_nofile spooltype = (if spooltype = SPOOLTYPE_MCBDB then 1 else 0)"

section \<open>The bookkeeping of the spool directory\<close>

abbreviation SPOOLDB_SLOTS_MIN :: u32 where "SPOOLDB_SLOTS_MIN \<equiv> 1024"

definition nbsp_spooldb_delete_fpath :: "'f fs_calls \<Rightarrow> bytes \<Rightarrow> 'f \<Rightarrow> int \<times> 'f" where
  "nbsp_spooldb_delete_fpath fs path f = (if path = [] then (0, f) else file_delete fs path f)"

text \<open>\<open>saved\<close>: what the file of the array holds, and \<open>failed\<close>: which reads of it fail. The result: the status and \<^verbatim>\<open>g.spooldb\<close>.\<close>

definition nbsp_spooldb_open ::
  "allocator \<Rightarrow> 'f fs_calls \<Rightarrow> 'f \<Rightarrow> bytes \<Rightarrow> u32 \<Rightarrow> bytes \<Rightarrow> bool \<times> bool \<Rightarrow> spooldb_file option \<Rightarrow>
   (int \<times> spooldb_st option) option" where
  "nbsp_spooldb_open alloc fs f spooldir spooldb_slots spooldb_fname failed saved =
     (if spooldb_slots = 0 then Some (0, None)
      else
        let slots = (if spooldb_slots < SPOOLDB_SLOTS_MIN then SPOOLDB_SLOTS_MIN else spooldb_slots);
            keysize = int (const_fpath_maxsize spooldir + 1)
        in
        case spooldb_init alloc slots keysize of
          None \<Rightarrow> None
        | Some None \<Rightarrow> Some (-1, None)
        | Some (Some sd) \<Rightarrow>
            let status = file_exists fs spooldb_fname f in
            if status = 1 then Some (0, Some sd)
            else
              let (status, sd) = (if status = 0 then spooldb_read failed saved sd else (status, sd))
              in Some (status, if status \<noteq> 0 then None else Some sd))"

definition nbsp_spooldb_close :: "bool \<Rightarrow> int \<Rightarrow> (nat \<Rightarrow> int) \<Rightarrow> spooldb_st option \<Rightarrow> int \<times> spooldb_file option" where
  "nbsp_spooldb_close opened n_struct n_keys spooldb =
     (case spooldb of None \<Rightarrow> (0, None) | Some sd \<Rightarrow> spooldb_write opened n_struct n_keys sd)"

definition nbsp_spooldb_insert ::
  "'f fs_calls \<Rightarrow> spooldb_st option \<Rightarrow> bytes \<Rightarrow> 'f \<Rightarrow> (int \<times> spooldb_st option \<times> 'f) option" where
  "nbsp_spooldb_insert fs spooldb path f =
     (case spooldb of
        None \<Rightarrow> Some (0, None, f)
      | Some sd \<Rightarrow> do {
          (status, sd, f) \<leftarrow> spooldb_insert (nbsp_spooldb_delete_fpath fs) sd path f;
          Some (status, Some sd, f)
        })"

text \<open>The same functions for the other programs, in \<^verbatim>\<open>src/espooldb.c\<close>.\<close>

definition e_spooldb_delete_fpath :: "'f fs_calls \<Rightarrow> bytes \<Rightarrow> 'f \<Rightarrow> int \<times> 'f" where
  "e_spooldb_delete_fpath = nbsp_spooldb_delete_fpath"

definition e_spooldb_open ::
  "allocator \<Rightarrow> 'f fs_calls \<Rightarrow> 'f \<Rightarrow> bytes \<Rightarrow> u32 \<Rightarrow> bytes \<Rightarrow> bool \<times> bool \<Rightarrow> spooldb_file option \<Rightarrow>
   (int \<times> spooldb_st option) option" where
  "e_spooldb_open = nbsp_spooldb_open"

definition e_spooldb_close :: "bool \<Rightarrow> int \<Rightarrow> (nat \<Rightarrow> int) \<Rightarrow> spooldb_st option \<Rightarrow> int \<times> spooldb_file option" where
  "e_spooldb_close = nbsp_spooldb_close"

definition e_spooldb_insert ::
  "'f fs_calls \<Rightarrow> spooldb_st option \<Rightarrow> bytes \<Rightarrow> 'f \<Rightarrow> (int \<times> spooldb_st option \<times> 'f) option" where
  "e_spooldb_insert = nbsp_spooldb_insert"

section \<open>Saving a product\<close>

abbreviation SAVEFORMAT_NO_CCB :: int where "SAVEFORMAT_NO_CCB \<equiv> 1"

definition e_open_product_file :: "'f fs_calls \<Rightarrow> bool \<Rightarrow> pctl_element_st \<Rightarrow> 'f \<Rightarrow> int \<times> 'f" where
  "e_open_product_file fs copy_ok pce f =
     (let (status, f) = create_path_dirs fs copy_ok (fpath pce) f
      in if status = 0 then fs_open_trunc fs (fpath pce) f else (-1, f))"

definition strips_ccb :: "pctl_element_st \<Rightarrow> bool" where
  "strips_ccb pce \<longleftrightarrow> save_format pce = SAVEFORMAT_NO_CCB \<and> f_has_ccb pce = 1"

text \<open>The memory file is handed to \<^verbatim>\<open>write\<close> in one call, on the open file of the path.\<close>

definition pce_savefs_memfile ::
  "'f fs_calls \<Rightarrow> bool \<Rightarrow> pctl_element_st \<Rightarrow> memfile_st \<Rightarrow> 'f \<Rightarrow> int \<times> 'f" where
  "pce_savefs_memfile fs copy_ok pce mf f =
     (let (fd, f) = e_open_product_file fs copy_ok pce f in
      if fd = -1 then (-1, f)
      else
        let wr = (\<lambda>bs. fst (fs_write fs (fpath pce) bs f)) in
        if strips_ccb pce then
          if mf_size mf \<le> CCB_SIZE then (fst (save_memfile_skip wr mf CCB_SIZE), f)
          else (fst (save_memfile_skip wr mf CCB_SIZE),
                snd (fs_write fs (fpath pce) (take (mf_size mf - CCB_SIZE) (drop CCB_SIZE (mf_p mf))) f))
        else (fst (save_memfile wr mf), snd (fs_write fs (fpath pce) (take (mf_size mf) (mf_p mf)) f)))"

text \<open>
  The frames of a product saved frame by frame are put together, those that are compressed after
  uncompressing them. \<open>pmf\<close> is the memory file of the product, \<open>mf\<close> the one of the processor.
\<close>

fun mcat_loop ::
  "allocator \<Rightarrow> uncompress \<Rightarrow> nat \<Rightarrow> memfile_st \<Rightarrow> memfile_st \<Rightarrow> (int \<times> memfile_st \<times> memfile_st) option" where
  "mcat_loop alloc uncompress 0 pmf mf = Some (0, pmf, mf)"
| "mcat_loop alloc uncompress (Suc k) pmf mf = do {
     (pdata_size, off, f_compressed, pmf) \<leftarrow> get_memframe pmf;
     if pdata_size \<le> 0 then Some (2, pmf, mf)
     else do {
       off \<leftarrow> off;
       let pdata = drop off (mf_p pmf);
       let (status, pdata, pdata_size) =
         (if f_compressed = Some 1 then
            case unz uncompress [] (int MAX_FRDATA_SIZE) pdata pdata_size of
              (unz_status, unzdata, n) \<Rightarrow> if unz_status \<noteq> 0 then (1, pdata, n) else (0 :: int, unzdata, n)
          else (0, pdata, pdata_size));
       if status \<noteq> 0 then Some (status, pmf, mf)
       else do {
         (wstatus, mf) \<leftarrow> write_memfile alloc mf pdata pdata_size;
         if wstatus = -1 then Some (-1, pmf, mf) else mcat_loop alloc uncompress k pmf mf
       }
     }
   }"

definition pce_mcat_frames ::
  "allocator \<Rightarrow> uncompress \<Rightarrow> pctl_element_st \<Rightarrow> memfile_st \<Rightarrow> (int \<times> pctl_element_st \<times> memfile_st) option" where
  "pce_mcat_frames alloc uncompress pce mf = do {
     (status, pmf, mf) \<leftarrow> mcat_loop alloc uncompress (nat (num_fragments pce)) (pce_mf pce) mf;
     Some (status, pce\<lparr>pce_mf := pmf\<rparr>, mf)
   }"

text \<open>
  The functions of the memory spools compute the size without the CCB, but insert the whole memory
  file. A null spool is dereferenced.
\<close>

definition save_mspool ::
  "'d ms_env \<Rightarrow> 'd mspoolbdb_st option \<Rightarrow> pctl_element_st \<Rightarrow> memfile_st \<Rightarrow> (int \<times> 'd mspoolbdb_st option) option" where
  "save_mspool ms_env mspool pce mf =
     (if strips_ccb pce \<and> mf_size mf \<le> CCB_SIZE then Some (1, mspool)
      else do {
        ms \<leftarrow> mspool;
        (status, ms) \<leftarrow> nbsp_mspoolbdb_insert1 ms_env ms (fpath pce) (mf_p mf) (mf_size mf);
        Some (status, Some ms)
      })"

definition pce_savembdb_memfile ::
  "'d ms_env \<Rightarrow> pctl_element_st \<Rightarrow> memfile_st \<Rightarrow> ('q, 'b, 'n, 'd, 'f, 'x) proc_st \<Rightarrow>
   (int \<times> ('q, 'b, 'n, 'd, 'f, 'x) proc_st) option" where
  "pce_savembdb_memfile ms_env pce mf st = do {
     (status, ms) \<leftarrow> save_mspool ms_env (pr_mspool st) pce mf;
     Some (status, st\<lparr>pr_mspool := ms\<rparr>)
   }"

definition pce_savecbdb_memfile ::
  "'d ms_env \<Rightarrow> pctl_element_st \<Rightarrow> memfile_st \<Rightarrow> ('q, 'b, 'n, 'd, 'f, 'x) proc_st \<Rightarrow>
   (int \<times> ('q, 'b, 'n, 'd, 'f, 'x) proc_st) option" where
  "pce_savecbdb_memfile ms_env pce mf st = do {
     (status, ms) \<leftarrow> save_mspool ms_env (pr_cspool st) pce mf;
     Some (status, st\<lparr>pr_cspool := ms\<rparr>)
   }"

text \<open>The element, the status and the state.\<close>

definition pce_spool_product ::
  "('q, 'b, 'n, 'd, 'f, 'x, 'r) proc_env \<Rightarrow> pctl_element_st \<Rightarrow> ('q, 'b, 'n, 'd, 'f, 'x) proc_st \<Rightarrow>
   (int \<times> pctl_element_st \<times> ('q, 'b, 'n, 'd, 'f, 'x) proc_st) option" where
  "pce_spool_product env pce st = do {
     (status, pce, mf, st) \<leftarrow>
       (if saveunz_flag pce = 0 then Some (0, pce, Some (pce_mf pce), st)
        else
          case reopen_pctl_outputmf (pr_pctl st) of
            (None, pctl) \<Rightarrow> Some (-1, pce, None, st\<lparr>pr_pctl := pctl\<rparr>)
          | (Some mf, pctl) \<Rightarrow> do {
              (status, pce, mf) \<leftarrow> pce_mcat_frames (pe_alloc env) (pe_uncompress env) pce mf;
              Some (status, pce, Some mf, st\<lparr>pr_pctl := pctl\<lparr>outputmf := mf\<rparr>\<rparr>)
            });
     (case mf of
        None \<Rightarrow> Some (-1, pce, st)
      | Some mf \<Rightarrow>
          if status \<noteq> 0 then Some (status, pce, st)
          else if spooltype_fsspool (pe_spooltype env) \<noteq> 0 then
            let (status, f) = pce_savefs_memfile (pe_fs env) (pe_copy_ok env) pce mf (pr_fs st)
            in Some (status, pce, st\<lparr>pr_fs := f\<rparr>)
          else if spooltype_mspool (pe_spooltype env) \<noteq> 0 then do {
            (status, st) \<leftarrow> pce_savembdb_memfile (pe_ms env) pce mf st;
            Some (status, pce, st)
          }
          else if spooltype_cspool (pe_spooltype env) \<noteq> 0 then do {
            (status, st) \<leftarrow> pce_savecbdb_memfile (pe_ms env) pce mf st;
            if status = 0 then
              let (status, f) = pce_savefs_memfile (pe_fs env) (pe_copy_ok env) pce mf (pr_fs st)
              in Some (status, pce, st\<lparr>pr_fs := f\<rparr>)
            else Some (status, pce, st)
          }
          else Some (0, pce, st))
   }"

section \<open>Announcing a product\<close>

definition e_export_product ::
  "('q, 'b, 'n, 'd, 'f, 'x, 'r) proc_env \<Rightarrow> pctl_element_st \<Rightarrow> ('q, 'b, 'n, 'd, 'f, 'x) proc_st \<Rightarrow>
   (int \<times> ('q, 'b, 'n, 'd, 'f, 'x) proc_st) option" where
  "e_export_product env pce st = do {
     (status1, pi) \<leftarrow> nbsfp_pack_fpath (pr_packetinfo st) pce;
     let st = st\<lparr>pr_packetinfo := pi\<rparr>;
     if status1 \<noteq> 0 then Some (status1, st)
     else do {
       pkt \<leftarrow> packet pi;
       (status1, q) \<leftarrow>
         (if filterq_regex_match (pe_re env) (pe_regex env) (fname pce) = 0
          then e_nbspq_snd_filter (pe_qbdb env) (pe_qlock env) (pr_queues st) pkt (packet_size pi)
          else Some (status1, pr_queues st));
       (status2, q) \<leftarrow>
         (if serverq_regex_match (pe_re env) (pe_regex env) (fname pce) = 0
          then e_nbspq_snd_server (pe_qbdb env) (pe_qlock env) q pkt (packet_size pi)
          else Some (0, q));
       Some (if status1 = 0 then status2 else status1, st\<lparr>pr_queues := q\<rparr>)
     }
   }"

definition rtxdb_flag_filter :: "('q, 'b, 'n, 'd, 'f, 'x, 'r) proc_env \<Rightarrow> pctl_element_st \<Rightarrow> pctl_element_st" where
  "rtxdb_flag_filter env pce =
     pce\<lparr>rtxdb_flag := (if rtxdb_regex_match (pe_re env) (pe_regex env) (fname pce) = 0 then 1 else 0)\<rparr>"

section \<open>The logs of products\<close>

definition dec_int :: "int \<Rightarrow> bytes" where
  "dec_int i = (if i < 0 then 45 # dec (nat (- i)) else dec (nat i))"

text \<open>The line without its end: seconds, number, type, category, code, channel, name.\<close>

definition log_pce_fields :: "pctl_element_st \<Rightarrow> bytes" where
  "log_pce_fields pce =
     dec (nat (tv_sec (pce_ts pce) mod 2 ^ 64)) @ [32] @ dec (unat (seq_number pce)) @ [32] @
     dec_int (pce_product_type pce) @ [32] @ dec_int (pce_product_category pce) @ [32] @
     dec_int (pce_product_code pce) @ [32] @ dec_int (pce_np_channel_index pce) @ [32] @ cstr (fbasename pce)"

definition write_log_pce :: "pctl_element_st \<Rightarrow> bytes" where
  "write_log_pce pce = log_pce_fields pce @ [10]"

definition write_log_pce_rtx :: "pctl_element_st \<Rightarrow> bytes" where
  "write_log_pce_rtx pce = log_pce_fields pce @ [32] @ dec (unat (orig_seq_number pce)) @ [10]"

definition log_missing ::
  "('q, 'b, 'n, 'd, 'f, 'x, 'r) proc_env \<Rightarrow> pctl_element_st \<Rightarrow> ('q, 'b, 'n, 'd, 'f, 'x) proc_st \<Rightarrow>
   ('q, 'b, 'n, 'd, 'f, 'x) proc_st" where
  "log_missing env pce st =
     (if pe_logs_open env then st\<lparr>pr_missinglog := pr_missinglog st @ write_log_pce pce\<rparr> else st)"

definition log_rtx ::
  "('q, 'b, 'n, 'd, 'f, 'x, 'r) proc_env \<Rightarrow> pctl_element_st \<Rightarrow> ('q, 'b, 'n, 'd, 'f, 'x) proc_st \<Rightarrow>
   ('q, 'b, 'n, 'd, 'f, 'x) proc_st" where
  "log_rtx env pce st =
     (if pe_logs_open env then st\<lparr>pr_rtxlog := pr_rtxlog st @ write_log_pce_rtx pce\<rparr> else st)"

section \<open>Processing a product\<close>

text \<open>The record of a product, kept for the products that the filter selects.\<close>

definition put_rtx ::
  "('q, 'b, 'n, 'd, 'f, 'x, 'r) proc_env \<Rightarrow> ('x rtx_calls \<Rightarrow> 'x nbsp_rtxdb_st option \<Rightarrow> u32 \<Rightarrow> int \<times> 'x nbsp_rtxdb_st option) \<Rightarrow>
   pctl_element_st \<Rightarrow> ('q, 'b, 'n, 'd, 'f, 'x) proc_st \<Rightarrow> ('q, 'b, 'n, 'd, 'f, 'x) proc_st" where
  "put_rtx env put pce st =
     (if rtxdb_flag pce = 1 then st\<lparr>pr_rtxdb := snd (put (pe_rtx env) (pr_rtxdb st) (seq_number pce))\<rparr> else st)"

text \<open>
  What a retransmission comes to: whether the product is still to be processed, and the state. The
  status of the original is -1 when it is not known and -2 when the mechanism is disabled.
\<close>

definition check_retransmission ::
  "('q, 'b, 'n, 'd, 'f, 'x, 'r) proc_env \<Rightarrow> pctl_element_st \<Rightarrow> ('q, 'b, 'n, 'd, 'f, 'x) proc_st \<Rightarrow>
   bool \<times> ('q, 'b, 'n, 'd, 'f, 'x) proc_st" where
  "check_retransmission env pce st =
     (let orig_prod_status =
            (if rtxdb_flag pce = 1 then e_nbsp_rtxdb_get_fstatus (pe_rtx env) (pr_rtxdb st) (orig_seq_number pce) else -1);
          st = st\<lparr>pr_stats := update_stats_products_retransmitted_pi orig_prod_status
                   (update_stats_products_retransmitted_c (pr_stats st))\<rparr>;
          st = log_rtx env pce st
      in
      if orig_prod_status = 0 then (False, put_rtx env e_nbsp_rtxdb_put_ok pce st)
      else if orig_prod_status = 1 then (True, st\<lparr>pr_stats := update_stats_products_recovered (pr_stats st)\<rparr>)
      else if orig_prod_status = -1 then (True, st)
      else (pe_rtxdb_default_process env \<noteq> 0, st))"

definition process_pctl_element ::
  "('q, 'b, 'n, 'd, 'f, 'x, 'r) proc_env \<Rightarrow> pctl_element_st \<Rightarrow> ('q, 'b, 'n, 'd, 'f, 'x) proc_st \<Rightarrow>
   (int \<times> pctl_element_st \<times> ('q, 'b, 'n, 'd, 'f, 'x) proc_st) option" where
  "process_pctl_element env pce st =
     (let pce = rtxdb_flag_filter env pce in
      if f_complete pce = 0 then
        Some (0, pce, put_rtx env e_nbsp_rtxdb_put_fail pce (log_missing env pce st))
      else
        let (go_on, st) = (if orig_seq_number pce \<noteq> 0 then check_retransmission env pce st else (True, st)) in
        if \<not> go_on then Some (0, pce, st)
        else do {
          (status, pce, st) \<leftarrow> pce_spool_product env pce st;
          if status \<noteq> 0 then Some (1, pce, st)
          else do {
            (_, sd, f) \<leftarrow> nbsp_spooldb_insert (pe_fs env) (pr_spooldb st) (fpath pce) (pr_fs st);
            let st = put_rtx env e_nbsp_rtxdb_put_ok pce (st\<lparr>pr_spooldb := sd, pr_fs := f\<rparr>);
            (_, st) \<leftarrow> e_export_product env pce st;
            Some (0, pce, st)
          }
        })"

definition process_pctl ::
  "('q, 'b, 'n, 'd, 'f, 'x, 'r) proc_env \<Rightarrow> ('q, 'b, 'n, 'd, 'f, 'x) proc_st \<Rightarrow>
   (int \<times> ('q, 'b, 'n, 'd, 'f, 'x) proc_st) option" where
  "process_pctl env st = do {
     (status, pce, pctl) \<leftarrow> eopen_pctl_outputpce (pe_alloc env) (pe_bdb env) (pe_lock env) (pe_waits env) (pr_pctl st);
     let st = st\<lparr>pr_pctl := pctl\<rparr>;
     if status = 1 then Some (1, st)
     else do {
       (status, st) \<leftarrow>
         (if status = 0 then do {
            pce \<leftarrow> pce;
            (status, pce, st) \<leftarrow> process_pctl_element env pce st;
            Some (status, st\<lparr>pr_pctl := (pr_pctl st)\<lparr>out_pce := pce\<rparr>\<rparr>)
          } else Some (status, st));
       let st = st\<lparr>pr_pctl := close_pctl_outputpce (pr_pctl st)\<rparr>;
       Some (status, st\<lparr>pr_stats := update_stats_products status (pr_stats st)\<rparr>)
     }
   }"

section \<open>The processor thread\<close>

text \<open>The flag that the periodic thread sets and the processor clears; the flag is read without the mutex first.\<close>

definition get_rtxdb_truncate_flag :: "int \<Rightarrow> int \<Rightarrow> int \<times> int" where
  "get_rtxdb_truncate_flag trylock flag = (if flag = 0 then (0, flag) else if trylock = 0 then (flag, 0) else (0, flag))"

definition set_rtxdb_truncate_flag :: "int \<Rightarrow> int \<Rightarrow> int" where
  "set_rtxdb_truncate_flag lock flag = (if lock = 0 then 1 else flag)"

text \<open>The report of the queues does not change them (see \<open>qstate_report\<close>).\<close>

definition nbsp_periodic ::
  "('q, 'b, 'n, 'd, 'f, 'x, 'r) proc_env \<Rightarrow> ('q, 'b, 'n, 'd, 'f, 'x) proc_st \<Rightarrow> ('q, 'b, 'n, 'd, 'f, 'x) proc_st" where
  "nbsp_periodic env st =
     (let (r, flag) = get_rtxdb_truncate_flag (pe_trylock env) (pr_rtxdb_truncate_flag st);
          st = st\<lparr>pr_rtxdb_truncate_flag := flag\<rparr>
      in if r \<noteq> 0 then st\<lparr>pr_rtxdb := snd (e_nbsp_rtxdb_truncate (pe_rtx env) (pr_rtxdb st))\<rparr> else st)"

definition nbsproc_loop ::
  "('q, 'b, 'n, 'd, 'f, 'x, 'r) proc_env \<Rightarrow> ('q, 'b, 'n, 'd, 'f, 'x) proc_st \<Rightarrow>
   (int \<times> ('q, 'b, 'n, 'd, 'f, 'x) proc_st) option" where
  "nbsproc_loop env st = process_pctl env (nbsp_periodic env st)"

text \<open>The iterations of the thread until the quit flag is seen, each with its own environment.\<close>

fun processor_loop ::
  "('q, 'b, 'n, 'd, 'f, 'x, 'r) proc_env list \<Rightarrow> ('q, 'b, 'n, 'd, 'f, 'x) proc_st \<Rightarrow>
   ('q, 'b, 'n, 'd, 'f, 'x) proc_st option" where
  "processor_loop [] st = Some st"
| "processor_loop (env # envs) st = do {
     (_, st) \<leftarrow> nbsproc_loop env st;
     processor_loop envs st
   }"

definition open_nbsproc ::
  "allocator \<Rightarrow> 'f fs_calls \<Rightarrow> (nat \<Rightarrow> byte) \<Rightarrow> int \<Rightarrow> bytes \<Rightarrow> u32 \<Rightarrow> bytes \<Rightarrow> bool \<times> bool \<Rightarrow>
   spooldb_file option \<Rightarrow> ('q, 'b, 'n, 'd, 'f, 'x) proc_st \<Rightarrow> (int \<times> ('q, 'b, 'n, 'd, 'f, 'x) proc_st) option" where
  "open_nbsproc alloc fs junk spooltype spooldir spooldb_slots spooldb_fname failed saved st = do {
     (status, st) \<leftarrow>
       (if spooltype_fsspool spooltype \<noteq> 0 \<or> spooltype_cspool spooltype \<noteq> 0 then do {
          (status, sd) \<leftarrow> nbsp_spooldb_open alloc fs (pr_fs st) spooldir spooldb_slots spooldb_fname failed saved;
          Some (status, st\<lparr>pr_spooldb := sd\<rparr>)
        } else Some (0, st));
     if status = 0 then
       let (status, pi) = nbsfp_packetinfo_init alloc junk spooldir (pr_packetinfo st)
       in Some (if status \<noteq> 0 then -1 else 0, st\<lparr>pr_packetinfo := pi\<rparr>)
     else Some (status, st)
   }"

text \<open>
  The integers that \<^verbatim>\<open>e_report_qstate\<close> writes to the fifo of the state of the queues. Without a table the
  numbers of its channels are reported as 0.
\<close>

definition qstate_report :: "bool \<Rightarrow> ('q, 'b) pctl_st \<Rightarrow> 'n nbspq_globals \<Rightarrow> u32 list option" where
  "qstate_report has_qtable pctl nq =
     (let n = unat (queue_numchannels nq); qs = qt_nbspq (nq_qtable nq);
          report = (\<lambda>field. if has_qtable then map field (take n qs) else replicate n 0)
      in
      if has_qtable \<and> length qs < n then None
      else Some ([ucast (queue_numchannels nq), db_n (pctldb pctl)] @ report q_n @ [db_nmax (pctldb pctl)] @ report q_nmax))"

definition qstatefifo_buffer_size :: "8 word \<Rightarrow> nat" where
  "qstatefifo_buffer_size numchannels = 4 * 2 * (unat numchannels + 1) + 4"

end
