(* ===== verification/Processor_Properties.thy ===== *)
theory Processor_Properties
  imports Processor Frame_Properties
begin

text \<open>
  What the processor does with a product: which products are saved and announced, what the saved file
  holds, and how it relates to the frames that were received.
\<close>

section \<open>Putting frames together\<close>

text \<open>The data of a frame of a product saved frame by frame: uncompressed when it was compressed.\<close>

definition plain_frame :: "uncompress \<Rightarrow> int \<times> bytes \<Rightarrow> bytes" where
  "plain_frame uncompress fr = (if fst fr = 1 then snd (uncompress (snd fr) MAX_FRDATA_SIZE) else snd fr)"

definition plain_ok :: "uncompress \<Rightarrow> int \<times> bytes \<Rightarrow> bool" where
  "plain_ok uncompress fr \<longleftrightarrow> snd fr \<noteq> [] \<and> length (snd fr) < 2 ^ 31 \<and> 0 \<le> fst fr \<and> fst fr < 256 \<and>
     (fst fr = 1 \<longrightarrow> fst (uncompress (snd fr) MAX_FRDATA_SIZE) = 0 \<and> length (plain_frame uncompress fr) < 2 ^ 31)"

text \<open>Reading a frame of the memory file and appending its data to the other one.\<close>

lemma mcat_step:
  assumes "mf_inv pmf" "mf_rest pmf = frame_bytes fr @ rst" "plain_ok uncompress fr" "mf_inv mf"
  obtains (ok) pmf' mf' where "mcat_loop alloc uncompress (Suc k) pmf mf = mcat_loop alloc uncompress k pmf' mf'"
      "mf_inv pmf'" "mf_rest pmf' = rst" "mf_inv mf'" "mf_data mf' = mf_data mf @ plain_frame uncompress fr"
    | (no_memory) pmf' mf' where "mcat_loop alloc uncompress (Suc k) pmf mf = Some (-1, pmf', mf')"
proof -
  obtain c d where fr: "fr = (c, d)" by force
  have d: "d \<noteq> []" "length d < 2 ^ 31" "0 \<le> c" "c < 256" using assms(3) by (simp_all add: plain_ok_def fr)
  obtain off pmf' where g: "get_memframe pmf = Some (int (length d), Some off, Some c, pmf')" "mf_inv pmf'"
      "mf_p pmf' = mf_p pmf" "take (length d) (drop off (mf_p pmf)) = d" "mf_rest pmf' = rst"
    using get_memframe_reads [OF assms(1) assms(2)[unfolded fr] d] by blast
  have len: "length d \<le> length (drop off (mf_p pmf'))" using g(3,4) by (metis length_take min.cobounded1)
  have pos: "\<not> int (length d) \<le> 0" using d(1) by simp
  let ?p = "plain_frame uncompress fr"
  define pdata n where "pdata = (if c = 1 then ?p else drop off (mf_p pmf'))" and "n = int (length ?p)"
  have n: "int_len n" "nat n \<le> length pdata" "take (nat n) pdata = ?p"
    using assms(3) d len g(3,4) by (auto simp: plain_ok_def n_def pdata_def fr plain_frame_def int_len_def)
  have "mcat_loop alloc uncompress (Suc k) pmf mf = do {
         (wstatus, mf) \<leftarrow> write_memfile alloc mf pdata n;
         if wstatus = -1 then Some (-1, pmf', mf) else mcat_loop alloc uncompress k pmf' mf }"
  proof (cases "c = 1")
    case True
    obtain e wr where u: "uncompress d MAX_FRDATA_SIZE = (e, wr)" by force
    have e: "e = 0" using assms(3) True u by (simp add: plain_ok_def fr)
    have "unz uncompress [] (int MAX_FRDATA_SIZE) (drop off (mf_p pmf')) (int (length d)) = (0, wr, int (length wr))"
      using d(2) g(3,4) by (simp add: unz_def u e overwrite_def)
    then show ?thesis using pos True e u g(1) by (simp add: pdata_def n_def fr plain_frame_def)
  next
    case False
    then show ?thesis using pos g(1) by (simp add: pdata_def n_def fr plain_frame_def)
  qed
  note step = this
  show ?thesis
  proof (cases rule: write_memfile_cases [OF assms(4) n(1,2), of alloc])
    case (1 mf')
    with step g(2,5) n(3) show ?thesis by (intro ok) simp_all
  next
    case (2 mf')
    with step show ?thesis by (intro that(2)) simp_all
  qed
qed

lemma mcat_loop_concat:
  assumes "mf_inv pmf" "mf_rest pmf = concat (map frame_bytes frs) @ rst" "\<forall>fr \<in> set frs. plain_ok uncompress fr" "mf_inv mf"
  obtains st pmf' mf' where "mcat_loop alloc uncompress (length frs) pmf mf = Some (st, pmf', mf')"
    "st = 0 \<and> mf_inv mf' \<and> mf_data mf' = mf_data mf @ concat (map (plain_frame uncompress) frs) \<or> st = -1"
proof -
  have "\<exists>st pmf' mf'. mcat_loop alloc uncompress (length frs) pmf mf = Some (st, pmf', mf') \<and>
    (st = 0 \<and> mf_inv mf' \<and> mf_data mf' = mf_data mf @ concat (map (plain_frame uncompress) frs) \<or> st = -1)"
    using assms
  proof (induction frs arbitrary: pmf mf)
    case (Cons fr frs)
    have rest: "mf_rest pmf = frame_bytes fr @ (concat (map frame_bytes frs) @ rst)" using Cons.prems(2) by simp
    have pok: "plain_ok uncompress fr" using Cons.prems(3) by simp
    show ?case
    proof (cases rule: mcat_step [OF Cons.prems(1) rest pok Cons.prems(4), of alloc "length frs"])
      case (1 pmf' mf')
      have "\<exists>st pmf'' mf''. mcat_loop alloc uncompress (length frs) pmf' mf' = Some (st, pmf'', mf'') \<and>
          (st = 0 \<and> mf_inv mf'' \<and> mf_data mf'' = mf_data mf' @ concat (map (plain_frame uncompress) frs) \<or> st = -1)"
        using Cons.IH [OF 1(2,3) _ 1(4)] Cons.prems(3) by simp
      with 1(1,5) show ?thesis by simp
    next
      case (2 pmf' mf')
      then show ?thesis by simp
    qed
  qed simp
  then show ?thesis using that by blast
qed

section \<open>Saving a product\<close>

lemma create_path_dirs_files:
  assumes "fs_laws fs D R" "create_path_dirs fs copy_ok path f = (0, f')"
  shows "R f' = R f"
  using assms dir_tree_loop_makes [OF assms(1)]
  by (auto simp: create_path_dirs_def make_dir_tree2_def split: if_splits)

lemma write_whole:
  assumes "fs_laws fs D R" "R f path = Some []" "fst (fs_write fs path bs f) = int (length bs)"
  shows "R (snd (fs_write fs path bs f)) = (R f)(path \<mapsto> bs)"
proof -
  have "fs_write fs path bs f = (int (length bs), snd (fs_write fs path bs f))" by (simp add: prod_eq_iff assms(3))
  from fs_write_law [OF assms(1) this assms(2)] show ?thesis by simp
qed

text \<open>What is to be in the file of a product with the given data.\<close>

definition saved_data :: "pctl_element_st \<Rightarrow> bytes \<Rightarrow> bytes" where
  "saved_data pce data = (if strips_ccb pce then drop CCB_SIZE data else data)"

lemma pce_savefs_memfile_stores:
  assumes laws: "fs_laws fs D R" and save: "pce_savefs_memfile fs copy_ok pce mf f = (0, f')" and inv: "mf_inv mf"
  shows "R f' = (R f)(fpath pce \<mapsto> saved_data pce (mf_data mf))"
proof -
  obtain fd f1 where o: "e_open_product_file fs copy_ok pce f = (fd, f1)" by force
  have fd: "fd \<noteq> -1" using save by (auto simp: pce_savefs_memfile_def o)
  obtain st f0 where c: "create_path_dirs fs copy_ok (fpath pce) f = (st, f0)" by force
  have "st = 0" using o fd by (auto simp: e_open_product_file_def c split: if_splits)
  with o c have op: "fs_open_trunc fs (fpath pce) f0 = (fd, f1)" "create_path_dirs fs copy_ok (fpath pce) f = (0, f0)"
    by (simp_all add: e_open_product_file_def)
  have R1: "R f1 = (R f)(fpath pce \<mapsto> [])"
    using fs_open_law [OF laws op(1)] create_path_dirs_files [OF laws op(2)] fd by simp
  let ?d = "saved_data pce (mf_data mf)"
  have len: "length (mf_data mf) = mf_size mf" using inv by simp
  have bytes: "strips_ccb pce \<Longrightarrow> take (mf_size mf - CCB_SIZE) (drop CCB_SIZE (mf_p mf)) = ?d"
    "\<not> strips_ccb pce \<Longrightarrow> take (mf_size mf) (mf_p mf) = ?d"
    by (simp_all add: saved_data_def mf_data_def drop_take)
  have dlen: "strips_ccb pce \<Longrightarrow> length ?d = mf_size mf - CCB_SIZE" "\<not> strips_ccb pce \<Longrightarrow> length ?d = mf_size mf"
    by (simp_all add: saved_data_def len)
  have "f' = snd (fs_write fs (fpath pce) ?d f1)" "fst (fs_write fs (fpath pce) ?d f1) = int (length ?d)"
    using save fd bytes dlen
    by (auto simp: pce_savefs_memfile_def o save_memfile_def save_memfile_skip_def Let_def split: if_splits)
  with write_whole [OF laws, of f1 "fpath pce" ?d] R1 show ?thesis by simp
qed

text \<open>The data of a product: those of its memory file, or those of its frames put together.\<close>

definition assembled :: "uncompress \<Rightarrow> pctl_element_st \<Rightarrow> bytes \<Rightarrow> bool" where
  "assembled uncompress pce data \<longleftrightarrow> mf_inv (pce_mf pce) \<and>
     (if saveunz_flag pce = 0 then data = mf_data (pce_mf pce)
      else \<exists>frs rst. mf_rest (pce_mf pce) = concat (map frame_bytes frs) @ rst \<and> nat (num_fragments pce) = length frs \<and>
        (\<forall>fr \<in> set frs. plain_ok uncompress fr) \<and> data = concat (map (plain_frame uncompress) frs))"

lemma pce_mcat_frames_concat:
  assumes "assembled uncompress pce data" "saveunz_flag pce \<noteq> 0" "mf_inv mf" "mf_data mf = []"
    "pce_mcat_frames alloc uncompress pce mf = Some (0, pce', mf')"
  shows "mf_inv mf' \<and> mf_data mf' = data \<and> (\<exists>m. pce' = pce\<lparr>pce_mf := m\<rparr>)"
proof -
  obtain frs rst where a: "mf_inv (pce_mf pce)" "mf_rest (pce_mf pce) = concat (map frame_bytes frs) @ rst"
      "nat (num_fragments pce) = length frs" "\<forall>fr \<in> set frs. plain_ok uncompress fr"
      "data = concat (map (plain_frame uncompress) frs)"
    using assms(1,2) by (auto simp: assembled_def)
  show ?thesis
    by (rule mcat_loop_concat [OF a(1,2,4) assms(3), of alloc])
      (use assms(4,5) a(3,5) in \<open>auto simp: pce_mcat_frames_def\<close>)
qed

lemma pce_spool_product_stores:
  assumes laws: "fs_laws (pe_fs env) D R" and fs: "pe_spooltype env = SPOOLTYPE_FS"
    and data: "assembled (pe_uncompress env) pce data" and out: "mf_inv (outputmf (pr_pctl st))"
    and run: "pce_spool_product env pce st = Some (0, pce', st')"
  shows "R (pr_fs st') = (R (pr_fs st))(fpath pce \<mapsto> saved_data pce data)" "pr_spooldb st' = pr_spooldb st"
    "fpath pce' = fpath pce"
proof -
  have type: "spooltype_fsspool (pe_spooltype env) \<noteq> 0" by (simp add: fs spooltype_fsspool_def)
  obtain mf pce1 f' where m: "mf_inv mf" "mf_data mf = data" "\<exists>m. pce1 = pce\<lparr>pce_mf := m\<rparr>"
      "pce_savefs_memfile (pe_fs env) (pe_copy_ok env) pce1 mf (pr_fs st) = (0, f')"
      "pr_fs st' = f'" "pr_spooldb st' = pr_spooldb st" "pce' = pce1"
  proof (cases "saveunz_flag pce = 0")
    case True
    with data have "mf_inv (pce_mf pce)" "mf_data (pce_mf pce) = data" by (simp_all add: assembled_def)
    moreover from True run type have "pce' = pce" "\<exists>f'. pce_savefs_memfile (pe_fs env) (pe_copy_ok env) pce (pce_mf pce) (pr_fs st) = (0, f') \<and>
        st' = st\<lparr>pr_fs := f'\<rparr>"
      by (auto simp: pce_spool_product_def split: prod.splits)
    moreover have "\<exists>m. pce = pce\<lparr>pce_mf := m\<rparr>" by (rule exI [of _ "pce_mf pce"]) simp
    ultimately show ?thesis using that by fastforce
  next
    case False
    let ?mf = "close_memfile (outputmf (pr_pctl st))"
    have mf0: "mf_inv ?mf" "mf_data ?mf = []" using out by (simp_all add: close_memfile_inv)
    have r: "reopen_pctl_outputmf (pr_pctl st) = (Some ?mf, (pr_pctl st)\<lparr>outputmf := ?mf\<rparr>)"
      by (simp add: reopen_pctl_outputmf_def Let_def)
    from run False obtain s pce1 mf' where c: "pce_mcat_frames (pe_alloc env) (pe_uncompress env) pce ?mf = Some (s, pce1, mf')"
      by (auto simp: pce_spool_product_def r bind_eq_Some_conv)
    have s: "s = 0" using run False by (auto simp: pce_spool_product_def r c split: if_splits)
    obtain s2 f2 where v: "pce_savefs_memfile (pe_fs env) (pe_copy_ok env) pce1 mf' (pr_fs st) = (s2, f2)" by force
    from run False type have "s2 = 0 \<and> pce' = pce1 \<and> pr_fs st' = f2 \<and> pr_spooldb st' = pr_spooldb st"
      by (auto simp: pce_spool_product_def r c s v)
    with pce_mcat_frames_concat [OF data False mf0 c [unfolded s]] v show ?thesis by (intro that [of mf' pce1 f2]) auto
  qed
  from m(3) have "fpath pce1 = fpath pce" "saved_data pce1 data = saved_data pce data"
    by (auto simp: saved_data_def strips_ccb_def)
  with pce_savefs_memfile_stores [OF laws m(4,1)] m(2,5,6,7) show
    "R (pr_fs st') = (R (pr_fs st))(fpath pce \<mapsto> saved_data pce data)" "pr_spooldb st' = pr_spooldb st"
    "fpath pce' = fpath pce" by simp_all
qed

section \<open>Processing a product\<close>

text \<open>Nothing was saved or announced: at most the statistics, the logs and the records of products changed.\<close>

definition only_noted :: "('q, 'b, 'n, 'd, 'f, 'x) proc_st \<Rightarrow> ('q, 'b, 'n, 'd, 'f, 'x) proc_st \<Rightarrow> bool" where
  "only_noted st st' \<longleftrightarrow>
     (\<exists>stats mlog rlog rtx. st' = st\<lparr>pr_stats := stats, pr_rtxdb := rtx, pr_missinglog := mlog, pr_rtxlog := rlog\<rparr>)"

lemma only_noted_keeps:
  assumes "only_noted st st'"
  shows "pr_fs st' = pr_fs st" "pr_pctl st' = pr_pctl st" "pr_spooldb st' = pr_spooldb st" "pr_queues st' = pr_queues st"
  using assms by (auto simp: only_noted_def)

lemma only_noted_trans: "only_noted st st' \<Longrightarrow> only_noted st' st'' \<Longrightarrow> only_noted st st''"
  by (force simp: only_noted_def)

lemma only_noted_update [intro]:
  "only_noted st st" "only_noted st (st\<lparr>pr_stats := x\<rparr>)" "only_noted st (st\<lparr>pr_rtxdb := r\<rparr>)"
  "only_noted st (log_missing env pce st)" "only_noted st (log_rtx env pce st)" "only_noted st (put_rtx env put pce st)"
  unfolding only_noted_def log_missing_def log_rtx_def put_rtx_def
  by (cases st; simp; blast)+

lemma check_retransmission_notes: "only_noted st (snd (check_retransmission env pce st))"
  unfolding check_retransmission_def Let_def
  by (auto simp del: o_apply intro!: only_noted_update intro: only_noted_trans)

lemma check_retransmission_rtx:
  "fst (check_retransmission env pce st) \<Longrightarrow> pr_rtxdb (snd (check_retransmission env pce st)) = pr_rtxdb st"
  by (auto simp: check_retransmission_def Let_def log_rtx_def split: if_splits)

text \<open>The product the array of the spool gives up for a new one.\<close>

definition oldest_spooled :: "('q, 'b, 'n, 'd, 'f, 'x) proc_st \<Rightarrow> bytes" where
  "oldest_spooled st = (case pr_spooldb st of None \<Rightarrow> [] | Some sd \<Rightarrow> cstr (drop (sd_slotptr sd) (sd_keys sd)))"

lemma nbsp_spooldb_delete_files:
  assumes "fs_laws fs D R" "p \<noteq> path"
  shows "R (snd (nbsp_spooldb_delete_fpath fs path f)) p = R f p"
proof (cases "path = []")
  case False
  with assms file_delete_deletes [OF assms(1), of path f] show ?thesis
    by (cases "file_delete fs path f") (auto simp: nbsp_spooldb_delete_fpath_def)
qed (simp add: nbsp_spooldb_delete_fpath_def)

lemma nbsp_spooldb_insert_files:
  assumes "fs_laws fs D R" "nbsp_spooldb_insert fs (pr_spooldb st) path f = Some (s, sd, f')" "p \<noteq> oldest_spooled st"
  shows "R f' p = R f p"
proof (cases "pr_spooldb st")
  case None
  with assms show ?thesis by (simp add: nbsp_spooldb_insert_def)
next
  case (Some sd0)
  let ?old = "cstr (drop (sd_slotptr sd0) (sd_keys sd0))"
  obtain s1 f1 where d: "nbsp_spooldb_delete_fpath fs ?old f = (s1, f1)" by force
  from assms(2) Some have "f' = f1"
    by (auto simp: nbsp_spooldb_insert_def spooldb_insert_def Let_def d bind_eq_Some_conv split: if_splits)
  with nbsp_spooldb_delete_files [OF assms(1), of p ?old f] d assms(3) Some show ?thesis
    by (simp add: oldest_spooled_def)
qed

lemma e_export_product_files:
  assumes "e_export_product env pce st = Some (s, st')"
  shows "pr_fs st' = pr_fs st" "pr_rtxdb st' = pr_rtxdb st" "pr_spooldb st' = pr_spooldb st"
proof -
  obtain s1 pi where n: "nbsfp_pack_fpath (pr_packetinfo st) pce = Some (s1, pi)"
    using assms unfolding e_export_product_def bind_eq_Some_conv by force
  have "\<exists>q. st' = st\<lparr>pr_packetinfo := pi, pr_queues := q\<rparr>"
  proof (cases "s1 = 0")
    case True
    from assms show ?thesis
      unfolding e_export_product_def n Let_def bind.bind_lunit prod.case
      by (force simp: True bind_eq_Some_conv simp del: split_paired_Ex)
  next
    case False
    with assms show ?thesis by (auto simp: e_export_product_def n Let_def intro: exI [of _ "pr_queues st"])
  qed
  then show "pr_fs st' = pr_fs st" "pr_rtxdb st' = pr_rtxdb st" "pr_spooldb st' = pr_spooldb st" by auto
qed

text \<open>The product is still to be saved after what is known of it was looked up.\<close>

definition goes_on :: "('q, 'b, 'n, 'd, 'f, 'x, 'r) proc_env \<Rightarrow> pctl_element_st \<Rightarrow> ('q, 'b, 'n, 'd, 'f, 'x) proc_st \<Rightarrow> bool" where
  "goes_on env pce st \<longleftrightarrow> f_complete pce \<noteq> 0 \<and>
     (orig_seq_number pce = 0 \<or> fst (check_retransmission env (rtxdb_flag_filter env pce) st))"

lemma process_pctl_element_stages:
  assumes "goes_on env pce st" "process_pctl_element env pce st = Some (0, pce', st')"
  obtains st1 st2 s sd f s' where "only_noted st st1" "pr_rtxdb st1 = pr_rtxdb st"
    "pce_spool_product env (rtxdb_flag_filter env pce) st1 = Some (0, pce', st2)"
    "nbsp_spooldb_insert (pe_fs env) (pr_spooldb st2) (fpath pce') (pr_fs st2) = Some (s, sd, f)"
    "e_export_product env pce' (put_rtx env e_nbsp_rtxdb_put_ok pce' (st2\<lparr>pr_spooldb := sd, pr_fs := f\<rparr>)) = Some (s', st')"
proof -
  let ?p = "rtxdb_flag_filter env pce"
  define st1 where "st1 = (if orig_seq_number ?p \<noteq> 0 then snd (check_retransmission env ?p st) else st)"
  have p: "f_complete ?p = f_complete pce" "orig_seq_number ?p = orig_seq_number pce" by (simp_all add: rtxdb_flag_filter_def)
  have stages: "(if orig_seq_number ?p \<noteq> 0 then check_retransmission env ?p st else (True, st)) = (True, st1)"
    using assms(1) p by (auto simp: goes_on_def st1_def prod_eq_iff)
  have n: "only_noted st st1" by (auto simp: st1_def check_retransmission_notes)
  have r: "pr_rtxdb st1 = pr_rtxdb st"
    using assms(1) p by (auto simp: goes_on_def st1_def intro: check_retransmission_rtx)
  have "f_complete ?p \<noteq> 0" using assms(1) p by (simp add: goes_on_def)
  with assms(2) have "do {
          (status, pce, st) \<leftarrow> pce_spool_product env ?p st1;
          if status \<noteq> 0 then Some (1 :: int, pce, st)
          else do {
            (_, sd, f) \<leftarrow> nbsp_spooldb_insert (pe_fs env) (pr_spooldb st) (fpath pce) (pr_fs st);
            let st = put_rtx env e_nbsp_rtxdb_put_ok pce (st\<lparr>pr_spooldb := sd, pr_fs := f\<rparr>);
            (_, st) \<leftarrow> e_export_product env pce st;
            Some (0, pce, st)
          }
        } = Some (0, pce', st')"
    unfolding process_pctl_element_def Let_def stages by simp
  then obtain s0 p2 st2 where sp: "pce_spool_product env ?p st1 = Some (s0, p2, st2)"
    and rest: "(if s0 \<noteq> 0 then Some (1 :: int, p2, st2)
          else do {
            (_, sd, f) \<leftarrow> nbsp_spooldb_insert (pe_fs env) (pr_spooldb st2) (fpath p2) (pr_fs st2);
            (_, st) \<leftarrow> e_export_product env p2 (put_rtx env e_nbsp_rtxdb_put_ok p2 (st2\<lparr>pr_spooldb := sd, pr_fs := f\<rparr>));
            Some (0, p2, st)
          }) = Some (0, pce', st')"
    unfolding bind_eq_Some_conv Let_def by force
  have s0: "s0 = 0" using rest by (cases "s0 = 0") simp_all
  then obtain s sd f where i: "nbsp_spooldb_insert (pe_fs env) (pr_spooldb st2) (fpath p2) (pr_fs st2) = Some (s, sd, f)"
    using rest by (cases "nbsp_spooldb_insert (pe_fs env) (pr_spooldb st2) (fpath p2) (pr_fs st2)") auto
  let ?st = "put_rtx env e_nbsp_rtxdb_put_ok p2 (st2\<lparr>pr_spooldb := sd, pr_fs := f\<rparr>)"
  obtain s' where "e_export_product env p2 ?st = Some (s', st')" "p2 = pce'"
    using rest unfolding i by (cases "e_export_product env p2 ?st") (auto simp: s0)
  with that [OF n r] sp i s0 show ?thesis by blast
qed

lemma assembled_flag [simp]: "assembled u (rtxdb_flag_filter env pce) data = assembled u pce data"
  "saved_data (rtxdb_flag_filter env pce) data = saved_data pce data" "fpath (rtxdb_flag_filter env pce) = fpath pce"
  by (simp_all add: assembled_def rtxdb_flag_filter_def saved_data_def strips_ccb_def)

text \<open>
  In the memory spools the configured format has no effect: a product longer than the CCB is inserted as
  it is, with its CCB, although the size without it is computed.
\<close>

lemma save_mspool_keeps_ccb:
  "CCB_SIZE < mf_size mf \<Longrightarrow> save_mspool env ms pce mf = save_mspool env ms (pce\<lparr>save_format := fmt\<rparr>) mf"
  by (simp add: save_mspool_def)

section \<open>Retransmissions\<close>

lemma e_nbsp_rtxdb_get_after_put:
  assumes "rtx_laws bdb M" "\<forall>k v d. fst (rx_put bdb k v d) = 0" "rtxdb = Some db"
  shows "e_nbsp_rtxdb_get_fstatus bdb (snd (e_nbsp_rtxdb_put bdb rtxdb k v)) k = v"
proof -
  obtain st db' where p: "nbsp_rtxdb_put bdb db k v = (st, db')" by force
  have "st = 0" using p assms(2) [rule_format, of k v "dbp_c db"]
    by (auto simp: nbsp_rtxdb_put_def rtxdb_write_record_def split: prod.splits)
  with nbsp_rtxdb_put_map [OF assms(1) p] show ?thesis
    by (simp add: e_nbsp_rtxdb_put_def e_nbsp_rtxdb_get_fstatus_def assms(3) p nbsp_rtxdb_get_map [OF assms(1)])
qed

lemma e_nbsp_rtxdb_put_some: "rtxdb \<noteq> None \<Longrightarrow> snd (e_nbsp_rtxdb_put bdb rtxdb k v) \<noteq> None"
  by (auto simp: e_nbsp_rtxdb_put_def split: prod.splits)

text \<open>Saving a product leaves the records of products alone, and the number of the product.\<close>

lemma save_mspool_rtx:
  "pce_savembdb_memfile e pce mf st = Some (s, st') \<Longrightarrow> pr_rtxdb st' = pr_rtxdb st"
  "pce_savecbdb_memfile e pce mf st = Some (s, st') \<Longrightarrow> pr_rtxdb st' = pr_rtxdb st"
  by (auto simp: pce_savembdb_memfile_def pce_savecbdb_memfile_def bind_eq_Some_conv)

lemma pce_mcat_frames_keeps: "pce_mcat_frames alloc u pce mf = Some (s, pce', mf') \<Longrightarrow> \<exists>m. pce' = pce\<lparr>pce_mf := m\<rparr>"
  by (auto simp: pce_mcat_frames_def bind_eq_Some_conv)

lemma pce_spool_product_keeps:
  assumes "pce_spool_product env pce st = Some (s, pce', st')"
  shows "pr_rtxdb st' = pr_rtxdb st \<and> (\<exists>m. pce' = pce\<lparr>pce_mf := m\<rparr>)"
proof -
  let ?first = "if saveunz_flag pce = 0 then Some (0, pce, Some (pce_mf pce), st)
        else
          case reopen_pctl_outputmf (pr_pctl st) of
            (None, pctl) \<Rightarrow> Some (-1, pce, None, st\<lparr>pr_pctl := pctl\<rparr>)
          | (Some mf, pctl) \<Rightarrow> do {
              (status, pce, mf) \<leftarrow> pce_mcat_frames (pe_alloc env) (pe_uncompress env) pce mf;
              Some (status, pce, Some mf, st\<lparr>pr_pctl := pctl\<lparr>outputmf := mf\<rparr>\<rparr>)
            }"
  obtain s1 p1 mf st1 where f: "?first = Some (s1, p1, mf, st1)"
    using assms by (cases ?first) (auto simp: pce_spool_product_def)
  have "\<exists>m. pce = pce\<lparr>pce_mf := m\<rparr>" by (rule exI [of _ "pce_mf pce"]) simp
  then have p1: "pr_rtxdb st1 = pr_rtxdb st" "\<exists>m. p1 = pce\<lparr>pce_mf := m\<rparr>"
    using f pce_mcat_frames_keeps by (auto simp: bind_eq_Some_conv split: if_splits prod.splits option.splits)
  have "pr_rtxdb st' = pr_rtxdb st1 \<and> pce' = p1"
    using assms unfolding pce_spool_product_def f bind.bind_lunit prod.case
    by (cases mf) (auto simp: bind_eq_Some_conv dest: save_mspool_rtx split: if_splits prod.splits)
  with p1 show ?thesis by simp
qed

text \<open>After a product is processed its number is recorded, as received or as failed.\<close>

lemma process_records_status:
  assumes laws: "rtx_laws (pe_rtx env) M" "\<forall>k v d. fst (rx_put (pe_rtx env) k v d) = 0" and on: "pr_rtxdb st \<noteq> None"
    and flag: "rtxdb_regex_match (pe_re env) (pe_regex env) (fname p) = 0"
    and run: "process_pctl_element env p st = Some (0, p', st')" and orig: "f_complete p \<noteq> 0 \<Longrightarrow> goes_on env p st"
  shows "e_nbsp_rtxdb_get_fstatus (pe_rtx env) (pr_rtxdb st') (seq_number p) = (if f_complete p = 0 then 1 else 0)"
proof -
  let ?p = "rtxdb_flag_filter env p"
  have p: "f_complete ?p = f_complete p" "seq_number ?p = seq_number p" "rtxdb_flag ?p = 1"
    by (simp_all add: rtxdb_flag_filter_def flag)
  obtain db where db: "pr_rtxdb st = Some db" using on by auto
  show ?thesis
  proof (cases "f_complete p = 0")
    case True
    with run have "st' = put_rtx env e_nbsp_rtxdb_put_fail ?p (log_missing env ?p st)"
      by (auto simp: process_pctl_element_def Let_def p)
    with True p e_nbsp_rtxdb_get_after_put [OF laws db] show ?thesis
      by (simp add: put_rtx_def log_missing_def e_nbsp_rtxdb_put_fail_def)
  next
    case False
    with orig have go: "goes_on env p st" by simp
    show ?thesis
    proof (rule process_pctl_element_stages [OF go run])
      fix st1 st2 s sd f s'
      assume sp: "pce_spool_product env ?p st1 = Some (0, p', st2)"
        and ex: "e_export_product env p' (put_rtx env e_nbsp_rtxdb_put_ok p' (st2\<lparr>pr_spooldb := sd, pr_fs := f\<rparr>)) = Some (s', st')"
        and st1: "pr_rtxdb st1 = pr_rtxdb st"
      note k = pce_spool_product_keeps [OF sp]
      from k have "rtxdb_flag p' = 1" "seq_number p' = seq_number p" using p by auto
      moreover from this e_export_product_files(2) [OF ex] have "pr_rtxdb st' = snd (e_nbsp_rtxdb_put (pe_rtx env) (pr_rtxdb st2) (seq_number p) 0)"
        by (simp add: put_rtx_def e_nbsp_rtxdb_put_ok_def)
      moreover have "pr_rtxdb st2 = Some db" using k st1 db by simp
      ultimately show ?thesis using e_nbsp_rtxdb_get_after_put [OF laws] False by simp
    qed
  qed
qed

section \<open>The keys of the products\<close>

lemma get_fpath_key_last:
  assumes "0 \<notin> set d" "0 \<notin> set n" "95 \<notin> set n" "length n \<le> 10"
  shows "get_fpath_key (d @ [95] @ n) = Some n"
proof -
  have "cstr (d @ [95] @ n) = d @ [95] @ n" "cstr n = n" using assms(1,2) by (auto simp: cstr_def takeWhile_eq_all_conv)
  moreover have "takeWhile (\<lambda>b. b \<noteq> 95) (rev (d @ [95] @ n)) = rev n"
    using assms(3) takeWhile_append2 [of "rev n" "\<lambda>b. b \<noteq> 95" "95 # rev d"] by (auto simp: takeWhile_append)
  ultimately show ?thesis using assms(4) by (simp add: get_fpath_key_def after_last_def strlen_def)
qed

lemma make_product_fbasename_name:
  "make_product_fbasename p = Some (0, q) \<Longrightarrow>
   fbasename q = fname p @ ascii ''.'' @ wmo_time (pce_wmo p) @ ascii ''_'' @ dec (unat (seq_number p))"
  by (auto simp: make_product_fbasename_def Let_def split: if_splits)

lemma make_product_fpath_name:
  "make_product_fpath dir p = (0, q) \<Longrightarrow>
   fpath q = dir @ ascii ''/'' @ map tolower (wmo_station (pce_wmo p)) @ ascii ''/'' @ fbasename p"
  by (auto simp: make_product_fpath_def Let_def split: if_splits)

lemma name_activepce_path:
  assumes "fpath_size p = int (const_fpath_maxsize (env_spooldir env) + 1)" "name_activepce env l s p = Some (0, p')"
    "0 \<notin> set (env_spooldir env)"
  obtains d where "fpath p' = d @ [95] @ dec (unat (seq_number p'))" "0 \<notin> set d"
proof -
  obtain ws w where w: "split_wmo_header s (pce_wmo p) = (ws, w)" by fastforce
  have ws: "ws = 0" using assms(2) by (cases "ws = 0") (simp_all add: name_activepce_def w Let_def)
  with w have v: "wmo_valid w" using split_wmo_header_valid by blast
  obtain name where n: "make_product_fname w = Some name" "length name \<le> FNAME_SIZE" "list_all (\<lambda>b. b \<noteq> 0 \<and> \<not> isupper b) name"
    using make_product_fname_fits [OF v] by blast
  let ?p = "p\<lparr>pce_wmo := w, fname := name\<rparr>"
  obtain b where b: "make_product_fbasename ?p = Some (0, ?p\<lparr>fbasename := b\<rparr>)" "length b \<le> FBASENAME_SIZE"
    using make_product_fbasename_fits [of ?p] n v by (auto simp: wmo_valid_def)
  have b_eq: "b = name @ ascii ''.'' @ wmo_time w @ ascii ''_'' @ dec (unat (seq_number p))"
    using make_product_fbasename_name [OF b(1)] by simp
  let ?path = "env_spooldir env @ ascii ''/'' @ map tolower (wmo_station w) @ ascii ''/'' @ b"
  obtain f where f: "make_product_fpath (env_spooldir env) (?p\<lparr>fbasename := b\<rparr>) = (0, ?p\<lparr>fbasename := b, fpath := f\<rparr>)"
    "length f \<le> const_fpath_maxsize (env_spooldir env)"
    using make_product_fpath_fits [of "?p\<lparr>fbasename := b\<rparr>"] b(2) v assms(1) by (auto simp: wmo_valid_def)
  have "f = ?path"
    using make_product_fpath_name [OF f(1)] by simp
  moreover have "fpath p' = f \<and> seq_number p' = seq_number p"
    using assms(2) unfolding name_activepce_def w Let_def prod.case using ws n(1) b(1) f
    by (auto split: if_splits)
  moreover have "0 \<notin> set (env_spooldir env @ ascii ''/'' @ map tolower (wmo_station w) @ ascii ''/'' @ name @ ascii ''.'' @ wmo_time w)"
    using assms(3) v n(3) by (auto simp: wmo_valid_def list_all_iff ascii_def)
  moreover have "ascii ''_'' = [95]" by (simp add: ascii_def)
  ultimately show ?thesis
    using that [of "env_spooldir env @ ascii ''/'' @ map tolower (wmo_station w) @ ascii ''/'' @ name @ ascii ''.'' @ wmo_time w"]
    by (simp add: b_eq)
qed

section \<open>An example\<close>

definition select_all :: "bytes uwildregex_st" where
  "select_all = \<lparr>ur_re = [[]], ur_negate_flag = [0], ur_flag = 0, ur_errcode = 0\<rparr>"

definition example_proc_env ::
  "(pctl_element_st list, timespec \<Rightarrow> bytes option, bytes list, bytes \<rightharpoonup> bytes,
    bytes set \<times> (bytes \<Rightarrow> bytes option), u32 \<Rightarrow> int option, bytes) proc_env" where
  "example_proc_env =
     \<lparr>pe_alloc = (\<lambda>_. True), pe_bdb = list_bdb, pe_lock = 0, pe_waits = [], pe_qbdb = list_qdb 45, pe_qlock = 0,
      pe_fs = map_fs, pe_copy_ok = True, pe_ms = example_ms_env, pe_rtx = map_rtx, pe_re = prefix_re,
      pe_regex = \<lparr>np_regex = select_all, filterq_regex = select_all, serverq_regex = select_all, nbs1_regex = select_all,
        nbs2_regex = select_all, emwin_regex = select_all, savez_regex = select_all, rtxdb_regex = select_all\<rparr>,
      pe_uncompress = no_zlib, pe_spooltype = SPOOLTYPE_FS, pe_rtxdb_default_process = 1, pe_logs_open = True,
      pe_trylock = 0\<rparr>"

definition example_proc ::
  "(pctl_element_st list, timespec \<Rightarrow> bytes option, bytes list, bytes \<rightharpoonup> bytes,
    bytes set \<times> (bytes \<Rightarrow> bytes option), u32 \<Rightarrow> int option) proc_st" where
  "example_proc =
     \<lparr>pr_pctl = (g_pctl example_globals)\<lparr>outputmf := (example_mf [1])\<lparr>mf_size := 0\<rparr>\<rparr>, pr_stats = example_stats, pr_queues = example_nbspq,
      pr_fs = ({[47]}, \<lambda>_. None), pr_spooldb = None, pr_mspool = Some example_mspool, pr_cspool = None, pr_rtxdb = Some empty_rtxdb,
      pr_packetinfo = example_packet, pr_missinglog = [], pr_rtxlog = [], pr_rtxdb_truncate_flag = 0\<rparr>"

text \<open>A product of two frames, kept frame by frame.\<close>

definition example_frames :: "(int \<times> bytes) list" where
  "example_frames = [(0, [65, 66]), (0, [67])]"

definition example_product :: pctl_element_st where
  "example_product =
     (example_named 3)\<lparr>saveunz_flag := 1, num_fragments := 2, pce_mf := example_mf (concat (map frame_bytes example_frames))\<rparr>"

lemma example_assembled: "assembled no_zlib example_product [65, 66, 67]"
proof -
  have "concat (map (plain_frame no_zlib) example_frames) = [65, 66, 67]" "length example_frames = 2"
    by (simp_all add: example_frames_def plain_frame_def)
  moreover have "\<forall>fr \<in> set example_frames. plain_ok no_zlib fr" by (simp add: example_frames_def plain_ok_def)
  moreover have "mf_rest (pce_mf example_product) = concat (map frame_bytes example_frames) @ []" "num_fragments example_product = 2"
    "saveunz_flag example_product \<noteq> 0"
    by (simp_all add: example_product_def example_mf_def mf_rest_def mf_data_def)
  moreover have "mf_inv (pce_mf example_product)"
    by (simp add: example_product_def example_mf_def mf_inv_def example_frames_def frame_bytes_def memframe_info_def)
  ultimately show ?thesis unfolding assembled_def by fastforce
qed

lemma example_processed: "map_option fst (process_pctl_element example_proc_env example_product example_proc) = Some 0"
  by code_simp

section \<open>Properties\<close>

text \<open>
  C4. A product that is processed with the file system spool is in the spool: the file with its path holds exactly the data of the
  product, for a product kept frame by frame the uncompressed data of its frames in order, without
  the CCB when it is configured so, and no other file changes but the one of the oldest product of the
  spool. The hypotheses are that the spool is the one in the file system (with the spools in memory no file is
  written, and what is stored there is the subject of the theory of those spools), the laws of the file system, that
  the product is one that goes on to be saved and that this succeeds, and that the oldest product has another path.
\<close>

theorem processed_product_stored:
  assumes "fs_laws (pe_fs env) D R" "pe_spooltype env = SPOOLTYPE_FS" "goes_on env pce st"
    "process_pctl_element env pce st = Some (0, pce', st')" "assembled (pe_uncompress env) pce data"
    "mf_inv (outputmf (pr_pctl st))" "fpath pce \<noteq> oldest_spooled st"
  shows "R (pr_fs st') (fpath pce) = Some (if strips_ccb pce then drop CCB_SIZE data else data) \<and>
    (\<forall>p. p \<noteq> fpath pce \<and> p \<noteq> oldest_spooled st \<longrightarrow> R (pr_fs st') p = R (pr_fs st) p)"
proof (rule process_pctl_element_stages [OF assms(3,4)])
  fix st1 st2 s sd f s'
  assume n: "only_noted st st1" and "pr_rtxdb st1 = pr_rtxdb st" and sp: "pce_spool_product env (rtxdb_flag_filter env pce) st1 = Some (0, pce', st2)"
    and ins: "nbsp_spooldb_insert (pe_fs env) (pr_spooldb st2) (fpath pce') (pr_fs st2) = Some (s, sd, f)"
    and ex: "e_export_product env pce' (put_rtx env e_nbsp_rtxdb_put_ok pce' (st2\<lparr>pr_spooldb := sd, pr_fs := f\<rparr>)) = Some (s', st')"
  note k = only_noted_keeps [OF n]
  have out: "mf_inv (outputmf (pr_pctl st1))" using assms(6) k(2) by simp
  note stored = pce_spool_product_stores [OF assms(1,2) _ out sp, simplified, OF assms(5)]
  have old: "oldest_spooled st2 = oldest_spooled st" by (simp add: oldest_spooled_def stored(2) k(3))
  have "pr_fs st' = f" using e_export_product_files(1) [OF ex] by (simp add: put_rtx_def split: if_splits)
  then have "R (pr_fs st') p = ((R (pr_fs st))(fpath pce \<mapsto> saved_data pce data)) p" if "p \<noteq> oldest_spooled st" for p
    using nbsp_spooldb_insert_files [OF assms(1) ins, of p] that old stored(1) k(1) by simp
  with assms(7) show ?thesis by (simp add: saved_data_def)
qed

theorem processed_product_stored_witness:
  "\<exists>pce' st'. process_pctl_element example_proc_env example_product example_proc = Some (0, pce', st') \<and>
     snd (pr_fs st') [47, 65] = Some [65, 66, 67]"
proof -
  obtain pce' st' where run: "process_pctl_element example_proc_env example_product example_proc = Some (0, pce', st')"
    using example_processed by auto
  have env: "fs_laws (pe_fs example_proc_env) fst snd" "pe_spooltype example_proc_env = SPOOLTYPE_FS"
    "assembled (pe_uncompress example_proc_env) example_product [65, 66, 67]"
    using map_fs_laws example_assembled by (simp_all add: example_proc_env_def)
  have st: "goes_on example_proc_env example_product example_proc" "mf_inv (outputmf (pr_pctl example_proc))"
    "fpath example_product \<noteq> oldest_spooled example_proc" "fpath example_product = [47, 65]" "\<not> strips_ccb example_product"
    by (simp_all add: goes_on_def example_product_def example_named_def example_pce_def example_proc_def oldest_spooled_def
        example_mf_def mf_inv_def strips_ccb_def)
  from processed_product_stored [OF env(1,2) st(1) run env(3) st(2,3)] run st(4,5) show ?thesis by simp
qed

text \<open>
  C14. What was not received completely is never saved or announced, and what was received already is
  not processed again: for an incomplete product, and for a retransmission of a product that is recorded as
  received, processing succeeds, and at most statistics, logs and the records of products change.
\<close>

theorem unwanted_products_dropped:
  assumes "f_complete pce = 0 \<or> orig_seq_number pce \<noteq> 0 \<and> rtxdb_regex_match (pe_re env) (pe_regex env) (fname pce) = 0 \<and>
      e_nbsp_rtxdb_get_fstatus (pe_rtx env) (pr_rtxdb st) (orig_seq_number pce) = 0"
  shows "\<exists>pce' st'. process_pctl_element env pce st = Some (0, pce', st') \<and> only_noted st st'"
proof (cases "f_complete pce = 0")
  case True
  let ?p = "rtxdb_flag_filter env pce"
  have "only_noted st (put_rtx env e_nbsp_rtxdb_put_fail ?p (log_missing env ?p st))"
    by (blast intro: only_noted_trans)
  with True show ?thesis by (simp add: process_pctl_element_def Let_def rtxdb_flag_filter_def)
next
  case False
  let ?p = "rtxdb_flag_filter env pce"
  have "\<not> fst (check_retransmission env ?p st)"
    using assms False by (simp add: check_retransmission_def rtxdb_flag_filter_def Let_def)
  with check_retransmission_notes [of st env ?p] assms False show ?thesis
    by (simp add: process_pctl_element_def Let_def rtxdb_flag_filter_def case_prod_beta)
qed

theorem unwanted_products_dropped_witness:
  "\<exists>pce' st'. process_pctl_element example_proc_env (example_product\<lparr>f_complete := 0\<rparr>) example_proc = Some (0, pce', st') \<and>
     only_noted example_proc st'"
  by (rule unwanted_products_dropped) simp

text \<open>
  C13. A retransmission is processed exactly when it is needed. After a product was processed, its retransmission
  goes on if the product was incomplete, and is then counted as a recovery, and is dropped if the product
  was saved. The hypotheses are the laws of the database, that its insertions succeed, and that the
  filter of the records selects the name.
\<close>

theorem retransmission_once:
  assumes "rtx_laws (pe_rtx env) M" "\<forall>k v d. fst (rx_put (pe_rtx env) k v d) = 0" "pr_rtxdb st \<noteq> None"
    "rtxdb_regex_match (pe_re env) (pe_regex env) (fname p) = 0" "process_pctl_element env p st = Some (0, p', st')"
    "f_complete p \<noteq> 0 \<Longrightarrow> goes_on env p st"
    "fname q = fname p" "f_complete q \<noteq> 0" "orig_seq_number q = seq_number p" "seq_number p \<noteq> 0"
  shows "(goes_on env q st' \<longleftrightarrow> f_complete p = 0) \<and>
    (f_complete p = 0 \<longrightarrow> products_retransmitted_r (pr_stats (snd (check_retransmission env (rtxdb_flag_filter env q) st'))) =
       products_retransmitted_r (pr_stats st') + 1)"
  using process_records_status [OF assms(1-6)] assms(4,7-10)
  by (auto simp: goes_on_def check_retransmission_def rtxdb_flag_filter_def Let_def log_rtx_def stats_defs split: if_splits)

theorem retransmission_once_witness:
  "\<exists>pce' st'. process_pctl_element example_proc_env (example_product\<lparr>f_complete := 0\<rparr>) example_proc = Some (0, pce', st') \<and>
     goes_on example_proc_env (example_product\<lparr>orig_seq_number := 9\<rparr>) st'"
proof -
  let ?p = "example_product\<lparr>f_complete := 0\<rparr>" and ?q = "example_product\<lparr>orig_seq_number := 9\<rparr>"
  have "map_option fst (process_pctl_element example_proc_env ?p example_proc) = Some 0" by code_simp
  then obtain pce' st' where run: "process_pctl_element example_proc_env ?p example_proc = Some (0, pce', st')" by auto
  have "rtx_laws (pe_rtx example_proc_env) id" "\<forall>k v d. fst (rx_put (pe_rtx example_proc_env) k v d) = 0"
    using map_rtx_laws by (simp_all add: example_proc_env_def map_rtx_def)
  moreover have "rtxdb_regex_match (pe_re example_proc_env) (pe_regex example_proc_env) (fname ?p) = 0" by code_simp
  moreover have "pr_rtxdb example_proc \<noteq> None" by (simp add: example_proc_def)
  moreover have "fname ?q = fname ?p" "f_complete ?q \<noteq> 0" "orig_seq_number ?q = seq_number ?p" "seq_number ?p \<noteq> 0"
    by (simp_all add: example_product_def example_named_def example_pce_def)
  ultimately have "goes_on example_proc_env ?q st'" using retransmission_once [OF _ _ _ _ run, of id ?q] by simp
  with run show ?thesis by blast
qed

text \<open>
  C34. The path that the frame processor gives to a product of the satellite has a key in the memory spool, namely the number
  of the product in decimal: the assertion on the key of the spool does not fail for it, whatever the header of the
  product says. The spool directory has no zero byte and the element has the size for the paths in it. The
  paths that a slave makes of the names sent by its master are not covered.
\<close>

theorem named_path_has_key:
  assumes "fpath_size p = int (const_fpath_maxsize (env_spooldir env) + 1)" "name_activepce env l s p = Some (0, p')"
    "0 \<notin> set (env_spooldir env)"
  shows "get_fpath_key (fpath p') = Some (dec (unat (seq_number p')))"
proof (rule name_activepce_path [OF assms])
  fix d assume d: "fpath p' = d @ [95] @ dec (unat (seq_number p'))" "0 \<notin> set d"
  have "95 \<notin> set (dec (unat (seq_number p')))" using dec_digits [of 95] by (auto simp: isdigit_def)
  from get_fpath_key_last [OF d(2) dec_no_zero this length_dec_u32] d(1) show ?thesis by simp
qed

theorem named_path_has_key_witness:
  "\<exists>pce'. name_activepce example_env 0 example_unpacked example_idle_pce = Some (0, pce') \<and>
     get_fpath_key (fpath pce') = Some (dec (unat (seq_number pce')))"
proof -
  have "map_option fst (name_activepce example_env 0 example_unpacked example_idle_pce) = Some 0" by code_simp
  then obtain pce' where n: "name_activepce example_env 0 example_unpacked example_idle_pce = Some (0, pce')" by auto
  have "fpath_size example_idle_pce = int (const_fpath_maxsize (env_spooldir example_env) + 1)" "0 \<notin> set (env_spooldir example_env)"
    by (simp_all add: example_env_def example_idle_pce_def const_fpath_maxsize_def ascii_def)
  from named_path_has_key [OF this(1) n this(2)] n show ?thesis by blast
qed

end
