(* ===== verification/Sbnpack.thy ===== *)
theory Sbnpack
  imports Sbn Memfile "HOL-Library.Monad_Syntax"
begin

text \<open>
  The library that makes SBN frames of a file, \<^verbatim>\<open>tools/nbspmcast/sbnpack\<close> (\<^verbatim>\<open>sbn.c\<close>, \<^verbatim>\<open>fill.c\<close>,
  \<^verbatim>\<open>file.c\<close>, \<^verbatim>\<open>sbnpack.c\<close>), and what \<^verbatim>\<open>tools/nbspmcast/nbspmcast.c\<close> does with it: loading the file with a CCB
  in front, cutting it into data blocks, filling the headers, and sending the frames.

  A pointer into a frame or into the data is its offset. The files are the parameter \<open>file_env\<close>:
  what \<^verbatim>\<open>stat\<close>, \<^verbatim>\<open>open\<close> and \<^verbatim>\<open>read\<close> give. The bytes of memory just allocated are the parameters \<open>junk\<close>.
  \<^const>\<open>None\<close> is an access out of bounds, a failed assertion or a signed overflow.
\<close>

section \<open>Data\<close>

abbreviation DATA_BLOCK_SIZE :: int where "DATA_BLOCK_SIZE \<equiv> 4000"
abbreviation HEADER_SIZE :: nat where "HEADER_SIZE \<equiv> 32"
abbreviation HEADER_SIZE_0 :: nat where "HEADER_SIZE_0 \<equiv> 68"
abbreviation FRAME_SIZE_MAX :: nat where "FRAME_SIZE_MAX \<equiv> 4068"
abbreviation SIZEOF_SBNPACK_FRAME :: nat where "SIZEOF_SBNPACK_FRAME \<equiv> 4120"
abbreviation SIZEOF_SBNPACK :: nat where "SIZEOF_SBNPACK \<equiv> 56"
abbreviation INT_MAX :: int where "INT_MAX \<equiv> 2147483647"

record sbnpack_frame_st =
  sf_frame :: bytes
  sf_flh :: nat
  sf_pdh :: nat
  sf_psh :: nat
  sf_datablock :: nat
  sf_datablock_size :: int
  sf_header_size :: int
  sf_frame_index :: int
  sf_nframes :: int

record sbnpack_file_st =
  sl_data :: "bytes option"
  sl_allocated_size :: int
  sl_data_size :: int
  sl_readp :: nat

record sbnpack_st =
  sb_file :: sbnpack_file_st
  sb_frames :: "sbnpack_frame_st list option"
  sb_allocated_frames :: int
  sb_nframes :: int
  sb_prod_seq_number :: u32
  sb_sbn_seq_number :: u32
  sb_psh_type_flag :: int

section \<open>The headers of a frame\<close>

text \<open>Writing through a pointer into the frame.\<close>

definition at_ptr :: "nat \<Rightarrow> (bytes \<Rightarrow> bytes) \<Rightarrow> sbnpack_frame_st \<Rightarrow> sbnpack_frame_st" where
  "at_ptr off f fr = fr\<lparr>sf_frame := take off (sf_frame fr) @ f (drop off (sf_frame fr))\<rparr>"

primrec cksum_loop :: "bytes \<Rightarrow> u16 \<Rightarrow> u16" where
  "cksum_loop [] cksum = cksum"
| "cksum_loop (b # bs) cksum = cksum_loop bs (cksum + ucast b)"

definition flh_bytes :: "u32 \<Rightarrow> bytes \<Rightarrow> bytes" where
  "flh_bytes sbn_seq_number p =
     (let p = p[0 := 255, 1 := 0, 2 := 20, 3 := 0, 4 := 3, 5 := 5, 6 := 1, 7 := 0];
          p = pack_uint32 p sbn_seq_number 8;
          p = pack_uint16 p 1 12;
          cksum = cksum_loop (take (FRAME_LEVEL_HEADER_SIZE - 2) p) 0
      in pack_uint16 p cksum 14)"

definition fill_flh :: "sbnpack_frame_st \<Rightarrow> u32 \<Rightarrow> sbnpack_frame_st" where
  "fill_flh fr sbn_seq_number = at_ptr (sf_flh fr) (flh_bytes sbn_seq_number) fr"

text \<open>The index and the sizes are converted to 16 bits.\<close>

definition pdh_bytes :: "int \<Rightarrow> u16 \<Rightarrow> u16 \<Rightarrow> u16 \<Rightarrow> u32 \<Rightarrow> bytes \<Rightarrow> bytes" where
  "pdh_bytes nframes frame_index header_length datablock_size prod_seq_number p =
     (let t = (if frame_index = 0 then 1 else 0) + 2 + (if uint frame_index = nframes - 1 then 4 else 0);
          p = p[0 := 20, 1 := t];
          p = pack_uint16 p header_length 2;
          p = pack_uint16 p frame_index 4;
          p = pack_uint16 p 0 6;
          p = pack_uint16 p datablock_size 8;
          p = p[10 := 1, 11 := 1]
      in pack_uint32 p prod_seq_number 12)"

definition fill_pdh :: "sbnpack_frame_st \<Rightarrow> u32 \<Rightarrow> sbnpack_frame_st" where
  "fill_pdh fr prod_seq_number =
     at_ptr (sf_pdh fr)
       (pdh_bytes (sf_nframes fr) (word_of_int (sf_frame_index fr)) (word_of_int (sf_header_size fr))
          (word_of_int (sf_datablock_size fr)) prod_seq_number) fr"

definition psh_bytes :: "int \<Rightarrow> int \<Rightarrow> bytes \<Rightarrow> bytes" where
  "psh_bytes nframes psh_type_flag p =
     (let p = p[0 := 0, 1 := 0];
          p = pack_uint16 p 0 2;
          p = p[4 := 1, 5 := 1 + 2 + (if 0 = nframes - 1 then 4 else 0)];
          p = pack_uint16 p (of_nat PRODUCT_SPEC_HEADER_SIZE) 6;
          p = pack_uint16 p 0 8;
          p = p[10 := (if psh_type_flag \<noteq> 0 then 5 else 4), 11 := 0];
          p = pack_uint16 p 0 12;
          p = pack_uint16 p (word_of_int nframes) 14;
          p = pack_uint16 p 0 16;
          p = p[18 := 0, 19 := 0];
          p = pack_uint32 p 0 20;
          p = pack_uint32 p 0 24;
          p = pack_uint32 p 0 28;
          p = pack_uint16 p 0 32
      in pack_uint16 p 0 34)"

definition fill_psh :: "sbnpack_frame_st \<Rightarrow> int \<Rightarrow> sbnpack_frame_st option" where
  "fill_psh fr psh_type_flag =
     (if (word_of_int (sf_frame_index fr) :: u16) \<noteq> 0 then None
      else Some (at_ptr (sf_psh fr) (psh_bytes (sf_nframes fr) psh_type_flag) fr))"

section \<open>The file\<close>

record file_env =
  fe_size :: "bytes \<Rightarrow> int option" \<comment> \<open>\<^verbatim>\<open>st_size\<close>, when \<^verbatim>\<open>stat\<close> succeeds\<close>
  fe_open :: "bytes \<Rightarrow> bool"
  fe_read :: "bytes \<Rightarrow> nat \<Rightarrow> bytes option" \<comment> \<open>the bytes read, at most as many as asked\<close>

text \<open>The status and the size, meaningful when the status is 0.\<close>

definition get_file_stat_size :: "file_env \<Rightarrow> bytes \<Rightarrow> int \<times> int" where
  "get_file_stat_size env name =
     (case fe_size env name of
        None \<Rightarrow> (-1, 0)
      | Some ofsize \<Rightarrow> if ofsize > INT_MAX then (1, 0) else (0, ofsize))"

definition get_file_size_ccb :: "file_env \<Rightarrow> bytes \<Rightarrow> (int \<times> int) option" where
  "get_file_size_ccb env name =
     (let (status, stat_fsize) = get_file_stat_size env name in
      if status \<noteq> 0 then Some (status, 0)
      else if stat_fsize + int CCB_SIZE > INT_MAX then None
      else Some (0, stat_fsize + int CCB_SIZE))"

definition get_file_frame_params :: "int \<Rightarrow> int \<Rightarrow> int \<times> int" where
  "get_file_frame_params blocksize fsize =
     (let nframes = fsize div blocksize in (nframes + 1, fsize - nframes * blocksize))"

text \<open>The status, and the memory of the data, which has at least \<open>fsize\<close> bytes.\<close>

definition load_file :: "file_env \<Rightarrow> bytes \<Rightarrow> int \<Rightarrow> bytes \<Rightarrow> (int \<times> bytes) option" where
  "load_file env name fsize datap =
     (if \<not> fe_open env name then Some (-1, datap)
      else if length datap < nat fsize \<or> fsize < int CCB_SIZE then None
      else
        let datap = overwrite 0 (64 # 12 # replicate (CCB_SIZE - 2) 0) datap in
        case fe_read env name (nat (fsize - int CCB_SIZE)) of
          None \<Rightarrow> Some (1, datap)
        | Some bs \<Rightarrow>
            let datap = overwrite CCB_SIZE bs datap
            in Some (if int (length bs) + int CCB_SIZE \<noteq> fsize then 1 else 0, datap))"

definition init_sbnpack_file ::
  "allocator \<Rightarrow> file_env \<Rightarrow> (nat \<Rightarrow> byte) \<Rightarrow> bytes \<Rightarrow> sbnpack_file_st \<Rightarrow> (int \<times> sbnpack_file_st) option" where
  "init_sbnpack_file alloc env junk name fl = do {
     (status, fsize) \<leftarrow> get_file_size_ccb env name;
     if status \<noteq> 0 then Some (status, fl)
     else if sl_allocated_size fl \<ge> fsize then do {
       datap \<leftarrow> sl_data fl;
       (status, datap) \<leftarrow> load_file env name fsize datap;
       let fl = fl\<lparr>sl_data := Some datap\<rparr>;
       Some (status, if status = 0 then fl\<lparr>sl_data_size := fsize, sl_readp := 0\<rparr> else fl)
     }
     else if \<not> can_alloc alloc (nat fsize) then Some (-1, fl)
     else do {
       (status, p) \<leftarrow> load_file env name fsize (map junk [0..<nat fsize]);
       Some (status,
         if status \<noteq> 0 then fl
         else fl\<lparr>sl_data := Some p, sl_allocated_size := fsize, sl_data_size := fsize, sl_readp := 0\<rparr>)
     }
   }"

definition free_sbnpack_file :: "sbnpack_file_st \<Rightarrow> sbnpack_file_st" where
  "free_sbnpack_file fl = (case sl_data fl of None \<Rightarrow> fl | Some _ \<Rightarrow> fl\<lparr>sl_data := None, sl_allocated_size := 0\<rparr>)"

section \<open>The frames\<close>

text \<open>What is set in the frame with the given index; only the first one has a product specification header.\<close>

definition init_frame :: "int \<Rightarrow> int \<Rightarrow> nat \<Rightarrow> sbnpack_frame_st \<Rightarrow> sbnpack_frame_st" where
  "init_frame nframes last_datablock_size i fr =
     fr\<lparr>sf_frame_index := int i, sf_nframes := nframes, sf_flh := 0, sf_pdh := FRAME_LEVEL_HEADER_SIZE,
        sf_psh := (if i = 0 then FRAME_LEVEL_HEADER_SIZE + PRODUCT_DEF_HEADER_SIZE else sf_psh fr),
        sf_datablock := (if i = 0 then HEADER_SIZE_0 else HEADER_SIZE),
        sf_datablock_size := (if int i = nframes - 1 then last_datablock_size else DATA_BLOCK_SIZE),
        sf_header_size := (if i = 0 then int HEADER_SIZE_0 else int HEADER_SIZE)\<rparr>"

definition init_frames :: "int \<Rightarrow> int \<Rightarrow> sbnpack_frame_st list \<Rightarrow> sbnpack_frame_st list" where
  "init_frames nframes last_datablock_size frs =
     map (\<lambda>i. init_frame nframes last_datablock_size i (frs ! i)) [0..<nat nframes] @ drop (nat nframes) frs"

text \<open>With less than one frame the first one is written out of bounds.\<close>

definition init_sbnpack_frame_array ::
  "allocator \<Rightarrow> (nat \<Rightarrow> sbnpack_frame_st) \<Rightarrow> sbnpack_st \<Rightarrow> int \<Rightarrow> int \<Rightarrow> (int \<times> sbnpack_st) option" where
  "init_sbnpack_frame_array alloc junk sb nframes last_datablock_size =
     (if nframes < 1 then None
      else if sb_allocated_frames sb < nframes then
        if \<not> can_alloc alloc (nat nframes * SIZEOF_SBNPACK_FRAME) then Some (-1, sb)
        else Some (0, sb\<lparr>sb_frames := Some (init_frames nframes last_datablock_size (map junk [0..<nat nframes])),
                         sb_allocated_frames := nframes, sb_nframes := nframes\<rparr>)
      else do {
        frs \<leftarrow> sb_frames sb;
        if length frs < nat nframes then None
        else Some (0, sb\<lparr>sb_frames := Some (init_frames nframes last_datablock_size frs), sb_nframes := nframes\<rparr>)
      })"

definition free_sbnpack_frame_array :: "sbnpack_st \<Rightarrow> sbnpack_st" where
  "free_sbnpack_frame_array sb =
     (case sb_frames sb of None \<Rightarrow> sb | Some _ \<Rightarrow> sb\<lparr>sb_frames := None, sb_allocated_frames := 0\<rparr>)"

definition free_sbnpack :: "sbnpack_st \<Rightarrow> sbnpack_st" where
  "free_sbnpack sb = free_sbnpack_frame_array (sb\<lparr>sb_file := free_sbnpack_file (sb_file sb)\<rparr>)"

text \<open>The fields that are not set are those of the memory just allocated.\<close>

definition create_sbnpack :: "allocator \<Rightarrow> sbnpack_st \<Rightarrow> sbnpack_st option" where
  "create_sbnpack alloc junk =
     (if can_alloc alloc SIZEOF_SBNPACK
      then Some (junk\<lparr>sb_file := (sb_file junk)\<lparr>sl_data := None, sl_allocated_size := 0\<rparr>,
                      sb_frames := None, sb_allocated_frames := 0\<rparr>)
      else None)"

section \<open>Filling the frames\<close>

text \<open>The copy of a data block; a negative size is a huge one.\<close>

definition copy_block :: "bytes \<Rightarrow> nat \<Rightarrow> sbnpack_frame_st \<Rightarrow> sbnpack_frame_st option" where
  "copy_block data readp fr =
     (let n = nat (sf_datablock_size fr) in
      if sf_datablock_size fr < 0 \<or> length data < readp + n \<or> length (sf_frame fr) < sf_datablock fr + n then None
      else Some (fr\<lparr>sf_frame := overwrite (sf_datablock fr) (take n (drop readp data)) (sf_frame fr)\<rparr>))"

fun fill_blockdata_loop :: "bytes \<Rightarrow> nat \<Rightarrow> sbnpack_frame_st list \<Rightarrow> sbnpack_frame_st list option" where
  "fill_blockdata_loop data readp [] = Some []"
| "fill_blockdata_loop data readp (fr # frs) = do {
     fr' \<leftarrow> copy_block data readp fr;
     frs' \<leftarrow> fill_blockdata_loop data (readp + nat (sf_datablock_size fr)) frs;
     Some (fr' # frs')
   }"

definition fill_blockdata :: "sbnpack_st \<Rightarrow> sbnpack_st option" where
  "fill_blockdata sb = do {
     frs \<leftarrow> sb_frames sb;
     data \<leftarrow> sl_data (sb_file sb);
     let n = nat (sb_nframes sb);
     frs' \<leftarrow> fill_blockdata_loop data (sl_readp (sb_file sb)) (take n frs);
     Some (sb\<lparr>sb_frames := Some (frs' @ drop n frs)\<rparr>)
   }"

fun fill_headers_loop :: "u32 \<Rightarrow> u32 \<Rightarrow> sbnpack_frame_st list \<Rightarrow> sbnpack_frame_st list" where
  "fill_headers_loop sbn_seq_number prod_seq_number [] = []"
| "fill_headers_loop sbn_seq_number prod_seq_number (fr # frs) =
     fill_pdh (fill_flh fr (sbn_seq_number + 1)) prod_seq_number #
     fill_headers_loop (sbn_seq_number + 1) prod_seq_number frs"

definition fill_headers :: "sbnpack_st \<Rightarrow> sbnpack_st option" where
  "fill_headers sb = do {
     frs \<leftarrow> sb_frames sb;
     let n = nat (sb_nframes sb);
     case take n frs of
       [] \<Rightarrow> None
     | fr # rest \<Rightarrow> do {
         fr \<leftarrow> fill_psh (fill_pdh (fill_flh fr (sb_sbn_seq_number sb)) (sb_prod_seq_number sb)) (sb_psh_type_flag sb);
         Some (sb\<lparr>sb_frames := Some (fr # fill_headers_loop (sb_sbn_seq_number sb) (sb_prod_seq_number sb) rest @ drop n frs)\<rparr>)
       }
   }"

definition init_sbnpack ::
  "allocator \<Rightarrow> file_env \<Rightarrow> (nat \<Rightarrow> byte) \<Rightarrow> (nat \<Rightarrow> sbnpack_frame_st) \<Rightarrow> sbnpack_st \<Rightarrow> bytes \<Rightarrow> u32 \<Rightarrow> u32 \<Rightarrow> int \<Rightarrow>
   (int \<times> sbnpack_st) option" where
  "init_sbnpack alloc env junk junk_frames sb name prod_seq_number sbn_seq_number psh_type_flag = do {
     let sb = sb\<lparr>sb_prod_seq_number := prod_seq_number, sb_sbn_seq_number := sbn_seq_number, sb_psh_type_flag := psh_type_flag\<rparr>;
     (status, fl) \<leftarrow> init_sbnpack_file alloc env junk name (sb_file sb);
     let sb = sb\<lparr>sb_file := fl\<rparr>;
     (status, sb) \<leftarrow>
       (if status = 0 then
          let (nframes, last_datablock_size) = get_file_frame_params DATA_BLOCK_SIZE (sl_data_size fl)
          in init_sbnpack_frame_array alloc junk_frames sb nframes last_datablock_size
        else Some (status, sb));
     if status = 0 then do {
       sb \<leftarrow> fill_blockdata sb;
       sb \<leftarrow> fill_headers sb;
       Some (0, sb)
     }
     else Some (status, free_sbnpack sb)
   }"

section \<open>Sending the frames\<close>

text \<open>What is handed to \<^verbatim>\<open>write\<close> or \<^verbatim>\<open>sendto\<close>, and the status from the number of bytes sent.\<close>

definition frame_packet :: "sbnpack_st \<Rightarrow> nat \<Rightarrow> bytes option" where
  "frame_packet sb findex =
     (if int findex \<ge> sb_nframes sb then None
      else do {
        frs \<leftarrow> sb_frames sb;
        if findex \<ge> length frs then None
        else
          let fr = frs ! findex; framesize = sf_datablock_size fr + sf_header_size fr
          in if framesize < 0 \<or> length (sf_frame fr) < nat framesize then None
             else Some (take (nat framesize) (sf_frame fr))
      })"

definition send_status :: "int \<Rightarrow> bytes \<Rightarrow> int" where
  "send_status n pkt = (if n = -1 then -1 else if n \<noteq> int (length pkt) then 1 else 0)"

definition write_sbnpack_frame :: "(bytes \<Rightarrow> int) \<Rightarrow> sbnpack_st \<Rightarrow> nat \<Rightarrow> (int \<times> bytes) option" where
  "write_sbnpack_frame write_fd sb findex = do {
     pkt \<leftarrow> frame_packet sb findex;
     Some (send_status (write_fd pkt) pkt, pkt)
   }"

text \<open>The frames handed over, until one is not sent whole; \<open>write_fds\<close> has the call for each frame.\<close>

fun send_loop :: "(nat \<Rightarrow> bytes \<Rightarrow> int) \<Rightarrow> sbnpack_st \<Rightarrow> nat list \<Rightarrow> (int \<times> bytes list) option" where
  "send_loop write_fds sb [] = Some (0, [])"
| "send_loop write_fds sb (i # is) = do {
     (status, pkt) \<leftarrow> write_sbnpack_frame (write_fds i) sb i;
     if status \<noteq> 0 then Some (status, [pkt])
     else do {
       (status, pkts) \<leftarrow> send_loop write_fds sb is;
       Some (status, pkt # pkts)
     }
   }"

definition write_sbnpack :: "(nat \<Rightarrow> bytes \<Rightarrow> int) \<Rightarrow> sbnpack_st \<Rightarrow> (int \<times> bytes list) option" where
  "write_sbnpack write_fds sb = send_loop write_fds sb [0..<nat (sb_nframes sb)]"

text \<open>The same with \<^verbatim>\<open>sendto\<close>, in \<^verbatim>\<open>nbspmcast.c\<close>; the pause between frames is not modelled.\<close>

definition sendto_sbnpack_frame :: "(bytes \<Rightarrow> int) \<Rightarrow> sbnpack_st \<Rightarrow> nat \<Rightarrow> (int \<times> bytes) option" where
  "sendto_sbnpack_frame sendto sb findex = write_sbnpack_frame sendto sb findex"

definition sendto_sbnpack :: "(nat \<Rightarrow> bytes \<Rightarrow> int) \<Rightarrow> sbnpack_st \<Rightarrow> (int \<times> bytes list) option" where
  "sendto_sbnpack sendtos sb = send_loop sendtos sb [0..<nat (sb_nframes sb)]"

definition process_file ::
  "allocator \<Rightarrow> file_env \<Rightarrow> (nat \<Rightarrow> byte) \<Rightarrow> (nat \<Rightarrow> sbnpack_frame_st) \<Rightarrow> (nat \<Rightarrow> bytes \<Rightarrow> int) \<Rightarrow> sbnpack_st \<Rightarrow> bytes \<Rightarrow> u32 \<Rightarrow> u32 \<Rightarrow> int \<Rightarrow>
   (int \<times> bytes list \<times> sbnpack_st) option" where
  "process_file alloc env junk junk_frames sendtos sb fpath prod_seq_num sbn_seq_num opt_r = do {
     (status, sb) \<leftarrow> init_sbnpack alloc env junk junk_frames sb fpath prod_seq_num sbn_seq_num opt_r;
     if status = 0 then do {
       (status, pkts) \<leftarrow> sendto_sbnpack sendtos sb;
       Some (status, pkts, sb)
     }
     else Some (status, [], sb)
   }"

text \<open>Milliseconds since midnight, from the local time and the microseconds of the clock.\<close>

definition get_seqnum_start :: "int \<Rightarrow> int \<Rightarrow> int \<Rightarrow> int \<Rightarrow> u32" where
  "get_seqnum_start tm_hour tm_min tm_sec tv_usec =
     word_of_int ((tm_hour * 3600 + tm_min * 60 + tm_sec) * 1000) + word_of_int (tv_usec div 1000)"

text \<open>The pause after a frame, in microseconds.\<close>

definition init_sendto_sbnpack_usleep :: "int \<Rightarrow> int" where
  "init_sendto_sbnpack_usleep frames_per_ms =
     (if frames_per_ms = 0 then 0
      else if frames_per_ms > 0 then 1000 div (if frames_per_ms > 1000 then 1000 else frames_per_ms)
      else 1000 div 10)"

section \<open>Fields of the headers\<close>

lemma byte_at_update: "byte_at (d[i := b]) j = (if j = i \<and> i < length d then b else byte_at d j)"
  by (simp add: byte_at_def nth_list_update)

lemma be16_unpack: "be16 p i = uint (unpack_uint16 p i)"
proof -
  let ?a = "byte_at p i" and ?b = "byte_at p (i + 1)"
  have "unat (push_bit 8 (ucast ?a) + ucast ?b :: u16) = unat ?a * 256 + unat ?b"
    using unat_byte_bound [of ?a] unat_byte_bound [of ?b]
    by (simp add: unat_word_ariths push_bit_eq_mult unsigned_ucast_eq take_bit_nat_eq_self)
  then have "int (unat (unpack_uint16 p i)) = int (unat ?a * 256 + unat ?b)" by (simp add: unpack_uint16_def)
  then show ?thesis by (simp add: be16_def byte_int_def)
qed

lemma be16_pack: "i + 2 \<le> length p \<Longrightarrow> be16 (pack_uint16 p u i) i = uint u"
  by (simp add: be16_unpack w16.unpack_pack)

lemma byte_at_pack16: "i < start \<or> start + 2 \<le> i \<Longrightarrow> byte_at (pack_uint16 p u start) i = byte_at p i"
  by (rule w16.byte_at_pack_outside)

lemma byte_at_pack32: "i < start \<or> start + 4 \<le> i \<Longrightarrow> byte_at (pack_uint32 p u start) i = byte_at p i"
  by (rule w32.byte_at_pack_outside)

lemma be16_outside:
  "i + 2 \<le> start \<or> start + 2 \<le> i \<Longrightarrow> be16 (pack_uint16 p u start) i = be16 p i"
  "i + 2 \<le> start \<or> start + 4 \<le> i \<Longrightarrow> be16 (pack_uint32 p w start) i = be16 p i"
  "i \<noteq> j \<Longrightarrow> i + 1 \<noteq> j \<Longrightarrow> be16 (p[j := b]) i = be16 p i"
  by (auto simp: be16_def byte_int_def byte_at_pack16 byte_at_pack32 byte_at_update)

lemma unpack32_outside:
  "i + 4 \<le> start \<or> start + 2 \<le> i \<Longrightarrow> unpack_uint32 (pack_uint16 p u start) i = unpack_uint32 p i"
  "i + 4 \<le> start \<or> start + 4 \<le> i \<Longrightarrow> unpack_uint32 (pack_uint32 p w start) i = unpack_uint32 p i"
  by (auto simp: unpack_uint32_def byte_at_pack16 byte_at_pack32)

lemmas header_field_simps = byte_int_def byte_at_pack16 byte_at_pack32 byte_at_update be16_pack be16_outside
  w32.unpack_pack unpack32_outside

text \<open>The headers read only their own bytes.\<close>

lemma unpack_fl_header_local:
  assumes "\<And>i. i < 16 \<Longrightarrow> byte_at d i = byte_at e i"
  shows "unpack_fl_header d = unpack_fl_header e"
proof -
  have m: "map (byte_at d) [0..<14] = map (byte_at e) [0..<14]" by (simp add: assms)
  show ?thesis
    unfolding unpack_fl_header_def Let_def be16_def byte_int_def unpack_uint32_def
    by (simp add: assms m)
qed

lemma unpack_pd_header_local:
  assumes "\<And>i. i < 16 \<Longrightarrow> byte_at d i = byte_at e i"
  shows "unpack_pd_header d = unpack_pd_header e"
  unfolding unpack_pd_header_def Let_def be16_def byte_int_def unpack_uint32_def by (simp add: assms)

lemma unpack_ps_header_local:
  assumes "\<And>i. i < 36 \<Longrightarrow> byte_at d i = byte_at e i"
  shows "unpack_ps_header d = unpack_ps_header e"
  unfolding unpack_ps_header_def Let_def be16_def byte_int_def unpack_uint32_def by (simp add: assms)

section \<open>The headers written are read back\<close>

lemma cksum_loop_sum:
  assumes "uint c + 255 * int (length bs) < 65536"
  shows "uint (cksum_loop bs c) = uint c + sum_list (map uint bs)"
  using assms
proof (induction bs arbitrary: c)
  case (Cons b bs)
  have b: "uint b < 256" "0 \<le> uint b" using uint_bounded [of b] by simp_all
  have u: "uint (ucast b :: u16) = uint b" using b by (simp add: unsigned_ucast_eq take_bit_int_eq_self)
  have c: "uint (c + ucast b) = uint c + uint b" using Cons.prems b u by (simp add: uint_word_ariths)
  with Cons b show ?case by simp
qed simp

lemma sum_list_bytes_14: "14 \<le> length p \<Longrightarrow> sum_list (map uint (take 14 p)) = header_sum p"
  by (simp add: header_sum_def byte_int_def byte_at_def sum_list_sum_nth atLeast0LessThan)

lemma length_flh_bytes [simp]: "length (flh_bytes s p) = length p"
  by (simp add: flh_bytes_def Let_def)

lemma drop_flh_bytes: "drop 16 (flh_bytes s p) = drop 16 p"
  by (simp add: flh_bytes_def Let_def w16.drop_pack_after w32.drop_pack_after)

lemma flh_read:
  assumes "16 \<le> length p"
  shows "snd (unpack_fl_header (flh_bytes s p)) = 0" "fh_sbn_command (fst (unpack_fl_header (flh_bytes s p))) = 3"
    "fh_sbn_seq_number (fst (unpack_fl_header (flh_bytes s p))) = s"
proof -
  define q where "q = pack_uint16 (pack_uint32 (p[0 := 255, 1 := 0, 2 := 20, 3 := 0, 4 := 3, 5 := 5, 6 := 1, 7 := 0]) s 8) 1 12"
  define c where "c = cksum_loop (take 14 q) 0"
  have f: "flh_bytes s p = pack_uint16 q c 14" by (simp add: flh_bytes_def q_def c_def Let_def)
  have len: "16 \<le> length q" using assms by (simp add: q_def)
  have "header_sum (pack_uint16 q c 14) = header_sum q"
    by (simp add: header_sum_def byte_int_def byte_at_pack16)
  moreover have "uint c = header_sum q"
    using cksum_loop_sum [of 0 "take 14 q"] sum_list_bytes_14 [of q] len by (simp add: c_def)
  moreover have "be16 (pack_uint16 q c 14) 14 = uint c" using len by (simp add: be16_pack)
  ultimately show "snd (unpack_fl_header (flh_bytes s p)) = 0" by (simp add: f fl_header_status)
  show "fh_sbn_command (fst (unpack_fl_header (flh_bytes s p))) = 3"
    using assms by (simp add: f unpack_fl_header_def Let_def q_def header_field_simps)
  show "fh_sbn_seq_number (fst (unpack_fl_header (flh_bytes s p))) = s"
    using assms by (simp add: f unpack_fl_header_def Let_def q_def header_field_simps)
qed

lemma length_pdh_bytes [simp]: "length (pdh_bytes n i h d s p) = length p"
  by (simp add: pdh_bytes_def Let_def)

lemma drop_pdh_bytes: "drop 16 (pdh_bytes n i h d s p) = drop 16 p"
  by (simp add: pdh_bytes_def Let_def w16.drop_pack_after w32.drop_pack_after)

definition pdh_type :: "int \<Rightarrow> u16 \<Rightarrow> int" where
  "pdh_type n i = (if i = 0 then 1 else 0) + 2 + (if uint i = n - 1 then 4 else 0)"

lemma pdh_read:
  assumes "16 \<le> length p"
  shows "unpack_pd_header (pdh_bytes n i h d s p) =
    \<lparr>pdh_version = 1, pdh_transfer_type = pdh_type n i, pdh_header_length32 = 4, pdh_header_length = uint h,
     pdh_block_number = uint i, pdh_data_block_offset = 0, pdh_data_block_size = uint d,
     pdh_records_per_block = 1, pdh_blocks_per_record = 1, pdh_product_seq_number = s\<rparr>"
proof -
  have "p \<noteq> []" using assms by auto
  with assms show ?thesis by (simp add: pdh_bytes_def unpack_pd_header_def Let_def header_field_simps pdh_type_def)
qed

lemma length_psh_bytes [simp]: "length (psh_bytes n t p) = length p"
  by (simp add: psh_bytes_def Let_def)

lemma drop_psh_bytes: "drop 36 (psh_bytes n t p) = drop 36 p"
  by (simp add: psh_bytes_def Let_def w16.drop_pack_after w32.drop_pack_after)

lemma psh_read:
  assumes "36 \<le> length p"
  shows "psh_num_fragments (unpack_ps_header (psh_bytes n t p)) = uint (word_of_int n :: u16)"
    "psh_orig_seq_number (unpack_ps_header (psh_bytes n t p)) = 0"
    "psh_transfer_status_flag (unpack_ps_header (psh_bytes n t p)) = 3 + (if n = 1 then 4 else 0)"
    "psh_product_type (unpack_ps_header (psh_bytes n t p)) = (if t \<noteq> 0 then 5 else 4)"
  using assms by (simp_all add: psh_bytes_def unpack_ps_header_def Let_def header_field_simps)

section \<open>A frame with its headers\<close>

text \<open>The bytes of a frame when its headers are filled: \<open>f\<close> are the bytes before, with the data block in place.\<close>

definition with_headers :: "u32 \<Rightarrow> int \<Rightarrow> nat \<Rightarrow> u16 \<Rightarrow> u16 \<Rightarrow> u32 \<Rightarrow> int \<Rightarrow> bytes \<Rightarrow> bytes" where
  "with_headers fseq n i h d s t f =
     take 16 (flh_bytes fseq f) @ take 16 (pdh_bytes n (of_nat i) h d s (drop 16 f)) @
     (if i = 0 then psh_bytes n t (drop 32 f) else drop 32 f)"

lemma with_headers_parts:
  assumes w: "w = take m (with_headers fseq n i h d s t f)" and m: "68 \<le> length f" "32 \<le> m" "i = 0 \<Longrightarrow> 68 \<le> m" "m \<le> length f"
  shows "unpack_fl_header w = unpack_fl_header (flh_bytes fseq f)"
    "unpack_pd_header (drop 16 w) = unpack_pd_header (pdh_bytes n (of_nat i) h d s (drop 16 f))"
    "i = 0 \<Longrightarrow> unpack_ps_header (drop 32 w) = unpack_ps_header (psh_bytes n t (drop 32 f))"
    "length w = m" "i = 0 \<Longrightarrow> drop 68 w = take (m - 68) (drop 68 f)" "i \<noteq> 0 \<Longrightarrow> drop 32 w = take (m - 32) (drop 32 f)"
proof -
  have a: "length (take 16 (flh_bytes fseq f)) = 16" "length (take 16 (pdh_bytes n (of_nat i) h d s (drop 16 f))) = 16"
    using m by simp_all
  show "unpack_fl_header w = unpack_fl_header (flh_bytes fseq f)"
    by (rule unpack_fl_header_local) (use m a in \<open>simp add: w with_headers_def byte_at_def nth_append\<close>)
  have "drop 16 w = take (m - 16) (take 16 (pdh_bytes n (of_nat i) h d s (drop 16 f)) @ (if i = 0 then psh_bytes n t (drop 32 f) else drop 32 f))"
    using m by (simp add: w with_headers_def drop_take)
  then show "unpack_pd_header (drop 16 w) = unpack_pd_header (pdh_bytes n (of_nat i) h d s (drop 16 f))"
    by (intro unpack_pd_header_local) (use m a in \<open>simp add: byte_at_def nth_append less_diff_conv\<close>)
  have d32: "drop 32 w = take (m - 32) (if i = 0 then psh_bytes n t (drop 32 f) else drop 32 f)"
    using m by (simp add: w with_headers_def drop_take)
  then show "i = 0 \<Longrightarrow> unpack_ps_header (drop 32 w) = unpack_ps_header (psh_bytes n t (drop 32 f))"
    by (intro unpack_ps_header_local) (use m in \<open>simp add: byte_at_def\<close>)
  show "length w = m" using m by (simp add: w with_headers_def)
  show "i \<noteq> 0 \<Longrightarrow> drop 32 w = take (m - 32) (drop 32 f)" using d32 by simp
  show "i = 0 \<Longrightarrow> drop 68 w = take (m - 68) (drop 68 f)"
  proof -
    assume i: "i = 0"
    have "drop 68 w = drop 36 (drop 32 w)" by simp
    also have "\<dots> = take (m - 68) (drop 36 (psh_bytes n t (drop 32 f)))" using i by (simp add: d32 drop_take)
    finally show ?thesis by (simp add: drop_psh_bytes)
  qed
qed

text \<open>What the receiver makes of a frame made by the library.\<close>

definition received :: "int \<Rightarrow> nat \<Rightarrow> u32 \<Rightarrow> bytes \<Rightarrow> sbn_frame \<Rightarrow> bool" where
  "received n i s blk r \<longleftrightarrow>
     fh_sbn_command (fh r) = SBN_COMMAND_DATA_TRANSFER \<and> pdh_block_number (pdh r) = int i \<and>
     pdh_product_seq_number (pdh r) = s \<and> pdh_transfer_type (pdh r) = pdh_type n (of_nat i) \<and>
     ctrlhdr r = Null \<and> f_frdata_compressed r = 0 \<and> frdata_size r = int (length blk) \<and>
     take (length blk) (mem r (frdata r)) = blk \<and>
     (i = 0 \<longrightarrow> psh_num_fragments (psh r) = n \<and> psh_orig_seq_number (psh r) = 0 \<and>
        ccb r = frdata r \<and> pdata r = ptr_add (frdata r) CCB_SIZE)"

lemma pdh_type_uncompressed: "pdh_type n i AND 16 = 0"
  by (simp add: pdh_type_def)

lemma packet_headers:
  assumes f: "68 \<le> length f" "32 + length blk \<le> length f" "i = 0 \<Longrightarrow> 68 + length blk \<le> length f"
    and i: "i < 65536" "length blk < 65536" and hs: "hs = (if i = 0 then 68 else 32)"
    and r: "rawdata r = take (hs + length blk) (with_headers fseq n i h (of_nat (length blk)) s t f)"
      "rawdata_size r = int (hs + length blk)"
  obtains r' where "unpack_sbn_headers r = (0, r')" "fh_sbn_command (fh r') = 3" "pdh_block_number (pdh r') = int i"
    "pdh_product_seq_number (pdh r') = s" "pdh_transfer_type (pdh r') = pdh_type n (of_nat i)" "pdh_data_block_offset (pdh r') = 0"
    "pdh_data_block_size (pdh r') = int (length blk)" "rawdata r' = rawdata r" "np_channel_index r' = np_channel_index r"
    "i = 0 \<Longrightarrow> psh_num_fragments (psh r') = uint (word_of_int n :: u16) \<and> psh_orig_seq_number (psh r') = 0"
proof -
  let ?m = "hs + length blk"
  have m: "32 \<le> ?m" "i = 0 \<Longrightarrow> 68 \<le> ?m" "?m \<le> length f" using f hs by (auto split: if_splits)
  note p = with_headers_parts [OF r(1) f(1) m]
  have fl: "snd (unpack_fl_header (rawdata r)) = 0" "fh_sbn_command (fst (unpack_fl_header (rawdata r))) = 3"
    using flh_read [of f fseq] f p(1) by simp_all
  have u: "uint (word_of_nat i :: u16) = int i" "uint (word_of_nat (length blk) :: u16) = int (length blk)"
    using i by (simp_all add: unsigned_of_nat take_bit_nat_eq_self)
  have pd: "unpack_pd_header (drop 16 (rawdata r)) =
    \<lparr>pdh_version = 1, pdh_transfer_type = pdh_type n (of_nat i), pdh_header_length32 = 4, pdh_header_length = uint h,
     pdh_block_number = int i, pdh_data_block_offset = 0, pdh_data_block_size = int (length blk),
     pdh_records_per_block = 1, pdh_blocks_per_record = 1, pdh_product_seq_number = s\<rparr>" (is "_ = ?pd")
    using pdh_read [of "drop 16 f" n "of_nat i" h "of_nat (length blk)" s] f p(2) u by simp
  have ps: "i = 0 \<Longrightarrow> psh_num_fragments (unpack_ps_header (drop 32 (rawdata r))) = uint (word_of_int n :: u16) \<and>
      psh_orig_seq_number (unpack_ps_header (drop 32 (rawdata r))) = 0"
    using psh_read(1,2) [of "drop 32 f" n t] f p(3) by simp
  let ?r = "r\<lparr>fh := fst (unpack_fl_header (rawdata r)), pdh := ?pd\<rparr>"
  let ?r' = "if i = 0 then ?r\<lparr>psh := unpack_ps_header (drop 32 (rawdata r))\<rparr> else ?r"
  have "unpack_sbn_headers r = (0, ?r')"
    using fl r(2) hs by (simp add: unpack_sbn_headers_def Let_def case_prod_beta pd)
  with fl ps show ?thesis by (intro that [of ?r']) simp_all
qed

lemma packet_received:
  assumes f: "68 \<le> length f" "32 + length blk \<le> length f" "i = 0 \<Longrightarrow> 68 + length blk \<le> length f"
    and i: "i < 65536" "length blk < 65536" and n: "0 \<le> n" "n < 65536" and hs: "hs = (if i = 0 then 68 else 32)"
    and blk: "take (length blk) (drop hs f) = blk" "i = 0 \<Longrightarrow> 24 \<le> length blk \<and> \<not> isalpha (hd blk)"
    and r: "rawdata r = take (hs + length blk) (with_headers fseq n i h (of_nat (length blk)) s t f)"
      "rawdata_size r = int (hs + length blk)"
  shows "\<exists>r'. sbn_unpack_frame u r = (0, r') \<and> received n i s blk r' \<and> np_channel_index r' = np_channel_index r"
proof (rule packet_headers [OF f i hs r])
  fix r1
  assume h: "unpack_sbn_headers r = (0, r1)" "fh_sbn_command (fh r1) = 3" "pdh_block_number (pdh r1) = int i"
    "pdh_product_seq_number (pdh r1) = s" "pdh_transfer_type (pdh r1) = pdh_type n (of_nat i)" "pdh_data_block_offset (pdh r1) = 0"
    "pdh_data_block_size (pdh r1) = int (length blk)" "rawdata r1 = rawdata r" "np_channel_index r1 = np_channel_index r"
    "i = 0 \<Longrightarrow> psh_num_fragments (psh r1) = uint (word_of_int n :: u16) \<and> psh_orig_seq_number (psh r1) = 0"
  have m: "32 \<le> hs + length blk" "i = 0 \<Longrightarrow> 68 \<le> hs + length blk" "hs + length blk \<le> length f"
    using f hs by (auto split: if_splits)
  have d: "drop hs (rawdata r) = blk"
    using with_headers_parts(5,6) [OF r(1) f(1) m] hs blk(1) by (auto split: if_splits)
  have u: "uint (word_of_int n :: u16) = n" using n by (simp add: uint_word_of_int)
  define r2 where "r2 = r1\<lparr>ctrlhdr := Null, ctrlhdr_size := 0, frdata_size := int (length blk), frdata := Raw hs, f_frdata_compressed := 0\<rparr>"
  have stages: "locate_ctrlhdr r1 hs = (0, r1\<lparr>ctrlhdr := Null, ctrlhdr_size := 0\<rparr>)"
    "locate_frdata (r1\<lparr>ctrlhdr := Null, ctrlhdr_size := 0\<rparr>) hs = r2" "unz_first_frame u r2 = (0, r2)"
    using h by (simp_all add: locate_ctrlhdr_def locate_frdata_def unz_first_frame_def r2_def pdh_type_uncompressed)
  have r2: "pdh r2 = pdh r1" by (simp add: r2_def)
  have hs_cases: "i = 0 \<Longrightarrow> hs = 68" "i \<noteq> 0 \<Longrightarrow> hs = 32" using hs by simp_all
  have "sbn_unpack_frame u r = (if i \<noteq> 0 then (0, r2\<lparr>ccb := Null, ccb_size := 0\<rparr>) else locate_ccb r2)"
    using h(1,2,3) stages r2 hs_cases by (cases "i = 0") (simp_all add: sbn_unpack_frame_def)
  moreover have "received n i s blk (r2\<lparr>ccb := Null, ccb_size := 0\<rparr>)" if "i \<noteq> 0"
    using h d that by (simp add: received_def r2_def)
  moreover have "locate_ccb r2 = (0, r2\<lparr>ccb := Raw hs, ccb_size := 24, pdata := Raw (hs + 24), pdata_size := int (length blk) - 24\<rparr>)"
    if i: "i = 0"
  proof -
    have "byte_at (mem r2 (Raw hs)) 0 = hd blk" using blk(2) [OF i] h(8) d
      by (cases blk) (simp_all add: byte_at_def r2_def)
    with blk(2) [OF i] show ?thesis by (simp add: locate_ccb_def Let_def r2_def)
  qed
  moreover have "received n i s blk (r2\<lparr>ccb := Raw hs, ccb_size := 24, pdata := Raw (hs + 24), pdata_size := int (length blk) - 24\<rparr>)"
    if "i = 0"
    using h d u that by (simp add: received_def r2_def)
  moreover have "np_channel_index r2 = np_channel_index r" using h by (simp add: r2_def)
  ultimately show ?thesis by (cases "i = 0") auto
qed

section \<open>Blocks\<close>

lemma concat_blocks:
  "concat (map (\<lambda>i. take k (drop (k * i) d)) [0..<n]) = take (k * n) d"
  by (induction n) (simp_all add: take_add [symmetric] add.commute)

definition block :: "bytes \<Rightarrow> nat \<Rightarrow> bytes" where
  "block data i = take 4000 (drop (4000 * i) data)"

lemma length_block: "length (block data i) = min 4000 (length data - 4000 * i)"
  by (simp add: block_def)

text \<open>What the library relies on between files: the sizes kept are those of the memory.\<close>

definition sb_ok :: "sbnpack_st \<Rightarrow> bool" where
  "sb_ok sb \<longleftrightarrow>
     (case sl_data (sb_file sb) of None \<Rightarrow> sl_allocated_size (sb_file sb) \<le> 0
      | Some d \<Rightarrow> sl_allocated_size (sb_file sb) = int (length d)) \<and>
     (case sb_frames sb of None \<Rightarrow> sb_allocated_frames sb \<le> 0
      | Some frs \<Rightarrow> sb_allocated_frames sb = int (length frs) \<and> (\<forall>fr \<in> set frs. length (sf_frame fr) = FRAME_SIZE_MAX))"

definition ccb_bytes :: bytes where
  "ccb_bytes = 64 # 12 # replicate 22 0"

lemma length_ccb_bytes [simp]: "length ccb_bytes = 24"
  by (simp add: ccb_bytes_def)

lemma load_file_ok:
  assumes "load_file env name fsize d = Some (0, d')"
  obtains bs where "fe_read env name (nat (fsize - 24)) = Some bs" "take (nat fsize) d' = ccb_bytes @ bs"
    "length (ccb_bytes @ bs) = nat fsize" "length d' = length d" "24 \<le> fsize" "nat fsize \<le> length d"
proof -
  have o: "fe_open env name" "\<not> length d < nat fsize" "24 \<le> fsize"
    using assms by (auto simp: load_file_def split: if_splits)
  from assms o obtain bs where bs: "fe_read env name (nat (fsize - 24)) = Some bs" "int (length bs) + 24 = fsize"
    and d': "d' = overwrite 24 bs (overwrite 0 ccb_bytes d)"
    by (auto simp: load_file_def Let_def ccb_bytes_def split: if_splits option.splits)
  have n: "nat fsize = 24 + length bs" using bs(2) by simp
  have "d' = overwrite 0 (ccb_bytes @ bs) d"
    using d' o(2,3) overwrite_twice [of 0 d ccb_bytes bs] by simp
  moreover have "nat fsize \<le> length d" using o(2) by simp
  ultimately show ?thesis
    using that [OF bs(1)] o n by (simp add: overwrite_def)
qed

lemma init_sbnpack_file_ok:
  assumes "init_sbnpack_file alloc env junk name fl = Some (0, fl')"
    "case sl_data fl of None \<Rightarrow> sl_allocated_size fl \<le> 0 | Some d \<Rightarrow> sl_allocated_size fl = int (length d)"
  obtains bs d where "sl_data fl' = Some d" "fe_size env name = Some (int (length bs))" "fe_read env name (length bs) = Some bs"
    "sl_data_size fl' = 24 + int (length bs)" "take (24 + length bs) d = ccb_bytes @ bs" "24 + length bs \<le> length d"
    "sl_readp fl' = 0" "sl_allocated_size fl' = int (length d)"
proof -
  obtain st fsize where g: "get_file_size_ccb env name = Some (st, fsize)"
    using assms(1) by (auto simp: init_sbnpack_file_def bind_eq_Some_conv)
  have st: "st = 0" using assms(1) by (auto simp: init_sbnpack_file_def g split: if_splits)
  have size: "fe_size env name = Some (fsize - 24)"
    using g st by (auto simp: get_file_size_ccb_def get_file_stat_size_def split: option.splits if_splits)
  obtain d0 d where l: "load_file env name fsize d0 = Some (0, d)" "sl_data fl' = Some d" "sl_data_size fl' = fsize"
    "sl_readp fl' = 0" "sl_allocated_size fl' = int (length d0)"
  proof (cases "sl_allocated_size fl \<ge> fsize")
    case True
    obtain d0 where d0: "sl_data fl = Some d0" using assms(1) True by (cases "sl_data fl") (simp_all add: init_sbnpack_file_def g st)
    obtain st1 d where l: "load_file env name fsize d0 = Some (st1, d)"
      using assms(1) True d0 by (cases "load_file env name fsize d0") (auto simp: init_sbnpack_file_def g st)
    from assms(1) True d0 l have "st1 = 0 \<and> fl' = fl\<lparr>sl_data := Some d, sl_data_size := fsize, sl_readp := 0\<rparr>"
      by (auto simp: init_sbnpack_file_def g st Let_def)
    with l d0 assms(2) show ?thesis by (intro that [of d0 d]) simp_all
  next
    case False
    let ?d0 = "map junk [0..<nat fsize]"
    obtain st1 d where l: "load_file env name fsize ?d0 = Some (st1, d)" "can_alloc alloc (nat fsize)"
      using assms(1) False by (cases "load_file env name fsize ?d0") (simp_all add: init_sbnpack_file_def g st split: if_splits prod.splits)
    have e: "st1 = 0 \<and> fl' = fl\<lparr>sl_data := Some d, sl_allocated_size := fsize, sl_data_size := fsize, sl_readp := 0\<rparr>"
      using assms(1) False l unfolding init_sbnpack_file_def g by (cases "st1 = 0") (simp_all add: st)
    then have st1: "st1 = 0" by simp
    have "0 \<le> fsize" by (rule load_file_ok [OF l(1) [unfolded st1]]) simp
    with e l st1 show ?thesis by (intro that [of ?d0 d]) auto
  qed
  obtain bs where bs: "fe_read env name (nat (fsize - 24)) = Some bs" "take (nat fsize) d = ccb_bytes @ bs"
    "length (ccb_bytes @ bs) = nat fsize" "length d = length d0" "24 \<le> fsize" "nat fsize \<le> length d0"
    using load_file_ok [OF l(1)] by blast
  have n: "nat fsize = 24 + length bs" "nat (fsize - 24) = length bs" "fsize = 24 + int (length bs)"
    using bs(3,5) by simp_all
  show ?thesis
    using l bs n size by (intro that [of d bs]) (simp_all)
qed

section \<open>The frames of a file\<close>

lemma map_index_Cons:
  "map (\<lambda>i. g i ((x # xs) ! i)) [0..<length (x # xs)] = g 0 x # map (\<lambda>i. g (Suc i) (xs ! i)) [0..<length xs]"
proof -
  have "[0..<length (x # xs)] = 0 # map Suc [0..<length xs]" by (simp add: upt_conv_Cons map_Suc_upt del: upt_Suc)
  then show ?thesis by (simp del: upt_Suc)
qed

definition put_block :: "bytes \<Rightarrow> sbnpack_frame_st \<Rightarrow> sbnpack_frame_st" where
  "put_block blk fr = fr\<lparr>sf_frame := overwrite (sf_datablock fr) blk (sf_frame fr)\<rparr>"

lemma copy_block_put:
  assumes "4000 * j \<le> L" "L \<le> length buf" "sf_datablock_size fr = int (length (block (take L buf) j))"
    "sf_datablock fr + length (block (take L buf) j) \<le> length (sf_frame fr)"
  shows "copy_block buf (4000 * j) fr = Some (put_block (block (take L buf) j) fr)"
proof -
  let ?b = "block (take L buf) j"
  have b: "?b = take (min 4000 (L - 4000 * j)) (drop (4000 * j) buf)" by (simp add: block_def drop_take)
  have n: "length ?b = min 4000 (L - 4000 * j)" using assms(1,2) by (simp add: length_block)
  have "take (length ?b) (drop (4000 * j) buf) = ?b" unfolding n by (simp only: b)
  moreover have "4000 * j + length ?b \<le> length buf" using assms(1,2) n by simp
  ultimately show ?thesis using assms(3,4) by (simp add: copy_block_def put_block_def Let_def)
qed

lemma fill_blockdata_loop_blocks:
  assumes "L \<le> length buf"
    "\<forall>i < length frs. 4000 * (k + i) \<le> L \<and> sf_datablock_size (frs ! i) = int (length (block (take L buf) (k + i))) \<and>
       sf_datablock (frs ! i) + length (block (take L buf) (k + i)) \<le> length (sf_frame (frs ! i))"
    "\<forall>i. Suc i < length frs \<longrightarrow> length (block (take L buf) (k + i)) = 4000"
  shows "fill_blockdata_loop buf (4000 * k) frs =
    Some (map (\<lambda>i. put_block (block (take L buf) (k + i)) (frs ! i)) [0..<length frs])"
  using assms
proof (induction frs arbitrary: k)
  case (Cons fr frs)
  let ?B = "block (take L buf)"
  have fr: "4000 * k \<le> L" "sf_datablock_size fr = int (length (?B k))" "sf_datablock fr + length (?B k) \<le> length (sf_frame fr)"
    using Cons.prems(2) [rule_format, of 0] by simp_all
  have ih: "fill_blockdata_loop buf (4000 * Suc k) frs = Some (map (\<lambda>i. put_block (?B (Suc k + i)) (frs ! i)) [0..<length frs])"
  proof (rule Cons.IH [OF Cons.prems(1)])
    show "\<forall>i < length frs. 4000 * (Suc k + i) \<le> L \<and> sf_datablock_size (frs ! i) = int (length (?B (Suc k + i))) \<and>
       sf_datablock (frs ! i) + length (?B (Suc k + i)) \<le> length (sf_frame (frs ! i))"
      using Cons.prems(2) by (auto dest: spec [of _ "Suc i" for i])
    show "\<forall>i. Suc i < length frs \<longrightarrow> length (?B (Suc k + i)) = 4000"
      using Cons.prems(3) by (auto dest: spec [of _ "Suc i" for i])
  qed
  have "fill_blockdata_loop buf (4000 * k + nat (sf_datablock_size fr)) frs =
      Some (map (\<lambda>i. put_block (?B (Suc k + i)) (frs ! i)) [0..<length frs])"
  proof (cases "frs = []")
    case False
    then have "length (?B k) = 4000" using Cons.prems(3) [rule_format, of 0] by simp
    with ih fr(2) show ?thesis by (simp add: add.commute)
  qed simp
  with copy_block_put [OF fr(1) Cons.prems(1) fr(2,3)] show ?case
    unfolding map_index_Cons [of "\<lambda>i. put_block (?B (k + i))" fr frs] by simp
qed simp

lemma fill_headers_loop_map:
  "fill_headers_loop q s frs = map (\<lambda>i. fill_pdh (fill_flh (frs ! i) (q + of_nat (Suc i))) s) [0..<length frs]"
proof (induction frs arbitrary: q)
  case (Cons fr frs)
  show ?case unfolding map_index_Cons [of "\<lambda>i fr. fill_pdh (fill_flh fr (q + of_nat (Suc i))) s" fr frs]
    using Cons by (simp add: ac_simps)
qed simp

definition frames_ok :: "sbnpack_st \<Rightarrow> bool" where
  "frames_ok sb \<longleftrightarrow>
     (case sb_frames sb of None \<Rightarrow> sb_allocated_frames sb \<le> 0
      | Some frs \<Rightarrow> sb_allocated_frames sb = int (length frs) \<and> (\<forall>fr \<in> set frs. length (sf_frame fr) = FRAME_SIZE_MAX))"

lemma init_sbnpack_frame_array_ok:
  assumes "init_sbnpack_frame_array alloc jf sb (int n) lst = Some (0, sb1)" "frames_ok sb"
    "\<forall>i. length (sf_frame (jf i)) = FRAME_SIZE_MAX"
  obtains g rest where
    "sb1 = sb\<lparr>sb_frames := Some (map (\<lambda>i. init_frame (int n) lst i (g i)) [0..<n] @ rest),
       sb_allocated_frames := int (n + length rest), sb_nframes := int n\<rparr>"
    "\<forall>i < n. length (sf_frame (g i)) = FRAME_SIZE_MAX" "\<forall>fr \<in> set rest. length (sf_frame fr) = FRAME_SIZE_MAX" "1 \<le> n"
proof -
  have n: "1 \<le> n" using assms(1) by (auto simp: init_sbnpack_frame_array_def split: if_splits)
  show ?thesis
  proof (cases "sb_allocated_frames sb < int n")
    case True
    have f: "init_frames (int n) lst (map jf [0..<n]) = map (\<lambda>i. init_frame (int n) lst i (jf i)) [0..<n] @ []"
      by (simp add: init_frames_def)
    from True assms(1) n have "sb1 = sb\<lparr>sb_frames := Some (init_frames (int n) lst (map jf [0..<n])),
        sb_allocated_frames := int n, sb_nframes := int n\<rparr>"
      by (simp add: init_sbnpack_frame_array_def split: if_splits)
    with f assms(3) n show ?thesis by (intro that [where g = jf and rest = "[]"]) simp_all
  next
    case False
    obtain frs where frs: "sb_frames sb = Some frs" using assms(1) False n
      by (cases "sb_frames sb") (simp_all add: init_sbnpack_frame_array_def)
    with assms(2) have ok: "sb_allocated_frames sb = int (length frs)" "\<forall>fr \<in> set frs. length (sf_frame fr) = FRAME_SIZE_MAX"
      by (simp_all add: frames_ok_def)
    from False ok have len: "n \<le> length frs" by simp
    from False assms(1) n frs len have "sb1 = sb\<lparr>sb_frames := Some (init_frames (int n) lst frs), sb_nframes := int n\<rparr>"
      by (simp add: init_sbnpack_frame_array_def)
    with len ok n show ?thesis
      by (intro that [where g = "\<lambda>i. frs ! i" and rest = "drop n frs"]) (auto simp: init_frames_def dest: in_set_dropD)
  qed
qed

text \<open>The frame with the given index when all is filled: \<open>g\<close> are the frames as allocated, \<open>D\<close> the data.\<close>

definition final_frame :: "u32 \<Rightarrow> u32 \<Rightarrow> int \<Rightarrow> nat \<Rightarrow> int \<Rightarrow> bytes \<Rightarrow> (nat \<Rightarrow> sbnpack_frame_st) \<Rightarrow> nat \<Rightarrow> sbnpack_frame_st" where
  "final_frame q s t n lst D g i =
     (let fr = fill_pdh (fill_flh (put_block (block D i) (init_frame (int n) lst i (g i))) (q + of_nat i)) s
      in if i = 0 then at_ptr (sf_psh fr) (psh_bytes (sf_nframes fr) t) fr else fr)"

lemma fill_headers_frames:
  assumes "sb_frames sb = Some (map (\<lambda>i. put_block (block D i) (init_frame (int n) lst i (g i))) [0..<n] @ rest)"
    "sb_nframes sb = int n" "1 \<le> n"
  shows "fill_headers sb =
    Some (sb\<lparr>sb_frames := Some (map (final_frame (sb_sbn_seq_number sb) (sb_prod_seq_number sb) (sb_psh_type_flag sb) n lst D g) [0..<n] @ rest)\<rparr>)"
proof -
  let ?h = "\<lambda>i. put_block (block D i) (init_frame (int n) lst i (g i))"
  have up: "[0..<n] = 0 # map Suc [0..<n - 1]" using assms(3) by (simp add: upt_conv_Cons map_Suc_upt)
  have tk: "take n (map ?h [0..<n] @ rest) = ?h 0 # map (?h \<circ> Suc) [0..<n - 1]"
  proof -
    have "take n (map ?h [0..<n] @ rest) = map ?h [0..<n]" by simp
    then show ?thesis unfolding up by simp
  qed
  have dr: "drop n (map ?h [0..<n] @ rest) = rest" by simp
  have idx: "sf_frame_index (fill_pdh (fill_flh (?h 0) a) b) = 0" for a b
    by (simp add: fill_pdh_def fill_flh_def at_ptr_def put_block_def init_frame_def)
  have rest: "fill_headers_loop a b (map (?h \<circ> Suc) [0..<n - 1]) = map (final_frame a b c n lst D g \<circ> Suc) [0..<n - 1]" for a b c
    by (simp add: fill_headers_loop_map final_frame_def)
  have fin: "map F [0..<n] = F 0 # map (F \<circ> Suc) [0..<n - 1]" for F :: "nat \<Rightarrow> sbnpack_frame_st" unfolding up by simp
  show ?thesis
    unfolding fill_headers_def assms(1,2) bind.bind_lunit Let_def nat_int tk dr list.case
      fin [of "final_frame (sb_sbn_seq_number sb) (sb_prod_seq_number sb) (sb_psh_type_flag sb) n lst D g"]
      rest [of _ _ "sb_psh_type_flag sb"]
    by (simp add: fill_psh_def idx final_frame_def [of _ _ _ _ _ _ _ 0] Let_def del: upt_Suc)
qed

lemma final_frame_bytes:
  assumes "length (sf_frame (g i)) = FRAME_SIZE_MAX" "hs = (if i = 0 then 68 else 32)" "length (block D i) \<le> 4000"
  obtains f where "length f = FRAME_SIZE_MAX" "take (length (block D i)) (drop hs f) = block D i"
    "sf_frame (final_frame q s t n lst D g i) =
       with_headers (q + of_nat i) (int n) i (of_nat hs) (word_of_int (sf_datablock_size (final_frame q s t n lst D g i))) s t f"
    "sf_datablock_size (final_frame q s t n lst D g i) = (if i = n - 1 \<and> n \<noteq> 0 then lst else DATA_BLOCK_SIZE)"
    "sf_header_size (final_frame q s t n lst D g i) = int hs"
proof -
  let ?fr = "put_block (block D i) (init_frame (int n) lst i (g i))"
  let ?f = "sf_frame ?fr"
  have f: "?f = overwrite hs (block D i) (sf_frame (g i))" using assms(2) by (simp add: put_block_def init_frame_def)
  have len: "length ?f = FRAME_SIZE_MAX" using assms by (auto simp: f)
  have "take (length (block D i)) (drop hs ?f) = block D i" using assms by (auto simp: f overwrite_def)
  moreover have "sf_frame (final_frame q s t n lst D g i) =
       with_headers (q + of_nat i) (int n) i (of_nat hs) (word_of_int (sf_datablock_size (final_frame q s t n lst D g i))) s t ?f"
  proof -
    let ?A = "flh_bytes (q + of_nat i) ?f"
    let ?B = "pdh_bytes (int n) (of_nat i) (of_nat hs) (word_of_int (sf_datablock_size ?fr)) s (drop 16 ?f)"
    have AB: "sf_frame (fill_pdh (fill_flh ?fr (q + of_nat i)) s) = take 16 ?A @ ?B"
      using assms(2) by (simp add: fill_pdh_def fill_flh_def at_ptr_def drop_flh_bytes) (simp add: put_block_def init_frame_def drop_flh_bytes)
    have B: "drop 16 ?B = drop 32 ?f" using drop_pdh_bytes [of _ _ _ _ _ "drop 16 ?f"] by simp
    have "take 16 ?A @ ?B = take 16 ?A @ take 16 ?B @ drop 32 ?f" using B by (metis append_take_drop_id)
    moreover have "take 32 (take 16 ?A @ ?B) = take 16 ?A @ take 16 ?B" "drop 32 (take 16 ?A @ ?B) = drop 32 ?f"
      using len B by simp_all
    moreover have "sf_datablock_size (final_frame q s t n lst D g i) = sf_datablock_size ?fr"
      by (simp add: final_frame_def Let_def at_ptr_def fill_pdh_def fill_flh_def)
    moreover have "sf_psh (fill_pdh (fill_flh ?fr a) b) = 32" "sf_nframes (fill_pdh (fill_flh ?fr a) b) = int n" if "i = 0" for a b
      using that by (simp_all add: at_ptr_def fill_pdh_def fill_flh_def put_block_def init_frame_def)
    ultimately show ?thesis
      using AB by (cases "i = 0") (simp_all add: final_frame_def Let_def with_headers_def at_ptr_def [of 32])
  qed
  moreover have "sf_datablock_size (final_frame q s t n lst D g i) = (if i = n - 1 \<and> n \<noteq> 0 then lst else DATA_BLOCK_SIZE)"
    "sf_header_size (final_frame q s t n lst D g i) = int hs"
    using assms(2) by (auto simp: final_frame_def Let_def at_ptr_def fill_pdh_def fill_flh_def put_block_def init_frame_def)
  ultimately show ?thesis by (intro that [OF len]) simp_all
qed

lemma length_final_frame:
  assumes "length (sf_frame (g i)) = FRAME_SIZE_MAX"
  shows "length (sf_frame (final_frame q s t n lst D g i)) = FRAME_SIZE_MAX"
proof -
  have "length (block D i) \<le> 4000" by (simp add: length_block)
  from final_frame_bytes [where g = g and i = i, OF assms refl this, of q s t n lst] obtain f where "length f = FRAME_SIZE_MAX"
    "sf_frame (final_frame q s t n lst D g i) =
       with_headers (q + of_nat i) (int n) i (of_nat (if i = 0 then 68 else 32)) (word_of_int (sf_datablock_size (final_frame q s t n lst D g i))) s t f"
    by blast
  then show ?thesis by (simp add: with_headers_def)
qed

lemma fill_blockdata_init:
  assumes n: "n = L div 4000 + 1" and lst: "lst = int L - int (n - 1) * 4000" and L: "L \<le> length buf" "take L buf = D"
    and g: "\<forall>i < n. length (sf_frame (g i)) = FRAME_SIZE_MAX"
  shows "fill_blockdata_loop buf 0 (map (\<lambda>i. init_frame (int n) lst i (g i)) [0..<n]) =
    Some (map (\<lambda>i. put_block (block D i) (init_frame (int n) lst i (g i))) [0..<n])"
proof -
  let ?frs = "map (\<lambda>i. init_frame (int n) lst i (g i)) [0..<n]"
  have b: "4000 * (n - 1) \<le> L" "L < 4000 * n" using n by simp_all
  have len: "length (block D i) = min 4000 (L - 4000 * i)" for i using L by (auto simp: length_block)
  have full: "length (block D i) = 4000" if "Suc i < n" for i
  proof -
    have "4000 * Suc i \<le> 4000 * (n - 1)" using that by (intro mult_le_mono2) simp
    with b(1) show ?thesis by (simp add: len)
  qed
  have "4000 * i \<le> L \<and> sf_datablock_size (?frs ! i) = int (length (block D i)) \<and>
      sf_datablock (?frs ! i) + length (block D i) \<le> length (sf_frame (?frs ! i))" if i: "i < n" for i
  proof (cases "Suc i < n")
    case True
    then have "4000 * i \<le> 4000 * (n - 1)" by (intro mult_le_mono2) simp
    with True i b(1) full [OF True] g show ?thesis by (auto simp: init_frame_def)
  next
    case False
    with i have e: "i = n - 1" by simp
    have "int (L - 4000 * i) = lst" "L - 4000 * i < 4000" using b i by (simp_all add: e lst of_nat_diff algebra_simps)
    then show ?thesis using i b(1) e g by (auto simp: init_frame_def len of_nat_diff)
  qed
  with fill_blockdata_loop_blocks [OF L(1), of ?frs 0] L(2) full show ?thesis by simp
qed

lemma fill_stage:
  assumes n: "n = L div 4000 + 1" and lst: "lst = int L - int (n - 1) * 4000" and L: "L \<le> length buf" "take L buf = D"
    and g: "\<forall>i < n. length (sf_frame (g i)) = FRAME_SIZE_MAX"
    and sb: "sl_data (sb_file sb) = Some buf" "sl_readp (sb_file sb) = 0" "sb_nframes sb = int n"
      "sb_frames sb = Some (map (\<lambda>i. init_frame (int n) lst i (g i)) [0..<n] @ rest)"
  shows "do { sb \<leftarrow> fill_blockdata sb; fill_headers sb } =
    Some (sb\<lparr>sb_frames := Some (map (final_frame (sb_sbn_seq_number sb) (sb_prod_seq_number sb) (sb_psh_type_flag sb) n lst D g) [0..<n] @ rest)\<rparr>)"
proof -
  let ?sb = "sb\<lparr>sb_frames := Some (map (\<lambda>i. put_block (block D i) (init_frame (int n) lst i (g i))) [0..<n] @ rest)\<rparr>"
  have "fill_blockdata sb = Some ?sb"
    using fill_blockdata_init [OF n lst L g] by (simp add: fill_blockdata_def sb)
  with fill_headers_frames [of ?sb D n lst g rest] n sb(3) show ?thesis by simp
qed

text \<open>What \<^const>\<open>init_sbnpack\<close> leaves when it succeeds.\<close>

lemma init_sbnpack_frames:
  assumes run: "init_sbnpack alloc env junk jf sb name s q t = Some (0, sb')" and ok: "sb_ok sb"
    and jf: "\<forall>i. length (sf_frame (jf i)) = FRAME_SIZE_MAX"
  obtains bs g rest n where "fe_size env name = Some (int (length bs))" "fe_read env name (length bs) = Some bs"
    "n = (24 + length bs) div 4000 + 1" "sb_nframes sb' = int n"
    "sb_frames sb' = Some (map (final_frame q s t n (int (24 + length bs) - int (n - 1) * 4000) (ccb_bytes @ bs) g) [0..<n] @ rest)"
    "\<forall>i < n. length (sf_frame (g i)) = FRAME_SIZE_MAX" "sb_ok sb'"
proof -
  let ?sb = "sb\<lparr>sb_prod_seq_number := s, sb_sbn_seq_number := q, sb_psh_type_flag := t\<rparr>"
  obtain st fl where f: "init_sbnpack_file alloc env junk name (sb_file ?sb) = Some (st, fl)"
    using run by (auto simp: init_sbnpack_def Let_def bind_eq_Some_conv)
  have st: "st = 0" using run f by (cases "st = 0") (simp_all add: init_sbnpack_def Let_def)
  have fok: "case sl_data (sb_file ?sb) of None \<Rightarrow> sl_allocated_size (sb_file ?sb) \<le> 0
      | Some d \<Rightarrow> sl_allocated_size (sb_file ?sb) = int (length d)" using ok by (simp add: sb_ok_def split: option.splits)
  show ?thesis
  proof (rule init_sbnpack_file_ok [OF f [unfolded st] fok])
    fix bs d
    assume d: "sl_data fl = Some d" "fe_size env name = Some (int (length bs))" "fe_read env name (length bs) = Some bs"
      "sl_data_size fl = 24 + int (length bs)" "take (24 + length bs) d = ccb_bytes @ bs" "24 + length bs \<le> length d"
      "sl_readp fl = 0" "sl_allocated_size fl = int (length d)"
    define L n lst where "L = 24 + length bs" and "n = L div 4000 + 1" and "lst = int L - int (n - 1) * 4000"
    have params: "get_file_frame_params DATA_BLOCK_SIZE (sl_data_size fl) = (int n, lst)"
      by (simp add: get_file_frame_params_def Let_def d(4) n_def lst_def L_def zdiv_int)
    obtain st1 sb1 where a: "init_sbnpack_frame_array alloc jf (?sb\<lparr>sb_file := fl\<rparr>) (int n) lst = Some (st1, sb1)"
      using run f st params by (auto simp: init_sbnpack_def Let_def bind_eq_Some_conv)
    have st1: "st1 = 0" using run f st params a by (cases "st1 = 0") (simp_all add: init_sbnpack_def Let_def)
    have fr: "frames_ok (?sb\<lparr>sb_file := fl\<rparr>)" using ok by (simp add: sb_ok_def frames_ok_def split: option.splits)
    show ?thesis
    proof (rule init_sbnpack_frame_array_ok [OF a [unfolded st1] fr jf])
      fix g rest
      assume g: "sb1 = ?sb\<lparr>sb_file := fl, sb_frames := Some (map (\<lambda>i. init_frame (int n) lst i (g i)) [0..<n] @ rest),
          sb_allocated_frames := int (n + length rest), sb_nframes := int n\<rparr>"
        "\<forall>i < n. length (sf_frame (g i)) = FRAME_SIZE_MAX" "\<forall>fr \<in> set rest. length (sf_frame fr) = FRAME_SIZE_MAX" "1 \<le> n"
      let ?D = "ccb_bytes @ bs" and ?fin = "final_frame q s t n lst (ccb_bytes @ bs) g"
      have "sb_file sb1 = fl" "sb_frames sb1 = Some (map (\<lambda>i. init_frame (int n) lst i (g i)) [0..<n] @ rest)" "sb_nframes sb1 = int n"
        "sb_sbn_seq_number sb1 = q" "sb_prod_seq_number sb1 = s" "sb_psh_type_flag sb1 = t" by (simp_all add: g(1))
      with fill_stage [OF n_def lst_def _ _ g(2), of d ?D sb1 rest] d
      have "do { sb \<leftarrow> fill_blockdata sb1; fill_headers sb } = Some (sb1\<lparr>sb_frames := Some (map ?fin [0..<n] @ rest)\<rparr>)"
        by (simp add: L_def)
      then have "sb' = sb1\<lparr>sb_frames := Some (map ?fin [0..<n] @ rest)\<rparr>"
        using run f st params a st1 by (auto simp: init_sbnpack_def Let_def bind_eq_Some_conv)
      moreover have "length (sf_frame (?fin i)) = FRAME_SIZE_MAX" if "i < n" for i
        using g(2) that by (simp add: length_final_frame)
      ultimately show ?thesis
        using d g by (intro that [of bs n g rest]) (auto simp: n_def lst_def L_def sb_ok_def)
    qed
  qed
qed

text \<open>The frame processor finds in each packet the block of the data with its number.\<close>

lemma frame_packet_received:
  assumes run: "init_sbnpack alloc env junk jf sb name s q t = Some (0, sb')" and ok: "sb_ok sb"
    and jf: "\<forall>i. length (sf_frame (jf i)) = FRAME_SIZE_MAX" and size: "sb_nframes sb' < 65536"
  obtains bs n where "fe_size env name = Some (int (length bs))" "fe_read env name (length bs) = Some bs" "sb_nframes sb' = int n"
    "concat (map (block (ccb_bytes @ bs)) [0..<n]) = ccb_bytes @ bs" "sb_ok sb'"
    "\<And>i. i < n \<Longrightarrow> \<exists>pkt. frame_packet sb' i = Some pkt \<and> (\<forall>u r. rawdata r = pkt \<and> rawdata_size r = int (length pkt) \<longrightarrow>
       (\<exists>r'. sbn_unpack_frame u r = (0, r') \<and> received (int n) i s (block (ccb_bytes @ bs) i) r' \<and> np_channel_index r' = np_channel_index r))"
proof (rule init_sbnpack_frames [OF run ok jf])
  fix bs g rest n
  let ?L = "24 + length bs" and ?D = "ccb_bytes @ bs"
  define lst where "lst = int ?L - int (n - 1) * 4000"
  assume f: "fe_size env name = Some (int (length bs))" "fe_read env name (length bs) = Some bs" "n = ?L div 4000 + 1"
    "sb_nframes sb' = int n" "sb_frames sb' = Some (map (final_frame q s t n (int ?L - int (n - 1) * 4000) ?D g) [0..<n] @ rest)"
    "\<forall>i < n. length (sf_frame (g i)) = FRAME_SIZE_MAX" "sb_ok sb'"
  have b: "4000 * (n - 1) \<le> ?L" "?L < 4000 * n" using f(3) by simp_all
  have cat: "concat (map (block ?D) [0..<n]) = ?D"
  proof -
    have "block ?D = (\<lambda>i. take 4000 (drop (4000 * i) ?D))" by (rule ext) (rule block_def)
    then have "concat (map (block ?D) [0..<n]) = take (4000 * n) ?D" using concat_blocks [of 4000 ?D n] by metis
    then show ?thesis using b(2) by simp
  qed
  have pk: "\<exists>pkt. frame_packet sb' i = Some pkt \<and> (\<forall>u r. rawdata r = pkt \<and> rawdata_size r = int (length pkt) \<longrightarrow>
       (\<exists>r'. sbn_unpack_frame u r = (0, r') \<and> received (int n) i s (block ?D i) r' \<and> np_channel_index r' = np_channel_index r))"
    if i: "i < n" for i
  proof -
    define hs :: nat where "hs = (if i = 0 then 68 else 32)"
    let ?F = "final_frame q s t n lst ?D g i" and ?b = "block ?D i"
    have len: "length ?b \<le> 4000" by (simp add: length_block)
    obtain fb where fb: "length fb = FRAME_SIZE_MAX" "take (length ?b) (drop hs fb) = ?b"
      "sf_frame ?F = with_headers (q + of_nat i) (int n) i (of_nat hs) (word_of_int (sf_datablock_size ?F)) s t fb"
      "sf_datablock_size ?F = (if i = n - 1 \<and> n \<noteq> 0 then lst else DATA_BLOCK_SIZE)" "sf_header_size ?F = int hs"
      using final_frame_bytes [where g = g and i = i, OF f(6) [rule_format, OF i] hs_def len, of q s t n lst] by blast
    have n: "length ?b = (if i = n - 1 then ?L - 4000 * (n - 1) else 4000)"
    proof (cases "i = n - 1")
      case True
      with b show ?thesis using i by (simp add: length_block)
    next
      case False
      then have "4000 * Suc i \<le> 4000 * (n - 1)" using i by (intro mult_le_mono2) simp
      with b False show ?thesis by (simp add: length_block)
    qed
    have sz: "sf_datablock_size ?F = int (length ?b)"
      using fb(4) n i b by (auto simp: lst_def of_nat_diff)
    obtain frs where frs: "sb_frames sb' = Some frs" "frs ! i = ?F" "i < length frs"
      using f(5) i by (simp add: nth_append lst_def)
    have big: "hs + length ?b \<le> FRAME_SIZE_MAX" using len by (auto simp: hs_def)
    have F: "length (sf_frame ?F) = FRAME_SIZE_MAX" using f(6) i by (simp add: length_final_frame)
    define pkt where "pkt = take (hs + length ?b) (sf_frame ?F)"
    have nat: "nat (int (length ?b) + int hs) = hs + length ?b" by simp
    have "frame_packet sb' i = Some pkt"
      using i frs F big f(4) by (simp add: frame_packet_def Let_def fb(5) sz nat pkt_def)
    moreover have "\<exists>r'. sbn_unpack_frame u r = (0, r') \<and> received (int n) i s ?b r' \<and> np_channel_index r' = np_channel_index r"
      if r: "rawdata r = pkt" "rawdata_size r = int (length pkt)" for u r
    proof (rule packet_received [where f = fb and hs = hs and fseq = "q + of_nat i" and h = "of_nat hs" and t = t])
      show "68 \<le> length fb" "32 + length ?b \<le> length fb" "i = 0 \<Longrightarrow> 68 + length ?b \<le> length fb" using fb(1) len by simp_all
      show "i < 65536" "length ?b < 65536" "0 \<le> int n" "int n < 65536" using i size f(4) len by simp_all
      show "hs = (if i = 0 then 68 else 32)" by (rule hs_def)
      show "take (length ?b) (drop hs fb) = ?b" by (rule fb(2))
      show "24 \<le> length ?b \<and> \<not> isalpha (hd ?b)" if "i = 0"
        using that b by (auto simp: length_block block_def ccb_bytes_def ctype_defs)
      show "rawdata r = take (hs + length ?b) (with_headers (q + of_nat i) (int n) i (of_nat hs) (of_nat (length ?b)) s t fb)"
        using r(1) fb(3) sz by (simp add: pkt_def)
      show "rawdata_size r = int (hs + length ?b)" using r(2) F big by (simp add: pkt_def)
    qed
    ultimately show ?thesis by blast
  qed
  show ?thesis by (rule that [OF f(1,2,4) cat f(7) pk])
qed

section \<open>Success\<close>

text \<open>A file that can be read whole, as \<^verbatim>\<open>stat\<close> announced it.\<close>

definition readable :: "file_env \<Rightarrow> bytes \<Rightarrow> bytes \<Rightarrow> bool" where
  "readable env name bs \<longleftrightarrow> fe_size env name = Some (int (length bs)) \<and> fe_open env name \<and> fe_read env name (length bs) = Some bs"

lemma load_file_readable:
  assumes "readable env name bs" "24 + length bs \<le> length d"
  shows "\<exists>d'. load_file env name (24 + int (length bs)) d = Some (0, d')"
  using assms by (simp add: readable_def load_file_def Let_def)

lemma init_sbnpack_file_readable:
  assumes "readable env name bs" "24 + int (length bs) \<le> INT_MAX" "\<forall>n. alloc n"
    "case sl_data fl of None \<Rightarrow> sl_allocated_size fl \<le> 0 | Some d \<Rightarrow> sl_allocated_size fl = int (length d)"
  shows "\<exists>fl'. init_sbnpack_file alloc env junk name fl = Some (0, fl')"
proof -
  have g: "get_file_size_ccb env name = Some (0, 24 + int (length bs))"
    using assms(1,2) by (simp add: readable_def get_file_size_ccb_def get_file_stat_size_def)
  have n: "nat (24 + int (length bs)) = 24 + length bs" by simp
  show ?thesis
  proof (cases "sl_allocated_size fl \<ge> 24 + int (length bs)")
    case True
    with assms(4) obtain d where d: "sl_data fl = Some d" "24 + length bs \<le> length d"
      by (cases "sl_data fl") simp_all
    with load_file_readable [OF assms(1) d(2)] True g show ?thesis
      by (auto simp: init_sbnpack_file_def Let_def)
  next
    case False
    have "24 + length bs \<le> length (map junk [0..<24 + length bs])" by simp
    from load_file_readable [OF assms(1) this] obtain d' where
      "load_file env name (24 + int (length bs)) (map junk [0..<24 + length bs]) = Some (0, d')" by blast
    with False g assms(2,3) n show ?thesis by (simp add: init_sbnpack_file_def can_alloc_def)
  qed
qed

lemma init_sbnpack_frame_array_total:
  assumes "1 \<le> n" "n \<le> 65536" "\<forall>n. alloc n" "frames_ok sb"
  shows "\<exists>sb1. init_sbnpack_frame_array alloc jf sb (int n) lst = Some (0, sb1)"
proof (cases "sb_allocated_frames sb < int n")
  case True
  with assms show ?thesis by (simp add: init_sbnpack_frame_array_def can_alloc_def)
next
  case False
  with assms(1,4) obtain frs where "sb_frames sb = Some frs" "n \<le> length frs"
    by (cases "sb_frames sb") (simp_all add: frames_ok_def)
  with False assms(1) show ?thesis by (simp add: init_sbnpack_frame_array_def)
qed

lemma init_sbnpack_readable:
  assumes r: "readable env name bs" "length bs < 65535 * 4000 - 24" "\<forall>n. alloc n" and ok: "sb_ok sb"
    and jf: "\<forall>i. length (sf_frame (jf i)) = FRAME_SIZE_MAX"
  shows "\<exists>sb'. init_sbnpack alloc env junk jf sb name s q t = Some (0, sb') \<and> sb_nframes sb' < 65536"
proof -
  let ?sb = "sb\<lparr>sb_prod_seq_number := s, sb_sbn_seq_number := q, sb_psh_type_flag := t\<rparr>"
  have fok: "case sl_data (sb_file ?sb) of None \<Rightarrow> sl_allocated_size (sb_file ?sb) \<le> 0
      | Some d \<Rightarrow> sl_allocated_size (sb_file ?sb) = int (length d)" using ok by (simp add: sb_ok_def split: option.splits)
  obtain fl where f: "init_sbnpack_file alloc env junk name (sb_file ?sb) = Some (0, fl)"
    using init_sbnpack_file_readable [OF r(1) _ r(3) fok] r(2) by auto
  show ?thesis
  proof (rule init_sbnpack_file_ok [OF f fok])
    fix bs' d
    assume d: "sl_data fl = Some d" "fe_size env name = Some (int (length bs'))" "fe_read env name (length bs') = Some bs'"
      "sl_data_size fl = 24 + int (length bs')" "take (24 + length bs') d = ccb_bytes @ bs'" "24 + length bs' \<le> length d"
      "sl_readp fl = 0" "sl_allocated_size fl = int (length d)"
    define L n lst where "L = 24 + length bs'" and "n = L div 4000 + 1" and "lst = int L - int (n - 1) * 4000"
    have "length bs' = length bs" using d(2) r(1) by (simp add: readable_def)
    then have n: "1 \<le> n" "n < 65536" using r(2) by (simp_all add: n_def L_def less_mult_imp_div_less)
    have params: "get_file_frame_params DATA_BLOCK_SIZE (sl_data_size fl) = (int n, lst)"
      by (simp add: get_file_frame_params_def Let_def d(4) n_def lst_def L_def zdiv_int)
    have fr: "frames_ok (?sb\<lparr>sb_file := fl\<rparr>)" using ok by (simp add: sb_ok_def frames_ok_def split: option.splits)
    obtain sb1 where a: "init_sbnpack_frame_array alloc jf (?sb\<lparr>sb_file := fl\<rparr>) (int n) lst = Some (0, sb1)"
      using init_sbnpack_frame_array_total [OF n(1) _ r(3) fr, of jf lst] n(2) by auto
    show ?thesis
    proof (rule init_sbnpack_frame_array_ok [OF a fr jf])
      fix g rest
      assume g: "sb1 = ?sb\<lparr>sb_file := fl, sb_frames := Some (map (\<lambda>i. init_frame (int n) lst i (g i)) [0..<n] @ rest),
          sb_allocated_frames := int (n + length rest), sb_nframes := int n\<rparr>"
        "\<forall>i < n. length (sf_frame (g i)) = FRAME_SIZE_MAX"
      let ?sb2 = "sb1\<lparr>sb_frames := Some (map (final_frame q s t n lst (ccb_bytes @ bs') g) [0..<n] @ rest)\<rparr>"
      have "do { sb \<leftarrow> fill_blockdata sb1; fill_headers sb } = Some ?sb2"
        using fill_stage [OF n_def lst_def _ _ g(2), of d "ccb_bytes @ bs'" sb1 rest] d by (simp add: L_def g(1))
      then have "init_sbnpack alloc env junk jf sb name s q t = Some (0, ?sb2)"
        using f params a by (auto simp: init_sbnpack_def Let_def bind_eq_Some_conv)
      with n(2) show ?thesis by (simp add: g(1))
    qed
  qed
qed

lemma send_loop_sends:
  assumes "\<forall>i \<in> set is. frame_packet sb i \<noteq> None" "\<forall>i pkt. w i pkt = int (length pkt)"
  shows "\<exists>pkts. send_loop w sb is = Some (0, pkts) \<and> list_all2 (\<lambda>i p. frame_packet sb i = Some p) is pkts"
  using assms(1) by (induction "is") (auto simp: write_sbnpack_frame_def send_status_def assms(2))

text \<open>The packets sent for a file.\<close>

lemma process_file_packets:
  assumes "readable env path bs" "length bs < 65535 * 4000 - 24" "\<forall>n. alloc n" "\<forall>i pkt. sendtos i pkt = int (length pkt)"
    "sb_ok sb" "\<forall>i. length (sf_frame (jf i)) = FRAME_SIZE_MAX"
  shows "\<exists>pkts sb' blks. process_file alloc env junk jf sendtos sb path s q t = Some (0, pkts, sb') \<and> sb_ok sb' \<and>
    concat blks = ccb_bytes @ bs \<and> 0 < length pkts \<and> length pkts < 65536 \<and> length blks = length pkts \<and>
    (\<forall>i u r. i < length pkts \<and> rawdata r = pkts ! i \<and> rawdata_size r = int (length (pkts ! i)) \<longrightarrow>
       (\<exists>r'. sbn_unpack_frame u r = (0, r') \<and> received (int (length pkts)) i s (blks ! i) r' \<and> np_channel_index r' = np_channel_index r))"
proof -
  obtain sb1 where i: "init_sbnpack alloc env junk jf sb path s q t = Some (0, sb1)" "sb_nframes sb1 < 65536"
    using init_sbnpack_readable [OF assms(1,2,3,5,6), of junk s q t] by blast
  show ?thesis
  proof (rule frame_packet_received [OF i(1) assms(5,6) i(2)])
    fix bs' m
    let ?D = "ccb_bytes @ bs'"
    assume r: "fe_size env path = Some (int (length bs'))" "fe_read env path (length bs') = Some bs'" "sb_nframes sb1 = int m"
      "concat (map (block ?D) [0..<m]) = ?D" "sb_ok sb1"
      "\<And>i. i < m \<Longrightarrow> \<exists>pkt. frame_packet sb1 i = Some pkt \<and> (\<forall>u r. rawdata r = pkt \<and> rawdata_size r = int (length pkt) \<longrightarrow>
       (\<exists>r'. sbn_unpack_frame u r = (0, r') \<and> received (int m) i s (block ?D i) r' \<and> np_channel_index r' = np_channel_index r))"
    have bs: "bs' = bs" using r(1,2) assms(1) by (simp add: readable_def)
    obtain pkts where l: "send_loop sendtos sb1 [0..<m] = Some (0, pkts)" "list_all2 (\<lambda>i p. frame_packet sb1 i = Some p) [0..<m] pkts"
      using send_loop_sends [of "[0..<m]" sb1 sendtos] r(6) assms(4) by fastforce
    have m: "length pkts = m" using list_all2_lengthD [OF l(2)] by simp
    have p: "frame_packet sb1 i = Some (pkts ! i)" if "i < m" for i
      using l(2) that by (simp add: list_all2_conv_all_nth)
    have "\<exists>r'. sbn_unpack_frame u r0 = (0, r') \<and> received (int m) i s (block ?D i) r' \<and> np_channel_index r' = np_channel_index r0"
      if "i < m" "rawdata r0 = pkts ! i" "rawdata_size r0 = int (length (pkts ! i))" for i u r0
      using r(6) [OF that(1)] p [OF that(1)] that(2,3) by auto
    moreover have "process_file alloc env junk jf sendtos sb path s q t = Some (0, pkts, sb1)"
      using i l(1) r(3) by (simp add: process_file_def sendto_sbnpack_def)
    moreover have "0 < m" using r(4) by (cases m) (simp_all add: ccb_bytes_def)
    moreover have "m < 65536" using r(3) i(2) by simp
    ultimately show ?thesis
      using r(4,5) m bs
      by (intro exI [of _ pkts], intro exI [of _ sb1], intro exI [of _ "map (block ?D) [0..<m]"]) auto
  qed
qed

section \<open>Properties\<close>

text \<open>
  C5. A file sent by \<^verbatim>\<open>nbspmcast\<close> is received: the sending succeeds, every packet sent is accepted by the
  unpacking of the receiver, which finds in it the number of the product, the number of the block, the first and
  last frame marked as such, and a block of data, and the blocks put together are the CCB followed by the
  contents of the file. The hypotheses are that the file can be read and has less than 65535 blocks, that memory can be
  allocated and the network takes the packets, and that the memory reused is as the library left it.
\<close>

theorem nbspmcast_received:
  assumes "readable env path bs" "length bs < 65535 * 4000 - 24" "\<forall>n. alloc n" "\<forall>i pkt. sendtos i pkt = int (length pkt)"
    "sb_ok sb" "\<forall>i. length (sf_frame (jf i)) = FRAME_SIZE_MAX"
  shows "\<exists>pkts sb' blks. process_file alloc env junk jf sendtos sb path s q t = Some (0, pkts, sb') \<and> sb_ok sb' \<and>
    concat blks = ccb_bytes @ bs \<and> length blks = length pkts \<and>
    (\<forall>i u r. i < length pkts \<and> rawdata r = pkts ! i \<and> rawdata_size r = int (length (pkts ! i)) \<longrightarrow>
       (\<exists>r'. sbn_unpack_frame u r = (0, r') \<and> received (int (length pkts)) i s (blks ! i) r'))"
  using process_file_packets [OF assms, of junk s q t] by metis

text \<open>A file of two bytes.\<close>

definition example_file_env :: file_env where
  "example_file_env = \<lparr>fe_size = (\<lambda>_. Some 2), fe_open = (\<lambda>_. True), fe_read = (\<lambda>_ n. Some (take n [65, 66]))\<rparr>"

definition example_sbnpack_frame :: sbnpack_frame_st where
  "example_sbnpack_frame = \<lparr>sf_frame = replicate FRAME_SIZE_MAX 0, sf_flh = 0, sf_pdh = 0, sf_psh = 0, sf_datablock = 0,
     sf_datablock_size = 0, sf_header_size = 0, sf_frame_index = 0, sf_nframes = 0\<rparr>"

definition example_sbnpack :: sbnpack_st where
  "example_sbnpack = \<lparr>sb_file = \<lparr>sl_data = None, sl_allocated_size = 0, sl_data_size = 0, sl_readp = 0\<rparr>, sb_frames = None,
     sb_allocated_frames = 0, sb_nframes = 0, sb_prod_seq_number = 0, sb_sbn_seq_number = 0, sb_psh_type_flag = 0\<rparr>"

theorem nbspmcast_received_witness:
  "\<exists>pkts sb' blks. process_file (\<lambda>n. True) example_file_env (\<lambda>i. 0) (\<lambda>i. example_sbnpack_frame) (\<lambda>i pkt. int (length pkt))
     example_sbnpack [47, 97] 7 0 0 = Some (0, pkts, sb') \<and> concat blks = ccb_bytes @ [65, 66]"
proof -
  have "readable example_file_env [47, 97] [65, 66]" by (simp add: readable_def example_file_env_def)
  moreover have "sb_ok example_sbnpack" by (simp add: sb_ok_def example_sbnpack_def)
  moreover have "\<forall>i :: nat. length (sf_frame example_sbnpack_frame) = FRAME_SIZE_MAX" by (simp add: example_sbnpack_frame_def)
  ultimately show ?thesis
    using nbspmcast_received [of example_file_env "[47, 97]" "[65, 66]" "\<lambda>n. True" "\<lambda>i pkt. int (length pkt)" example_sbnpack
        "\<lambda>i. example_sbnpack_frame" "\<lambda>i. 0" 7 0 0]
    by auto
qed

end
