(* ===== verification/Multicast.thy ===== *)
theory Multicast
  imports Frame_Properties Sbnpack
begin

text \<open>
  The two ends of the multicast together: the frames that \<^verbatim>\<open>tools/nbspmcast\<close> makes of a file, given to the
  frame processor of \<^verbatim>\<open>src/framep.c\<close> among the frames of the other channels, become one complete
  product with the contents of the file.
\<close>

section \<open>One frame\<close>

text \<open>The channel after \<open>k\<close> of the \<open>n\<close> frames of product \<open>q\<close>, with the data collected.\<close>

definition at_stage :: "u32 \<Rightarrow> nat \<Rightarrow> int \<Rightarrow> nat \<Rightarrow> bytes \<Rightarrow> ('q, 'b) globals_st \<Rightarrow> bool" where
  "at_stage q n i k d g \<longleftrightarrow>
     (if k = 0 \<or> k = n then chan_rel Idle (active (g_pctl g) i)
      else \<exists>fs. chan_rel (Collecting q (int n) 0 fs) (active (g_pctl g) i) \<and> length fs = k \<and> collected 0 fs = d)"

lemma at_stage_cong: "active (g_pctl g') i = active (g_pctl g) i \<Longrightarrow> at_stage q n i k d g' = at_stage q n i k d g"
  by (simp only: at_stage_def)

definition file_product :: "u32 \<Rightarrow> bytes \<Rightarrow> pctl_element_st \<Rightarrow> bool" where
  "file_product q d p \<longleftrightarrow> f_complete p = 1 \<and> seq_number p = q \<and> mf_data (pce_mf p) = d"

lemma received_flags:
  assumes "received (int n) k q b s" "k < n" "n < 65536"
  shows "frame_has s PDH_TRANSFERTYPE_START \<longleftrightarrow> k = 0" "frame_has s PDH_TRANSFERTYPE_PROGRESS"
    "frame_has s PDH_TRANSFERTYPE_END \<longleftrightarrow> Suc k = n"
    "\<not> frame_has s (PDH_TRANSFERTYPE_ERROR OR PDH_TRANSFERTYPE_ABORT)"
proof -
  have "uint (word_of_nat k :: u16) = int k" "(word_of_nat k :: u16) = 0 \<longleftrightarrow> k = 0"
    using assms(2,3) by (auto simp: unsigned_of_nat take_bit_nat_eq_self word_of_nat_eq_0_iff dest: dvd_imp_le)
  then have "pdh_transfer_type (pdh s) = (if k = 0 then 1 else 0) + 2 + (if Suc k = n then 4 else 0)"
    using assms(1) by (auto simp: received_def pdh_type_def)
  then show "frame_has s PDH_TRANSFERTYPE_START \<longleftrightarrow> k = 0" "frame_has s PDH_TRANSFERTYPE_PROGRESS"
    "frame_has s PDH_TRANSFERTYPE_END \<longleftrightarrow> Suc k = n"
    "\<not> frame_has s (PDH_TRANSFERTYPE_ERROR OR PDH_TRANSFERTYPE_ABORT)"
    by simp_all
qed

lemma received_payload:
  assumes "received n k q b s"
  shows "payload 0 (s\<lparr>psh := x\<rparr>) = b"
proof -
  have "mem (s\<lparr>psh := x\<rparr>) p = mem s p" for p by (cases p) simp_all
  with assms show ?thesis by (simp add: payload_def received_def)
qed

text \<open>The start of a product that is not refused, and its progress without a missing frame.\<close>

lemma reasm_start_0:
  assumes "reasm_start s Idle out 0 c" "f_frdata_compressed s = 0" "psh_num_fragments (psh s) = int n" "n \<noteq> 0"
  shows "out = []" "c = Collecting (frame_seq s) (int n) 0 []"
  using assms by (auto elim!: reasm_startE)

lemma reasm_progress_0:
  assumes "reasm_progress s (Collecting (frame_seq s) n u fs) out 0 c"
  shows "out = []" "c = Collecting (frame_seq s) n u (fs @ [s])"
  using assms by (auto elim!: reasm_progressE)

lemma reasm_end_all:
  assumes "reasm_end s (Collecting (frame_seq s) n u fs) out c" "n \<le> int (length fs)"
  shows "out = [Emit (frame_seq s) n u fs (collected u fs) True]" "c = Idle"
  using assms by (auto elim!: reasm_endE)

lemma received_stage:
  assumes d: "data_frame env s g = Some (0, s', g')" and r: "received (int n) k q b s" and k: "k < n" "n < 65536"
    and st: "at_stage q n i k dat g" "k = 0 \<longrightarrow> dat = []" and i: "i = np_channel_index s"
    and ok: "g_ok g" "q \<noteq> 0" "frame_fits s"
  shows "\<exists>ps. touches env i g ps g' \<and> at_stage q n i (Suc k) (dat @ b) g' \<and>
    (Suc k = n \<longrightarrow> (\<exists>p. ps = [p] \<and> file_product q (dat @ b) p))"
proof -
  note fl = received_flags [OF r k]
  have sq: "frame_seq s = q" "frame_block s = int k" "f_frdata_compressed s = 0"
    and nf: "k = 0 \<longrightarrow> psh_num_fragments (psh s) = int n" using r by (simp_all add: received_def)
  obtain c where c: "chan_rel c (active (g_pctl g) i)" and cc: "if k = 0 then c = Idle
      else \<exists>fs. c = Collecting q (int n) 0 fs \<and> length fs = k \<and> collected 0 fs = dat"
    using st(1) k(1) unfolding at_stage_def by (cases "k = 0") (force simp del: chan_rel.simps)+
  show ?thesis
  proof (rule data_frame_stage_sim [OF d c ok(1) _ ok(3) i fl(4)])
    show "frame_seq s \<noteq> 0" using sq ok(2) by simp
    fix ps o1 st1 c1 o2 st2 c2 o3 c3
    assume t: "touches env i g ps g'" "list_all2 emits ps (o1 @ o2 @ o3)" "chan_rel c3 (active (g_pctl g') i)"
      and a: "if frame_has s' PDH_TRANSFERTYPE_START then reasm_start s' c o1 st1 c1 else o1 = [] \<and> st1 = 0 \<and> c1 = c"
        "if st1 = 0 \<and> frame_has s' PDH_TRANSFERTYPE_PROGRESS then reasm_progress s' c1 o2 st2 c2
         else o2 = [] \<and> st2 = st1 \<and> c2 = c1"
        "if st2 = 0 \<and> frame_has s' PDH_TRANSFERTYPE_END then reasm_end s' c2 o3 c3 else o3 = [] \<and> c3 = c2"
      and z: "(0::int) = 0 \<longrightarrow> st2 = 0" and s': "\<exists>x. s' = s\<lparr>psh := (psh s)\<lparr>psh_orig_seq_number := x\<rparr>\<rparr>"
    have s1: "pdh s' = pdh s" "f_frdata_compressed s' = 0" "psh_num_fragments (psh s') = psh_num_fragments (psh s)"
      "payload 0 s' = b" using s' sq received_payload [OF r] by auto
    have z1: "st1 = 0" "st2 = 0" using z a(2) by (auto split: if_splits)
    obtain fs where c1: "o1 = []" "c1 = Collecting q (int n) 0 fs" "length fs = k" "collected 0 fs = dat"
    proof (cases "k = 0")
      case True
      then have "reasm_start s' Idle o1 0 c1" using a(1) z1 fl(1) s1(1) cc by simp
      from reasm_start_0 [OF this s1(2), of n] show ?thesis
        using that [of "[]"] True st(2) nf s1 sq k(1) by (simp add: collected_def)
    next
      case False
      with a(1) fl(1) s1(1) cc that show ?thesis by auto
    qed
    have "reasm_progress s' (Collecting (frame_seq s') (int n) 0 fs) o2 0 c2"
      using a(2) z1 fl(2) s1(1) c1(2) sq by simp
    from reasm_progress_0 [OF this] have c2: "o2 = []" "c2 = Collecting q (int n) 0 (fs @ [s'])"
      using s1(1) sq by simp_all
    have col: "collected 0 (fs @ [s']) = dat @ b" using c1(4) s1(4) by (simp add: collected_def)
    show ?thesis
    proof (cases "Suc k = n")
      case True
      then have "reasm_end s' (Collecting (frame_seq s') (int n) 0 (fs @ [s'])) o3 c3"
        using a(3) z1 fl(3) s1(1) c2(2) sq by simp
      from reasm_end_all [OF this] True c1(3) have "o3 = [Emit q (int n) 0 (fs @ [s']) (dat @ b) True]" "c3 = Idle"
        using col s1(1) sq by simp_all
      with t c1(1) c2(1) True show ?thesis
        by (auto simp: list_all2_Cons2 emits_def file_product_def at_stage_def)
    next
      case False
      then have "c3 = c2" "o3 = []" using a(3) fl(3) s1(1) by simp_all
      then have "at_stage q n i (Suc k) (dat @ b) g'"
        unfolding at_stage_def using t(3) c2(2) c1(3) col False
        by (auto simp del: chan_rel.simps intro!: exI [of _ "fs @ [s']"])
      with t(1) False show ?thesis by blast
    qed
  qed
qed

section \<open>All the frames\<close>

text \<open>Every channel is in some state of the machine.\<close>

definition channels_ok :: "('q, 'b) globals_st \<Rightarrow> bool" where
  "channels_ok g \<longleftrightarrow> g_ok g \<and> (\<forall>j. channel_ok (g_pctl g) j \<longrightarrow> (\<exists>c. chan_rel c (active (g_pctl g) j)))"

text \<open>The frames \<open>rs\<close> have the blocks \<open>bs\<close> of product \<open>q\<close>, from block \<open>k\<close>.\<close>

fun carries :: "(bytes \<Rightarrow> nat \<Rightarrow> int \<times> bytes) \<Rightarrow> nat \<Rightarrow> u32 \<Rightarrow> nat \<Rightarrow> bytes list \<Rightarrow> sbn_frame list \<Rightarrow> bool" where
  "carries u n q k [] [] \<longleftrightarrow> k = n"
| "carries u n q k (b # bs) (r # rs) \<longleftrightarrow>
     (\<exists>r'. sbn_unpack_frame u r = (0, r') \<and> received (int n) k q b r') \<and> k < n \<and> carries u n q (Suc k) bs rs"
| "carries u n q k _ _ \<longleftrightarrow> False"

lemma sbnframeproc_cases:
  assumes "sbnframeproc env r g = Some (st, r', g')"
  obtains (other) ust us where "sbn_unpack_frame (env_uncompress env) r = (ust, us)" "r' = us" "g_pctl g' = g_pctl g"
      "ust \<noteq> 0 \<or> fh_sbn_command (fh us) \<noteq> SBN_COMMAND_DATA_TRANSFER"
    | (data) us g0 where "sbn_unpack_frame (env_uncompress env) r = (0, us)" "g_pctl g0 = g_pctl g"
      "fh_sbn_command (fh us) = SBN_COMMAND_DATA_TRANSFER" "data_frame env us g0 = Some (st, r', g')"
proof -
  obtain ust us g0 where u: "e_sbn_unpack_frame env r g = Some (ust, us, g0)"
    and x: "(if ust \<noteq> 0 then Some (ust, us, g0)
      else if fh_sbn_command (fh us) \<noteq> SBN_COMMAND_DATA_TRANSFER then Some (e_sbn_command_nondata us, us, g0)
      else data_frame env us g0) = Some (st, r', g')"
    using assms by (auto simp: sbnframeproc_def bind_eq_Some_conv)
  note uk = e_sbn_unpack_frame_keeps [OF u]
  show ?thesis
  proof (cases "ust = 0 \<and> fh_sbn_command (fh us) = SBN_COMMAND_DATA_TRANSFER")
    case True
    with x uk data show ?thesis by auto
  next
    case False
    with x uk other show ?thesis by (auto split: if_splits)
  qed
qed

text \<open>Whatever a frame does, it does to its own channel.\<close>

lemma sbnframeproc_touches:
  assumes p: "sbnframeproc env r g = Some (st, r', g')" and ok: "channels_ok g"
    and r: "well_formed_input r" "channel_ok (g_pctl g) (np_channel_index r)"
  shows "\<exists>ps. touches env (np_channel_index r) g ps g' \<and> channels_ok g' \<and> np_channel_index r' = np_channel_index r"
proof (rule sbnframeproc_cases [OF p])
  fix ust us
  assume o: "sbn_unpack_frame (env_uncompress env) r = (ust, us)" "r' = us" "g_pctl g' = g_pctl g"
  have "np_channel_index us = np_channel_index r"
    using sbn_unpack_frame_channel [of "env_uncompress env" r] o(1) by simp
  with o ok touches_same [OF o(3), of env "np_channel_index r"] show ?thesis
    by (auto simp: channels_ok_def g_ok_def)
next
  fix us g0
  let ?i = "np_channel_index r"
  assume d: "sbn_unpack_frame (env_uncompress env) r = (0, us)" "g_pctl g0 = g_pctl g"
    "fh_sbn_command (fh us) = SBN_COMMAND_DATA_TRANSFER" "data_frame env us g0 = Some (st, r', g')"
  note f = unpacked_fits [OF d(1,3) r(1)]
  have g0: "g_ok g0" "\<exists>c. chan_rel c (active (g_pctl g0) ?i)" using ok r(2) d(2) by (auto simp: channels_ok_def g_ok_def)
  then obtain c where c: "chan_rel c (active (g_pctl g0) ?i)" by blast
  obtain ps c' where t: "touches env ?i g0 ps g'" and c': "chan_rel c' (active (g_pctl g') ?i)"
    using data_frame_sim [OF d(4) c g0(1) f(2,1) f(3) [symmetric]] by blast
  have tg: "touches env ?i g ps g'" by (rule touches_same_trans [OF d(2) t])
  have "\<exists>c. chan_rel c (active (g_pctl g') j)" if "channel_ok (g_pctl g') j" for j
    using that c' ok tg touches_channel [OF tg] unfolding channels_ok_def touches_def channel_ok_def
    by (cases "j = ?i") (force, metis)
  then show ?thesis using tg ok f(3) data_frame_channel [OF d(4)] by (auto simp: channels_ok_def touches_def)
qed

lemma multicast_run:
  assumes "frame_run env ss g = Some (rs, g')" "channels_ok g" "channel_ok (g_pctl g) i"
    "\<forall>r \<in> set ss. well_formed_input r \<and> channel_ok (g_pctl g) (np_channel_index r)"
    "carries (env_uncompress env) n q k bs (filter (\<lambda>r. np_channel_index r = i) ss)"
    "at_stage q n i k dat g" "k = 0 \<longrightarrow> dat = []" "\<forall>(st, r) \<in> set rs. np_channel_index r = i \<longrightarrow> st = 0"
    and n: "n < 65536" and q: "q \<noteq> 0"
  shows "\<exists>ps. sends env (pctldb (g_pctl g)) ps (pctldb (g_pctl g')) \<and>
    (k < n \<longrightarrow> (\<exists>p \<in> set ps. file_product q (dat @ concat bs) p))"
  using assms(1-8)
proof (induction ss arbitrary: g rs k dat bs)
  case Nil
  then have "k = n" by (cases bs) simp_all
  with Nil show ?case by (auto intro: sends.intros)
next
  case (Cons r ss)
  obtain st r' g1 rs1 where p: "sbnframeproc env r g = Some (st, r', g1)"
    and run: "frame_run env ss g1 = Some (rs1, g')" and rs: "rs = (st, r') # rs1"
    using Cons.prems(1) by (auto simp: bind_eq_Some_conv)
  have r: "well_formed_input r" "channel_ok (g_pctl g) (np_channel_index r)" using Cons.prems(4) by simp_all
  obtain ps0 where t: "touches env (np_channel_index r) g ps0 g1" and ok1: "channels_ok g1"
    and ch: "np_channel_index r' = np_channel_index r"
    using sbnframeproc_touches [OF p Cons.prems(2) r] by blast
  have c1: "channel_ok (g_pctl g1) j = channel_ok (g_pctl g) j" for j by (rule touches_channel [OF t])
  have rest: "channel_ok (g_pctl g1) i" "\<forall>r \<in> set ss. well_formed_input r \<and> channel_ok (g_pctl g1) (np_channel_index r)"
    "\<forall>(st, r) \<in> set rs1. np_channel_index r = i \<longrightarrow> st = 0"
    using Cons.prems(3,4,8) c1 rs by simp_all
  show ?case
  proof (cases "np_channel_index r = i")
    case False
    have "active (g_pctl g1) i = active (g_pctl g) i"
      using t False Cons.prems(3) by (simp add: touches_def channel_ok_def)
    then have a: "at_stage q n i k dat g1" using Cons.prems(6) at_stage_cong by blast
    have "carries (env_uncompress env) n q k bs (filter (\<lambda>r. np_channel_index r = i) ss)"
      using False Cons.prems(5) by simp
    from Cons.IH [OF run ok1 rest(1,2) this a Cons.prems(7) rest(3)] obtain ps where "sends env (pctldb (g_pctl g1)) ps (pctldb (g_pctl g'))"
      "k < n \<longrightarrow> (\<exists>p \<in> set ps. file_product q (dat @ concat bs) p)" by auto
    with t show ?thesis unfolding touches_def using sends_append by (fastforce intro!: exI [of _ "ps0 @ ps"])
  next
    case True
    with Cons.prems(5) obtain b bs' us where bs: "bs = b # bs'" "k < n"
      "sbn_unpack_frame (env_uncompress env) r = (0, us)" "received (int n) k q b us"
      "carries (env_uncompress env) n q (Suc k) bs' (filter (\<lambda>r. np_channel_index r = i) ss)"
      by (cases bs) auto
    have st: "st = 0" using Cons.prems(8) rs ch True by simp
    have cmd: "fh_sbn_command (fh us) = SBN_COMMAND_DATA_TRANSFER" using bs(4) by (simp add: received_def)
    obtain g0 where g0: "g_pctl g0 = g_pctl g" "data_frame env us g0 = Some (0, r', g1)"
      by (rule sbnframeproc_cases [OF p]) (use bs(3) cmd st in auto)
    note f = unpacked_fits [OF bs(3) cmd r(1)]
    have "at_stage q n i k dat g0" "g_ok g0"
      using Cons.prems(2,6) g0(1) at_stage_cong [of g0 i g q n k dat] by (simp_all add: channels_ok_def g_ok_def)
    from received_stage [OF g0(2) bs(4,2) n this(1) Cons.prems(7) _ this(2) q f(1)] f(3) True
    obtain ps1 where s1: "touches env i g0 ps1 g1" "at_stage q n i (Suc k) (dat @ b) g1"
      "Suc k = n \<longrightarrow> (\<exists>p. ps1 = [p] \<and> file_product q (dat @ b) p)" by auto
    from Cons.IH [OF run ok1 rest(1,2) bs(5) s1(2) _ rest(3)]
    obtain ps where ps: "sends env (pctldb (g_pctl g1)) ps (pctldb (g_pctl g'))"
      "Suc k < n \<longrightarrow> (\<exists>p \<in> set ps. file_product q ((dat @ b) @ concat bs') p)" by auto
    have "Suc k = n \<longrightarrow> bs' = []" using bs(5) by (cases bs') (auto elim: carries.elims)
    with ps s1 bs(1,2) g0(1) have "k < n \<longrightarrow> (\<exists>p \<in> set (ps1 @ ps). file_product q (dat @ concat bs) p)"
      by (cases "Suc k = n") auto
    moreover have "sends env (pctldb (g_pctl g)) (ps1 @ ps) (pctldb (g_pctl g'))"
      using s1(1) ps(1) g0(1) sends_append by (fastforce simp: touches_def)
    ultimately show ?thesis by blast
  qed
qed

lemma carries_packets:
  assumes "length bs = length rs" "\<forall>j < length rs. \<exists>r'. sbn_unpack_frame u (rs ! j) = (0, r') \<and> received (int n) (k + j) q (bs ! j) r'"
    "k + length rs = n"
  shows "carries u n q k bs rs"
  using assms
proof (induction rs arbitrary: k bs)
  case Nil
  then show ?case by simp
next
  case (Cons r rs)
  then obtain b bs' where bs: "bs = b # bs'" by (cases bs) auto
  have "\<exists>r'. sbn_unpack_frame u (rs ! j) = (0, r') \<and> received (int n) (Suc k + j) q (bs' ! j) r'" if "j < length rs" for j
    using Cons.prems(2) that bs by (auto dest: spec [of _ "Suc j"])
  with Cons.IH [of bs' "Suc k"] Cons.prems bs show ?case by force
qed

section \<open>Property\<close>

text \<open>
  C2. A file sent by \<^verbatim>\<open>nbspmcast\<close> reaches the queue of the processor: when its packets arrive on a channel in
  order, among any frames of the other channels, and none of them is refused, one of the products sent to the
  queue has its number, is complete, and has as data the CCB followed by the contents of the file.
\<close>

theorem multicast_file_queued:
  assumes readable: "readable fenv path bs" "length bs < 65535 * 4000 - 24"
    and mem: "\<forall>n. alloc n" "sb_ok sb" "\<forall>i. length (sf_frame (jf i)) = FRAME_SIZE_MAX"
    and net: "\<forall>i pkt. sendtos i pkt = int (length pkt)"
    and sent: "process_file alloc fenv junk jf sendtos sb path s q t = Some (0, pkts, sb')" and s: "s \<noteq> 0"
    and run: "frame_run env ss g = Some (rs, g')"
    and idle: "\<forall>p \<in> set (activepce (g_pctl g)). pce_ok p \<and> open_pce p = 0"
    and input: "\<forall>r \<in> set ss. well_formed_input r \<and> channel_ok (g_pctl g) (np_channel_index r)"
    and carried: "map rawdata (filter (\<lambda>r. np_channel_index r = i) ss) = pkts"
    and accepted: "\<forall>(st, r) \<in> set rs. np_channel_index r = i \<longrightarrow> st = 0"
  shows "\<exists>ps. sends env (pctldb (g_pctl g)) ps (pctldb (g_pctl g')) \<and>
    (\<exists>p \<in> set ps. f_complete p = 1 \<and> seq_number p = s \<and> mf_data (pce_mf p) = ccb_bytes @ bs)"
proof -
  let ?fr = "filter (\<lambda>r. np_channel_index r = i) ss" and ?u = "env_uncompress env"
  obtain blks where b: "concat blks = ccb_bytes @ bs" "0 < length pkts" "length pkts < 65536" "length blks = length pkts"
    and x: "\<forall>i u r. i < length pkts \<and> rawdata r = pkts ! i \<and> rawdata_size r = int (length (pkts ! i)) \<longrightarrow>
       (\<exists>r'. sbn_unpack_frame u r = (0, r') \<and> received (int (length pkts)) i s (blks ! i) r' \<and>
         np_channel_index r' = np_channel_index r)"
    using process_file_packets [OF readable mem(1) net mem(2,3), of junk s q t] sent by auto
  have n: "length ?fr = length pkts" using carried by (metis length_map)
  have "\<exists>r'. sbn_unpack_frame ?u (?fr ! j) = (0, r') \<and> received (int (length pkts)) (0 + j) s (blks ! j) r'"
    if j: "j < length ?fr" for j
  proof -
    have "?fr ! j \<in> set ss" using nth_mem [OF j] by simp
    then have "rawdata_size (?fr ! j) = int (length (rawdata (?fr ! j)))" using input by (simp add: well_formed_input_def)
    moreover have "rawdata (?fr ! j) = pkts ! j" using j by (simp add: carried [symmetric])
    ultimately show ?thesis using x [rule_format, of j "?fr ! j" ?u] j n by auto
  qed
  then have c: "carries ?u (length pkts) s 0 blks ?fr" using b(4) n by (intro carries_packets) simp_all
  have ch: "channel_ok (g_pctl g) i"
    using n b(2) input nth_mem [of 0 ?fr] by auto
  then have st: "at_stage s (length pkts) i 0 [] g" using idle by (auto simp: at_stage_def channel_ok_def active_def)
  have ok: "channels_ok g" using idle_system_inv [OF idle] by (auto simp: channels_ok_def system_inv_def)
  show ?thesis
    using multicast_run [OF run ok ch input c st _ accepted b(3) s] b(1,2) by (auto simp: file_product_def)
qed

text \<open>The file of one frame, multicast to the example system.\<close>

definition example_bulletin :: bytes where
  "example_bulletin = example_wmo @ ascii ''OSOCBH'' @ [13, 13, 10] @ [65, 66, 67]"

definition example_bulletin_env :: file_env where
  "example_bulletin_env = \<lparr>fe_size = (\<lambda>_. Some (int (length example_bulletin))), fe_open = (\<lambda>_. True),
     fe_read = (\<lambda>_ n. Some (take n example_bulletin))\<rparr>"

lemma example_multicast:
  "case process_file (\<lambda>n. True) example_bulletin_env (\<lambda>i. 0) (\<lambda>i. example_sbnpack_frame) (\<lambda>i pkt. int (length pkt))
     example_sbnpack [47, 97] 7 0 0 of
     Some (st, pkts, sb') \<Rightarrow> st = 0 \<and>
       (case frame_run example_env (map fresh_frame pkts) example_globals of
          Some (rs, g') \<Rightarrow> map fst rs = [0] \<and> list_all (\<lambda>r. well_formed_input r \<and>
            channel_ok (g_pctl example_globals) (np_channel_index r) \<and> np_channel_index r = 0) (map fresh_frame pkts)
        | None \<Rightarrow> False)
   | None \<Rightarrow> False"
  by code_simp

lemma example_multicast_run:
  obtains pkts sb' rs g' where
    "process_file (\<lambda>n. True) example_bulletin_env (\<lambda>i. 0) (\<lambda>i. example_sbnpack_frame) (\<lambda>i pkt. int (length pkt))
       example_sbnpack [47, 97] 7 0 0 = Some (0, pkts, sb')"
    "frame_run example_env (map fresh_frame pkts) example_globals = Some (rs, g')" "map fst rs = [0]"
    "\<forall>r \<in> set (map fresh_frame pkts). well_formed_input r \<and>
       channel_ok (g_pctl example_globals) (np_channel_index r)"
proof -
  obtain pkts sb' rs g' where "process_file (\<lambda>n. True) example_bulletin_env (\<lambda>i. 0) (\<lambda>i. example_sbnpack_frame)
      (\<lambda>i pkt. int (length pkt)) example_sbnpack [47, 97] 7 0 0 = Some (0, pkts, sb')"
    "frame_run example_env (map fresh_frame pkts) example_globals = Some (rs, g')" "map fst rs = [0]"
    "list_all (\<lambda>r. well_formed_input r \<and> channel_ok (g_pctl example_globals) (np_channel_index r) \<and>
       np_channel_index r = 0) (map fresh_frame pkts)"
    using example_multicast by (auto split: option.splits)
  then show ?thesis by (intro that [of pkts sb' rs g']) (auto simp: list_all_iff)
qed

theorem multicast_file_queued_witness:
  "\<exists>pkts sb' rs g' ps p.
     process_file (\<lambda>n. True) example_bulletin_env (\<lambda>i. 0) (\<lambda>i. example_sbnpack_frame) (\<lambda>i pkt. int (length pkt))
       example_sbnpack [47, 97] 7 0 0 = Some (0, pkts, sb') \<and>
     frame_run example_env (map fresh_frame pkts) example_globals = Some (rs, g') \<and>
     sends example_env (pctldb (g_pctl example_globals)) ps (pctldb (g_pctl g')) \<and> p \<in> set ps \<and>
     f_complete p = 1 \<and> seq_number p = 7 \<and> mf_data (pce_mf p) = ccb_bytes @ example_bulletin"
proof (rule example_multicast_run)
  fix pkts sb' rs g'
  assume x: "process_file (\<lambda>n. True) example_bulletin_env (\<lambda>i. 0) (\<lambda>i. example_sbnpack_frame) (\<lambda>i pkt. int (length pkt))
       example_sbnpack [47, 97] 7 0 0 = Some (0, pkts, sb')"
    "frame_run example_env (map fresh_frame pkts) example_globals = Some (rs, g')" "map fst rs = [0]"
    "\<forall>r \<in> set (map fresh_frame pkts). well_formed_input r \<and> channel_ok (g_pctl example_globals) (np_channel_index r)"
  have "length example_bulletin \<le> 100" by code_simp
  then have f: "readable example_bulletin_env [47, 97] example_bulletin" "length example_bulletin < 65535 * 4000 - 24"
    by (simp_all add: readable_def example_bulletin_env_def)
  have m: "\<forall>n::nat. True" "sb_ok example_sbnpack" "\<forall>i::nat. length (sf_frame example_sbnpack_frame) = FRAME_SIZE_MAX"
    by (simp_all add: sb_ok_def example_sbnpack_def example_sbnpack_frame_def)
  have c: "map rawdata (filter (\<lambda>r. np_channel_index r = 0) (map fresh_frame pkts)) = pkts"
    by (simp add: filter_map comp_def fresh_frame_def)
  have a: "\<forall>(st, r) \<in> set rs. np_channel_index r = 0 \<longrightarrow> st = 0"
    using x(3) by (cases rs) auto
  from multicast_file_queued [OF f m _ x(1) _ x(2) example_idle x(4) c a] x(1,2) show ?thesis by auto
qed

end
