(* ===== verification/Nbs1.thy ===== *)
theory Nbs1
  imports Packfp Processor
begin

text \<open>
  The NBS1 protocol, which sends whole files to the slave servers: \<^verbatim>\<open>src/nbs1s.c\<close> cuts a file of the
  spool into packets and sends them, \<^verbatim>\<open>src/nbs1r.c\<close> receives and unpacks them. The functions of
  \<^verbatim>\<open>src/nbspmspoolbdb.c\<close> that pass the spools of the program are here too.

  The descriptors of files are integers of the state \<open>'f\<close> of the file system; what a read gives is a
  field of \<open>nbs1_env\<close>. The pointer \<^verbatim>\<open>nbs->block\<close> is an offset in the packet. \<^const>\<open>None\<close> is a failed assertion
  or an access outside an array.
\<close>

section \<open>State\<close>

abbreviation NBS1_HEADER_SIZE :: nat where "NBS1_HEADER_SIZE \<equiv> 17 + FBASENAME_SIZE + 1"
abbreviation NBS1_BLOCK_SIZE :: nat where "NBS1_BLOCK_SIZE \<equiv> 65536"
abbreviation NBS1_PACKET_MAXSIZE :: nat where
  "NBS1_PACKET_MAXSIZE \<equiv> NBS1_BLOCK_SIZE + NBS1_HEADER_SIZE + NBS_ENVELOPE_SIZE"

record nbs1_packet_st =
  n1_packet :: bytes \<comment> \<open>of length \<^const>\<open>NBS1_PACKET_MAXSIZE\<close>\<close>
  n1_packet_size :: nat
  n1_block_size :: nat
  n1_num_blocks :: int
  n1_block_number :: int
  n1_last_block_size :: int
  n1_f_zip :: int
  n1_fsfd :: int
  n1_cfd :: int
  n1_mfd :: int
  n1_seq_number :: u32
  n1_product_type :: int
  n1_product_category :: int
  n1_product_code :: int
  n1_np_channel_index :: int
  n1_fbasename :: bytes
  n1_block :: nat
  n1_reader_index :: int

record ('f, 'd) spool_st =
  sp_fs :: 'f
  sp_mspool :: "'d mspoolbdb_st option"
  sp_cspool :: "'d mspoolbdb_st option"

record ('f, 'd) nbs1_env =
  ne_spooltype :: int
  ne_fs :: "'f fs_calls"
  ne_open :: "bytes \<Rightarrow> 'f \<Rightarrow> int \<times> 'f" \<comment> \<open>for reading; a descriptor or -1\<close>
  ne_read :: "int \<Rightarrow> nat \<Rightarrow> 'f \<Rightarrow> bytes option \<times> 'f" \<comment> \<open>\<^const>\<open>None\<close>: error\<close>
  ne_close :: "int \<Rightarrow> 'f \<Rightarrow> 'f"
  ne_ms :: "'d ms_env"
  ne_waits :: "(int \<times> spoolbuf_slots_st) list"

section \<open>The spools of the program\<close>

definition nbsp_mspoolbdb_open :: "('f, 'd) nbs1_env \<Rightarrow> bytes \<Rightarrow> ('f, 'd) spool_st \<Rightarrow> (int \<times> ('f, 'd) spool_st) option" where
  "nbsp_mspoolbdb_open env path sp = do {
     ms \<leftarrow> sp_mspool sp;
     (sd, ms) \<leftarrow> nbsp_mspoolbdb_open1 (ne_ms env) (ne_waits env) ms path;
     Some (sd, sp\<lparr>sp_mspool := Some ms\<rparr>)
   }"

definition nbsp_cspoolbdb_open :: "('f, 'd) nbs1_env \<Rightarrow> bytes \<Rightarrow> ('f, 'd) spool_st \<Rightarrow> (int \<times> ('f, 'd) spool_st) option" where
  "nbsp_cspoolbdb_open env path sp = do {
     ms \<leftarrow> sp_cspool sp;
     (sd, ms) \<leftarrow> nbsp_mspoolbdb_open1 (ne_ms env) (ne_waits env) ms path;
     Some (sd, sp\<lparr>sp_cspool := Some ms\<rparr>)
   }"

definition nbsp_mspoolbdb_close :: "('f, 'd) nbs1_env \<Rightarrow> int \<Rightarrow> ('f, 'd) spool_st \<Rightarrow> (int \<times> ('f, 'd) spool_st) option" where
  "nbsp_mspoolbdb_close env sd sp = do {
     ms \<leftarrow> sp_mspool sp;
     (st, ms) \<leftarrow> nbsp_mspoolbdb_close1 (ne_ms env) ms sd;
     Some (st, sp\<lparr>sp_mspool := Some ms\<rparr>)
   }"

definition nbsp_cspoolbdb_close :: "('f, 'd) nbs1_env \<Rightarrow> int \<Rightarrow> ('f, 'd) spool_st \<Rightarrow> (int \<times> ('f, 'd) spool_st) option" where
  "nbsp_cspoolbdb_close env sd sp = do {
     ms \<leftarrow> sp_cspool sp;
     (st, ms) \<leftarrow> nbsp_mspoolbdb_close1 (ne_ms env) ms sd;
     Some (st, sp\<lparr>sp_cspool := Some ms\<rparr>)
   }"

definition nbsp_mspoolbdb_read :: "int \<Rightarrow> nat \<Rightarrow> ('f, 'd) spool_st \<Rightarrow> (bytes \<times> ('f, 'd) spool_st) option" where
  "nbsp_mspoolbdb_read sd n sp = do {
     ms \<leftarrow> sp_mspool sp;
     (bs, ms) \<leftarrow> nbsp_mspoolbdb_read1 ms sd n;
     Some (bs, sp\<lparr>sp_mspool := Some ms\<rparr>)
   }"

definition nbsp_cspoolbdb_read :: "int \<Rightarrow> nat \<Rightarrow> ('f, 'd) spool_st \<Rightarrow> (bytes \<times> ('f, 'd) spool_st) option" where
  "nbsp_cspoolbdb_read sd n sp = do {
     ms \<leftarrow> sp_cspool sp;
     (bs, ms) \<leftarrow> nbsp_mspoolbdb_read1 ms sd n;
     Some (bs, sp\<lparr>sp_cspool := Some ms\<rparr>)
   }"

definition nbsp_mspoolbdb_datasize :: "int \<Rightarrow> ('f, 'd) spool_st \<Rightarrow> nat option" where
  "nbsp_mspoolbdb_datasize sd sp = do { ms \<leftarrow> sp_mspool sp; nbsp_mspoolbdb_datasize1 ms sd }"

definition nbsp_cspoolbdb_datasize :: "int \<Rightarrow> ('f, 'd) spool_st \<Rightarrow> nat option" where
  "nbsp_cspoolbdb_datasize sd sp = do { ms \<leftarrow> sp_cspool sp; nbsp_mspoolbdb_datasize1 ms sd }"

section \<open>Sending\<close>

definition get_num_blocks :: "int \<Rightarrow> int" where
  "get_num_blocks fsize =
     (let pt = fsize div int NBS1_BLOCK_SIZE
      in if fsize mod int NBS1_BLOCK_SIZE \<noteq> 0 then pt + 1 else pt)"

definition get_last_block_size :: "int \<Rightarrow> int" where
  "get_last_block_size fsize =
     (let n = fsize mod int NBS1_BLOCK_SIZE in if n = 0 then int NBS1_BLOCK_SIZE else n)"

text \<open>The file is opened in the spool in use: the status, the size when it is 0, and the descriptors.\<close>

definition open_spool_file ::
  "('f, 'd) nbs1_env \<Rightarrow> bytes \<Rightarrow> nbs1_packet_st \<Rightarrow> ('f, 'd) spool_st \<Rightarrow> (int \<times> int \<times> nbs1_packet_st \<times> ('f, 'd) spool_st) option" where
  "open_spool_file env path nbs sp =
     (let nbs = nbs\<lparr>n1_fsfd := -1, n1_cfd := -1, n1_mfd := -1\<rparr> in
      if spooltype_fsspool (ne_spooltype env) \<noteq> 0 then
        let (status, fsize) = get_file_size (ne_fs env) path (sp_fs sp) 0 in
        if status \<noteq> 0 then Some (status, fsize, nbs, sp)
        else
          let (fd, f) = ne_open env path (sp_fs sp)
          in Some (if fd = -1 then -1 else 0, fsize, nbs\<lparr>n1_fsfd := fd\<rparr>, sp\<lparr>sp_fs := f\<rparr>)
      else if spooltype_mspool (ne_spooltype env) \<noteq> 0 then do {
        (mfd, sp) \<leftarrow> nbsp_mspoolbdb_open env path sp;
        let nbs = nbs\<lparr>n1_mfd := mfd\<rparr>;
        if mfd < 0 then Some (mfd, 0, nbs, sp)
        else do { n \<leftarrow> nbsp_mspoolbdb_datasize mfd sp; Some (0, int n, nbs, sp) }
      }
      else if spooltype_cspool (ne_spooltype env) \<noteq> 0 then do {
        (cfd, sp) \<leftarrow> nbsp_cspoolbdb_open env path sp;
        let nbs = nbs\<lparr>n1_cfd := cfd\<rparr>;
        if cfd < 0 then Some (cfd, 0, nbs, sp)
        else do { n \<leftarrow> nbsp_cspoolbdb_datasize cfd sp; Some (0, int n, nbs, sp) }
      }
      else Some (1, 0, nbs, sp))"

definition init_nbs_packet_st ::
  "('f, 'd) nbs1_env \<Rightarrow> nbs1_packet_st \<Rightarrow> bytes \<Rightarrow> u32 \<Rightarrow> int \<Rightarrow> int \<Rightarrow> int \<Rightarrow> int \<Rightarrow> ('f, 'd) spool_st \<Rightarrow>
   (int \<times> nbs1_packet_st \<times> ('f, 'd) spool_st) option" where
  "init_nbs_packet_st env nbs path seqnumber ptype category code chan_index sp = do {
     (status, fsize, nbs, sp) \<leftarrow> open_spool_file env path nbs sp;
     if status \<noteq> 0 then Some (status, nbs, sp)
     else do {
       i \<leftarrow> findbasename (Some (cstr path));
       let fbasename = drop i (cstr path);
       if strlen fbasename > FBASENAME_SIZE then None
       else Some (0, nbs\<lparr>n1_num_blocks := c_int (get_num_blocks fsize), n1_last_block_size := get_last_block_size fsize,
         n1_block_number := 0, n1_f_zip := 0, n1_seq_number := seqnumber, n1_product_type := ptype,
         n1_product_category := category, n1_product_code := code, n1_np_channel_index := chan_index,
         n1_fbasename := strncpy fbasename (FBASENAME_SIZE + 1)\<rparr>, sp)
     }
   }"

definition free_nbs_packet_st ::
  "('f, 'd) nbs1_env \<Rightarrow> nbs1_packet_st \<Rightarrow> ('f, 'd) spool_st \<Rightarrow> (nbs1_packet_st \<times> ('f, 'd) spool_st) option" where
  "free_nbs_packet_st env nbs sp =
     (if n1_fsfd nbs \<noteq> -1 then Some (nbs\<lparr>n1_fsfd := -1\<rparr>, sp\<lparr>sp_fs := ne_close env (n1_fsfd nbs) (sp_fs sp)\<rparr>)
      else if n1_cfd nbs \<noteq> -1 then do {
        (_, sp) \<leftarrow> nbsp_cspoolbdb_close env (n1_cfd nbs) sp;
        Some (nbs\<lparr>n1_cfd := -1\<rparr>, sp)
      }
      else if n1_mfd nbs \<noteq> -1 then do {
        (_, sp) \<leftarrow> nbsp_mspoolbdb_close env (n1_mfd nbs) sp;
        Some (nbs\<lparr>n1_mfd := -1\<rparr>, sp)
      }
      else Some (nbs, sp))"

definition build_nbs1_header :: "nbs1_packet_st \<Rightarrow> nbs1_packet_st" where
  "build_nbs1_header nbs =
     (let p = n1_packet nbs;
          p = pack_uint32 p (n1_seq_number nbs) NBS_ENVELOPE_SIZE;
          p = p[16 := word_of_int (n1_product_type nbs), 17 := word_of_int (n1_product_category nbs),
                18 := word_of_int (n1_product_code nbs), 19 := word_of_int (n1_np_channel_index nbs)];
          p = overwrite 20 (strncpy (n1_fbasename nbs) (FBASENAME_SIZE + 1)) p;
          p = p[57 := word_of_int (n1_f_zip nbs)];
          p = pack_uint16 p (word_of_int (n1_num_blocks nbs)) 58;
          p = pack_uint16 p (word_of_int (n1_block_number nbs)) 60;
          p = pack_uint32 p (of_nat (n1_block_size nbs)) 62
      in nbs\<lparr>n1_packet := p\<rparr>)"

text \<open>What is read of the file for a block; \<^const>\<open>None\<close> inside for the value -1.\<close>

definition read_spool_file ::
  "('f, 'd) nbs1_env \<Rightarrow> nbs1_packet_st \<Rightarrow> ('f, 'd) spool_st \<Rightarrow> (bytes option \<times> ('f, 'd) spool_st) option" where
  "read_spool_file env nbs sp =
     (if n1_fsfd nbs \<noteq> -1 then
        let (r, f) = ne_read env (n1_fsfd nbs) (n1_block_size nbs) (sp_fs sp) in Some (r, sp\<lparr>sp_fs := f\<rparr>)
      else if n1_cfd nbs \<noteq> -1 then do {
        (bs, sp) \<leftarrow> nbsp_cspoolbdb_read (n1_cfd nbs) (n1_block_size nbs) sp;
        Some (Some bs, sp)
      }
      else if n1_mfd nbs \<noteq> -1 then do {
        (bs, sp) \<leftarrow> nbsp_mspoolbdb_read (n1_mfd nbs) (n1_block_size nbs) sp;
        Some (Some bs, sp)
      }
      else None)"

definition build_nbs_packet ::
  "('f, 'd) nbs1_env \<Rightarrow> nbs1_packet_st \<Rightarrow> ('f, 'd) spool_st \<Rightarrow> (int \<times> nbs1_packet_st \<times> ('f, 'd) spool_st) option" where
  "build_nbs_packet env nbs sp =
     (let nbs = nbs\<lparr>n1_block_number := n1_block_number nbs + 1\<rparr>;
          nbs = nbs\<lparr>n1_block_size := (if n1_block_number nbs = n1_num_blocks nbs
                                      then size_add 0 (n1_last_block_size nbs) else NBS1_BLOCK_SIZE)\<rparr>;
          off = NBS_ENVELOPE_SIZE + NBS1_HEADER_SIZE
      in do {
        (r, sp) \<leftarrow> read_spool_file env nbs sp;
        case r of
          None \<Rightarrow> Some (-1, nbs, sp)
        | Some bs \<Rightarrow>
            if length (n1_packet nbs) < off + length bs then None
            else
              let nbs = nbs\<lparr>n1_packet := overwrite off bs (n1_packet nbs)\<rparr> in
              if length bs \<noteq> n1_block_size nbs then Some (-1, nbs, sp)
              else
                let data_size = NBS1_HEADER_SIZE + n1_block_size nbs;
                    nbs = build_nbs1_header (nbs\<lparr>n1_packet_size := NBS_ENVELOPE_SIZE + data_size\<rparr>)
                in do {
                  (status, p) \<leftarrow> nbs_pack_envelope (n1_packet nbs) PACKID_FDATA data_size;
                  Some (status, nbs\<lparr>n1_packet := p\<rparr>, sp)
                }
      })"

definition send_nbs_packet :: "'s os \<Rightarrow> nbs1_packet_st \<Rightarrow> int \<Rightarrow> int \<Rightarrow> 's \<Rightarrow> int \<times> 's" where
  "send_nbs_packet os nbs timeout_ms retry s =
     (let (n, s) = writem os (n1_packet nbs) (n1_packet_size nbs) (word_of_int timeout_ms) retry s
      in (if n = -1 then -1 else if n \<noteq> int (n1_packet_size nbs) then 1 else 0, s))"

definition nbs_file_filter :: "bytes \<Rightarrow> int" where
  "nbs_file_filter name = 0"

section \<open>Receiving\<close>

text \<open>The bytes are read through a pointer to \<^verbatim>\<open>unsigned char\<close>.\<close>

definition unpack_nbs1_header :: "nbs1_packet_st \<Rightarrow> int \<times> nbs1_packet_st" where
  "unpack_nbs1_header nbs =
     (let p = n1_packet nbs in
      if unpack_uint32 p 0 \<noteq> PACKID_FDATA then (1, nbs)
      else
        let n = unat (unpack_uint32 p 62)
        in (0, nbs\<lparr>n1_seq_number := unpack_uint32 p 12, n1_product_type := uint (byte_at p 16),
              n1_product_category := uint (byte_at p 17), n1_product_code := uint (byte_at p 18),
              n1_np_channel_index := uint (byte_at p 19), n1_fbasename := strncpy (drop 20 p) (FBASENAME_SIZE + 1),
              n1_f_zip := uint (byte_at p 57), n1_num_blocks := uint (unpack_uint16 p 58),
              n1_block_number := uint (unpack_uint16 p 60), n1_block_size := n,
              n1_packet_size := NBS_ENVELOPE_SIZE + NBS1_HEADER_SIZE + n\<rparr>))"

definition recv_nbs_packet ::
  "'s os \<Rightarrow> nbs1_packet_st \<Rightarrow> u32 \<Rightarrow> int \<Rightarrow> 's \<Rightarrow> (int \<times> nbs1_packet_st \<times> 's) option" where
  "recv_nbs_packet os nbs timeout_s retry s =
     (let (n, p, s) = readn os (n1_packet nbs) NBS_ENVELOPE_SIZE timeout_s retry s;
          room = length (n1_packet nbs); nbs = nbs\<lparr>n1_packet := p\<rparr>
      in
      if length p > room then None
      else if n = -1 then Some (-1, nbs, s)
      else if n = -2 then Some (-2, nbs, s)
      else if n = 0 then Some (-3, nbs, s)
      else if n \<noteq> int NBS_ENVELOPE_SIZE then Some (1, nbs, s)
      else if unpack_uint32 p 0 \<noteq> PACKID_FDATA then Some (1, nbs, s)
      else
        let data_size = unpack_uint32 p 4 in
        if uint (data_size + of_nat NBS_ENVELOPE_SIZE) > int NBS1_PACKET_MAXSIZE then Some (1, nbs, s)
        else
          let (n, q, s) = readn os (drop NBS_ENVELOPE_SIZE p) (unat data_size) timeout_s retry s;
              nbs = nbs\<lparr>n1_packet := take NBS_ENVELOPE_SIZE p @ q\<rparr>
          in
          if length q > length (drop NBS_ENVELOPE_SIZE p) then None
          else if n = -1 then Some (-1, nbs, s)
          else if n = -2 then Some (-2, nbs, s)
          else if n = 0 then Some (-3, nbs, s)
          else if n \<noteq> uint data_size then Some (1, nbs, s)
          else
            let (status, nbs) = unpack_nbs1_header nbs in
            if status \<noteq> 0 then Some (2, nbs, s)
            else
              let nbs = nbs\<lparr>n1_block := NBS_ENVELOPE_SIZE + NBS1_HEADER_SIZE\<rparr>
              in Some (if unat data_size \<noteq> NBS1_HEADER_SIZE + n1_block_size nbs then 2 else 0, nbs, s))"

section \<open>The packet as a list\<close>

definition wire32 :: "u32 \<Rightarrow> bytes" where
  "wire32 u = [ucast (drop_bit 24 u AND 0xff), ucast (drop_bit 16 u AND 0xff), ucast (drop_bit 8 u AND 0xff), ucast (u AND 0xff)]"

definition wire16 :: "u16 \<Rightarrow> bytes" where
  "wire16 u = [ucast (drop_bit 8 u AND 0xff), ucast (u AND 0xff)]"

lemma length_be [simp]: "length (wire32 u) = 4" "length (wire16 v) = 2"
  by (simp_all add: wire32_def wire16_def)

lemma overwrite_single: "i < length p \<Longrightarrow> p[i := x] = overwrite i [x] p"
  by (simp add: overwrite_def upd_conv_take_nth_drop)

lemma pack_overwrite:
  "i + 4 \<le> length p \<Longrightarrow> pack_uint32 p u i = overwrite i (wire32 u) p"
  "i + 2 \<le> length p \<Longrightarrow> pack_uint16 p v i = overwrite i (wire16 v) p"
proof -
  assume "i + 4 \<le> length p"
  then show "pack_uint32 p u i = overwrite i (wire32 u) p"
    by (intro nth_equalityI) (auto simp: pack_uint32_def wire32_def nth_overwrite nth_list_update nth_Cons' split: if_splits)
next
  assume "i + 2 \<le> length p"
  then show "pack_uint16 p v i = overwrite i (wire16 v) p"
    by (intro nth_equalityI) (auto simp: pack_uint16_def wire16_def nth_overwrite nth_list_update nth_Cons' split: if_splits)
qed

lemma overwrite_before:
  "i + length xs = j \<Longrightarrow> j + length ys \<le> length buf \<Longrightarrow> overwrite i xs (overwrite j ys buf) = overwrite i (xs @ ys) buf"
  by (auto simp: overwrite_def add.assoc)

lemma overwrite_after:
  "i + length xs = j \<Longrightarrow> j \<le> length buf \<Longrightarrow> overwrite j ys (overwrite i xs buf) = overwrite i (xs @ ys) buf"
  using overwrite_twice [of i buf xs ys] by simp

lemma unpack_be:
  "unpack_uint32 (wire32 u @ xs) 0 = u" "unpack_uint16 (wire16 v @ xs) 0 = v"
proof -
  have "wire32 u @ xs = pack_uint32 (0 # 0 # 0 # 0 # xs) u 0" "wire16 v @ xs = pack_uint16 (0 # 0 # xs) v 0"
    by (simp_all add: wire32_def wire16_def pack_uint32_def pack_uint16_def)
  then show "unpack_uint32 (wire32 u @ xs) 0 = u" "unpack_uint16 (wire16 v @ xs) 0 = v"
    by (simp_all add: w32.unpack_pack w16.unpack_pack)
qed

lemma unpack_at:
  "length xs = i \<Longrightarrow> unpack_uint32 (xs @ wire32 u @ ys) i = u"
  "length xs = i \<Longrightarrow> unpack_uint16 (xs @ wire16 v @ ys) i = v"
  using w32.unpack_drop [of "length xs" "xs @ wire32 u @ ys" 0] w16.unpack_drop [of "length xs" "xs @ wire16 v @ ys" 0]
  by (simp_all add: unpack_be)

text \<open>The header and the whole packet of a block.\<close>

definition nbs1_header :: "nbs1_packet_st \<Rightarrow> bytes" where
  "nbs1_header nbs =
     wire32 (n1_seq_number nbs) @ [word_of_int (n1_product_type nbs), word_of_int (n1_product_category nbs),
       word_of_int (n1_product_code nbs), word_of_int (n1_np_channel_index nbs)] @
     strncpy (n1_fbasename nbs) (FBASENAME_SIZE + 1) @ [word_of_int (n1_f_zip nbs)] @
     wire16 (word_of_int (n1_num_blocks nbs)) @ wire16 (word_of_int (n1_block_number nbs)) @ wire32 (of_nat (n1_block_size nbs))"

definition nbs1_wire :: "nbs1_packet_st \<Rightarrow> bytes \<Rightarrow> bytes" where
  "nbs1_wire nbs blk =
     wire32 PACKID_FDATA @ wire32 (of_nat (NBS1_HEADER_SIZE + length blk)) @
     wire32 (calc_checksum (nbs1_header nbs @ blk) (NBS1_HEADER_SIZE + length blk)) @ nbs1_header nbs @ blk"

lemma length_nbs1_header [simp]: "length (nbs1_header nbs) = 54"
  by (simp add: nbs1_header_def)

lemma length_nbs1_wire [simp]: "length (nbs1_wire nbs blk) = 66 + length blk"
  by (simp add: nbs1_wire_def)

lemma build_nbs1_header_eq:
  assumes "66 \<le> length (n1_packet nbs)"
  shows "build_nbs1_header nbs = nbs\<lparr>n1_packet := overwrite 12 (nbs1_header nbs) (n1_packet nbs)\<rparr>"
proof -
  let ?p = "n1_packet nbs"
  have "(pack_uint32 ?p (n1_seq_number nbs) 12)[16 := a, 17 := b, 18 := c, 19 := d] =
      overwrite 12 (wire32 (n1_seq_number nbs) @ [a, b, c, d]) ?p" for a b c d
    using assms by (simp add: pack_overwrite overwrite_single overwrite_after)
  with assms show ?thesis
    by (simp add: build_nbs1_header_def nbs1_header_def Let_def pack_overwrite overwrite_single overwrite_after)
qed

lemma overwrite_0_take: "length xs \<le> length buf \<Longrightarrow> take (length xs) (overwrite 0 xs buf) = xs"
  by (simp add: overwrite_def)

lemma envelope_overwrite:
  assumes "12 + n \<le> length p" "drop 12 p = body @ rest" "length body = n"
  shows "nbs_pack_envelope p PACKID_FDATA n =
    Some (0, overwrite 0 (wire32 PACKID_FDATA @ wire32 (of_nat n) @ wire32 (calc_checksum body n)) p)"
proof -
  have "calc_checksum (drop 12 p) n = calc_checksum body n"
    using assms(2,3) by (simp add: calc_checksum_def)
  with assms(1) show ?thesis
    by (simp add: nbs_pack_envelope_eq enveloped_def pack_overwrite overwrite_after)
qed

lemma build_nbs_packet_wire:
  assumes "build_nbs_packet env nbs sp = Some (0, nbs', sp')" "length (n1_packet nbs) = NBS1_PACKET_MAXSIZE"
  obtains blk nbs1 p where
    "nbs1 = nbs\<lparr>n1_block_number := n1_block_number nbs + 1, n1_block_size := length blk\<rparr>"
    "length blk = (if n1_block_number nbs + 1 = n1_num_blocks nbs then size_add 0 (n1_last_block_size nbs) else NBS1_BLOCK_SIZE)"
    "read_spool_file env nbs1 sp = Some (Some blk, sp')" "66 + length blk \<le> NBS1_PACKET_MAXSIZE"
    "nbs' = nbs1\<lparr>n1_packet := overwrite 0 (nbs1_wire nbs1 blk) (n1_packet nbs), n1_packet_size := 66 + length blk\<rparr>"
proof -
  let ?k = "n1_block_number nbs + 1"
  define m where "m = (if ?k = n1_num_blocks nbs then size_add 0 (n1_last_block_size nbs) else NBS1_BLOCK_SIZE)"
  define nbs1 where "nbs1 = nbs\<lparr>n1_block_number := ?k, n1_block_size := m\<rparr>"
  let ?p = "n1_packet nbs"
  obtain blk where r: "read_spool_file env nbs1 sp = Some (Some blk, sp')" and l: "66 + length blk \<le> length ?p" "length blk = m"
    and x: "nbs_pack_envelope (n1_packet (build_nbs1_header (nbs1\<lparr>n1_packet := overwrite 66 blk ?p, n1_packet_size := 66 + m\<rparr>)))
        PACKID_FDATA (54 + m) = Some (0, n1_packet nbs')"
      "nbs' = (build_nbs1_header (nbs1\<lparr>n1_packet := overwrite 66 blk ?p, n1_packet_size := 66 + m\<rparr>))\<lparr>n1_packet := n1_packet nbs'\<rparr>"
    using assms(1) unfolding build_nbs_packet_def Let_def
    by (auto simp: bind_eq_Some_conv nbs1_def m_def split: option.splits if_splits)
  let ?n2 = "nbs1\<lparr>n1_packet := overwrite 66 blk ?p, n1_packet_size := 66 + m\<rparr>"
  have h: "nbs1_header ?n2 = nbs1_header nbs1" by (simp add: nbs1_header_def)
  have b: "build_nbs1_header ?n2 = ?n2\<lparr>n1_packet := overwrite 12 (nbs1_header nbs1 @ blk) ?p\<rparr>"
    using build_nbs1_header_eq [of ?n2] l by (simp add: h overwrite_before)
  have d: "drop 12 (overwrite 12 (nbs1_header nbs1 @ blk) ?p) = (nbs1_header nbs1 @ blk) @ drop (66 + m) ?p"
    using l by (simp add: overwrite_def)
  have "n1_packet nbs' = overwrite 0 (nbs1_wire nbs1 blk) ?p"
    using x(1) l envelope_overwrite [of "54 + m" "overwrite 12 (nbs1_header nbs1 @ blk) ?p", OF _ d]
    by (simp add: b nbs1_wire_def overwrite_before)
  with x(2) b l have "nbs' = nbs1\<lparr>n1_packet := overwrite 0 (nbs1_wire nbs1 blk) ?p, n1_packet_size := 66 + length blk\<rparr>"
    by simp
  with that [of nbs1 blk] r l assms(2) show ?thesis by (simp add: nbs1_def m_def)
qed

lemma unpack_wire:
  assumes "n1_block_size nbs = length blk" "length blk \<le> NBS1_BLOCK_SIZE"
    "n1_packet r = nbs1_wire nbs blk @ rest"
  shows "unpack_nbs1_header r = (0, r\<lparr>n1_seq_number := n1_seq_number nbs,
     n1_product_type := uint (word_of_int (n1_product_type nbs) :: byte),
     n1_product_category := uint (word_of_int (n1_product_category nbs) :: byte),
     n1_product_code := uint (word_of_int (n1_product_code nbs) :: byte),
     n1_np_channel_index := uint (word_of_int (n1_np_channel_index nbs) :: byte),
     n1_fbasename := strncpy (strncpy (n1_fbasename nbs) 37 @ word_of_int (n1_f_zip nbs) # drop 58 (n1_packet r)) 37,
     n1_f_zip := uint (word_of_int (n1_f_zip nbs) :: byte),
     n1_num_blocks := uint (word_of_int (n1_num_blocks nbs) :: u16),
     n1_block_number := uint (word_of_int (n1_block_number nbs) :: u16),
     n1_block_size := length blk, n1_packet_size := 66 + length blk\<rparr>)"
proof -
  let ?w = "nbs1_wire nbs blk @ rest"
  let ?e = "wire32 PACKID_FDATA @ wire32 (of_nat (54 + length blk)) @ wire32 (calc_checksum (nbs1_header nbs @ blk) (54 + length blk))"
  let ?c = "[word_of_int (n1_product_type nbs), word_of_int (n1_product_category nbs), word_of_int (n1_product_code nbs),
    word_of_int (n1_np_channel_index nbs)] @ strncpy (n1_fbasename nbs) 37 @ [word_of_int (n1_f_zip nbs)]"
  let ?n = "wire16 (word_of_int (n1_num_blocks nbs))" and ?k = "wire16 (word_of_int (n1_block_number nbs))"
  have "?w = ?e @ wire32 (n1_seq_number nbs) @ ?c @ ?n @ ?k @ wire32 (of_nat (length blk)) @ blk @ rest"
    using assms(1) by (simp add: nbs1_wire_def nbs1_header_def)
  then have "unpack_uint32 ?w 0 = PACKID_FDATA" "unpack_uint32 ?w 12 = n1_seq_number nbs"
    "unpack_uint16 ?w 58 = word_of_int (n1_num_blocks nbs)" "unpack_uint16 ?w 60 = word_of_int (n1_block_number nbs)"
    "unpack_uint32 ?w 62 = of_nat (length blk)"
    using unpack_at(1) [of "[]" 0 PACKID_FDATA] unpack_at(1) [of ?e 12 "n1_seq_number nbs"]
      unpack_at(2) [of "?e @ wire32 (n1_seq_number nbs) @ ?c" 58 "word_of_int (n1_num_blocks nbs)"]
      unpack_at(2) [of "?e @ wire32 (n1_seq_number nbs) @ ?c @ ?n" 60 "word_of_int (n1_block_number nbs)"]
      unpack_at(1) [of "?e @ wire32 (n1_seq_number nbs) @ ?c @ ?n @ ?k" 62 "of_nat (length blk)"]
    by simp_all
  moreover have "byte_at ?w 16 = word_of_int (n1_product_type nbs)" "byte_at ?w 17 = word_of_int (n1_product_category nbs)"
    "byte_at ?w 18 = word_of_int (n1_product_code nbs)" "byte_at ?w 19 = word_of_int (n1_np_channel_index nbs)"
    "byte_at ?w 57 = word_of_int (n1_f_zip nbs)"
    by (simp_all add: byte_at_def nbs1_wire_def nbs1_header_def nth_append)
  moreover have "drop 20 ?w = strncpy (n1_fbasename nbs) 37 @ word_of_int (n1_f_zip nbs) # drop 58 ?w"
    by (simp add: nbs1_wire_def nbs1_header_def)
  moreover have "unat (of_nat (length blk) :: u32) = length blk"
    using assms(2) by (simp add: unat_of_nat)
  ultimately show ?thesis
    using assms(3) by (simp add: unpack_nbs1_header_def Let_def)
qed

text \<open>
  What is received of a packet that was sent: either the transfer failed, or the packet is the one
  sent and the rest of the stream is still to come.
\<close>

definition received_as :: "nbs1_packet_st \<Rightarrow> bytes \<Rightarrow> nbs1_packet_st \<Rightarrow> bool" where
  "received_as nbs blk r \<longleftrightarrow>
     n1_seq_number r = n1_seq_number nbs \<and>
     n1_num_blocks r = uint (word_of_int (n1_num_blocks nbs) :: u16) \<and>
     n1_block_number r = uint (word_of_int (n1_block_number nbs) :: u16) \<and>
     n1_f_zip r = uint (word_of_int (n1_f_zip nbs) :: byte) \<and>
     cstr (n1_fbasename r) = cstr (n1_fbasename nbs) \<and> n1_block r = 66 \<and> n1_block_size r = length blk \<and>
     take (length blk) (drop 66 (n1_packet r)) = blk \<and> length (n1_packet r) = NBS1_PACKET_MAXSIZE"

lemma cstr_strncpy_twice:
  assumes "length (cstr s) < n"
  shows "cstr (strncpy (strncpy s n @ xs) n) = cstr s"
proof -
  have "strncpy s n = cstr s @ 0 # replicate (n - length (cstr s) - 1) 0"
    using assms by (simp add: strncpy_def min_def Suc_diff_Suc flip: replicate_Suc)
  then have "cstr (strncpy s n @ xs) = cstr s" by simp
  with assms show ?thesis by (simp add: cstr_strncpy)
qed

lemma recv_nbs_packet_wire:
  assumes laws: "read_laws os inp" and len: "length (n1_packet r) = NBS1_PACKET_MAXSIZE"
    and inp: "inp s = nbs1_wire nbs blk @ rest" and blk: "n1_block_size nbs = length blk" "0 < length blk" "length blk \<le> NBS1_BLOCK_SIZE"
    and name: "length (cstr (n1_fbasename nbs)) \<le> FBASENAME_SIZE"
  obtains st r' s' where "recv_nbs_packet os r t retry s = Some (st, r', s')"
    "st = 0 \<longrightarrow> inp s' = rest \<and> received_as nbs blk r'" "length (n1_packet r') = NBS1_PACKET_MAXSIZE"
    "st \<noteq> 2"
proof -
  let ?n = "54 + length blk"
  obtain n1 p1 s1 where 1: "readn os (n1_packet r) 12 t retry s = (n1, p1, s1)" by (metis prod_cases3)
  note b1 = readn_bytes [OF laws _ 1]
  have l1: "length p1 = NBS1_PACKET_MAXSIZE" using b1(1) len by simp
  show ?thesis
  proof (cases "n1 = 12")
    case False
    then have e: "recv_nbs_packet os r t retry s =
      Some (if n1 = -1 then -1 else if n1 = -2 then -2 else if n1 = 0 then -3 else 1, r\<lparr>n1_packet := p1\<rparr>, s1)"
      using 1 len l1 by (simp add: recv_nbs_packet_def)
    show ?thesis by (rule that [OF e]) (simp_all add: l1)
  next
    case True
    have i1: "take 12 p1 @ inp s1 = nbs1_wire nbs blk @ rest" using b1(2) len True inp by simp
    then have env: "take 12 p1 = take 12 (nbs1_wire nbs blk)" "inp s1 = drop 12 (nbs1_wire nbs blk) @ rest"
      using l1 by (auto simp: append_eq_append_conv_if)
    let ?e = "wire32 PACKID_FDATA @ wire32 (of_nat ?n) @ wire32 (calc_checksum (nbs1_header nbs @ blk) ?n)"
    have p1: "p1 = ?e @ drop 12 p1" using env(1) append_take_drop_id [of 12 p1] by (simp add: nbs1_wire_def)
    have u: "unpack_uint32 p1 0 = PACKID_FDATA" "unpack_uint32 p1 4 = of_nat ?n"
      using unpack_at(1) [of "[]" 0 PACKID_FDATA] unpack_at(1) [of "wire32 PACKID_FDATA" 4 "of_nat ?n"]
      by (subst p1; simp)+
    have d: "unat (of_nat ?n :: u32) = ?n" "uint (of_nat ?n :: u32) = int ?n" "uint (of_nat ?n + 12 :: u32) = int (?n + 12)"
      using blk(3) by (simp_all add: unat_of_nat uint_word_ariths unsigned_of_nat take_bit_nat_eq_self del: of_nat_add)
    obtain n2 q s2 where 2: "readn os (drop 12 p1) ?n t retry s1 = (n2, q, s2)" by (metis prod_cases3)
    note b2 = readn_bytes [OF laws _ 2]
    have l2: "length q = NBS1_PACKET_MAXSIZE - 12" using b2(1) l1 blk by simp
    have step: "recv_nbs_packet os r t retry s =
      (let r = r\<lparr>n1_packet := take 12 p1 @ q\<rparr> in
       if n2 = -1 then Some (-1, r, s2) else if n2 = -2 then Some (-2, r, s2) else if n2 = 0 then Some (-3, r, s2)
       else if n2 \<noteq> int ?n then Some (1, r, s2)
       else case unpack_nbs1_header r of (status, r) \<Rightarrow>
         if status \<noteq> 0 then Some (2, r, s2)
         else Some (if ?n \<noteq> 54 + n1_block_size r then 2 else 0, r\<lparr>n1_block := 66\<rparr>, s2))"
      using 1 2 True u d len l1 l2 blk by (simp add: recv_nbs_packet_def Let_def case_prod_beta)
    show ?thesis
    proof (cases "n2 = int ?n")
      case False
      then have e: "recv_nbs_packet os r t retry s =
        Some (if n2 = -1 then -1 else if n2 = -2 then -2 else if n2 = 0 then -3 else 1, r\<lparr>n1_packet := take 12 p1 @ q\<rparr>, s2)"
        by (simp add: step Let_def)
      show ?thesis by (rule that [OF e]) (simp_all add: l1 l2)
    next
      case n2: True
      have "nat n2 = ?n" using n2 by simp
      then have "take ?n q @ inp s2 = drop 12 (nbs1_wire nbs blk) @ rest" using b2(2) n2 l1 blk env(2) by simp
      then have q: "take ?n q = drop 12 (nbs1_wire nbs blk)" "inp s2 = rest"
        using l2 blk by (auto simp: append_eq_append_conv_if)
      let ?r = "r\<lparr>n1_packet := take 12 p1 @ q\<rparr>"
      have "take 12 p1 @ q = (take 12 p1 @ take ?n q) @ drop ?n q" by simp
      then have w: "take 12 p1 @ q = nbs1_wire nbs blk @ drop ?n q" by (simp only: env(1) q(1) append_take_drop_id)
      note uw = unpack_wire [OF blk(1,3), of ?r "drop ?n q"]
      have f: "length (cstr (n1_fbasename nbs)) < 37" using name by simp
      have st: "recv_nbs_packet os r t retry s = Some (0, (snd (unpack_nbs1_header ?r))\<lparr>n1_block := 66\<rparr>, s2)"
        using n2 blk(2) w uw by (simp add: step Let_def)
      have "received_as nbs blk ((snd (unpack_nbs1_header ?r))\<lparr>n1_block := 66\<rparr>)"
        using l1 l2 w uw blk cstr_strncpy_twice [OF f] by (simp add: received_as_def nbs1_wire_def)
      with q(2) show ?thesis by (intro that [OF st]) (simp_all add: received_as_def)
    qed
  qed
qed

end
