(* ===== verification/Slavet.thy ===== *)
theory Slavet
  imports Ure Stoi
begin

text \<open>
  The table of the slave readers, \<^verbatim>\<open>src/slavet.c\<close>, made from the configuration string of the master servers,
  with the functions of \<^verbatim>\<open>src/slave.c\<close> that prepare that string and the number of channels of the product
  control, \<^verbatim>\<open>init_pctl\<close> of \<^verbatim>\<open>src/nbsp.c\<close>.

  A pointer to an allocated string is null, a string or a string that was freed, so that freeing twice
  is visible. The \<^verbatim>\<open>double\<close> counters are natural numbers, to which they are equal below $2^{53}$. \<^const>\<open>None\<close> is a
  failed assertion, a null dereference or a second \<^verbatim>\<open>free\<close>.
\<close>

section \<open>Data\<close>

datatype cptr = Pnull | Pheap bytes | Pfreed

fun deref :: "cptr \<Rightarrow> bytes option" where
  "deref (Pheap s) = Some s"
| "deref _ = None"

fun free_ptr :: "cptr \<Rightarrow> cptr option" where
  "free_ptr Pnull = Some Pnull"
| "free_ptr (Pheap s) = Some Pfreed"
| "free_ptr Pfreed = None"

abbreviation SLAVE_STRING_SEP1 :: bytes where "SLAVE_STRING_SEP1 \<equiv> [124, 32, 9, 10]"
abbreviation SLAVE_STRING_SEP2 :: bytes where "SLAVE_STRING_SEP2 \<equiv> [44, 58]"
abbreviation SLAVE_STRING_JOIN1 :: bytes where "SLAVE_STRING_JOIN1 \<equiv> [10]"
abbreviation SLAVE_STRING_JOIN2 :: bytes where "SLAVE_STRING_JOIN2 \<equiv> [44]"
abbreviation SLAVE_NET_STRING_FIELDS :: nat where "SLAVE_NET_STRING_FIELDS \<equiv> 8"
abbreviation SLAVE_IN_STRING_FIELDS :: nat where "SLAVE_IN_STRING_FIELDS \<equiv> 7"
abbreviation SLAVETYPE_NBS1 :: int where "SLAVETYPE_NBS1 \<equiv> 1"
abbreviation SLAVETYPE_NBS2 :: int where "SLAVETYPE_NBS2 \<equiv> 2"
abbreviation SLAVETYPE_INFIFO :: int where "SLAVETYPE_INFIFO \<equiv> 3"
abbreviation FEEDMODE_NOAAPORT :: int where "FEEDMODE_NOAAPORT \<equiv> 1"
abbreviation FEEDMODE_MASTERSERVERS :: int where "FEEDMODE_MASTERSERVERS \<equiv> 2"
abbreviation FEEDMODE_INPUTFIFO :: int where "FEEDMODE_INPUTFIFO \<equiv> 4"
abbreviation NPCAST_NUM_CHANNELS :: int where "NPCAST_NUM_CHANNELS \<equiv> 9"

record slave_options_st =
  infifo_mode :: int
  infifo_grp :: cptr
  slavestatsfile :: cptr
  slave_masterport :: "bytes option"
  slave_read_timeout_secs :: int
  slave_read_timeout_retry :: int
  slave_reopen_timeout_secs :: int
  slave_so_rcvbuf :: int
  slave_stats_logperiod_secs :: int

record slave_stats_st =
  ss_connect_errors :: u32
  ss_ctime :: int
  ss_errors_ctime :: u32
  ss_packets_ctime :: u32
  ss_bytes_ctime :: nat
  ss_rtime :: int
  ss_errors_rtime :: u32
  ss_packets_rtime :: u32
  ss_bytes_rtime :: nat

record slave_element_st =
  slavetype :: int
  mastername :: cptr
  masterport :: cptr
  infifo :: cptr
  sl_options :: slave_options_st
  f_slave_thread_created :: int
  slave_fd :: int
  slavenbs_reader_index :: int
  sl_stats :: slave_stats_st

record slave_table_st =
  st_slave :: "slave_element_st list" \<comment> \<open>its length is \<^verbatim>\<open>numslaves\<close>\<close>
  num_slavenbs_readers :: int

section \<open>Statistics\<close>

definition slave_stats_init :: "slave_element_st \<Rightarrow> slave_element_st" where
  "slave_stats_init slave = slave\<lparr>sl_stats := \<lparr>ss_connect_errors = 0, ss_ctime = 0, ss_errors_ctime = 0, ss_packets_ctime = 0,
     ss_bytes_ctime = 0, ss_rtime = 0, ss_errors_rtime = 0, ss_packets_rtime = 0, ss_bytes_rtime = 0\<rparr>\<rparr>"

definition slave_stats_connect :: "int \<Rightarrow> slave_element_st \<Rightarrow> slave_element_st" where
  "slave_stats_connect now slave = slave\<lparr>sl_stats := (sl_stats slave)\<lparr>ss_ctime := now, ss_errors_ctime := 0,
     ss_packets_ctime := 0, ss_bytes_ctime := 0\<rparr>\<rparr>"

definition slave_stats_reset :: "int \<Rightarrow> slave_element_st \<Rightarrow> slave_element_st" where
  "slave_stats_reset now slave = slave\<lparr>sl_stats := (sl_stats slave)\<lparr>ss_rtime := now, ss_errors_rtime := 0,
     ss_packets_rtime := 0, ss_bytes_rtime := 0\<rparr>\<rparr>"

definition slave_stats_update_packets :: "nat \<Rightarrow> slave_element_st \<Rightarrow> slave_element_st" where
  "slave_stats_update_packets packet_size slave =
     (let st = sl_stats slave in
      slave\<lparr>sl_stats := st\<lparr>ss_packets_rtime := ss_packets_rtime st + 1, ss_bytes_rtime := ss_bytes_rtime st + packet_size,
        ss_packets_ctime := ss_packets_ctime st + 1, ss_bytes_ctime := ss_bytes_ctime st + packet_size\<rparr>\<rparr>)"

definition slave_stats_update_errors :: "slave_element_st \<Rightarrow> slave_element_st" where
  "slave_stats_update_errors slave =
     (let st = sl_stats slave in
      slave\<lparr>sl_stats := st\<lparr>ss_errors_rtime := ss_errors_rtime st + 1, ss_errors_ctime := ss_errors_ctime st + 1\<rparr>\<rparr>)"

definition slave_stats_update_connect_errors :: "slave_element_st \<Rightarrow> slave_element_st" where
  "slave_stats_update_connect_errors slave =
     slave\<lparr>sl_stats := (sl_stats slave)\<lparr>ss_connect_errors := ss_connect_errors (sl_stats slave) + 1\<rparr>\<rparr>"

text \<open>
  The report: whether the file could be opened is \<open>fopen_ok\<close>. The line written is the time and the counters;
  the reset that follows reads the clock again.
\<close>

definition slave_stats_report ::
  "int \<Rightarrow> int \<Rightarrow> bool \<Rightarrow> slave_element_st \<Rightarrow> (int \<times> slave_stats_st) option \<times> slave_element_st" where
  "slave_stats_report now now2 fopen_ok slave =
     (if now < ss_rtime (sl_stats slave) + slave_stats_logperiod_secs (sl_options slave) then (None, slave)
      else if slavestatsfile (sl_options slave) = Pnull then (None, slave)
      else if \<not> fopen_ok then (None, slave)
      else (Some (now, sl_stats slave), slave_stats_reset now2 slave))"

section \<open>One element\<close>

definition slave_element_init :: "slave_element_st \<Rightarrow> slave_element_st" where
  "slave_element_init slave =
     slave_stats_init (slave\<lparr>f_slave_thread_created := 0, slave_fd := -1, slavenbs_reader_index := -1\<rparr>)"

text \<open>The copies of the two strings of the defaults, which must not be null, and the numbers.\<close>

definition slave_element_configure_options ::
  "allocator \<Rightarrow> slave_element_st \<Rightarrow> slave_options_st \<Rightarrow> (int \<times> slave_element_st) option" where
  "slave_element_configure_options alloc slave options = do {
     grp \<leftarrow> deref (infifo_grp options);
     let so = sl_options slave;
     if \<not> can_alloc alloc (strlen grp + 1) then Some (-1, slave\<lparr>sl_options := so\<lparr>infifo_grp := Pnull\<rparr>\<rparr>)
     else do {
       f \<leftarrow> deref (slavestatsfile options);
       if \<not> can_alloc alloc (strlen f + 1)
       then Some (-1, slave\<lparr>sl_options := so\<lparr>infifo_grp := Pfreed, slavestatsfile := Pnull\<rparr>\<rparr>)
       else Some (0, slave\<lparr>sl_options := so\<lparr>
         infifo_grp := Pheap (cstr grp), slavestatsfile := Pheap (cstr f), infifo_mode := infifo_mode options,
         slave_read_timeout_secs := slave_read_timeout_secs options,
         slave_read_timeout_retry := slave_read_timeout_retry options,
         slave_reopen_timeout_secs := slave_reopen_timeout_secs options,
         slave_so_rcvbuf := slave_so_rcvbuf options,
         slave_stats_logperiod_secs := slave_stats_logperiod_secs options\<rparr>\<rparr>)
     }
   }"

definition slave_element_release_options :: "slave_element_st \<Rightarrow> slave_element_st option" where
  "slave_element_release_options slave = do {
     let so = sl_options slave;
     _ \<leftarrow> free_ptr (infifo_grp so);
     _ \<leftarrow> free_ptr (slavestatsfile so);
     Some (slave\<lparr>sl_options := so\<lparr>infifo_grp := Pnull, slavestatsfile := Pnull\<rparr>\<rparr>)
   }"

definition slave_element_release :: "slave_element_st \<Rightarrow> slave_element_st option" where
  "slave_element_release slave = do {
     a \<leftarrow> free_ptr (mastername slave);
     b \<leftarrow> free_ptr (masterport slave);
     c \<leftarrow> free_ptr (infifo slave);
     slave_element_release_options (slave\<lparr>mastername := a, masterport := b, infifo := c\<rparr>)
   }"

text \<open>The values that replace the defaults; \<open>a\<close> is the array of five, and a store outside it is \<^const>\<open>None\<close>.\<close>

fun override_loop :: "bytes list \<Rightarrow> nat \<Rightarrow> int list \<Rightarrow> int list option" where
  "override_loop [] i a = Some a"
| "override_loop (s # ss) i a =
     (let (status, v) = strto_int s 0 in
      if status = 0 then (if i < length a then override_loop ss (Suc i) (a[i := v]) else None)
      else override_loop ss (Suc i) a)"

definition slave_element_override_options :: "slave_element_st \<Rightarrow> bytes list \<Rightarrow> (int \<times> slave_element_st) option" where
  "slave_element_override_options slave options_argv = do {
     let so = sl_options slave;
     a \<leftarrow> override_loop options_argv 0 [slave_read_timeout_secs so, slave_read_timeout_retry so,
            slave_reopen_timeout_secs so, slave_so_rcvbuf so, slave_stats_logperiod_secs so];
     Some (0, slave\<lparr>sl_options := so\<lparr>slave_read_timeout_secs := a ! 0, slave_read_timeout_retry := a ! 1,
       slave_reopen_timeout_secs := a ! 2, slave_so_rcvbuf := a ! 3, slave_stats_logperiod_secs := a ! 4\<rparr>\<rparr>)
   }"

text \<open>The last part of \<^verbatim>\<open>slave_element_configure2\<close>, once the names are copied.\<close>

definition configure_options ::
  "allocator \<Rightarrow> slave_element_st \<Rightarrow> bytes list option \<Rightarrow> slave_options_st \<Rightarrow> (int \<times> slave_element_st) option" where
  "configure_options alloc slave options_argv defaults = do {
     (status, slave) \<leftarrow> slave_element_configure_options alloc slave defaults;
     if status \<noteq> 0 then do { slave \<leftarrow> slave_element_release slave; Some (-1, slave) }
     else
       case options_argv of
         None \<Rightarrow> Some (0, slave)
       | Some argv \<Rightarrow> do {
           (status, slave) \<leftarrow> slave_element_override_options slave argv;
           if status \<noteq> 0 then do { slave \<leftarrow> slave_element_release slave; Some (-1, slave) } else Some (0, slave)
         }
   }"

definition slave_element_configure2 ::
  "allocator \<Rightarrow> slave_element_st \<Rightarrow> int \<Rightarrow> bytes option \<Rightarrow> bytes option \<Rightarrow> bytes option \<Rightarrow> bytes list option \<Rightarrow> slave_options_st \<Rightarrow>
   (int \<times> slave_element_st) option" where
  "slave_element_configure2 alloc slave styp mname mport fifo options_argv defaults =
     (if styp = SLAVETYPE_INFIFO then
        case fifo of
          None \<Rightarrow> None
        | Some fifo \<Rightarrow>
            if \<not> can_alloc alloc (strlen fifo + 1) then Some (-1, slave\<lparr>infifo := Pnull\<rparr>)
            else configure_options alloc (slave\<lparr>slavetype := styp, mastername := Pnull, masterport := Pnull,
                   infifo := Pheap (cstr fifo)\<rparr>) options_argv defaults
      else if styp = SLAVETYPE_NBS1 \<or> styp = SLAVETYPE_NBS2 then
        case (mname, mport) of
          (Some mname, Some mport) \<Rightarrow>
            if \<not> can_alloc alloc (strlen mname + 1) then Some (-1, slave\<lparr>mastername := Pnull\<rparr>)
            else if \<not> can_alloc alloc (strlen mport + 1) then Some (-1, slave\<lparr>mastername := Pfreed, masterport := Pnull\<rparr>)
            else configure_options alloc (slave\<lparr>slavetype := styp, mastername := Pheap (cstr mname),
                   masterport := Pheap (cstr mport), infifo := Pnull\<rparr>) options_argv defaults
        | _ \<Rightarrow> None
      else Some (1, slave))"

text \<open>
  The fields of the string \<open>s\<close>. The message about a bad string of an input fifo takes the string for
  \<^verbatim>\<open>%d\<close> and the status for \<^verbatim>\<open>%s\<close>, which reads memory at the address 1 or 2.
\<close>

definition slave_element_configure ::
  "allocator \<Rightarrow> slave_element_st \<Rightarrow> bytes \<Rightarrow> slave_options_st \<Rightarrow> (int \<times> slave_element_st) option" where
  "slave_element_configure alloc slave s defaults = do {
     r \<leftarrow> strsplit_create alloc (Some s) SLAVE_STRING_SEP2 STRSPLIT_FLAG_INCEMPTY;
     case r of
       None \<Rightarrow> Some (-1, slave)
     | Some ssplit \<Rightarrow>
         let argv = split_strings ssplit; argc = length argv in
         if argv = [] then None
         else
           let (status, styp) = strto_int (argv ! 0) 0 in
           if status \<noteq> 0 then Some (1, slave)
           else if styp = SLAVETYPE_INFIFO then
             if 2 \<le> argc \<and> argc \<le> SLAVE_IN_STRING_FIELDS \<and> valid_str (Some (argv ! 1)) \<noteq> 0 then
               slave_element_configure2 alloc slave styp None None (Some (argv ! 1))
                 (if argc > 2 then Some (drop 2 argv) else None) defaults
             else None
           else
             let (status, mname, mport, options_argv) =
               (if argc = 2 then (0, Some (argv ! 1), slave_masterport defaults, None)
                else if argc = 3 then (0, Some (argv ! 1), Some (argv ! 2), None)
                else if argc > 3 \<and> argc \<le> SLAVE_NET_STRING_FIELDS then
                  (0, Some (argv ! 1), if valid_str (Some (argv ! 2)) \<noteq> 0 then Some (argv ! 2) else slave_masterport defaults,
                   Some (drop 3 argv))
                else (1 :: int, None, slave_masterport defaults, None))
             in if status \<noteq> 0 \<or> valid_str mname = 0 \<or> valid_str mport = 0 then Some (1, slave)
                else slave_element_configure2 alloc slave styp mname mport None options_argv defaults
   }"

section \<open>The table\<close>

definition zero_slave :: slave_element_st where
  "zero_slave = \<lparr>slavetype = 0, mastername = Pnull, masterport = Pnull, infifo = Pnull,
     sl_options = \<lparr>infifo_mode = 0, infifo_grp = Pnull, slavestatsfile = Pnull, slave_masterport = None,
       slave_read_timeout_secs = 0, slave_read_timeout_retry = 0, slave_reopen_timeout_secs = 0, slave_so_rcvbuf = 0,
       slave_stats_logperiod_secs = 0\<rparr>,
     f_slave_thread_created = 0, slave_fd = 0, slavenbs_reader_index = 0,
     sl_stats = \<lparr>ss_connect_errors = 0, ss_ctime = 0, ss_errors_ctime = 0, ss_packets_ctime = 0, ss_bytes_ctime = 0,
       ss_rtime = 0, ss_errors_rtime = 0, ss_packets_rtime = 0, ss_bytes_rtime = 0\<rparr>\<rparr>"

abbreviation SIZEOF_SLAVE_TABLE :: nat where "SIZEOF_SLAVE_TABLE \<equiv> 16"
abbreviation SIZEOF_SLAVE_ELEMENT :: nat where "SIZEOF_SLAVE_ELEMENT \<equiv> 184"

definition slave_table_alloc :: "allocator \<Rightarrow> nat \<Rightarrow> (int \<times> slave_table_st option) option" where
  "slave_table_alloc alloc numslaves =
     (if numslaves = 0 then None
      else if \<not> can_alloc alloc SIZEOF_SLAVE_TABLE then Some (-1, None)
      else if \<not> can_alloc alloc (SIZEOF_SLAVE_ELEMENT * numslaves) then Some (-1, None)
      else Some (0, Some \<lparr>st_slave = replicate numslaves zero_slave, num_slavenbs_readers = 0\<rparr>))"

fun release_slaves :: "slave_element_st list \<Rightarrow> unit option" where
  "release_slaves [] = Some ()"
| "release_slaves (s # ss) = do { _ \<leftarrow> slave_element_release s; release_slaves ss }"

definition slave_table_destroy :: "slave_table_st \<Rightarrow> unit option" where
  "slave_table_destroy slavet = release_slaves (st_slave slavet)"

function count_slaves :: "bytes \<Rightarrow> nat \<Rightarrow> nat \<Rightarrow> nat" where
  "count_slaves buf pos n =
     (case strsep SLAVE_STRING_SEP1 buf pos of
        (buf', nextp) \<Rightarrow>
          let n = (if byte_at buf' pos \<noteq> 0 then n + 1 else n)
          in case nextp of None \<Rightarrow> n | Some p \<Rightarrow> count_slaves buf' p n)"
  by auto
termination
  by (relation "measure (\<lambda>(buf, pos, n). length buf - pos)") (auto simp: strsep_def Let_def split: if_splits)

declare count_slaves.simps [simp del]

function configure_slaves ::
  "allocator \<Rightarrow> slave_options_st \<Rightarrow> bytes \<Rightarrow> nat \<Rightarrow> nat \<Rightarrow> slave_element_st list \<Rightarrow> (int \<times> slave_element_st list) option" where
  "configure_slaves alloc defaults buf pos i slaves =
     (case strsep SLAVE_STRING_SEP1 buf pos of
        (buf', nextp) \<Rightarrow>
          if byte_at buf' pos = 0 then
            (case nextp of None \<Rightarrow> Some (0, slaves) | Some p \<Rightarrow> configure_slaves alloc defaults buf' p i slaves)
          else if i = length slaves then Some (1, slaves)
          else
            case slave_element_configure alloc (slave_element_init (slaves ! i)) (cstr (drop pos buf')) defaults of
              None \<Rightarrow> None
            | Some (status, slave) \<Rightarrow>
                let slaves = slaves[i := slave] in
                if status \<noteq> 0 then Some (status, slaves)
                else case nextp of None \<Rightarrow> Some (0, slaves) | Some p \<Rightarrow> configure_slaves alloc defaults buf' p (Suc i) slaves)"
  by auto
termination
  by (relation "measure (\<lambda>(alloc, defaults, buf, pos, i, slaves). length buf - pos)")
    (auto simp: strsep_def Let_def split: if_splits)

declare configure_slaves.simps [simp del]

definition feedmode_noaaport_enabled :: "int \<Rightarrow> int" where
  "feedmode_noaaport_enabled feedmode = (if feedmode AND FEEDMODE_NOAAPORT \<noteq> 0 then 1 else 0)"

definition feedmode_masterservers_enabled :: "int \<Rightarrow> int" where
  "feedmode_masterservers_enabled feedmode = (if feedmode AND FEEDMODE_MASTERSERVERS \<noteq> 0 then 1 else 0)"

definition feedmode_inputfifo_enabled :: "int \<Rightarrow> int" where
  "feedmode_inputfifo_enabled feedmode = (if feedmode AND FEEDMODE_INPUTFIFO \<noteq> 0 then 1 else 0)"

definition feedmode_slave_enabled :: "int \<Rightarrow> int" where
  "feedmode_slave_enabled feedmode =
     (if feedmode_inputfifo_enabled feedmode \<noteq> 0 \<or> feedmode_masterservers_enabled feedmode \<noteq> 0 then 1 else 0)"

definition feedmode_slave_nbs1_enabled :: "int \<Rightarrow> slave_table_st \<Rightarrow> int" where
  "feedmode_slave_nbs1_enabled feedmode slavet =
     (if feedmode_masterservers_enabled feedmode \<noteq> 0 \<and> num_slavenbs_readers slavet \<noteq> 0 then 1 else 0)"

text \<open>The loop that numbers the channels of the NBS1 readers, from \<open>n\<close> on.\<close>

fun number_readers :: "int \<Rightarrow> int \<Rightarrow> slave_element_st list \<Rightarrow> int \<times> slave_element_st list" where
  "number_readers feedmode n [] = (n, [])"
| "number_readers feedmode n (s # ss) =
     (if slavetype s = SLAVETYPE_NBS1 then
        let (m, ss') = number_readers feedmode (n + 1) ss
        in (m, s\<lparr>slavenbs_reader_index := n + (if feedmode_noaaport_enabled feedmode \<noteq> 0 then NPCAST_NUM_CHANNELS else 0)\<rparr> # ss')
      else let (m, ss') = number_readers feedmode n ss in (m, s # ss'))"

definition slave_table_create ::
  "allocator \<Rightarrow> int \<Rightarrow> bytes option \<Rightarrow> slave_options_st \<Rightarrow> (int \<times> slave_table_st option) option" where
  "slave_table_create alloc feedmode masterservers defaults =
     (case masterservers of
        None \<Rightarrow> Some (-1, None)
      | Some ms \<Rightarrow>
          if valid_str (Some ms) = 0 then Some (-1, None)
          else if \<not> can_alloc alloc (strlen ms + 1) then Some (-1, None)
          else
            let buf = cstr ms @ [0]; numslaves = count_slaves buf 0 0 in
            if numslaves = 0 then Some (1, None)
            else do {
              (status, slavetp) \<leftarrow> slave_table_alloc alloc numslaves;
              case slavetp of
                None \<Rightarrow> Some (status, None)
              | Some t \<Rightarrow> do {
                  (status, slaves) \<leftarrow> configure_slaves alloc defaults buf 0 0 (st_slave t);
                  if status \<noteq> 0 then do {
                    _ \<leftarrow> slave_table_destroy (t\<lparr>st_slave := slaves\<rparr>);
                    Some (status, None)
                  }
                  else
                    let (n, slaves) = number_readers feedmode 0 slaves
                    in Some (0, Some (t\<lparr>st_slave := slaves, num_slavenbs_readers := n\<rparr>))
                }
            })"

section \<open>The slave mode\<close>

record slave_globals =
  sg_feedmode :: int
  sg_masterservers :: "bytes option"
  sg_infifo :: "bytes option"
  sg_defaults :: slave_options_st
  sg_slavet :: "slave_table_st option"

definition slave_make_configuration_string :: "allocator \<Rightarrow> slave_globals \<Rightarrow> bytes option" where
  "slave_make_configuration_string alloc g =
     (if valid_str (sg_infifo g) = 0 then None
      else
        let fifo = cstr (the (sg_infifo g)); r = [51] @ SLAVE_STRING_JOIN2 @ fifo in
        if feedmode_masterservers_enabled (sg_feedmode g) \<noteq> 0 then
          if valid_str (sg_masterservers g) = 0 then None
          else
            let r = r @ SLAVE_STRING_JOIN1 @ cstr (the (sg_masterservers g))
            in if can_alloc alloc (length r + 1) then Some r else None
        else if can_alloc alloc (length r + 1) then Some r else None)"

definition init_slavet :: "allocator \<Rightarrow> slave_globals \<Rightarrow> (int \<times> slave_globals) option" where
  "init_slavet alloc g =
     (if feedmode_masterservers_enabled (sg_feedmode g) \<noteq> 0 \<and> valid_str (sg_masterservers g) = 0 then Some (-1, g)
      else if feedmode_inputfifo_enabled (sg_feedmode g) \<noteq> 0 \<and> valid_str (sg_infifo g) = 0 then Some (-1, g)
      else do {
        (status, t) \<leftarrow>
          (if feedmode_inputfifo_enabled (sg_feedmode g) \<noteq> 0 then
             (case slave_make_configuration_string alloc g of
                None \<Rightarrow> Some (-1, None)
              | Some conf_str \<Rightarrow> slave_table_create alloc (sg_feedmode g) (Some conf_str) (sg_defaults g))
           else slave_table_create alloc (sg_feedmode g) (sg_masterservers g) (sg_defaults g));
        Some (status, if status = 0 then g\<lparr>sg_slavet := t\<rparr> else g)
      })"

definition cleanup_slavet :: "slave_globals \<Rightarrow> slave_globals option" where
  "cleanup_slavet g =
     (case sg_slavet g of
        None \<Rightarrow> Some g
      | Some t \<Rightarrow> do { _ \<leftarrow> slave_table_destroy t; Some (g\<lparr>sg_slavet := None\<rparr>) })"

text \<open>The number of channels of the product control (the first part of \<^verbatim>\<open>init_pctl\<close>).\<close>

definition num_active_channels :: "int \<Rightarrow> slave_table_st \<Rightarrow> int" where
  "num_active_channels feedmode slavet =
     (let n = (if feedmode_noaaport_enabled feedmode \<noteq> 0 then NPCAST_NUM_CHANNELS else 0) in
      if feedmode_masterservers_enabled feedmode \<noteq> 0
      then (if num_slavenbs_readers slavet \<noteq> 0 then n + num_slavenbs_readers slavet else n + 1)
      else n)"

section \<open>The channels of the readers\<close>

lemma number_readers_numbers:
  assumes "number_readers feedmode n ss = (m, ss')"
  defines "b \<equiv> if feedmode_noaaport_enabled feedmode \<noteq> 0 then NPCAST_NUM_CHANNELS else 0"
  shows "map slavetype ss' = map slavetype ss \<and> n \<le> m \<and>
    map slavenbs_reader_index (filter (\<lambda>s. slavetype s = SLAVETYPE_NBS1) ss') = map (\<lambda>k. b + n + int k) [0 ..< nat (m - n)]"
  using assms(1)
proof (induction ss arbitrary: n m ss')
  case (Cons s ss)
  show ?case
  proof (cases "slavetype s = SLAVETYPE_NBS1")
    case True
    with Cons.prems obtain ss1 where r: "number_readers feedmode (n + 1) ss = (m, ss1)"
      and ss': "ss' = s\<lparr>slavenbs_reader_index := n + b\<rparr> # ss1"
      by (auto simp: b_def Let_def split: prod.splits)
    note IH = Cons.IH [OF r]
    then have "n + 1 \<le> m" by blast
    then have "nat (m - n) = Suc (nat (m - (n + 1)))" by arith
    then have "[0 ..< nat (m - n)] = 0 # map Suc [0 ..< nat (m - (n + 1))]" by (simp add: upt_conv_Cons map_Suc_upt)
    with IH True ss' show ?thesis by (simp add: add_ac comp_def)
  next
    case False
    with Cons.prems Cons.IH show ?thesis by (auto simp: Let_def split: prod.splits)
  qed
qed simp

section \<open>Splitting the configuration string\<close>

lemma count_slaves_fields:
  assumes "0 \<notin> set cs"
  shows "count_slaves (pre @ cs @ [0]) (length pre) n =
    n + length (filter (\<lambda>f. f \<noteq> []) (split_by (\<lambda>c. c \<in> set SLAVE_STRING_SEP1) cs))"
  using assms
proof (induction "length cs" arbitrary: cs pre n rule: less_induct)
  case less
  show ?case
  proof (cases rule: first_field [of cs "set SLAVE_STRING_SEP1"])
    case (1 f)
    then have S: "split_by (\<lambda>c. c \<in> set SLAVE_STRING_SEP1) cs = [cs]" by (intro split_by_field) auto
    have "strsep SLAVE_STRING_SEP1 (pre @ cs @ [0]) (length pre) = (pre @ cs @ [0], None)"
      using strsep_last less.prems 1 by simp
    then show ?thesis using byte_at_field [OF less.prems, of pre "[]"] S by (subst count_slaves.simps) simp
  next
    case (2 f c r)
    let ?pre = "pre @ f @ [0]"
    have S: "split_by (\<lambda>c. c \<in> set SLAVE_STRING_SEP1) cs = f # split_by (\<lambda>c. c \<in> set SLAVE_STRING_SEP1) r"
      unfolding 2(1) using 2 by (intro split_by_delim) auto
    have z: "0 \<notin> set f" "c \<noteq> 0" "0 \<notin> set r" using less.prems 2(1) by auto
    have "count_slaves (pre @ cs @ [0]) (length pre) n =
        count_slaves (?pre @ r @ [0]) (length ?pre) (if f \<noteq> [] then n + 1 else n)"
      using strsep_field [OF z(1) 2(2) z(2) 2(3), of pre "r @ [0]"] byte_at_field [OF z(1), of pre "r @ [0]"]
      by (subst count_slaves.simps) (simp add: 2(1))
    also have "\<dots> = (if f \<noteq> [] then n + 1 else n) +
        length (filter (\<lambda>f. f \<noteq> []) (split_by (\<lambda>c. c \<in> set SLAVE_STRING_SEP1) r))"
      using 2(1) by (intro less.hyps z(3)) simp
    finally show ?thesis using S by simp
  qed
qed

text \<open>The loop that configures the elements, as a recursion over the entries.\<close>

fun configure_entries ::
  "allocator \<Rightarrow> slave_options_st \<Rightarrow> bytes list \<Rightarrow> nat \<Rightarrow> slave_element_st list \<Rightarrow> (int \<times> slave_element_st list) option" where
  "configure_entries alloc defaults [] i slaves = Some (0, slaves)"
| "configure_entries alloc defaults (e # es) i slaves =
     (if i = length slaves then Some (1, slaves)
      else do {
        (status, slave) \<leftarrow> slave_element_configure alloc (slave_element_init (slaves ! i)) e defaults;
        if status \<noteq> 0 then Some (status, slaves[i := slave])
        else configure_entries alloc defaults es (Suc i) (slaves[i := slave])
      })"

lemma configure_slaves_entries:
  assumes "0 \<notin> set cs"
  shows "configure_slaves alloc defaults (pre @ cs @ [0]) (length pre) i slaves =
    configure_entries alloc defaults (filter (\<lambda>f. f \<noteq> []) (split_by (\<lambda>c. c \<in> set SLAVE_STRING_SEP1) cs)) i slaves"
  using assms
proof (induction "length cs" arbitrary: cs pre i slaves rule: less_induct)
  case less
  show ?case
  proof (cases rule: first_field [of cs "set SLAVE_STRING_SEP1"])
    case (1 f)
    then have S: "split_by (\<lambda>c. c \<in> set SLAVE_STRING_SEP1) cs = [cs]" by (intro split_by_field) auto
    have "strsep SLAVE_STRING_SEP1 (pre @ cs @ [0]) (length pre) = (pre @ cs @ [0], None)"
      using strsep_last less.prems 1 by simp
    then show ?thesis using byte_at_field [OF less.prems, of pre "[]"] S cstr_field [OF less.prems, of "[]"]
      by (subst configure_slaves.simps) (auto simp: Let_def split: option.splits)
  next
    case (2 f c r)
    let ?pre = "pre @ f @ [0]"
    have S: "split_by (\<lambda>c. c \<in> set SLAVE_STRING_SEP1) cs = f # split_by (\<lambda>c. c \<in> set SLAVE_STRING_SEP1) r"
      unfolding 2(1) using 2 by (intro split_by_delim) auto
    have z: "0 \<notin> set f" "c \<noteq> 0" "0 \<notin> set r" using less.prems 2(1) by auto
    have "configure_slaves alloc defaults (?pre @ r @ [0]) (length ?pre) i slaves =
      configure_entries alloc defaults (filter (\<lambda>f. f \<noteq> []) (split_by (\<lambda>c. c \<in> set SLAVE_STRING_SEP1) r)) i slaves" for i slaves
      using 2(1) by (intro less.hyps z(3)) simp
    then show ?thesis
      using S strsep_field [OF z(1) 2(2) z(2) 2(3), of pre "r @ [0]"] byte_at_field [OF z(1), of pre "r @ [0]"]
        cstr_field [OF z(1), of "r @ [0]"]
      by (subst configure_slaves.simps) (auto simp: 2(1) Let_def split: option.splits)
  qed
qed

fun join :: "byte \<Rightarrow> bytes list \<Rightarrow> bytes" where
  "join c [] = []"
| "join c [f] = f"
| "join c (f # fs) = f @ c # join c fs"

lemma split_by_join:
  "fs \<noteq> [] \<Longrightarrow> P c \<Longrightarrow> (\<And>f x. f \<in> set fs \<Longrightarrow> x \<in> set f \<Longrightarrow> \<not> P x) \<Longrightarrow> split_by P (join c fs) = fs"
proof (induction c fs rule: join.induct)
  case (2 c f)
  then show ?case by (auto intro: split_by_field)
next
  case (3 c f g fs)
  have "split_by P (join c (f # g # fs)) = f # split_by P (join c (g # fs))"
    using 3(3) 3(4) [of f] by (simp add: split_by_delim)
  moreover have "split_by P (join c (g # fs)) = g # fs"
    by (rule 3(1)) (use 3(3,4) in auto)
  ultimately show ?case by simp
qed simp

lemma set_join: "set (join c fs) \<subseteq> insert c (\<Union> (set ` set fs))"
  by (induction c fs rule: join.induct) auto

section \<open>Configurations\<close>

text \<open>
  What a configuration string describes: a master server with its optional port, or an input fifo, each
  with up to five options, some of them left empty.
\<close>

datatype slave_conf = Net int bytes "bytes option" "int option list" | Fifo bytes "int option list"

definition int_str :: "int \<Rightarrow> bytes" where
  "int_str v = (if v < 0 then 45 # dec (nat (- v)) else dec (nat v))"

definition opt_str :: "int option \<Rightarrow> bytes" where
  "opt_str v = (case v of None \<Rightarrow> [] | Some v \<Rightarrow> int_str v)"

fun conf_fields :: "slave_conf \<Rightarrow> bytes list" where
  "conf_fields (Net t host port vs) =
     [int_str t, host] @ (if port = None \<and> vs = [] then [] else [case port of None \<Rightarrow> [] | Some p \<Rightarrow> p]) @ map opt_str vs"
| "conf_fields (Fifo path vs) = [int_str 3, path] @ map opt_str vs"

definition conf_string :: "slave_conf list \<Rightarrow> bytes" where
  "conf_string cs = join 124 (map (\<lambda>c. join 44 (conf_fields c)) cs)"

definition name_ok :: "bytes \<Rightarrow> bool" where
  "name_ok s \<longleftrightarrow> s \<noteq> [] \<and> set s \<inter> ({0} \<union> set SLAVE_STRING_SEP1 \<union> set SLAVE_STRING_SEP2) = {}"

definition opts_ok :: "int option list \<Rightarrow> bool" where
  "opts_ok vs \<longleftrightarrow> length vs \<le> 5 \<and> list_all (\<lambda>v. case v of None \<Rightarrow> True | Some v \<Rightarrow> - (2 ^ 31) \<le> v \<and> v < 2 ^ 31) vs"

fun conf_ok :: "slave_conf \<Rightarrow> bool" where
  "conf_ok (Net t host port vs) \<longleftrightarrow>
     t \<in> {SLAVETYPE_NBS1, SLAVETYPE_NBS2} \<and> name_ok host \<and> (case port of None \<Rightarrow> True | Some p \<Rightarrow> name_ok p) \<and> opts_ok vs"
| "conf_ok (Fifo path vs) \<longleftrightarrow> name_ok path \<and> opts_ok vs"

definition opt_at :: "int option list \<Rightarrow> nat \<Rightarrow> int \<Rightarrow> int" where
  "opt_at vs i d = (if i < length vs then (case vs ! i of None \<Rightarrow> d | Some v \<Rightarrow> v) else d)"

fun conf_opts :: "slave_conf \<Rightarrow> int option list" where
  "conf_opts (Net t host port vs) = vs"
| "conf_opts (Fifo path vs) = vs"

text \<open>The element that a configuration asks for, with the defaults for what it leaves out.\<close>

definition conf_slave :: "slave_options_st \<Rightarrow> slave_conf \<Rightarrow> slave_element_st \<Rightarrow> bool" where
  "conf_slave defaults c s \<longleftrightarrow>
     (case c of
        Net t host port vs \<Rightarrow> slavetype s = t \<and> mastername s = Pheap host \<and>
          masterport s = Pheap (case port of None \<Rightarrow> cstr (the (slave_masterport defaults)) | Some p \<Rightarrow> p) \<and> infifo s = Pnull
      | Fifo path vs \<Rightarrow> slavetype s = SLAVETYPE_INFIFO \<and> mastername s = Pnull \<and> masterport s = Pnull \<and> infifo s = Pheap path) \<and>
     (let so = sl_options s; vs = conf_opts c in
      slave_read_timeout_secs so = opt_at vs 0 (slave_read_timeout_secs defaults) \<and>
      slave_read_timeout_retry so = opt_at vs 1 (slave_read_timeout_retry defaults) \<and>
      slave_reopen_timeout_secs so = opt_at vs 2 (slave_reopen_timeout_secs defaults) \<and>
      slave_so_rcvbuf so = opt_at vs 3 (slave_so_rcvbuf defaults) \<and>
      slave_stats_logperiod_secs so = opt_at vs 4 (slave_stats_logperiod_secs defaults)) \<and>
     slave_fd s = -1"

definition defaults_ok :: "slave_options_st \<Rightarrow> bool" where
  "defaults_ok d \<longleftrightarrow> (\<exists>g. infifo_grp d = Pheap g \<and> length g < 2 ^ 32) \<and> (\<exists>f. slavestatsfile d = Pheap f \<and> length f < 2 ^ 32) \<and>
     (\<exists>p. slave_masterport d = Some p \<and> cstr p \<noteq> [] \<and> length p < 2 ^ 32)"

lemma cstr_int_str [simp]: "cstr (int_str v) = int_str v"
  by (simp add: int_str_def cstr_def takeWhile_eq_all_conv [THEN iffD2]) (metis dec_no_zero)

lemma strto_int_str:
  assumes "- (2 ^ 31) \<le> v" "v < 2 ^ 31"
  shows "strto_int (int_str v) d = (0, v)"
proof -
  have c: "c_int v = v" using assms by (simp add: c_int_def)
  show ?thesis
  proof (cases "v < 0")
    case True
    have ds: "takeWhile isdigit (dec n) = dec n" "dropWhile isdigit (dec n) = []" for n using dec_digits by simp_all
    have "\<not> isspace 45" by (simp add: isspace_def)
    then have "scan_number (int_str v) = Some (True, nat (- v), [])"
      using True number_dec [of "nat (- v)"] by (simp add: scan_number_def int_str_def ds del: dropWhile_eq_Nil_conv)
    with True assms c show ?thesis by (simp add: strto_int_def strtol_def int_str_def)
  next
    case False
    with assms c not_sym [OF dec_nonempty [of "nat v"]] show ?thesis
      by (simp add: strto_int_def strtol_def int_str_def scan_dec)
  qed
qed

lemma strto_int_empty: "fst (strto_int [] d) = 1"
  by (simp add: strto_int_def strtol_def scan_number_def)

lemma opt_at_Cons: "opt_at (v # vs) k d = (if k = 0 then (case v of None \<Rightarrow> d | Some v \<Rightarrow> v) else opt_at vs (k - 1) d)"
  by (cases k) (simp_all add: opt_at_def)

lemma override_loop_values:
  assumes "opts_ok vs" "i + length vs \<le> length a"
  shows "\<exists>a'. override_loop (map opt_str vs) i a = Some a' \<and> length a' = length a \<and>
    (\<forall>j < length a. a' ! j = (if j < i then a ! j else opt_at vs (j - i) (a ! j)))"
  using assms
proof (induction vs arbitrary: i a)
  case (Cons v vs)
  have ok: "opts_ok vs" using Cons.prems(1) by (simp add: opts_ok_def)
  let ?a = "case v of None \<Rightarrow> a | Some w \<Rightarrow> a[i := w]"
  have "override_loop (map opt_str (v # vs)) i a = override_loop (map opt_str vs) (Suc i) ?a"
    using Cons.prems strto_int_empty [of 0]
    by (cases v) (auto simp: opt_str_def opts_ok_def strto_int_str split: prod.splits)
  moreover obtain a' where "override_loop (map opt_str vs) (Suc i) ?a = Some a'" "length a' = length ?a"
    "\<forall>j < length ?a. a' ! j = (if j < Suc i then ?a ! j else opt_at vs (j - Suc i) (?a ! j))"
    using Cons.IH [OF ok, of "Suc i" ?a] Cons.prems(2) by (cases v) auto
  ultimately show ?case
    by (cases v) (auto simp: opt_at_Cons nth_list_update less_Suc_eq)
qed (simp add: opt_at_def)

lemma configure_options_opts:
  assumes "\<forall>n. alloc n" "defaults_ok d" "opts_ok vs" "argv = (if vs = [] then None else Some (map opt_str vs))"
  shows "\<exists>so. configure_options alloc s argv d = Some (0, s\<lparr>sl_options := so\<rparr>) \<and>
      slave_read_timeout_secs so = opt_at vs 0 (slave_read_timeout_secs d) \<and>
      slave_read_timeout_retry so = opt_at vs 1 (slave_read_timeout_retry d) \<and>
      slave_reopen_timeout_secs so = opt_at vs 2 (slave_reopen_timeout_secs d) \<and>
      slave_so_rcvbuf so = opt_at vs 3 (slave_so_rcvbuf d) \<and>
      slave_stats_logperiod_secs so = opt_at vs 4 (slave_stats_logperiod_secs d)"
proof -
  obtain g f where g: "infifo_grp d = Pheap g" "length g < 2 ^ 32" "slavestatsfile d = Pheap f" "length f < 2 ^ 32"
    using assms(2) by (auto simp: defaults_ok_def)
  have "strlen x \<le> length x" for x by (simp add: strlen_def cstr_def length_takeWhile_le)
  from this [of g] this [of f] have al: "can_alloc alloc (strlen g + 1)" "can_alloc alloc (strlen f + 1)"
    using assms(1) g(2,4) by (simp_all add: can_alloc_def)
  define so where "so = (sl_options s)\<lparr>infifo_grp := Pheap (cstr g), slavestatsfile := Pheap (cstr f), infifo_mode := infifo_mode d,
         slave_read_timeout_secs := slave_read_timeout_secs d, slave_read_timeout_retry := slave_read_timeout_retry d,
         slave_reopen_timeout_secs := slave_reopen_timeout_secs d, slave_so_rcvbuf := slave_so_rcvbuf d,
         slave_stats_logperiod_secs := slave_stats_logperiod_secs d\<rparr>"
  have c: "slave_element_configure_options alloc s d = Some (0, s\<lparr>sl_options := so\<rparr>)"
    using g al by (simp add: slave_element_configure_options_def so_def)
  let ?a = "[slave_read_timeout_secs d, slave_read_timeout_retry d, slave_reopen_timeout_secs d, slave_so_rcvbuf d, slave_stats_logperiod_secs d]"
  obtain a' where a': "override_loop (map opt_str vs) 0 ?a = Some a'" "length a' = 5" "\<forall>j < 5. a' ! j = opt_at vs j (?a ! j)"
    using override_loop_values [OF assms(3), of 0 ?a] assms(3) by (auto simp: opts_ok_def)
  show ?thesis
  proof (cases "vs = []")
    case True
    then have "configure_options alloc s argv d = Some (0, s\<lparr>sl_options := so\<rparr>)"
      using c assms(4) by (simp add: configure_options_def)
    with True show ?thesis by (intro exI [of _ so]) (simp add: so_def opt_at_def)
  next
    case False
    have "a' ! 0 = opt_at vs 0 (?a ! 0)" "a' ! 1 = opt_at vs 1 (?a ! 1)" "a' ! 2 = opt_at vs 2 (?a ! 2)"
      "a' ! 3 = opt_at vs 3 (?a ! 3)" "a' ! 4 = opt_at vs 4 (?a ! 4)" using a'(3) by simp_all
    moreover have "configure_options alloc s argv d = Some (0, s\<lparr>sl_options := so\<lparr>slave_read_timeout_secs := a' ! 0,
       slave_read_timeout_retry := a' ! 1, slave_reopen_timeout_secs := a' ! 2, slave_so_rcvbuf := a' ! 3,
       slave_stats_logperiod_secs := a' ! 4\<rparr>\<rparr>)"
      using False c assms(4) a'(1) by (simp add: configure_options_def slave_element_override_options_def so_def)
    ultimately show ?thesis by (auto simp: numeral_eq_Suc)
  qed
qed

lemma int_str_set: "set (int_str v) \<inter> ({0} \<union> set SLAVE_STRING_SEP1 \<union> set SLAVE_STRING_SEP2) = {}"
  using dec_digits by (fastforce simp: int_str_def isdigit_def split: if_splits)

lemma int_str_nonempty [simp]: "int_str v \<noteq> []"
  by (simp add: int_str_def)

lemma conf_fields_set:
  assumes "conf_ok c" "f \<in> set (conf_fields c)"
  shows "set f \<inter> ({0} \<union> set SLAVE_STRING_SEP1 \<union> set SLAVE_STRING_SEP2) = {}"
proof -
  have o: "set (opt_str v) \<inter> ({0} \<union> set SLAVE_STRING_SEP1 \<union> set SLAVE_STRING_SEP2) = {}" for v
    using int_str_set by (cases v) (auto simp: opt_str_def)
  show ?thesis
  proof (cases c)
    case (Net t host port vs)
    with assms have "f = int_str t \<or> f = host \<or> f = [] \<or> port = Some f \<or> (\<exists>v. f = opt_str v)"
      by (auto split: option.splits if_splits)
    with assms(1) Net o int_str_set [of t] show ?thesis by (auto simp: name_ok_def)
  next
    case (Fifo path vs)
    with assms have "f = int_str 3 \<or> f = path \<or> (\<exists>v. f = opt_str v)" by auto
    with assms(1) Fifo o int_str_set [of 3] show ?thesis by (auto simp: name_ok_def)
  qed
qed

lemma conf_fields_nonempty [simp]: "conf_fields c \<noteq> []"
  by (cases c) auto

lemma join_conf:
  assumes "conf_ok c"
  shows "join 44 (conf_fields c) \<noteq> []" "set (join 44 (conf_fields c)) \<inter> ({0} \<union> set SLAVE_STRING_SEP1) = {}"
    "split_by (\<lambda>x. x \<in> set SLAVE_STRING_SEP2) (join 44 (conf_fields c)) = conf_fields c"
proof -
  show "join 44 (conf_fields c) \<noteq> []" by (cases c) auto
  have "\<Union> (set ` set (conf_fields c)) \<inter> ({0} \<union> set SLAVE_STRING_SEP1) = {}"
    using conf_fields_set [OF assms] by fastforce
  then show "set (join 44 (conf_fields c)) \<inter> ({0} \<union> set SLAVE_STRING_SEP1) = {}"
    using set_join [of 44 "conf_fields c"] by fastforce
  show "split_by (\<lambda>x. x \<in> set SLAVE_STRING_SEP2) (join 44 (conf_fields c)) = conf_fields c"
    using conf_fields_set [OF assms] by (intro split_by_join) fastforce+
qed

lemma name_ok_valid: "name_ok s \<Longrightarrow> valid_str (Some s) = 1 \<and> cstr s = s \<and> s \<noteq> []"
  by (cases s) (auto simp: name_ok_def valid_str_def byte_at_def cstr_def takeWhile_eq_all_conv)

lemma length_join: "length fs \<le> length (join c fs) + 1"
  by (induction c fs rule: join.induct) auto

lemma length_field: "f \<in> set fs \<Longrightarrow> length f \<le> length (join c fs)"
  by (induction c fs rule: join.induct) auto

lemma split_conf:
  assumes "\<forall>n. alloc n" "conf_ok c" "length (join 44 (conf_fields c)) < 2 ^ 32"
  shows "\<exists>st. strsplit_create alloc (Some (join 44 (conf_fields c))) SLAVE_STRING_SEP2 STRSPLIT_FLAG_INCEMPTY = Some (Some st) \<and>
    split_strings st = conf_fields c"
proof -
  let ?str = "join 44 (conf_fields c)"
  have z: "cstr ?str = ?str" using join_conf(2) [OF assms(2)] by (auto simp: cstr_def takeWhile_eq_all_conv)
  have "filter (\<lambda>f. f \<noteq> [] \<or> STRSPLIT_FLAG_INCEMPTY = STRSPLIT_FLAG_INCEMPTY) fs = fs" for fs :: "bytes list" by simp
  then show ?thesis
    using strsplit_create_fields [OF assms(1), of ?str SLAVE_STRING_SEP2 STRSPLIT_FLAG_INCEMPTY] join_conf(1,3) [OF assms(2)] assms(3) z
    by (auto simp: wanted_def)
qed

lemma can_alloc_str: "\<forall>n. alloc n \<Longrightarrow> length x < 2 ^ 32 \<Longrightarrow> can_alloc alloc (strlen x + 1)"
proof -
  assume "\<forall>n. alloc n" "length x < 2 ^ 32"
  moreover have "strlen x \<le> length x" by (simp add: strlen_def cstr_def length_takeWhile_le)
  ultimately show ?thesis by (simp add: can_alloc_def)
qed

lemma conf_field_length:
  "length (join 44 (conf_fields c)) < 2 ^ 32 \<Longrightarrow> f \<in> set (conf_fields c) \<Longrightarrow> length f < 2 ^ 32"
  using length_field [of f "conf_fields c" 44] by simp

lemma default_port_valid:
  assumes "defaults_ok d"
  obtains p where "slave_masterport d = Some p" "length p < 2 ^ 32" "valid_str (Some p) = 1"
proof -
  obtain p where p: "slave_masterport d = Some p" "cstr p \<noteq> []" "length p < 2 ^ 32" using assms by (auto simp: defaults_ok_def)
  then have "valid_str (Some p) = 1" by (cases p) (auto simp: valid_str_def byte_at_def cstr_def split: if_splits)
  with p that show ?thesis by blast
qed

lemma configure_net:
  assumes alloc: "\<forall>n. alloc n" and d: "defaults_ok d" and c: "conf_ok c" and l: "length (join 44 (conf_fields c)) < 2 ^ 32"
    and fd: "slave_fd s = -1" and Net: "c = Net t host port vs"
  shows "\<exists>s'. slave_element_configure alloc s (join 44 (conf_fields c)) d = Some (0, s') \<and> conf_slave d c s'"
proof -
  obtain st where st: "strsplit_create alloc (Some (join 44 (conf_fields c))) SLAVE_STRING_SEP2 STRSPLIT_FLAG_INCEMPTY = Some (Some st)"
      "split_strings st = conf_fields c"
    using split_conf [OF alloc c l] by blast
  obtain p where p: "slave_masterport d = Some p" "length p < 2 ^ 32" and vp: "valid_str (Some p) = 1"
    using default_port_valid [OF d] by blast
  note al = can_alloc_str [OF alloc] and len = conf_field_length [OF l]
  have t: "strto_int (int_str t) 0 = (0, t)" "t \<noteq> SLAVETYPE_INFIFO" "t = SLAVETYPE_NBS1 \<or> t = SLAVETYPE_NBS2"
    using c Net by (auto simp: strto_int_str)
  have h: "valid_str (Some host) = 1" "cstr host = host" using c Net name_ok_valid by auto
  define q where "q = (case port of None \<Rightarrow> p | Some q \<Rightarrow> q)"
  have q: "valid_str (Some q) = 1" "length q < 2 ^ 32" "cstr q = (case port of None \<Rightarrow> cstr p | Some q \<Rightarrow> q)"
    using c Net name_ok_valid p(2) vp len by (auto simp: q_def split: option.splits)
  let ?s = "s\<lparr>slavetype := t, mastername := Pheap host, masterport := Pheap (cstr q), infifo := Pnull\<rparr>"
  obtain so where so: "configure_options alloc ?s (if vs = [] then None else Some (map opt_str vs)) d = Some (0, ?s\<lparr>sl_options := so\<rparr>)"
    "slave_read_timeout_secs so = opt_at vs 0 (slave_read_timeout_secs d) \<and>
    slave_read_timeout_retry so = opt_at vs 1 (slave_read_timeout_retry d) \<and>
    slave_reopen_timeout_secs so = opt_at vs 2 (slave_reopen_timeout_secs d) \<and>
    slave_so_rcvbuf so = opt_at vs 3 (slave_so_rcvbuf d) \<and>
    slave_stats_logperiod_secs so = opt_at vs 4 (slave_stats_logperiod_secs d)"
    using configure_options_opts [OF alloc d, of vs _ ?s] c Net by auto
  have "slave_element_configure2 alloc s t (Some host) (Some q) None (if vs = [] then None else Some (map opt_str vs)) d =
      Some (0, ?s\<lparr>sl_options := so\<rparr>)"
    using t(3) h(2) so(1) al [of host] al [OF q(2)] len Net by (auto simp: slave_element_configure2_def)
  moreover have "length vs \<le> 5" using c Net by (simp add: opts_ok_def)
  ultimately have "slave_element_configure alloc s (join 44 (conf_fields c)) d = Some (0, ?s\<lparr>sl_options := so\<rparr>)"
    using st Net t h(1) q(1) p(1) vp q_def
    by (auto simp: slave_element_configure_def Let_def valid_str_def byte_at_def split: option.splits if_splits)
  moreover have "conf_slave d c (?s\<lparr>sl_options := so\<rparr>)"
    using so(2) Net q(3) p(1) fd by (auto simp: conf_slave_def split: option.splits)
  ultimately show ?thesis by blast
qed

lemma configure_fifo:
  assumes alloc: "\<forall>n. alloc n" and d: "defaults_ok d" and c: "conf_ok c" and l: "length (join 44 (conf_fields c)) < 2 ^ 32"
    and fd: "slave_fd s = -1" and Fifo: "c = Fifo path vs"
  shows "\<exists>s'. slave_element_configure alloc s (join 44 (conf_fields c)) d = Some (0, s') \<and> conf_slave d c s'"
proof -
  obtain st where st: "strsplit_create alloc (Some (join 44 (conf_fields c))) SLAVE_STRING_SEP2 STRSPLIT_FLAG_INCEMPTY = Some (Some st)"
      "split_strings st = conf_fields c"
    using split_conf [OF alloc c l] by blast
  note al = can_alloc_str [OF alloc] and len = conf_field_length [OF l]
  have h: "valid_str (Some path) = 1" "cstr path = path" using c Fifo name_ok_valid by auto
  let ?s = "s\<lparr>slavetype := SLAVETYPE_INFIFO, mastername := Pnull, masterport := Pnull, infifo := Pheap path\<rparr>"
  obtain so where so: "configure_options alloc ?s (if vs = [] then None else Some (map opt_str vs)) d = Some (0, ?s\<lparr>sl_options := so\<rparr>)"
    "slave_read_timeout_secs so = opt_at vs 0 (slave_read_timeout_secs d) \<and>
    slave_read_timeout_retry so = opt_at vs 1 (slave_read_timeout_retry d) \<and>
    slave_reopen_timeout_secs so = opt_at vs 2 (slave_reopen_timeout_secs d) \<and>
    slave_so_rcvbuf so = opt_at vs 3 (slave_so_rcvbuf d) \<and>
    slave_stats_logperiod_secs so = opt_at vs 4 (slave_stats_logperiod_secs d)"
    using configure_options_opts [OF alloc d, of vs _ ?s] c Fifo by auto
  have "slave_element_configure2 alloc s SLAVETYPE_INFIFO None None (Some path) (if vs = [] then None else Some (map opt_str vs)) d =
      Some (0, ?s\<lparr>sl_options := so\<rparr>)"
    using h(2) so(1) al [of path] len Fifo by (simp add: slave_element_configure2_def)
  moreover have "length vs \<le> 5" "strto_int (int_str 3) 0 = (0, 3)" using c Fifo by (simp_all add: opts_ok_def strto_int_str)
  ultimately have "slave_element_configure alloc s (join 44 (conf_fields c)) d = Some (0, ?s\<lparr>sl_options := so\<rparr>)"
    using st Fifo h(1) by (auto simp: slave_element_configure_def Let_def)
  moreover have "conf_slave d c (?s\<lparr>sl_options := so\<rparr>)"
    using so(2) Fifo fd by (simp add: conf_slave_def)
  ultimately show ?thesis by blast
qed

lemma configure_entries_confs:
  assumes alloc: "\<forall>n. alloc n" and d: "defaults_ok d" and cs: "\<forall>c \<in> set cs. conf_ok c \<and> length (join 44 (conf_fields c)) < 2 ^ 32"
    and i: "i + length cs = length slaves"
  shows "\<exists>ss. configure_entries alloc d (map (\<lambda>c. join 44 (conf_fields c)) cs) i slaves = Some (0, take i slaves @ ss) \<and>
    list_all2 (conf_slave d) cs ss"
  using cs i
proof (induction cs arbitrary: i slaves)
  case (Cons c cs)
  let ?s = "slave_element_init (slaves ! i)"
  have fd: "slave_fd ?s = -1" by (simp add: slave_element_init_def slave_stats_init_def)
  obtain s' where s': "slave_element_configure alloc ?s (join 44 (conf_fields c)) d = Some (0, s')" "conf_slave d c s'"
  proof (cases c)
    case (Net t host port vs)
    with configure_net [OF alloc d _ _ fd Net] Cons.prems(1) that show ?thesis by auto
  next
    case (Fifo path vs)
    with configure_fifo [OF alloc d _ _ fd Fifo] Cons.prems(1) that show ?thesis by auto
  qed
  have i: "i < length slaves" using Cons.prems(2) by simp
  obtain ss where "configure_entries alloc d (map (\<lambda>c. join 44 (conf_fields c)) cs) (Suc i) (slaves[i := s']) =
      Some (0, take (Suc i) (slaves[i := s']) @ ss)" "list_all2 (conf_slave d) cs ss"
    using Cons.IH [of "Suc i" "slaves[i := s']"] Cons.prems by auto
  with s' i show ?case by (auto simp: take_Suc_conv_app_nth)
qed simp

lemma number_readers_conf:
  "number_readers feedmode n ss = (m, ss') \<Longrightarrow> list_all2 (conf_slave d) cs ss \<Longrightarrow> list_all2 (conf_slave d) cs ss'"
proof (induction ss arbitrary: n m ss' cs)
  case (Cons s ss)
  have k: "conf_slave d c (s\<lparr>slavenbs_reader_index := k\<rparr>) = conf_slave d c s" for c k
    by (cases c) (simp_all add: conf_slave_def)
  from Cons.prems(2) obtain c cs' where c: "cs = c # cs'" "conf_slave d c s" "list_all2 (conf_slave d) cs' ss"
    by (auto simp: list_all2_Cons2)
  obtain k ss1 s1 where r: "number_readers feedmode k ss = (m, ss1)" "ss' = s1 # ss1" "s1 = s \<or> (\<exists>j. s1 = s\<lparr>slavenbs_reader_index := j\<rparr>)"
    using Cons.prems(1) by (auto simp: Let_def split: prod.splits if_splits)
  from Cons.IH [OF r(1) c(3)] r(2,3) c k show ?case by auto
qed simp

lemma conf_string_entries:
  assumes "cs \<noteq> []" "\<forall>c \<in> set cs. conf_ok c"
  shows "cstr (conf_string cs) = conf_string cs" "conf_string cs \<noteq> []"
    "filter (\<lambda>f. f \<noteq> []) (split_by (\<lambda>c. c \<in> set SLAVE_STRING_SEP1) (conf_string cs)) = map (\<lambda>c. join 44 (conf_fields c)) cs"
proof -
  let ?fs = "map (\<lambda>c. join 44 (conf_fields c)) cs"
  have f: "f \<noteq> [] \<and> set f \<inter> ({0} \<union> set SLAVE_STRING_SEP1) = {}" if "f \<in> set ?fs" for f
    using that assms(2) join_conf by (metis (no_types, lifting) imageE list.set_map)
  then have "\<Union> (set ` set ?fs) \<inter> {0} = {}" by blast
  then show "cstr (conf_string cs) = conf_string cs"
    using set_join [of 124 ?fs] by (fastforce simp: conf_string_def cstr_def takeWhile_eq_all_conv)
  obtain c cs' where c: "cs = c # cs'" using assms(1) by (cases cs) auto
  have "join 44 (conf_fields c) \<noteq> []" using f [of "join 44 (conf_fields c)"] c by simp
  with c show "conf_string cs \<noteq> []" by (cases cs') (simp_all add: conf_string_def)
  have "split_by (\<lambda>c. c \<in> set SLAVE_STRING_SEP1) (conf_string cs) = ?fs"
    unfolding conf_string_def using f assms(1) by (intro split_by_join) fastforce+
  with f show "filter (\<lambda>f. f \<noteq> []) (split_by (\<lambda>c. c \<in> set SLAVE_STRING_SEP1) (conf_string cs)) = ?fs"
    by (simp add: filter_id_conv)
qed

section \<open>Properties\<close>

text \<open>
  C35. The configuration string of any list of master servers and fifos is parsed to exactly that
  list: each element has the type, the host, the port or the path given and the options given, and the
  defaults for what is left out.
\<close>

theorem slave_table_parsed:
  assumes alloc: "\<forall>n. alloc n" and d: "defaults_ok d" and cs: "cs \<noteq> []" "\<forall>c \<in> set cs. conf_ok c"
    and len: "length (conf_string cs) < 2 ^ 32"
  shows "\<exists>t. slave_table_create alloc feedmode (Some (conf_string cs)) d = Some (0, Some t) \<and>
    list_all2 (conf_slave d) cs (st_slave t)"
proof -
  let ?str = "conf_string cs" and ?fs = "map (\<lambda>c. join 44 (conf_fields c)) cs"
  note e = conf_string_entries [OF cs]
  have z: "0 \<notin> set ?str" using e(1) by (metis cstr_def set_takeWhileD)
  have n: "count_slaves (?str @ [0]) 0 0 = length cs"
    using count_slaves_fields [OF z, of "[]" 0] e(3) by simp
  have el: "length (join 44 (conf_fields c)) < 2 ^ 32" if "c \<in> set cs" for c
    using length_field [of "join 44 (conf_fields c)" ?fs 124] that len by (simp add: conf_string_def)
  have m: "length cs \<le> length ?str + 1" using length_join [of ?fs 124] by (simp add: conf_string_def)
  let ?t = "\<lparr>st_slave = replicate (length cs) zero_slave, num_slavenbs_readers = 0\<rparr>"
  have t: "slave_table_alloc alloc (length cs) = Some (0, Some ?t)"
    using alloc m len cs(1) by (simp add: slave_table_alloc_def can_alloc_def)
  obtain ss where ss: "configure_slaves alloc d (?str @ [0]) 0 0 (st_slave ?t) = Some (0, ss)" "list_all2 (conf_slave d) cs ss"
    using configure_slaves_entries [OF z, of alloc d "[]" 0 "st_slave ?t"] e(3)
      configure_entries_confs [OF alloc d, of cs 0 "st_slave ?t"] cs(2) el by auto
  obtain k ss' where r: "number_readers feedmode 0 ss = (k, ss')" by fastforce
  have v: "valid_str (Some ?str) = 1" using z e(2) by (cases ?str) (auto simp: valid_str_def byte_at_def)
  have "slave_table_create alloc feedmode (Some ?str) d = Some (0, Some (?t\<lparr>st_slave := ss', num_slavenbs_readers := k\<rparr>))"
    using v e(1) n t ss(1) r cs(1) can_alloc_str [OF alloc len] by (simp add: slave_table_create_def Let_def)
  with number_readers_conf [OF r ss(2)] show ?thesis by auto
qed

definition example_defaults :: slave_options_st where
  "example_defaults = \<lparr>infifo_mode = 432, infifo_grp = Pheap (ascii ''noaaport''), slavestatsfile = Pheap (ascii ''slave.stats''),
     slave_masterport = Some (ascii ''2210''), slave_read_timeout_secs = 60, slave_read_timeout_retry = 5,
     slave_reopen_timeout_secs = 20, slave_so_rcvbuf = -1, slave_stats_logperiod_secs = 60\<rparr>"

definition example_confs :: "slave_conf list" where
  "example_confs = [Net SLAVETYPE_NBS1 (ascii ''a.edu'') None [], Fifo (ascii ''/in.fifo'') [Some 10, None, Some (-1)],
     Net SLAVETYPE_NBS1 (ascii ''b.edu'') (Some (ascii ''9000'')) [None, Some 2]]"

theorem slave_table_parsed_witness:
  "conf_string example_confs = ascii ''1,a.edu|3,/in.fifo,10,,-1|1,b.edu,9000,,2'' \<and>
   (\<exists>t. slave_table_create (\<lambda>n. True) FEEDMODE_MASTERSERVERS (Some (conf_string example_confs)) example_defaults = Some (0, Some t) \<and>
      list_all2 (conf_slave example_defaults) example_confs (st_slave t))"
proof -
  have s: "conf_string example_confs = ascii ''1,a.edu|3,/in.fifo,10,,-1|1,b.edu,9000,,2''" by code_simp
  have l: "length (conf_string example_confs) < 2 ^ 32" unfolding s by (simp add: ascii_def)
  have d: "defaults_ok example_defaults" by (simp add: defaults_ok_def example_defaults_def ascii_def cstr_def)
  have c: "list_all conf_ok example_confs" "example_confs \<noteq> []" by code_simp+
  from slave_table_parsed [OF _ d c(2) _ l, of "\<lambda>n. True" FEEDMODE_MASTERSERVERS] c(1) s show ?thesis by (simp add: list_all_iff)
qed

text \<open>
  C36. In a table that was created every NBS1 reader has a channel of its own in the product control: the
  readers are numbered one after the other, after the channels of the Noaaport readers when these are
  enabled, and their numbers are below the number of channels that are opened.
\<close>

theorem readers_have_channels:
  assumes "slave_table_create alloc feedmode ms d = Some (0, Some t)" "feedmode_masterservers_enabled feedmode = 1"
  shows "map slavenbs_reader_index (filter (\<lambda>s. slavetype s = SLAVETYPE_NBS1) (st_slave t)) =
      map (\<lambda>k. (if feedmode_noaaport_enabled feedmode \<noteq> 0 then NPCAST_NUM_CHANNELS else 0) + int k) [0 ..< nat (num_slavenbs_readers t)] \<and>
    (\<forall>s \<in> set (st_slave t). slavetype s = SLAVETYPE_NBS1 \<longrightarrow>
      0 \<le> slavenbs_reader_index s \<and> slavenbs_reader_index s < num_active_channels feedmode t)"
proof (intro conjI)
  obtain ss where r: "number_readers feedmode 0 ss = (num_slavenbs_readers t, st_slave t)"
    using assms(1)
    by (auto simp: slave_table_create_def Let_def bind_eq_Some_conv case_prod_beta split: option.splits if_splits)
  from number_readers_numbers [OF r] have n: "map slavenbs_reader_index (filter (\<lambda>s. slavetype s = SLAVETYPE_NBS1) (st_slave t)) =
      map (\<lambda>k. (if feedmode_noaaport_enabled feedmode \<noteq> 0 then NPCAST_NUM_CHANNELS else 0) + int k) [0 ..< nat (num_slavenbs_readers t)]"
    by simp
  then show "map slavenbs_reader_index (filter (\<lambda>s. slavetype s = SLAVETYPE_NBS1) (st_slave t)) =
      map (\<lambda>k. (if feedmode_noaaport_enabled feedmode \<noteq> 0 then NPCAST_NUM_CHANNELS else 0) + int k) [0 ..< nat (num_slavenbs_readers t)]" .
  show "\<forall>s \<in> set (st_slave t). slavetype s = SLAVETYPE_NBS1 \<longrightarrow>
      0 \<le> slavenbs_reader_index s \<and> slavenbs_reader_index s < num_active_channels feedmode t"
  proof (intro ballI impI)
    fix s assume "s \<in> set (st_slave t)" "slavetype s = SLAVETYPE_NBS1"
    then have "slavenbs_reader_index s \<in> set (map slavenbs_reader_index (filter (\<lambda>s. slavetype s = SLAVETYPE_NBS1) (st_slave t)))"
      by simp
    then show "0 \<le> slavenbs_reader_index s \<and> slavenbs_reader_index s < num_active_channels feedmode t"
      unfolding n using assms(2) by (auto simp: num_active_channels_def)
  qed
qed

theorem readers_have_channels_witness:
  "\<exists>t. slave_table_create (\<lambda>n. True) 3 (Some (conf_string example_confs)) example_defaults = Some (0, Some t) \<and>
     map slavenbs_reader_index (filter (\<lambda>s. slavetype s = SLAVETYPE_NBS1) (st_slave t)) = [9, 10]"
proof -
  have x: "case slave_table_create (\<lambda>n. True) 3 (Some (conf_string example_confs)) example_defaults of
      Some (st, Some t) \<Rightarrow> st = 0 \<and> num_slavenbs_readers t = 2 | _ \<Rightarrow> False"
    by code_simp
  then obtain t where t: "slave_table_create (\<lambda>n. True) 3 (Some (conf_string example_confs)) example_defaults = Some (0, Some t)"
    "num_slavenbs_readers t = 2"
    by (auto split: option.splits prod.splits if_splits)
  have "feedmode_masterservers_enabled 3 = 1" "feedmode_noaaport_enabled 3 = 1" by code_simp+
  with readers_have_channels [OF t(1)] t show ?thesis by (simp add: upt_conv_Cons)
qed

text \<open>
  Two errors in the configuration of a slave end the program instead of being reported: when the options
  of a master cannot be allocated, its name, freed there, is freed again with the table; and the entry
  of a fifo without a name is reported with a format that takes the status for a string.
\<close>

theorem slave_table_faults:
  "slave_table_create (\<lambda>n. n \<noteq> 12) FEEDMODE_MASTERSERVERS (Some (ascii ''1,a.edu'')) example_defaults = None \<and>
   slave_table_create (\<lambda>n. True) FEEDMODE_MASTERSERVERS (Some (ascii ''3'')) example_defaults = None"
  by code_simp

end
