(* ===== verification/Slavenbs.thy ===== *)
theory Slavenbs
  imports Nbs1 Nbspq Slavet Frame_Simulation
begin

text \<open>
  The slave readers: the blocks of files of the NBS1 protocol, \<^verbatim>\<open>src/slavenbs/framep.c\<close> and
  \<^verbatim>\<open>src/slavenbs/reader.c\<close>, the paths of the NBS2 protocol, \<^verbatim>\<open>src/slavefp/framep.c\<close> and \<^verbatim>\<open>src/slavefp/reader.c\<close>,
  and the connection to the master in \<^verbatim>\<open>src/slave_net.c\<close>.

  The globals are those of \<open>Framep\<close>; the option that rejects duplicates and the file system, which is only
  looked at, are the record \<open>slavenbs_env\<close>. \<^const>\<open>None\<close> is a failed assertion or an access outside an array.
\<close>

record 'f slavenbs_env =
  sn_reject_duplicates :: int
  sn_fs :: "'f fs_calls"
  sn_files :: 'f

section \<open>Names\<close>

definition cvt_to_uc :: "bytes \<Rightarrow> bytes" where
  "cvt_to_uc s = map toupper s"

text \<open>A string cut at the first occurrence of a character.\<close>

definition cut_at :: "byte \<Rightarrow> bytes \<Rightarrow> (bytes \<times> bytes) option" where
  "cut_at c s = (if c \<in> set s then Some (takeWhile (\<lambda>b. b \<noteq> c) s, tl (dropWhile (\<lambda>b. b \<noteq> c) s)) else None)"

abbreviation FNAME_WMOID_SEP_CHAR :: byte where "FNAME_WMOID_SEP_CHAR \<equiv> 95"
abbreviation FNAME_AWIPS_SEP_CHAR :: byte where "FNAME_AWIPS_SEP_CHAR \<equiv> 45"
abbreviation FNAME_NOTAWIPS_SEP_CHAR :: byte where "FNAME_NOTAWIPS_SEP_CHAR \<equiv> 43"
abbreviation FNAME_FSEQKEY_SEPCHAR :: byte where "FNAME_FSEQKEY_SEPCHAR \<equiv> 46"

text \<open>The part of the name after the station: the identifier and the code after its separator.\<close>

definition split_wmo_id :: "bytes \<Rightarrow> wmo_header \<Rightarrow> int \<times> wmo_header" where
  "split_wmo_id p1 w =
     (case cut_at FNAME_AWIPS_SEP_CHAR p1 of
        Some (wid, p1) \<Rightarrow>
          if length wid > WMO_ID_SIZE then (1, w)
          else let w = w\<lparr>wmo_id := wid\<rparr> in
            if length p1 > WMO_AWIPS_SIZE then (1, w) else (0, w\<lparr>wmo_awips := p1\<rparr>)
      | None \<Rightarrow>
          (case cut_at FNAME_NOTAWIPS_SEP_CHAR p1 of
             Some (wid, p1) \<Rightarrow>
               if length wid > WMO_ID_SIZE then (1, w)
               else let w = w\<lparr>wmo_id := wid\<rparr> in
                 if length p1 > WMO_NOTAWIPS_SIZE then (1, w) else (0, w\<lparr>wmo_notawips := p1\<rparr>)
           | None \<Rightarrow> if length p1 > WMO_ID_SIZE then (1, w) else (0, w\<lparr>wmo_id := p1\<rparr>)))"

definition split_fbasename :: "bytes \<Rightarrow> pctl_element_st \<Rightarrow> int \<times> pctl_element_st" where
  "split_fbasename spooldir pce =
     (if length (fbasename pce) > FBASENAME_SIZE then (1, pce)
      else
        case cut_at FNAME_FSEQKEY_SEPCHAR (fbasename pce) of
          None \<Rightarrow> (1, pce)
        | Some (p1, _) \<Rightarrow>
            if length p1 > FNAME_SIZE then (1, pce)
            else
              let w = (pce_wmo pce)\<lparr>wmo_time := [], wmo_awips := [], wmo_notawips := []\<rparr>;
                  pce = pce\<lparr>fname := p1, pce_wmo := w\<rparr>
              in
              case cut_at FNAME_WMOID_SEP_CHAR p1 of
                None \<Rightarrow> (1, pce)
              | Some (station, p1) \<Rightarrow>
                  if length station > WMO_STATION_SIZE then (1, pce)
                  else
                    let (status, w) = split_wmo_id p1 (w\<lparr>wmo_station := station\<rparr>);
                        pce = pce\<lparr>pce_wmo := w\<rparr>
                    in
                    if status \<noteq> 0 then (status, pce)
                    else
                      let s = spooldir @ ascii ''/'' @ wmo_station w @ ascii ''/'' @ fbasename pce;
                          pce = pce\<lparr>fpath := take (nat (fpath_size pce - 1)) s\<rparr>
                      in
                      if int (length s) \<ge> fpath_size pce then (1, pce)
                      else (0, pce\<lparr>pce_wmo := w\<lparr>wmo_station := cvt_to_uc (wmo_station w), wmo_id := cvt_to_uc (wmo_id w),
                              wmo_awips := cvt_to_uc (wmo_awips w), wmo_notawips := cvt_to_uc (wmo_notawips w)\<rparr>\<rparr>))"

section \<open>The blocks of a file\<close>

definition init_nbs_pce ::
  "('q, 'b) nbsp_env \<Rightarrow> timespec \<Rightarrow> nbs1_packet_st \<Rightarrow> pctl_element_st \<Rightarrow> pctl_element_st" where
  "init_nbs_pce env now nbs pce =
     (let pce = pce\<lparr>f_complete := 0, num_fragments := n1_num_blocks nbs, recv_fragments := 0,
            seq_number := n1_seq_number nbs, orig_seq_number := 0, pce_sbn_datstream := 0,
            pce_product_type := n1_product_type nbs, pce_product_category := n1_product_category nbs,
            pce_product_code := n1_product_code nbs, pce_np_channel_index := n1_np_channel_index nbs,
            pce_ts := now, save_format := env_spoolsavefmt env, saveunz_flag := 0, rtxdb_flag := 0\<rparr>;
          estimate = size_add 0 (c_int (int NBS1_PACKET_MAXSIZE * num_fragments pce));
          minsize = size_add 0 (env_memfile_minsize env);
          estimate = (if estimate < minsize then minsize else estimate)
      in pce\<lparr>pce_mf := snd (adjust_memfile_size (env_alloc env) (pce_mf pce) estimate),
             pce_ctrlhdr := [], pce_ctrlhdr_size := 0, fbasename := take FBASENAME_SIZE (cstr (n1_fbasename nbs))\<rparr>)"

text \<open>
  Naming the product and the filters: 0 to receive it, 1 when it is rejected or a duplicate, 2 when
  the name is bad; the statistics are changed by a rejection.
\<close>

definition name_nbs_pce ::
  "('q, 'b) nbsp_env \<Rightarrow> 'f slavenbs_env \<Rightarrow> nbs1_packet_st \<Rightarrow> pctl_element_st \<Rightarrow> int \<times> bool \<times> pctl_element_st" where
  "name_nbs_pce env senv nbs pce =
     (let (status, pce) = split_fbasename (env_spooldir env) pce in
      if status \<noteq> 0 then (2, False, pce)
      else if env_np_regex_match env (fname pce) = 1 then (1, True, pce)
      else if sn_reject_duplicates senv = 1 \<and> file_exists (sn_fs senv) (fpath pce) (sn_files senv) = 0 then (1, False, pce)
      else if n1_f_zip nbs \<noteq> 0 \<and> env_savez_regex_match env (fname pce) = 1 then (0, False, pce\<lparr>saveunz_flag := 1\<rparr>)
      else (0, False, pce))"

definition estart_activepce ::
  "('q, 'b) nbsp_env \<Rightarrow> 'f slavenbs_env \<Rightarrow> nbs1_packet_st \<Rightarrow> ('q, 'b) globals_st \<Rightarrow> (int \<times> ('q, 'b) globals_st) option" where
  "estart_activepce env senv nbs g =
     (let i = n1_reader_index nbs in
      if n1_block_number nbs \<noteq> 1 then None
      else do {
        g \<leftarrow> reclaim_activepce env i (upd_stats update_stats_products_transmitted g);
        now \<leftarrow> env_clock env (g_readings g);
        let g = g\<lparr>g_readings := Suc (g_readings g)\<rparr>;
        let (status, rejected, pce) = name_nbs_pce env senv nbs (init_nbs_pce env now nbs (active (g_pctl g) i));
        let g = g\<lparr>g_pctl := set_active i pce (g_pctl g)\<rparr>;
        let g = (if rejected then upd_stats update_stats_products_rejected g else g);
        if status \<noteq> 0 then do {
          g \<leftarrow> g_close g i;
          Some (status, if status \<noteq> 1 then upd_stats update_stats_products_missed g else g)
        }
        else Some (status, g)
      })"

definition msave_nbs_block ::
  "('q, 'b) nbsp_env \<Rightarrow> nbs1_packet_st \<Rightarrow> ('q, 'b) globals_st \<Rightarrow> (int \<times> ('q, 'b) globals_st) option" where
  "msave_nbs_block env nbs g =
     (let i = n1_reader_index nbs; block = drop (n1_block nbs) (n1_packet nbs); n = c_int (int (n1_block_size nbs)) in do {
        r \<leftarrow> get_pctl_activepce (g_pctl g) i (n1_seq_number nbs);
        case r of
          None \<Rightarrow> Some (1, g)
        | Some pce \<Rightarrow> do {
            (st, mf) \<leftarrow>
              (if saveunz_flag pce = 0 then write_memfile (env_alloc env) (pce_mf pce) block n
               else write_memframe (env_alloc env) (pce_mf pce) block n (n1_f_zip nbs));
            Some (if st < 0 then -1 else 0, g\<lparr>g_pctl := set_active i (pce\<lparr>pce_mf := mf\<rparr>) (g_pctl g)\<rparr>)
          }
      })"

definition eupdate_activepce ::
  "('q, 'b) nbsp_env \<Rightarrow> nbs1_packet_st \<Rightarrow> ('q, 'b) globals_st \<Rightarrow> (int \<times> ('q, 'b) globals_st) option" where
  "eupdate_activepce env nbs g =
     (let i = n1_reader_index nbs in do {
        (status, pctl) \<leftarrow> update_activepce_framecounter (g_pctl g) i (n1_seq_number nbs) (n1_block_number nbs - 1);
        let g = g\<lparr>g_pctl := pctl\<rparr>;
        if status = 1 then Some (1, g)
        else do {
          (status, g) \<leftarrow> (if status = 0 then msave_nbs_block env nbs g else Some (status, g));
          if status \<noteq> 0 then do {
            g \<leftarrow> g_close (upd_stats update_stats_products_missed g) i;
            Some (status, g)
          }
          else Some (status, g)
        }
      })"

definition eend_activepce ::
  "('q, 'b) nbsp_env \<Rightarrow> 'f slavenbs_env \<Rightarrow> nbs1_packet_st \<Rightarrow> ('q, 'b) globals_st \<Rightarrow> (int \<times> ('q, 'b) globals_st) option" where
  "eend_activepce env senv nbs g =
     (let i = n1_reader_index nbs in do {
        (status, pctl) \<leftarrow> complete_activepce (g_pctl g) i (n1_seq_number nbs);
        let g = g\<lparr>g_pctl := pctl\<rparr>;
        (status, g) \<leftarrow>
          (if status = 1 \<or> status = 2 then Some (status, g)
           else do {
             r \<leftarrow> get_pctl_activepce (g_pctl g) i (n1_seq_number nbs);
             pce \<leftarrow> r;
             if file_exists (sn_fs senv) (fpath pce) (sn_files senv) = 0 then Some (status, g)
             else do {
               (st, g) \<leftarrow> g_send env (upd_stats update_stats_products_completed g) i;
               Some (if st \<noteq> 0 then -1 else status, g)
             }
           });
        g \<leftarrow> g_close g i;
        Some (status, g)
      })"

definition slavenbsproc ::
  "('q, 'b) nbsp_env \<Rightarrow> 'f slavenbs_env \<Rightarrow> nbs1_packet_st \<Rightarrow> ('q, 'b) globals_st \<Rightarrow> (int \<times> ('q, 'b) globals_st) option" where
  "slavenbsproc env senv nbs g =
     (let g = upd_stats (update_stats_frames_received (of_nat (n1_packet_size nbs))) g in do {
        (status, g) \<leftarrow> (if n1_block_number nbs = 1 then estart_activepce env senv nbs g else Some (0, g));
        (status, g) \<leftarrow> (if status = 0 then eupdate_activepce env nbs g else Some (status, g));
        if status = 0 \<and> n1_block_number nbs = n1_num_blocks nbs then eend_activepce env senv nbs g
        else Some (status, g)
      })"

section \<open>The readers\<close>

text \<open>
  What the reader of a slave uses of the system: the connection of a descriptor, the times and the
  file of the statistics, and the memory of the packet, a local variable that is not initialised.
\<close>

record 's reader_env =
  rd_os :: "int \<Rightarrow> 's os"
  rd_now :: int
  rd_now2 :: int
  rd_fopen_ok :: bool
  rd_nbs :: nbs1_packet_st

definition report_packet :: "'s reader_env \<Rightarrow> nat \<Rightarrow> slave_element_st \<Rightarrow> slave_element_st" where
  "report_packet renv n slave =
     snd (slave_stats_report (rd_now renv) (rd_now2 renv) (rd_fopen_ok renv) (slave_stats_update_packets n slave))"

definition slavenet_loop_nbs1 ::
  "('q, 'b) nbsp_env \<Rightarrow> 'f slavenbs_env \<Rightarrow> 's reader_env \<Rightarrow> slave_element_st \<Rightarrow> 's \<Rightarrow> ('q, 'b) globals_st \<Rightarrow>
   (int \<times> slave_element_st \<times> 's \<times> ('q, 'b) globals_st) option" where
  "slavenet_loop_nbs1 env senv renv slave s g = do {
     (status, nbs, s) \<leftarrow> recv_nbs_packet (rd_os renv (slave_fd slave)) (rd_nbs renv)
        (word_of_int (slave_read_timeout_secs (sl_options slave))) (slave_read_timeout_retry (sl_options slave)) s;
     let nbs = nbs\<lparr>n1_reader_index := slavenbs_reader_index slave\<rparr>;
     if status \<noteq> 0 then Some (1, slave_stats_update_connect_errors slave, s, g)
     else do {
       (status, g) \<leftarrow> slavenbsproc env senv nbs g;
       Some (if status = -1 \<or> status = 1 then (2, slave_stats_update_errors slave, s, g)
             else (0, if status = 0 then report_packet renv (n1_packet_size nbs) slave else slave, s, g))
     }
   }"

text \<open>The path of a file that the master announces goes to the queues of the filters and of the server.\<close>

definition slavefpproc ::
  "'q qdb_calls \<Rightarrow> int \<Rightarrow> (bytes \<Rightarrow> int) \<Rightarrow> (bytes \<Rightarrow> int) \<Rightarrow> packet_info_st \<Rightarrow> 'q nbspq_globals \<Rightarrow> (int \<times> 'q nbspq_globals) option" where
  "slavefpproc bdb lock filterq serverq pi g = do {
     p \<leftarrow> packet pi;
     let name = cstr (drop (pk_fname pi) p);
     (status1, g) \<leftarrow> (if filterq name = 0 then e_nbspq_snd_filter bdb lock g p (packet_size pi) else Some (0, g));
     (status2, g) \<leftarrow> (if serverq name = 0 then e_nbspq_snd_server bdb lock g p (packet_size pi) else Some (0, g));
     Some (if status1 = 0 then status2 else status1, g)
   }"

definition slavenet_loop_nbs2 ::
  "'q qdb_calls \<Rightarrow> int \<Rightarrow> (bytes \<Rightarrow> int) \<Rightarrow> (bytes \<Rightarrow> int) \<Rightarrow> 's reader_env \<Rightarrow> slave_element_st \<Rightarrow> packet_info_st \<Rightarrow> 's \<Rightarrow>
   'q nbspq_globals \<Rightarrow> (int \<times> slave_element_st \<times> packet_info_st \<times> 's \<times> 'q nbspq_globals) option" where
  "slavenet_loop_nbs2 bdb lock filterq serverq renv slave pi s g = do {
     (status, pi, s) \<leftarrow> recv_fp_packet (rd_os renv (slave_fd slave)) pi
        (word_of_int (slave_read_timeout_secs (sl_options slave))) (slave_read_timeout_retry (sl_options slave)) s;
     if status \<noteq> 0 then Some (1, slave_stats_update_connect_errors slave, pi, s, g)
     else do {
       (status, g) \<leftarrow> slavefpproc bdb lock filterq serverq pi g;
       Some (if status \<noteq> 0 then (2, slave_stats_update_errors slave, pi, s, g)
             else (0, report_packet renv (packet_size pi) slave, pi, s, g))
     }
   }"

section \<open>The connection to the master\<close>

record 's net_calls =
  nc_connect :: "bytes \<Rightarrow> bytes \<Rightarrow> 's \<Rightarrow> int \<times> 's" \<comment> \<open>a descriptor or -1\<close>
  nc_close :: "int \<Rightarrow> 's \<Rightarrow> int \<times> 's"

definition slavenet_open :: "'s net_calls \<Rightarrow> 's reader_env \<Rightarrow> slave_element_st \<Rightarrow> 's \<Rightarrow> (int \<times> slave_element_st \<times> 's) option" where
  "slavenet_open nc renv slave s =
     (if mastername slave = Pnull \<or> masterport slave = Pnull then Some (2, slave, s)
      else do {
        mname \<leftarrow> deref (mastername slave);
        mport \<leftarrow> deref (masterport slave);
        if valid_str (Some mname) = 0 \<or> valid_str (Some mport) = 0 then Some (2, slave, s)
        else if slavetype slave \<noteq> SLAVETYPE_NBS1 \<and> slavetype slave \<noteq> SLAVETYPE_NBS2 then Some (2, slave, s)
        else
          let nbs_str = (if slavetype slave = SLAVETYPE_NBS1 then ascii ''NBS1'' else ascii ''NBS2'');
              (fd, s) = nc_connect nc mname mport s;
              slave = slave\<lparr>slave_fd := fd\<rparr>
          in
          if fd = -1 then Some (-1, slave, s)
          else
            let (n, s) = writen (rd_os renv fd) nbs_str (length nbs_str)
                  (word_of_int (slave_read_timeout_secs (sl_options slave))) 0 s;
                status = (if n = -1 then -1 else if n \<noteq> int (length nbs_str) then 1 else 0)
            in
            if status \<noteq> 0 then Some (status, slave\<lparr>slave_fd := -1\<rparr>, snd (nc_close nc fd s)) else Some (0, slave, s)
      })"

definition slavenet_close :: "'s net_calls \<Rightarrow> slave_element_st \<Rightarrow> 's \<Rightarrow> int \<times> slave_element_st \<times> 's" where
  "slavenet_close nc slave s =
     (if slave_fd slave = -1 then (0, slave, s)
      else
        let (status, s) = nc_close nc (slave_fd slave) s
        in (status, if status = 0 then slave\<lparr>slave_fd := -1\<rparr> else slave, s))"

definition slavenet_reopen :: "'s net_calls \<Rightarrow> 's reader_env \<Rightarrow> slave_element_st \<Rightarrow> 's \<Rightarrow> (int \<times> slave_element_st \<times> 's) option" where
  "slavenet_reopen nc renv slave s = (let (_, slave, s) = slavenet_close nc slave s in slavenet_open nc renv slave s)"

text \<open>One turn of the loop of \<^verbatim>\<open>slavenet_main\<close>; \<open>loop\<close> is the reader of the kind of the slave.\<close>

definition slavenet_turn ::
  "'s net_calls \<Rightarrow> 's reader_env \<Rightarrow> (slave_element_st \<Rightarrow> 's \<Rightarrow> 'g \<Rightarrow> (int \<times> slave_element_st \<times> 's \<times> 'g) option) \<Rightarrow>
   slave_element_st \<Rightarrow> 's \<Rightarrow> 'g \<Rightarrow> (slave_element_st \<times> 's \<times> 'g) option" where
  "slavenet_turn nc renv loop slave s g = do {
     (slave, s) \<leftarrow>
       (if slave_fd slave = -1 then do {
          (_, slave, s) \<leftarrow> slavenet_reopen nc renv slave s;
          Some (if slave_fd slave \<noteq> -1 then slave_stats_connect (rd_now renv) slave else slave, s)
        }
        else Some (slave, s));
     if slave_fd slave = -1 then Some (slave, s, g)
     else do {
       (status, slave, s, g) \<leftarrow> loop slave s g;
       if status = 1 then (let (_, slave, s) = slavenet_close nc slave s in Some (slave, s, g)) else Some (slave, s, g)
     }
   }"

section \<open>The names of the master\<close>

text \<open>A header of capital letters and digits, with an AWIPS code or another code but not both.\<close>

definition capital :: "byte \<Rightarrow> bool" where
  "capital b \<longleftrightarrow> isupper b \<or> isdigit b"

definition wmo_plain :: "wmo_header \<Rightarrow> bool" where
  "wmo_plain w \<longleftrightarrow> wmo_valid w \<and> list_all capital (wmo_station w) \<and> list_all capital (wmo_id w) \<and>
     list_all capital (wmo_awips w) \<and> list_all capital (wmo_notawips w) \<and> (wmo_awips w = [] \<or> wmo_notawips w = [])"

lemma capital_case:
  assumes "capital b"
  shows "toupper (tolower b) = b" "tolower b \<notin> {46, 95, 45, 43, 0}"
proof -
  have u: "unat (tolower b) = (if isupper b then unat b + 32 else unat b)" by (rule unat_tolower)
  show "toupper (tolower b) = b"
  proof (cases "isupper b")
    case True
    then have "islower (tolower b)" using u by (simp add: islower_def isupper_def word_le_nat_alt)
    with True show ?thesis by (simp add: toupper_def tolower_def)
  next
    case False
    with assms have "isdigit b" by (simp add: capital_def)
    then have "\<not> islower b" by (simp add: islower_def isdigit_def word_le_nat_alt)
    with False show ?thesis by (simp add: toupper_def tolower_def)
  qed
  have "unat (tolower b) \<notin> {46, 95, 45, 43, 0}"
    using assms u by (auto simp: capital_def isupper_def isdigit_def word_le_nat_alt split: if_splits)
  then show "tolower b \<notin> {46, 95, 45, 43, 0}" by (cases "b = 0") (auto simp: tolower_def isupper_def)
qed

lemma capital_lower:
  assumes "list_all capital xs"
  shows "map toupper (map tolower xs) = xs" "set (map tolower xs) \<inter> {46, 95, 45, 43, 0} = {}"
  using assms capital_case by (induction xs) auto

lemma cut_at_append: "c \<notin> set xs \<Longrightarrow> cut_at c (xs @ c # ys) = Some (xs, ys)"
  by (simp add: cut_at_def takeWhile_append2 dropWhile_append2) (induction xs; auto)

lemma cut_at_none: "c \<notin> set xs \<Longrightarrow> cut_at c xs = None"
  by (simp add: cut_at_def)

definition name_code :: "wmo_header \<Rightarrow> bytes" where
  "name_code w =
     (if wmo_awips w \<noteq> [] then 45 # wmo_awips w else if wmo_notawips w \<noteq> [] then 43 # wmo_notawips w else [])"

lemma make_product_fname_plain:
  assumes "wmo_plain w"
  shows "make_product_fname w = Some (map tolower (wmo_station w) @ 95 # map tolower (wmo_id w) @ map tolower (name_code w))"
proof -
  have t: "tolower 95 = 95" "tolower 45 = 45" "tolower 43 = 43" by (simp_all add: tolower_def isupper_def)
  show ?thesis
    using assms t unfolding make_product_fname_def Let_def wmo_plain_def wmo_valid_def name_code_def
    by (auto simp: ascii_def)
qed

lemma split_wmo_id_plain:
  assumes "wmo_plain w" "wmo_awips v = []" "wmo_notawips v = []"
  shows "split_wmo_id (map tolower (wmo_id w) @ map tolower (name_code w)) v =
    (0, v\<lparr>wmo_id := map tolower (wmo_id w), wmo_awips := map tolower (wmo_awips w), wmo_notawips := map tolower (wmo_notawips w)\<rparr>)"
proof -
  have t: "tolower 45 = 45" "tolower 43 = 43" by (simp_all add: tolower_def isupper_def)
  have i: "set (map tolower (wmo_id w)) \<inter> {46, 95, 45, 43, 0} = {}"
    "set (map tolower (wmo_notawips w)) \<inter> {46, 95, 45, 43, 0} = {}"
    using assms(1) capital_lower(2) by (auto simp: wmo_plain_def)
  have l: "length (wmo_id w) = 6" "length (wmo_awips w) \<le> 6" "length (wmo_notawips w) \<le> 6" "wmo_awips w = [] \<or> wmo_notawips w = []"
    using assms(1) by (auto simp: wmo_plain_def wmo_valid_def)
  consider "wmo_awips w \<noteq> []" "wmo_notawips w = []" | "wmo_awips w = []" "wmo_notawips w \<noteq> []" | "wmo_awips w = []" "wmo_notawips w = []"
    using l(4) by blast
  then show ?thesis
  proof cases
    case 1
    with i(1) l t assms(2,3) show ?thesis
      by (simp add: split_wmo_id_def name_code_def cut_at_append)
  next
    case 2
    have "45 \<notin> set (map tolower (wmo_id w) @ 43 # map tolower (wmo_notawips w))" using i by auto
    from cut_at_none [OF this] 2 i(1) l t assms(2,3) show ?thesis
      by (simp add: split_wmo_id_def name_code_def cut_at_append)
  next
    case 3
    with i(1) l t assms(2,3) show ?thesis
      by (simp add: split_wmo_id_def name_code_def cut_at_none)
  qed
qed

text \<open>The base name the frame processor gives to the product \<open>q\<close> of header \<open>w\<close>.\<close>

definition master_name :: "wmo_header \<Rightarrow> u32 \<Rightarrow> bytes" where
  "master_name w q =
     map tolower (wmo_station w) @ 95 # map tolower (wmo_id w) @ map tolower (name_code w) @ 46 # wmo_time w @ 95 # dec (unat q)"

lemma master_name_fields:
  assumes "wmo_plain w"
  shows "length (master_name w q) \<le> FBASENAME_SIZE"
    "cut_at 46 (master_name w q) =
       Some (map tolower (wmo_station w) @ 95 # map tolower (wmo_id w) @ map tolower (name_code w), wmo_time w @ 95 # dec (unat q))"
    "cut_at 95 (map tolower (wmo_station w) @ 95 # map tolower (wmo_id w) @ map tolower (name_code w)) =
       Some (map tolower (wmo_station w), map tolower (wmo_id w) @ map tolower (name_code w))"
proof -
  have t: "tolower 45 = 45" "tolower 43 = 43" by (simp_all add: tolower_def isupper_def)
  have i: "set (map tolower (wmo_id w)) \<inter> {46, 95, 45, 43, 0} = {}" "set (map tolower (wmo_station w)) \<inter> {46, 95, 45, 43, 0} = {}"
    "set (map tolower (wmo_notawips w)) \<inter> {46, 95, 45, 43, 0} = {}" "set (map tolower (wmo_awips w)) \<inter> {46, 95, 45, 43, 0} = {}"
    using assms capital_lower(2) by (auto simp: wmo_plain_def)
  then have "46 \<notin> set (map tolower (wmo_station w) @ 95 # map tolower (wmo_id w) @ map tolower (name_code w))"
    using t by (auto simp: name_code_def)
  from cut_at_append [OF this] show "cut_at 46 (master_name w q) =
       Some (map tolower (wmo_station w) @ 95 # map tolower (wmo_id w) @ map tolower (name_code w), wmo_time w @ 95 # dec (unat q))"
    by (simp add: master_name_def)
  show "cut_at 95 (map tolower (wmo_station w) @ 95 # map tolower (wmo_id w) @ map tolower (name_code w)) =
       Some (map tolower (wmo_station w), map tolower (wmo_id w) @ map tolower (name_code w))"
    using i(2) by (intro cut_at_append) auto
  have "length (name_code w) \<le> 7" "length (dec (unat q)) \<le> 10"
    using assms length_dec_u32 by (auto simp: name_code_def wmo_plain_def wmo_valid_def)
  then show "length (master_name w q) \<le> FBASENAME_SIZE"
    using assms by (simp add: master_name_def wmo_plain_def wmo_valid_def)
qed

text \<open>Such a name is accepted, and everything but the time of the header is recovered from it.\<close>

lemma split_master_name:
  assumes w: "wmo_plain w" and n: "fbasename p = master_name w q" and sz: "fpath_size p = int (const_fpath_maxsize dir + 1)"
  shows "split_fbasename dir p = (0, p\<lparr>
     fname := map tolower (wmo_station w) @ 95 # map tolower (wmo_id w) @ map tolower (name_code w),
     fpath := dir @ ascii ''/'' @ map tolower (wmo_station w) @ ascii ''/'' @ master_name w q,
     pce_wmo := w\<lparr>wmo_time := []\<rparr>\<rparr>)"
proof -
  note f = master_name_fields(1,2) [OF w, of q] master_name_fields(3) [OF w]
  have l: "length (wmo_station w) = 4" "length (wmo_id w) = 6" "length (name_code w) \<le> 7"
    using w by (auto simp: name_code_def wmo_plain_def wmo_valid_def)
  have c: "map toupper (map tolower (wmo_station w)) = wmo_station w" "map toupper (map tolower (wmo_id w)) = wmo_id w"
    "map toupper (map tolower (wmo_awips w)) = wmo_awips w" "map toupper (map tolower (wmo_notawips w)) = wmo_notawips w"
    using w capital_lower(1) by (simp_all add: wmo_plain_def)
  have a: "length (ascii ''/'') = 1" by (simp add: ascii_def)
  have "length dir + 1 + 4 + 1 + length (master_name w q) < const_fpath_maxsize dir + 1"
    using f(1) by (simp add: const_fpath_maxsize_def)
  then show ?thesis
    unfolding split_fbasename_def n f(2) Let_def
    using f l a sz n c split_wmo_id_plain [OF w]
    by (auto simp: cvt_to_uc_def)
qed

section \<open>Receiving a file\<close>

text \<open>The element while the file is received, after \<open>k\<close> blocks; \<open>k\<close> may be 0.\<close>

definition nbs_pce :: "('q, 'b) nbsp_env \<Rightarrow> wmo_header \<Rightarrow> u32 \<Rightarrow> int \<Rightarrow> nat \<Rightarrow> bytes \<Rightarrow> pctl_element_st \<Rightarrow> bool" where
  "nbs_pce env w q n k d p \<longleftrightarrow>
     seq_number p = q \<and> num_fragments p = n \<and> recv_fragments p = int k \<and> saveunz_flag p = 0 \<and>
     mf_data (pce_mf p) = d \<and> fbasename p = master_name w q \<and> pce_wmo p = w\<lparr>wmo_time := []\<rparr> \<and>
     fpath p = env_spooldir env @ ascii ''/'' @ map tolower (wmo_station w) @ ascii ''/'' @ master_name w q"

text \<open>The channel \<open>i\<close> between the packets: idle before the first block, \<open>k\<close> blocks received after it.\<close>

definition nbs_stage ::
  "('q, 'b) nbsp_env \<Rightarrow> wmo_header \<Rightarrow> u32 \<Rightarrow> int \<Rightarrow> int \<Rightarrow> nat \<Rightarrow> bytes \<Rightarrow> ('q, 'b) globals_st \<Rightarrow> bool" where
  "nbs_stage env w q n i k d g \<longleftrightarrow>
     ready env g \<and> channel_ok (g_pctl g) i \<and>
     (if k = 0 then open_pce (active (g_pctl g) i) = 0 \<and> d = [] else nbs_pce env w q n k d (active (g_pctl g) i))"

text \<open>The packet \<open>nbs\<close> has block \<open>k\<close> (from 0) of \<open>n\<close> of the file \<open>q\<close>, and the channel \<open>i\<close> is the reader's.\<close>

definition nbs_block :: "wmo_header \<Rightarrow> u32 \<Rightarrow> int \<Rightarrow> int \<Rightarrow> nat \<Rightarrow> bytes \<Rightarrow> nbs1_packet_st \<Rightarrow> bool" where
  "nbs_block w q n i k b nbs \<longleftrightarrow>
     n1_seq_number nbs = q \<and> n1_num_blocks nbs = n \<and> n1_block_number nbs = int k + 1 \<and> n1_reader_index nbs = i \<and>
     n1_f_zip nbs = 0 \<and> cstr (n1_fbasename nbs) = master_name w q \<and> n1_block_size nbs = length b \<and>
     length b \<le> NBS1_BLOCK_SIZE \<and> n1_block nbs + length b \<le> length (n1_packet nbs) \<and>
     take (length b) (drop (n1_block nbs) (n1_packet nbs)) = b"

text \<open>The slave takes the file: no filter rejects its name and it is not in the spool yet.\<close>

definition nbs_accepted :: "('q, 'b) nbsp_env \<Rightarrow> 'f slavenbs_env \<Rightarrow> wmo_header \<Rightarrow> u32 \<Rightarrow> bool" where
  "nbs_accepted env senv w q \<longleftrightarrow>
     (\<forall>n. env_np_regex_match env n \<noteq> 1) \<and>
     file_exists (sn_fs senv) (env_spooldir env @ ascii ''/'' @ map tolower (wmo_station w) @ ascii ''/'' @ master_name w q)
       (sn_files senv) \<noteq> 0"

lemma reclaim_idle:
  "open_pce (active (g_pctl g) i) = 0 \<Longrightarrow> channel_ok (g_pctl g) i \<Longrightarrow> reclaim_activepce env i g = Some g"
  by (simp add: reclaim_activepce_def open_pctl_activepce_def)

lemma init_nbs_pce_fields:
  assumes "pce_ok p" "open_pce p = 0"
  shows "pce_ok (init_nbs_pce env now nbs p)" "mf_data (pce_mf (init_nbs_pce env now nbs p)) = []"
    "seq_number (init_nbs_pce env now nbs p) = n1_seq_number nbs" "num_fragments (init_nbs_pce env now nbs p) = n1_num_blocks nbs"
    "recv_fragments (init_nbs_pce env now nbs p) = 0" "saveunz_flag (init_nbs_pce env now nbs p) = 0"
    "fpath_size (init_nbs_pce env now nbs p) = fpath_size p"
    "fbasename (init_nbs_pce env now nbs p) = take FBASENAME_SIZE (cstr (n1_fbasename nbs))"
  using assms adjust_memfile_size_empty [of "pce_mf p"]
  by (simp_all add: init_nbs_pce_def Let_def pce_ok_def open_pce_def split: if_splits)

lemma ready_set:
  assumes "ready env g" "channel_ok (g_pctl g) i" "pce_ok p" "fpath_size p = fpath_size (active (g_pctl g) i)"
    "g_pctl g' = set_active i p (g_pctl g)"
  shows "ready env g'" "channel_ok (g_pctl g') i" "active (g_pctl g') i = p"
  using touches_ready [OF touches_set(1) [OF assms(2) _ assms(5,4)] assms(1)] assms by auto

lemma nbs_start:
  assumes st: "nbs_stage env w q n i 0 d g" and b: "nbs_block w q n i 0 b nbs" and w: "wmo_plain w" and acc: "nbs_accepted env senv w q"
  shows "\<exists>g'. estart_activepce env senv nbs g = Some (0, g') \<and> ready env g' \<and> channel_ok (g_pctl g') i \<and>
    pctldb (g_pctl g') = pctldb (g_pctl g) \<and> nbs_pce env w q n 0 [] (active (g_pctl g') i)"
proof -
  let ?g0 = "upd_stats update_stats_products_transmitted g"
  have s: "ready env g" "channel_ok (g_pctl g) i" "open_pce (active (g_pctl g) i) = 0"
    using st by (simp_all add: nbs_stage_def Let_def)
  have nb: "n1_seq_number nbs = q" "n1_num_blocks nbs = n" "n1_block_number nbs = 1" "n1_reader_index nbs = i"
    "n1_f_zip nbs = 0" "cstr (n1_fbasename nbs) = master_name w q"
    using b by (simp_all add: nbs_block_def)
  obtain now where now: "env_clock env (g_readings g) = Some now" using s(1) by (auto simp: ready_def)
  have ok: "pce_ok (active (g_pctl g) i)" using s(1,2) active_ok by (auto simp: ready_def)
  define p0 where "p0 = init_nbs_pce env now nbs (active (g_pctl g) i)"
  note i = init_nbs_pce_fields [OF ok s(3), of env now nbs, folded p0_def]
  have p0: "fbasename p0 = master_name w q" "fpath_size p0 = int (const_fpath_maxsize (env_spooldir env) + 1)"
    using i(7,8) nb(6) master_name_fields(1) [OF w, of q] ready_active [OF s(1,2)] by simp_all
  note sp = split_master_name [OF w p0]
  define p where "p = p0\<lparr>fname := map tolower (wmo_station w) @ 95 # map tolower (wmo_id w) @ map tolower (name_code w),
     fpath := env_spooldir env @ ascii ''/'' @ map tolower (wmo_station w) @ ascii ''/'' @ master_name w q,
     pce_wmo := w\<lparr>wmo_time := []\<rparr>\<rparr>"
  have "name_nbs_pce env senv nbs p0 = (0, False, p)"
    using acc nb(5) unfolding name_nbs_pce_def sp p_def by (auto simp: nbs_accepted_def)
  then have e: "estart_activepce env senv nbs g =
      Some (0, ?g0\<lparr>g_readings := Suc (g_readings g), g_pctl := set_active i p (g_pctl g)\<rparr>)" (is "_ = Some (0, ?g')")
    using nb s now reclaim_idle [of ?g0 i env] by (simp add: estart_activepce_def Let_def p0_def)
  have "ready env ?g'" "channel_ok (g_pctl ?g') i" "active (g_pctl ?g') i = p"
    by (rule ready_set [OF s(1,2), of p]; use i ok in \<open>simp add: p_def pce_ok_def\<close>)+
  with e i nb p0 show ?thesis by (intro exI [of _ ?g']) (simp add: p_def nbs_pce_def)
qed

lemma ready_new_stats: "ready env (g\<lparr>g_stats := x\<rparr>) = ready env g"
  by (simp add: ready_def g_ok_def)

lemma nbs_update:
  assumes r: "ready env g" "channel_ok (g_pctl g) i" and p: "nbs_pce env w q n k d (active (g_pctl g) i)"
    and b: "nbs_block w q n i k b nbs"
  shows "\<exists>st g'. eupdate_activepce env nbs g = Some (st, g') \<and> ready env g' \<and> channel_ok (g_pctl g') i \<and>
    pctldb (g_pctl g') = pctldb (g_pctl g) \<and> g_readings g' = g_readings g \<and>
    (st = 0 \<longrightarrow> nbs_pce env w q n (Suc k) (d @ b) (active (g_pctl g') i)) \<and> st \<in> {0, -1}"
proof -
  let ?p = "active (g_pctl g) i"
  let ?p1 = "?p\<lparr>recv_fragments := int k + 1\<rparr>"
  let ?g1 = "g\<lparr>g_pctl := set_active i ?p1 (g_pctl g)\<rparr>"
  have ok: "pce_ok ?p" using r active_ok by (auto simp: ready_def)
  have len: "n1_block_size nbs = length b" "length b \<le> NBS1_BLOCK_SIZE" using b by (simp_all add: nbs_block_def)
  then have il: "int_len (int (length b))" "c_int (int (length b)) = int (length b)" by (simp_all add: int_len_def c_int_def)
  define blk where "blk = drop (n1_block nbs) (n1_packet nbs)"
  have blk: "length b \<le> length blk" "take (length b) blk = b" using b by (auto simp: nbs_block_def blk_def)
  obtain st mf where wr: "write_memfile (env_alloc env) (pce_mf ?p) blk (int (length b)) = Some (st, mf)"
    and mf: "mf_inv mf" "st = 0 \<and> mf_data mf = d @ b \<or> st = -1"
    using write_memfile_appends [of "pce_mf ?p" "int (length b)" blk "env_alloc env"] ok il(1) blk p by (auto simp: pce_ok_def nbs_pce_def)
  define p2 where "p2 = ?p1\<lparr>pce_mf := mf\<rparr>"
  have u: "update_activepce_framecounter (g_pctl g) i q (int k) = Some (0, set_active i ?p1 (g_pctl g))"
    using r(2) p by (simp add: update_activepce_framecounter_def nbs_pce_def)
  let ?g2 = "g\<lparr>g_pctl := set_active i p2 (set_active i ?p1 (g_pctl g))\<rparr>"
  have ss: "set_active i p2 (set_active i ?p1 (g_pctl g)) = set_active i p2 (g_pctl g)" by (simp add: set_active_def)
  have m: "msave_nbs_block env nbs ?g1 = Some (st, ?g2)"
    using r(2) p b wr mf(2) len il
    by (auto simp: msave_nbs_block_def get_pctl_activepce_def nbs_pce_def nbs_block_def p2_def Let_def blk_def)
  have g2: "ready env ?g2" "channel_ok (g_pctl ?g2) i" "active (g_pctl ?g2) i = p2" "pctldb (g_pctl ?g2) = pctldb (g_pctl g)"
    by (rule ready_set [OF r, of p2]; use mf(1) in \<open>simp add: p2_def pce_ok_def ss [unfolded p2_def]\<close>)+
      (simp add: ss)
  have e: "eupdate_activepce env nbs g =
      (if st \<noteq> 0 then do { g \<leftarrow> g_close (upd_stats update_stats_products_missed ?g2) i; Some (st, g) } else Some (st, ?g2))"
    using u m b by (auto simp: eupdate_activepce_def nbs_block_def Let_def split: option.splits)
  show ?thesis
  proof (cases "st = 0")
    case True
    with e g2 mf p show ?thesis by (auto simp: nbs_pce_def p2_def)
  next
    case False
    let ?g3 = "upd_stats update_stats_products_missed ?g2"
    obtain g' where c: "g_close ?g3 i = Some g'" using g_close_some [of ?g3 i] g2(2) by auto
    have "ready env g'" "channel_ok (g_pctl g') i"
      using touches_ready [OF g_close_touches(1) [OF c]] touches_channel [OF g_close_touches(1) [OF c, of env]] g2
      by (auto simp: ready_new_stats)
    moreover have "pctldb (g_pctl g') = pctldb (g_pctl g)" "g_readings g' = g_readings g"
      using c g2(4) by (auto simp: g_close_def close_pctl_activepce_def split: if_splits)
    ultimately show ?thesis using e c False mf(2) by auto
  qed
qed

text \<open>The end of the file: the element is sent to the queue and the channel is free again.\<close>

lemma nbs_end:
  assumes r: "ready env g" "channel_ok (g_pctl g) i" and p: "nbs_pce env w q n k d (active (g_pctl g) i)" and k: "int k = n"
    and b: "n1_reader_index nbs = i" "n1_seq_number nbs = q" and acc: "nbs_accepted env senv w q"
  shows "\<exists>st g'. eend_activepce env senv nbs g = Some (st, g') \<and> ready env g' \<and> channel_ok (g_pctl g') i \<and>
    open_pce (active (g_pctl g') i) = 0 \<and>
    (\<exists>p st1 e p1. nbs_pce env w q n k d p \<and> f_complete p = 1 \<and> pce_ok p \<and>
      pctldb_send_pce (env_bdb env) (env_lock env) (env_clock env (g_readings g)) (pctldb (g_pctl g)) p =
        Some (st1, e, p1, pctldb (g_pctl g')) \<and> (st = 0 \<longrightarrow> st1 \<in> {0, 1}) \<and> st \<in> {0, -1})"
proof -
  let ?p = "(active (g_pctl g) i)\<lparr>f_complete := 1\<rparr>"
  let ?g1 = "g\<lparr>g_pctl := set_active i ?p (g_pctl g)\<rparr>"
  have ok: "pce_ok (active (g_pctl g) i)" using r active_ok by (auto simp: ready_def)
  have c: "complete_activepce (g_pctl g) i q = Some (0, set_active i ?p (g_pctl g))"
    using r(2) p k by (simp add: complete_activepce_def nbs_pce_def)
  let ?g2 = "upd_stats update_stats_products_completed ?g1"
  have g1: "ready env ?g2" "channel_ok (g_pctl ?g2) i" "active (g_pctl ?g2) i = ?p"
    by (rule ready_set [OF r, of ?p]; use ok in \<open>simp add: pce_ok_def\<close>)+
  obtain st g3 where s: "g_send env ?g2 i = Some (st, g3)" using g_send_some [of env ?g2 i] g1 by auto
  then obtain st1 e p1 db where s1: "pctldb_send_pce (env_bdb env) (env_lock env) (env_clock env (g_readings g)) (pctldb (g_pctl g)) ?p =
        Some (st1, e, p1, db)" "pctldb (g_pctl g3) = db" "st = (if st1 = 1 then 0 else st1)"
    using g1 by (auto simp: g_send_def esend_pctl_activepce_def epctl_send_def split: if_splits option.splits)
  have t: "touches env i ?g2 [active (g_pctl ?g2) i] g3" by (rule g_send_touches(1) [OF s])
  have g3: "ready env g3" "channel_ok (g_pctl g3) i" using touches_ready [OF t] touches_channel [OF t] g1 by auto
  obtain g4 where cl: "g_close g3 i = Some g4" using g_close_some [OF g3(2)] by blast
  have g4: "ready env g4" "channel_ok (g_pctl g4) i" "open_pce (active (g_pctl g4) i) = 0"
    using touches_ready [OF g_close_touches(1) [OF cl] g3(1)] touches_channel [OF g_close_touches(1) [OF cl, of env]] g3 g_close_idle [OF cl]
    by auto
  have db: "pctldb (g_pctl g4) = db" using cl s1(2) by (auto simp: g_close_def close_pctl_activepce_def split: if_splits)
  have "eend_activepce env senv nbs g = Some (if st \<noteq> 0 then -1 else 0, g4)"
    using b c s cl p acc r(2) by (auto simp: eend_activepce_def Let_def get_pctl_activepce_def nbs_pce_def nbs_accepted_def)
  moreover have "nbs_pce env w q n k d ?p" "f_complete ?p = 1" "pce_ok ?p" using p ok by (simp_all add: nbs_pce_def pce_ok_def)
  ultimately show ?thesis using g4 s1 db by (auto split: if_splits)
qed

text \<open>What the queue of the products is given at the end of a file.\<close>

definition nbs_sent ::
  "('q, 'b) nbsp_env \<Rightarrow> wmo_header \<Rightarrow> u32 \<Rightarrow> int \<Rightarrow> bytes \<Rightarrow> ('q, 'b) pctldb_st \<Rightarrow> ('q, 'b) pctldb_st \<Rightarrow> bool" where
  "nbs_sent env w q n d db db' \<longleftrightarrow>
     (\<exists>p r st e p'. nbs_pce env w q n (nat n) d p \<and> f_complete p = 1 \<and> pce_ok p \<and>
       pctldb_send_pce (env_bdb env) (env_lock env) (env_clock env r) db p = Some (st, e, p', db') \<and> st \<in> {0, 1})"

lemma nbs_sentI:
  "nbs_pce env w q n k d p \<Longrightarrow> int k = n \<Longrightarrow> f_complete p = 1 \<Longrightarrow> pce_ok p \<Longrightarrow>
   pctldb_send_pce (env_bdb env) (env_lock env) (env_clock env r) db p = Some (st, e, p', db') \<Longrightarrow> st \<in> {0, 1} \<Longrightarrow>
   nbs_sent env w q n d db db'"
  unfolding nbs_sent_def by (metis nat_int)

lemma nbs_proc:
  assumes st: "nbs_stage env w q n i k d g" and b: "nbs_block w q n i k b nbs" and w: "wmo_plain w" and acc: "nbs_accepted env senv w q"
  shows "\<exists>st g'. slavenbsproc env senv nbs g = Some (st, g') \<and> st \<in> {0, -1} \<and>
    (st = 0 \<and> int (Suc k) \<noteq> n \<longrightarrow>
       nbs_stage env w q n i (Suc k) (d @ b) g' \<and> pctldb (g_pctl g') = pctldb (g_pctl g)) \<and>
    (st = 0 \<and> int (Suc k) = n \<longrightarrow>
       nbs_stage env w q n i 0 [] g' \<and> nbs_sent env w q n (d @ b) (pctldb (g_pctl g)) (pctldb (g_pctl g')))"
proof -
  let ?g0 = "upd_stats (update_stats_frames_received (of_nat (n1_packet_size nbs))) g"
  have nb: "n1_seq_number nbs = q" "n1_num_blocks nbs = n" "n1_block_number nbs = int k + 1" "n1_reader_index nbs = i"
    using b by (simp_all add: nbs_block_def)
  have st0: "nbs_stage env w q n i k d ?g0" using st by (simp add: nbs_stage_def ready_new_stats)
  have "\<exists>g1. (if n1_block_number nbs = 1 then estart_activepce env senv nbs ?g0 else Some (0, ?g0)) = Some (0, g1) \<and>
      ready env g1 \<and> channel_ok (g_pctl g1) i \<and> pctldb (g_pctl g1) = pctldb (g_pctl g) \<and>
      nbs_pce env w q n k d (active (g_pctl g1) i)"
  proof (cases "k = 0")
    case True
    moreover from st0 this have "d = []" by (simp add: nbs_stage_def)
    ultimately show ?thesis using nbs_start [of env w q n i d ?g0 b nbs senv] st0 b w acc nb by auto
  next
    case False
    then show ?thesis using st0 nb by (simp add: nbs_stage_def)
  qed
  then obtain g1 where g1: "(if n1_block_number nbs = 1 then estart_activepce env senv nbs ?g0 else Some (0, ?g0)) = Some (0, g1)"
    "ready env g1" "channel_ok (g_pctl g1) i" "pctldb (g_pctl g1) = pctldb (g_pctl g)" "nbs_pce env w q n k d (active (g_pctl g1) i)"
    by blast
  obtain st2 g2 where g2: "eupdate_activepce env nbs g1 = Some (st2, g2)" "ready env g2" "channel_ok (g_pctl g2) i"
    "pctldb (g_pctl g2) = pctldb (g_pctl g)" "st2 = 0 \<longrightarrow> nbs_pce env w q n (Suc k) (d @ b) (active (g_pctl g2) i)" "st2 \<in> {0, -1}"
    using nbs_update [OF g1(2,3,5) b] g1(4) by auto
  have e: "slavenbsproc env senv nbs g = (if st2 = 0 \<and> int (Suc k) = n then eend_activepce env senv nbs g2 else Some (st2, g2))"
    using g1(1) g2(1) nb by (simp add: slavenbsproc_def Let_def)
  show ?thesis
  proof (cases "st2 = 0 \<and> int (Suc k) = n")
    case False
    with e g2 show ?thesis by (auto simp: nbs_stage_def)
  next
    case True
    with g2 have "nbs_pce env w q n (Suc k) (d @ b) (active (g_pctl g2) i)" "int (Suc k) = n" by simp_all
    from nbs_end [OF g2(2,3) this nb(4,1) acc] obtain st3 g3 p st4 e4 p4 where
      "eend_activepce env senv nbs g2 = Some (st3, g3)" "ready env g3" "channel_ok (g_pctl g3) i" "open_pce (active (g_pctl g3) i) = 0"
      "nbs_pce env w q n (Suc k) (d @ b) p" "f_complete p = 1" "pce_ok p"
      "pctldb_send_pce (env_bdb env) (env_lock env) (env_clock env (g_readings g2)) (pctldb (g_pctl g2)) p = Some (st4, e4, p4, pctldb (g_pctl g3))"
      "st3 = 0 \<longrightarrow> st4 \<in> {0, 1}" "st3 \<in> {0, -1}"
      by blast
    moreover from this have "st3 = 0 \<longrightarrow> nbs_sent env w q n (d @ b) (pctldb (g_pctl g)) (pctldb (g_pctl g3))"
      using nbs_sentI [of env w q n "Suc k" "d @ b" p "g_readings g2" "pctldb (g_pctl g)" st4 e4 p4 "pctldb (g_pctl g3)"] True
      by (simp add: g2(4))
    ultimately show ?thesis using e True by (auto simp: nbs_stage_def)
  qed
qed

section \<open>The stream of a file\<close>

text \<open>The packets of the blocks of a file, one after the other.\<close>

fun nbs1_stream :: "nbs1_packet_st \<Rightarrow> bytes list \<Rightarrow> bytes" where
  "nbs1_stream nbs [] = []"
| "nbs1_stream nbs (b # bs) =
     (let nbs = nbs\<lparr>n1_block_number := n1_block_number nbs + 1, n1_block_size := length b\<rparr>
      in nbs1_wire nbs b @ nbs1_stream nbs bs)"

text \<open>The reader of a slave on \<open>m\<close> packets; the first that is not processed ends the loop.\<close>

fun slavenet_run ::
  "('q, 'b) nbsp_env \<Rightarrow> 'f slavenbs_env \<Rightarrow> 's reader_env \<Rightarrow> nat \<Rightarrow> slave_element_st \<Rightarrow> 's \<Rightarrow> ('q, 'b) globals_st \<Rightarrow>
   (int \<times> slave_element_st \<times> 's \<times> ('q, 'b) globals_st) option" where
  "slavenet_run env senv renv 0 slave s g = Some (0, slave, s, g)"
| "slavenet_run env senv renv (Suc m) slave s g = do {
     (st, slave, s, g) \<leftarrow> slavenet_loop_nbs1 env senv renv slave s g;
     if st \<noteq> 0 then Some (st, slave, s, g) else slavenet_run env senv renv m slave s g
   }"

lemma report_packet_keeps:
  "slave_fd (report_packet renv n slave) = slave_fd slave" "sl_options (report_packet renv n slave) = sl_options slave"
  "slavenbs_reader_index (report_packet renv n slave) = slavenbs_reader_index slave"
  by (simp_all add: report_packet_def slave_stats_report_def slave_stats_update_packets_def slave_stats_reset_def Let_def)

text \<open>The header of the packets of the file: the name, the number and the number of blocks that are sent.\<close>

definition nbs_file :: "wmo_header \<Rightarrow> u32 \<Rightarrow> int \<Rightarrow> nbs1_packet_st \<Rightarrow> bool" where
  "nbs_file w q n nbs \<longleftrightarrow>
     n1_seq_number nbs = q \<and> n1_num_blocks nbs = n \<and> n \<le> 65535 \<and> n1_f_zip nbs = 0 \<and> cstr (n1_fbasename nbs) = master_name w q"

lemma nbs_loop:
  assumes st: "nbs_stage env w q n i k d g" and w: "wmo_plain w" and acc: "nbs_accepted env senv w q"
    and f: "nbs_file w q n nbs" "n1_block_number nbs = int k + 1" "n1_block_size nbs = length b" "int k < n"
    and b: "0 < length b" "length b \<le> NBS1_BLOCK_SIZE" and i: "slavenbs_reader_index slave = i"
    and laws: "read_laws (rd_os renv (slave_fd slave)) inp" and len: "length (n1_packet (rd_nbs renv)) = NBS1_PACKET_MAXSIZE"
    and inp: "inp s = nbs1_wire nbs b @ rest"
  shows "\<exists>st slave' s' g'. slavenet_loop_nbs1 env senv renv slave s g = Some (st, slave', s', g') \<and>
    (st = 0 \<longrightarrow> inp s' = rest \<and> slave_fd slave' = slave_fd slave \<and> slavenbs_reader_index slave' = i \<and>
      (int (Suc k) \<noteq> n \<longrightarrow> nbs_stage env w q n i (Suc k) (d @ b) g' \<and> pctldb (g_pctl g') = pctldb (g_pctl g)) \<and>
      (int (Suc k) = n \<longrightarrow> nbs_stage env w q n i 0 [] g' \<and> nbs_sent env w q n (d @ b) (pctldb (g_pctl g)) (pctldb (g_pctl g'))))"
proof -
  let ?t = "word_of_int (slave_read_timeout_secs (sl_options slave))" and ?r = "slave_read_timeout_retry (sl_options slave)"
  have nl: "length (cstr (n1_fbasename nbs)) \<le> FBASENAME_SIZE" using f(1) master_name_fields(1) [OF w] by (simp add: nbs_file_def)
  obtain st1 r1 s1 where r: "recv_nbs_packet (rd_os renv (slave_fd slave)) (rd_nbs renv) ?t ?r s = Some (st1, r1, s1)"
    "st1 = 0 \<longrightarrow> inp s1 = rest \<and> received_as nbs b r1"
    by (rule recv_nbs_packet_wire [OF laws len inp f(3) b nl, of ?t ?r])
  show ?thesis
  proof (cases "st1 = 0")
    case False
    with r show ?thesis by (simp add: slavenet_loop_nbs1_def Let_def)
  next
    case True
    let ?r1 = "r1\<lparr>n1_reader_index := slavenbs_reader_index slave\<rparr>"
    have "uint (word_of_int (int k + 1) :: u16) = int k + 1" "uint (word_of_int n :: u16) = n"
      using f(1,4) by (simp_all add: nbs_file_def unsigned_of_int take_bit_int_eq_self del: of_int_add)
    then have "nbs_block w q n i k b ?r1"
      using True r(2) f b i
      by (auto simp: received_as_def nbs_file_def nbs_block_def simp del: of_int_add)
    from nbs_proc [OF st this w acc] obtain st2 g2 where p: "slavenbsproc env senv ?r1 g = Some (st2, g2)" "st2 \<in> {0, -1}"
      "st2 = 0 \<and> int (Suc k) \<noteq> n \<longrightarrow> nbs_stage env w q n i (Suc k) (d @ b) g2 \<and> pctldb (g_pctl g2) = pctldb (g_pctl g)"
      "st2 = 0 \<and> int (Suc k) = n \<longrightarrow> nbs_stage env w q n i 0 [] g2 \<and> nbs_sent env w q n (d @ b) (pctldb (g_pctl g)) (pctldb (g_pctl g2))"
      by blast
    with True r i show ?thesis by (auto simp: slavenet_loop_nbs1_def Let_def report_packet_keeps)
  qed
qed

lemma nbs_run:
  assumes "nbs_stage env w q n i k d g" "nbs_file w q n nbs" "n1_block_number nbs = int k" "int k + int (length blks) = n"
    "blks \<noteq> []" "\<forall>b \<in> set blks. 0 < length b \<and> length b \<le> NBS1_BLOCK_SIZE" "slavenbs_reader_index slave = i"
    "read_laws (rd_os renv (slave_fd slave)) inp" "inp s = nbs1_stream nbs blks @ rest"
    and w: "wmo_plain w" "nbs_accepted env senv w q" "length (n1_packet (rd_nbs renv)) = NBS1_PACKET_MAXSIZE"
  shows "\<exists>st slave' s' g'. slavenet_run env senv renv (length blks) slave s g = Some (st, slave', s', g') \<and>
    (st = 0 \<longrightarrow> inp s' = rest \<and> nbs_stage env w q n i 0 [] g' \<and>
      nbs_sent env w q n (d @ concat blks) (pctldb (g_pctl g)) (pctldb (g_pctl g')))"
  using assms(1-9)
proof (induction blks arbitrary: k d g nbs slave s)
  case (Cons b bs)
  let ?nbs = "nbs\<lparr>n1_block_number := n1_block_number nbs + 1, n1_block_size := length b\<rparr>"
  have f: "nbs_file w q n ?nbs" "n1_block_number ?nbs = int k + 1" "n1_block_size ?nbs = length b" "int k < n"
    using Cons.prems by (simp_all add: nbs_file_def)
  have b: "0 < length b" "length b \<le> NBS1_BLOCK_SIZE" using Cons.prems by simp_all
  have inp: "inp s = nbs1_wire ?nbs b @ (nbs1_stream ?nbs bs @ rest)" using Cons.prems by (simp add: Let_def)
  obtain st1 sl1 s1 g1 where l: "slavenet_loop_nbs1 env senv renv slave s g = Some (st1, sl1, s1, g1)"
    and z: "st1 = 0 \<longrightarrow> inp s1 = nbs1_stream ?nbs bs @ rest \<and> slave_fd sl1 = slave_fd slave \<and> slavenbs_reader_index sl1 = i \<and>
      (int (Suc k) \<noteq> n \<longrightarrow> nbs_stage env w q n i (Suc k) (d @ b) g1 \<and> pctldb (g_pctl g1) = pctldb (g_pctl g)) \<and>
      (int (Suc k) = n \<longrightarrow> nbs_stage env w q n i 0 [] g1 \<and> nbs_sent env w q n (d @ b) (pctldb (g_pctl g)) (pctldb (g_pctl g1)))"
    using nbs_loop [OF Cons.prems(1) w(1,2) f b Cons.prems(7,8) w(3) inp] by blast
  show ?case
  proof (cases "st1 = 0 \<and> bs \<noteq> []")
    case False
    with l z Cons.prems show ?thesis by (cases "st1 = 0") auto
  next
    case True
    then have ne: "int (Suc k) \<noteq> n" "int (Suc k) + int (length bs) = n" using Cons.prems by auto
    have "\<exists>st slave' s' g'. slavenet_run env senv renv (length bs) sl1 s1 g1 = Some (st, slave', s', g') \<and>
      (st = 0 \<longrightarrow> inp s' = rest \<and> nbs_stage env w q n i 0 [] g' \<and>
        nbs_sent env w q n ((d @ b) @ concat bs) (pctldb (g_pctl g1)) (pctldb (g_pctl g')))"
      by (rule Cons.IH [where nbs = ?nbs and k = "Suc k"]) (use True z ne f Cons.prems in \<open>simp_all\<close>)
    with l z ne True show ?thesis by auto
  qed
qed simp

text \<open>
  A file sent to the queue is a new entry of it, complete and with the data of the blocks, when the
  clock has not been set back since the last entry.
\<close>

definition clock_ahead :: "('q, 'b) nbsp_env \<Rightarrow> ('q, 'b) pctldb_st \<Rightarrow> bool" where
  "clock_ahead env db \<longleftrightarrow> (\<forall>r now. env_clock env r = Some now \<longrightarrow> tv_sec (last_tsqueue db) \<le> tv_sec now)"

lemma nbs_sent_contents:
  assumes s: "nbs_sent env w q n d db db'" and inv: "pctldb_inv (env_bdb env) Q B db" and c: "clock_ahead env db"
    and n: "db_n db \<noteq> 0xffffffff" and d: "length d < 2 ^ 32"
  obtains e where "pctldb_contents Q B db' = pctldb_contents Q B db @ [(e, Some d)]" "f_complete e = 1" "seq_number e = q"
    "fbasename e = master_name w q"
    "fpath e = env_spooldir env @ ascii ''/'' @ map tolower (wmo_station w) @ ascii ''/'' @ master_name w q"
    "pctldb_inv (env_bdb env) Q B db'"
proof -
  obtain p r st er p' where p: "nbs_pce env w q n (nat n) d p" "f_complete p = 1" "pce_ok p" "st \<in> {0, 1}"
    and sd: "pctldb_send_pce (env_bdb env) (env_lock env) (env_clock env r) db p = Some (st, er, p', db')"
    using s unfolding nbs_sent_def by blast
  then obtain now where l: "env_lock env = 0" "env_clock env r = Some now"
    by (auto simp: pctldb_send_pce_def split: if_splits option.splits)
  have laws: "queue_laws (env_bdb env) Q" "btree_laws (env_bdb env) B" using inv by (simp_all add: pctldb_inv_def)
  have ord: "tv_sec (last_tsqueue db) \<le> tv_sec now" using c l(2) by (simp add: clock_ahead_def)
  note o = pctldb_send_pce_outcome [OF laws sd [unfolded l]]
  have dn: "db_n db' \<noteq> db_n db" using o p(4) by auto
  have sz: "take (size_u32 (mf_size (pce_mf p))) (mf_p (pce_mf p)) = d"
    using p(1,3) d length_mf_data [of "pce_mf p"] by (simp add: nbs_pce_def pce_ok_def mf_data_def size_u32_def)
  have "pctldb_put (env_bdb env) (0, now, p) db = (Some (no_memfile p', Some d), db')"
    using sd l dn sz p(4) by (auto simp: pctldb_put_def)
  from pctldb_put_law [OF inv _ this] ord n
  have "pctldb_inv (env_bdb env) Q B db'" "pctldb_contents Q B db' = pctldb_contents Q B db @ [(no_memfile p', Some d)]"
    by (simp_all add: pctldb_put_pre_def)
  moreover obtain k where "p' = p\<lparr>tsqueue := k\<rparr>" using o by blast
  ultimately show ?thesis using p that [of "no_memfile p'"] by (simp add: nbs_pce_def no_memfile_def)
qed

end
