(* ===== verification/Slave_Properties.thy ===== *)
theory Slave_Properties
  imports Slavenbs Frame_Properties
begin

text \<open>
  What a slave that is fed by the blocks of a master gets: the names of the products, their files and their
  keys in the memory spool.
\<close>

text \<open>
  C37. A slave finds the names of the master again. The base name that the master gives to a product
  whose header has only capital letters and digits, received by a slave, is split to the same name and
  the same header (without the time, which the name does not tell apart from the number), and the path
  of the file below the spool directory is the same on both sides.
\<close>

theorem slave_recovers_names:
  assumes w: "wmo_plain (pce_wmo p)" and m: "make_product_fname (pce_wmo p) = Some nm"
    "make_product_fbasename (p\<lparr>fname := nm\<rparr>) = Some (0, p1)" "make_product_fpath mdir p1 = (0, p2)"
    and r: "fbasename r = fbasename p1" "fpath_size r = int (const_fpath_maxsize dir + 1)"
  shows "\<exists>r'. split_fbasename dir r = (0, r') \<and> fname r' = nm \<and> pce_wmo r' = (pce_wmo p)\<lparr>wmo_time := []\<rparr> \<and>
    drop (length dir) (fpath r') = drop (length mdir) (fpath p2) \<and> take (length dir) (fpath r') = dir"
proof -
  let ?w = "pce_wmo p" and ?q = "seq_number p"
  have nm: "nm = map tolower (wmo_station ?w) @ 95 # map tolower (wmo_id ?w) @ map tolower (name_code ?w)"
    using m(1) make_product_fname_plain [OF w] by simp
  have p1: "p1 = p\<lparr>fname := nm, fbasename := master_name ?w ?q\<rparr>"
    using m(2) by (auto simp: make_product_fbasename_def master_name_def nm ascii_def Let_def split: if_splits)
  have "fpath p2 = mdir @ ascii ''/'' @ map tolower (wmo_station ?w) @ ascii ''/'' @ master_name ?w ?q"
    using m(3) by (auto simp: make_product_fpath_def p1 Let_def split: if_splits)
  moreover note split_master_name [OF w _ r(2), of ?q]
  ultimately show ?thesis using r(1) by (simp add: p1 nm)
qed

definition example_plain :: pctl_element_st where
  "example_plain = example_idle_pce\<lparr>seq_number := 47, pce_wmo := (pce_wmo example_idle_pce)\<lparr>
     wmo_id := ascii ''SDUS52'', wmo_station := ascii ''TJSJ'', wmo_time := ascii ''121314'', wmo_awips := ascii ''N0RJUA'', wmo_notawips := []\<rparr>\<rparr>"

theorem slave_recovers_names_witness:
  "\<exists>p1 p2 r'. make_product_fbasename (example_plain\<lparr>fname := ascii ''tjsj_sdus52-n0rjua''\<rparr>) = Some (0, p1) \<and>
    make_product_fpath (env_spooldir example_env) p1 = (0, p2) \<and>
    fbasename p1 = ascii ''tjsj_sdus52-n0rjua.121314_47'' \<and>
    split_fbasename (env_spooldir example_env) (example_idle_pce\<lparr>fbasename := fbasename p1\<rparr>) = (0, r') \<and>
    fname r' = ascii ''tjsj_sdus52-n0rjua'' \<and> wmo_awips (pce_wmo r') = ascii ''N0RJUA''"
proof -
  let ?nm = "ascii ''tjsj_sdus52-n0rjua''"
  have w: "wmo_plain (pce_wmo example_plain)" by code_simp
  have m1: "make_product_fname (pce_wmo example_plain) = Some ?nm" by code_simp
  have "(case make_product_fbasename (example_plain\<lparr>fname := ?nm\<rparr>) of Some (st, p1) \<Rightarrow>
      st = 0 \<and> fbasename p1 = ascii ''tjsj_sdus52-n0rjua.121314_47'' \<and> fst (make_product_fpath (env_spooldir example_env) p1) = 0
    | None \<Rightarrow> False)" by code_simp
  then obtain p1 where m2: "make_product_fbasename (example_plain\<lparr>fname := ?nm\<rparr>) = Some (0, p1)"
    "fbasename p1 = ascii ''tjsj_sdus52-n0rjua.121314_47''" "fst (make_product_fpath (env_spooldir example_env) p1) = 0"
    by (auto split: option.splits)
  obtain p2 where m3: "make_product_fpath (env_spooldir example_env) p1 = (0, p2)" using m2(3) by (metis prod.collapse)
  have f: "fpath_size (example_idle_pce\<lparr>fbasename := fbasename p1\<rparr>) = int (const_fpath_maxsize (env_spooldir example_env) + 1)"
    by (simp add: example_env_def example_idle_pce_def const_fpath_maxsize_def ascii_def)
  have a: "wmo_awips (pce_wmo example_plain) = ascii ''N0RJUA''" by (simp add: example_plain_def)
  from slave_recovers_names [OF w m1 m2(1) m3 _ f] m2 m3 a show ?thesis by auto
qed

lemma split_wmo_id_station: "split_wmo_id p1 w = (st, w') \<Longrightarrow> wmo_station w' = wmo_station w"
  by (auto simp: split_wmo_id_def Let_def split: option.splits if_splits)

lemma split_fbasename_path:
  assumes "split_fbasename dir r = (0, r')"
  obtains station where "fpath r' = dir @ ascii ''/'' @ station @ ascii ''/'' @ fbasename r" "set station \<subseteq> set (fbasename r)"
proof -
  obtain x y where 1: "cut_at FNAME_FSEQKEY_SEPCHAR (fbasename r) = Some (x, y)"
    using assms by (auto simp: split_fbasename_def split: if_splits option.splits)
  obtain station z where 2: "cut_at FNAME_WMOID_SEP_CHAR x = Some (station, z)"
    using assms 1 by (auto simp: split_fbasename_def Let_def split: if_splits option.splits)
  obtain st w where 3: "split_wmo_id z ((pce_wmo r)\<lparr>wmo_time := [], wmo_awips := [], wmo_notawips := [], wmo_station := station\<rparr>) = (st, w)"
    by fastforce
  have "set station \<subseteq> set x" "set x \<subseteq> set (fbasename r)"
    using 1 2 by (auto simp: cut_at_def dest: set_takeWhileD split: if_splits)
  moreover have "fpath r' = dir @ ascii ''/'' @ station @ ascii ''/'' @ fbasename r"
    using assms 1 2 3 split_wmo_id_station [OF 3] by (auto simp: split_fbasename_def Let_def split: if_splits)
  ultimately show ?thesis using that by blast
qed

text \<open>
  The key of a product in the memory spool of a slave is what follows the last underscore of the base name sent by its
  master, and is not checked. For every name that the slave accepts, the assertion on the key fails exactly when
  that part has more than 10 characters.
\<close>

theorem slave_path_key:
  assumes "split_fbasename dir r = (0, r')" "0 \<notin> set dir" "0 \<notin> set (fbasename r)"
    "fbasename r = b @ FNAME_SEQNUM_SEPCHAR # k" "FNAME_SEQNUM_SEPCHAR \<notin> set k"
  shows "get_fpath_key (fpath r') = (if FKEY_SPOOLBDB_SIZE < length k then None else Some k)"
proof (rule split_fbasename_path [OF assms(1)])
  fix station assume p: "fpath r' = dir @ ascii ''/'' @ station @ ascii ''/'' @ fbasename r" "set station \<subseteq> set (fbasename r)"
  let ?d = "dir @ ascii ''/'' @ station @ ascii ''/'' @ b"
  have "0 \<notin> set (fpath r')" using p assms(2,3) by (auto simp: ascii_def)
  then have c: "cstr (fpath r') = fpath r'" by (simp add: cstr_id)
  have f: "fpath r' = ?d @ FNAME_SEQNUM_SEPCHAR # k" using p(1) assms(4) by simp
  have "takeWhile (\<lambda>x. x \<noteq> FNAME_SEQNUM_SEPCHAR) (rev (fpath r')) = rev k"
    unfolding f using assms(5) takeWhile_append2 [of "rev k" "\<lambda>x. x \<noteq> FNAME_SEQNUM_SEPCHAR"] by (auto simp: takeWhile_append)
  moreover have "cstr k = k" using assms(3,4) by (simp add: cstr_id)
  ultimately show ?thesis by (simp add: get_fpath_key_def after_last_def strlen_def c) (simp add: f)
qed

theorem slave_path_key_witness:
  "get_fpath_key (fpath (snd (split_fbasename (env_spooldir example_env)
     (example_idle_pce\<lparr>fbasename := ascii ''tjsj_sdus52.121314_12345678901''\<rparr>)))) = None"
proof -
  let ?r = "example_idle_pce\<lparr>fbasename := ascii ''tjsj_sdus52.121314_12345678901''\<rparr>"
  have "fst (split_fbasename (env_spooldir example_env) ?r) = 0" by code_simp
  then have r: "split_fbasename (env_spooldir example_env) ?r = (0, snd (split_fbasename (env_spooldir example_env) ?r))"
    by (metis prod.collapse)
  have f: "0 \<notin> set (env_spooldir example_env)" "0 \<notin> set (fbasename ?r)"
    "fbasename ?r = ascii ''tjsj_sdus52.121314'' @ FNAME_SEQNUM_SEPCHAR # ascii ''12345678901''"
    "FNAME_SEQNUM_SEPCHAR \<notin> set (ascii ''12345678901'')"
    by (simp_all add: example_env_def ascii_def)
  have "length (ascii ''12345678901'') = 11" by (simp add: ascii_def)
  with slave_path_key [OF r f] show ?thesis by simp
qed

end
