(* ===== verification/Conn.thy ===== *)
theory Conn
  imports Qdb
begin

text \<open>
  The library of connections of the network server: the statistics (\<^verbatim>\<open>libconnth/cs.c\<close>) and the queue
  (\<^verbatim>\<open>libconnth/cq.c\<close>) of a client, its element (\<^verbatim>\<open>libconnth/ce.c\<close>) and the table of the elements
  (\<^verbatim>\<open>libconnth/conn.c\<close>). The thread of a client works with a copy of its element; the copies share
  the information about the thread and the queue, which are in a heap here. Using an address that is
  not in the heap, a freed one, is a fault. The number of bytes in the statistics, a \<^verbatim>\<open>double\<close>, is exact.
\<close>

unbundle bit_operations_syntax

section \<open>Statistics\<close>

record conn_stats_st =
  cs_ctime :: int
  cs_errors_ctime :: u32
  cs_packets_ctime :: u32
  cs_bytes_ctime :: nat
  cs_rtime :: int
  cs_errors_rtime :: u32
  cs_packets_rtime :: u32
  cs_bytes_rtime :: nat

definition conn_stats_init :: "int \<Rightarrow> int \<Rightarrow> conn_stats_st" where
  "conn_stats_init now1 now2 = \<lparr>cs_ctime = now1, cs_errors_ctime = 0, cs_packets_ctime = 0, cs_bytes_ctime = 0,
     cs_rtime = now2, cs_errors_rtime = 0, cs_packets_rtime = 0, cs_bytes_rtime = 0\<rparr>"

definition conn_stats_reset :: "int \<Rightarrow> conn_stats_st \<Rightarrow> conn_stats_st" where
  "conn_stats_reset now cs = cs\<lparr>cs_rtime := now, cs_errors_rtime := 0, cs_packets_rtime := 0, cs_bytes_rtime := 0\<rparr>"

definition conn_stats_update_packets :: "nat \<Rightarrow> conn_stats_st \<Rightarrow> conn_stats_st" where
  "conn_stats_update_packets packet_size cs =
     cs\<lparr>cs_packets_rtime := cs_packets_rtime cs + 1, cs_bytes_rtime := cs_bytes_rtime cs + packet_size,
        cs_packets_ctime := cs_packets_ctime cs + 1, cs_bytes_ctime := cs_bytes_ctime cs + packet_size\<rparr>"

definition conn_stats_update_errors :: "conn_stats_st \<Rightarrow> conn_stats_st" where
  "conn_stats_update_errors cs = cs\<lparr>cs_errors_rtime := cs_errors_rtime cs + 1, cs_errors_ctime := cs_errors_ctime cs + 1\<rparr>"

definition conn_stats_get_ctime :: "conn_stats_st \<Rightarrow> int" where
  "conn_stats_get_ctime cs = cs_ctime cs"

section \<open>The queue of a client\<close>

record 'q connqueue_st =
  cq_qt :: "'q nbsp_qtable_st"
  cq_data :: "bytes option"
  cq_data_size_max :: u32
  cq_data_size :: u32

record connqueue_param_st =
  cqp_reclen :: u32
  cqp_cache_mb :: u32
  cqp_softlimit :: int
  cqp_hardlimit :: int

text \<open>What the queue uses of the system: the two allocations, the database and its mutex.\<close>

record 'q cq_calls =
  cqc_malloc :: bool
  cqc_alloc :: allocator
  cqc_bdb :: "'q qdb_calls"
  cqc_open :: "bytes option \<Rightarrow> 'q qdb_open_calls"
  cqc_mallocs :: "int \<times> int \<times> int"
  cqc_closes :: "int list"
  cqc_lock :: int

definition connqueue_open :: "'q cq_calls \<Rightarrow> connqueue_param_st \<Rightarrow> int \<Rightarrow> int \<times> 'q connqueue_st option" where
  "connqueue_open calls cqparam dberror =
     (if \<not> cqc_malloc calls then (dberror, None)
      else if \<not> can_alloc (cqc_alloc calls) (unat (cqp_reclen cqparam)) then (dberror, None)
      else
        let (dberror, qt) = nbspqt_open (cqc_bdb calls) (cqc_open calls) (cqc_mallocs calls) 1
              (cqp_softlimit cqparam) (cqp_hardlimit cqparam)
              \<lparr>qp_dbname = None, qp_has_dbenv = False, qp_reclen = cqp_reclen cqparam\<rparr> 0
        in (dberror, map_option (\<lambda>qt. \<lparr>cq_qt = qt, cq_data = Some (replicate (unat (cqp_reclen cqparam)) 0),
              cq_data_size_max = cqp_reclen cqparam, cq_data_size = 0\<rparr>) qt))"

definition connqueue_close :: "'q cq_calls \<Rightarrow> 'q connqueue_st \<Rightarrow> int \<times> int" where
  "connqueue_close calls cq = nbspqt_close (cqc_closes calls) 0"

definition connqueue_snd ::
  "'q cq_calls \<Rightarrow> 'q connqueue_st \<Rightarrow> bytes \<Rightarrow> u32 \<Rightarrow> (int \<times> int \<times> 'q connqueue_st) option" where
  "connqueue_snd calls cq data data_size = do {
     (status, dberror, qt) \<leftarrow> nbspqt_snd (cqc_bdb calls) (cqc_lock calls) (cq_qt cq) 0 data data_size 0;
     Some (status, dberror, cq\<lparr>cq_qt := qt\<rparr>)
   }"

text \<open>The status, the error, and with status 0 the data, which stay in the buffer of the queue.\<close>

definition connqueue_rcv ::
  "'q cq_calls \<Rightarrow> (int \<times> 'q nbspq_st) list \<Rightarrow> 'q connqueue_st \<Rightarrow> (int \<times> int \<times> 'q connqueue_st) option" where
  "connqueue_rcv calls waits cq = do {
     (status, dberror, data, data_size, qt) \<leftarrow>
       nbspqt_rcv (cqc_alloc calls) (cqc_bdb calls) (cqc_lock calls) waits (cq_qt cq) 0 (cq_data cq) (cq_data_size_max cq) 0;
     let cq = cq\<lparr>cq_qt := qt, cq_data := data, cq_data_size := data_size\<rparr>;
     Some (status, dberror,
       if status = 0 \<and> cq_data_size cq > cq_data_size_max cq then cq\<lparr>cq_data_size_max := cq_data_size cq\<rparr> else cq)
   }"

definition connqueue_rcv_cleanup :: "int \<Rightarrow> 'q connqueue_st \<Rightarrow> int \<Rightarrow> (int \<times> int) option" where
  "connqueue_rcv_cleanup unlock cq dberror = nbspqt_rcv_cleanup unlock (cq_qt cq) 0 dberror"

definition connqueue_n :: "'q connqueue_st \<Rightarrow> u32" where
  "connqueue_n cq = nbspqt_n (cq_qt cq) 0"

definition connqueue_test_maxhard_flag :: "'q connqueue_st \<Rightarrow> int" where
  "connqueue_test_maxhard_flag cq = nbspqt_test_qdb_status_flag (cq_qt cq) 0 QDB_FSTATUS_MAX_HARD"

definition connqueue_test_maxsoft_flag :: "'q connqueue_st \<Rightarrow> int" where
  "connqueue_test_maxsoft_flag cq = nbspqt_test_qdb_status_flag (cq_qt cq) 0 QDB_FSTATUS_MAX_SOFT"

definition connqueue_test_dberror_flag :: "'q connqueue_st \<Rightarrow> int" where
  "connqueue_test_dberror_flag cq = nbspqt_test_qdb_status_flag (cq_qt cq) 0 QDB_FSTATUS_DBERROR"

section \<open>The element of a client\<close>

record thread_info_st =
  f_thread_created :: int
  f_thread_finished :: int
  connection_status :: int
  client_fd :: int

text \<open>The objects that the copies of an element share, and the descriptors that are open.\<close>

record 'q conn_heap =
  ch_threads :: "nat \<Rightarrow> thread_info_st option"
  ch_queues :: "nat \<Rightarrow> 'q connqueue_st option"
  ch_next :: nat
  ch_open :: "int list"

abbreviation CONN_TYPE_NONE :: int where "CONN_TYPE_NONE \<equiv> 0"
abbreviation CONN_TYPE_SERVER_LOCAL :: int where "CONN_TYPE_SERVER_LOCAL \<equiv> 1"
abbreviation CONN_TYPE_SERVER_NET :: int where "CONN_TYPE_SERVER_NET \<equiv> 2"
abbreviation CONN_TYPE_CLIENT_LOCAL :: int where "CONN_TYPE_CLIENT_LOCAL \<equiv> 3"
abbreviation CONN_TYPE_CLIENT_NET :: int where "CONN_TYPE_CLIENT_NET \<equiv> 4"

record ('a, 'f) conn_element_st =
  ce_cs :: conn_stats_st
  ce_type :: int
  ce_pid :: int
  ce_ip :: "bytes option"
  ce_name :: "bytes option"
  ce_fd :: int
  ce_write_timeout_ms :: int
  ce_write_timeout_retry :: int
  ce_reconnect_wait_sleep_secs :: int
  ce_reconnect_wait_sleep_retry :: int
  ce_queue_read_timeout_ms :: int
  ce_appdata :: "'a option"
  ce_filterdata :: "'f option"
  ce_thkillproc :: bool \<comment> \<open>whether the pointer is set\<close>
  ce_cq :: "nat option"
  ce_threadinfo :: "nat option"
  ce_f_exit :: int

record client_options_st =
  co_write_timeout_ms :: int
  co_write_timeout_retry :: int
  co_reconnect_wait_sleep_secs :: int
  co_reconnect_wait_sleep_retry :: int
  co_queue_read_timeout_ms :: int

definition conn_element_init1 ::
  "int \<Rightarrow> int \<Rightarrow> int \<Rightarrow> int \<Rightarrow> int \<Rightarrow> bytes option \<Rightarrow> bytes option \<Rightarrow> client_options_st \<Rightarrow> int \<times> ('a, 'f) conn_element_st" where
  "conn_element_init1 now1 now2 fd typ pid ip name opts =
     (0, \<lparr>ce_cs = conn_stats_init now1 now2, ce_type = typ, ce_pid = pid, ce_ip = ip, ce_name = name, ce_fd = fd,
        ce_write_timeout_ms = co_write_timeout_ms opts, ce_write_timeout_retry = co_write_timeout_retry opts,
        ce_reconnect_wait_sleep_secs = co_reconnect_wait_sleep_secs opts,
        ce_reconnect_wait_sleep_retry = co_reconnect_wait_sleep_retry opts,
        ce_queue_read_timeout_ms = co_queue_read_timeout_ms opts, ce_appdata = None, ce_filterdata = None,
        ce_thkillproc = False, ce_cq = None, ce_threadinfo = None, ce_f_exit = 0\<rparr>)"

definition conn_element_init2 :: "'a \<Rightarrow> ('a, 'f) conn_element_st \<Rightarrow> ('a, 'f) conn_element_st" where
  "conn_element_init2 appdata ce = ce\<lparr>ce_appdata := Some appdata\<rparr>"

definition conn_element_init3 :: "'f \<Rightarrow> ('a, 'f) conn_element_st \<Rightarrow> ('a, 'f) conn_element_st" where
  "conn_element_init3 filterdata ce = ce\<lparr>ce_filterdata := Some filterdata\<rparr>"

text \<open>
  The last initialisation: the information about the thread, its mutex (status \<open>mutex\<close>), the queue
  and the thread, whose creation on the element has the status \<open>thcreate\<close>.
\<close>

definition conn_element_init4 ::
  "'q cq_calls \<Rightarrow> bool \<Rightarrow> int \<Rightarrow> (('a, 'f) conn_element_st \<Rightarrow> int) \<Rightarrow> connqueue_param_st \<Rightarrow> int \<Rightarrow>
   ('a, 'f) conn_element_st \<Rightarrow> 'q conn_heap \<Rightarrow> int \<times> int \<times> ('a, 'f) conn_element_st \<times> 'q conn_heap" where
  "conn_element_init4 calls malloc mutex thcreate cqparam dberror ce h =
     (if \<not> malloc then (-1, dberror, ce\<lparr>ce_threadinfo := None\<rparr>, h)
      else if mutex \<noteq> 0 then (-1, dberror, ce\<lparr>ce_thkillproc := False, ce_threadinfo := None\<rparr>, h)
      else
        case connqueue_open calls cqparam dberror of
          (dberror, None) \<Rightarrow> (-1, dberror, ce\<lparr>ce_thkillproc := False, ce_cq := None, ce_threadinfo := None\<rparr>, h)
        | (dberror, Some cq) \<Rightarrow>
            let a = ch_next h;
                ti = \<lparr>f_thread_created = 0, f_thread_finished = 0, connection_status = 0, client_fd = ce_fd ce\<rparr>;
                ce = ce\<lparr>ce_threadinfo := Some a, ce_thkillproc := True, ce_cq := Some (a + 1)\<rparr>
            in
            if thcreate ce \<noteq> 0 then
              (-1, dberror, ce\<lparr>ce_thkillproc := False, ce_threadinfo := None\<rparr>,
                 h\<lparr>ch_next := a + 2, ch_threads := (ch_threads h)(a := None), ch_queues := (ch_queues h)(a + 1 := None)\<rparr>)
            else
              (0, dberror, ce, h\<lparr>ch_next := a + 2, ch_threads := (ch_threads h)(a \<mapsto> ti\<lparr>f_thread_created := 1\<rparr>),
                 ch_queues := (ch_queues h)(a + 1 \<mapsto> cq)\<rparr>))"

text \<open>
  Releasing an element: the thread is stopped with the status \<open>kill\<close>, and the information about it and the
  queue are freed.
\<close>

definition release_thread :: "int \<Rightarrow> ('a, 'f) conn_element_st \<Rightarrow> 'q conn_heap \<Rightarrow> (int \<times> 'q conn_heap) option" where
  "release_thread kill ce h =
     (case ce_threadinfo ce of
        None \<Rightarrow> Some (0, h)
      | Some a \<Rightarrow> do {
          ti \<leftarrow> ch_threads h a;
          if f_thread_created ti \<noteq> 0 \<and> \<not> ce_thkillproc ce then None
          else Some (if f_thread_created ti \<noteq> 0 then kill else 0, h\<lparr>ch_threads := (ch_threads h)(a := None)\<rparr>)
        })"

definition conn_element_release ::
  "'q cq_calls \<Rightarrow> int \<Rightarrow> ('a, 'f) conn_element_st \<Rightarrow> int \<Rightarrow> 'q conn_heap \<Rightarrow> (int \<times> int \<times> 'q conn_heap) option" where
  "conn_element_release calls kill ce dberror h = do {
     (status, h) \<leftarrow> release_thread kill ce h;
     case ce_cq ce of
       None \<Rightarrow> Some (status, dberror, h)
     | Some b \<Rightarrow> do {
         cq \<leftarrow> ch_queues h b;
         let (status1, dberror) = connqueue_close calls cq;
         Some (if status = 0 then status1 else status, dberror, h\<lparr>ch_queues := (ch_queues h)(b := None)\<rparr>)
       }
   }"

definition conn_element_isclient :: "('a, 'f) conn_element_st \<Rightarrow> int" where
  "conn_element_isclient ce = (if ce_type ce = CONN_TYPE_CLIENT_LOCAL \<or> ce_type ce = CONN_TYPE_CLIENT_NET then 1 else 0)"

definition conn_element_isnetclient :: "('a, 'f) conn_element_st \<Rightarrow> int" where
  "conn_element_isnetclient ce = (if ce_type ce = CONN_TYPE_CLIENT_NET then 1 else 0)"

definition conn_element_get_created_flag :: "('a, 'f) conn_element_st \<Rightarrow> 'q conn_heap \<Rightarrow> int option" where
  "conn_element_get_created_flag ce h =
     (case ce_threadinfo ce of None \<Rightarrow> Some 0 | Some a \<Rightarrow> map_option f_thread_created (ch_threads h a))"

definition conn_element_get_finished_flag :: "('a, 'f) conn_element_st \<Rightarrow> 'q conn_heap \<Rightarrow> int option" where
  "conn_element_get_finished_flag ce h =
     (case ce_threadinfo ce of None \<Rightarrow> Some 0 | Some a \<Rightarrow> map_option f_thread_finished (ch_threads h a))"

definition conn_element_isnetclient_running :: "('a, 'f) conn_element_st \<Rightarrow> 'q conn_heap \<Rightarrow> int option" where
  "conn_element_isnetclient_running ce h = do {
     c \<leftarrow> conn_element_get_created_flag ce h;
     f \<leftarrow> conn_element_get_finished_flag ce h;
     Some (if conn_element_isnetclient ce \<noteq> 0 \<and> c \<noteq> 0 \<and> f = 0 then 1 else 0)
   }"

definition conn_element_isnetclient_stoped :: "('a, 'f) conn_element_st \<Rightarrow> 'q conn_heap \<Rightarrow> int option" where
  "conn_element_isnetclient_stoped ce h = do {
     c \<leftarrow> conn_element_get_created_flag ce h;
     f \<leftarrow> conn_element_get_finished_flag ce h;
     Some (if conn_element_isnetclient ce \<noteq> 0 \<and> c \<noteq> 0 \<and> f \<noteq> 0 then 1 else 0)
   }"

definition conn_element_isserver :: "('a, 'f) conn_element_st \<Rightarrow> int" where
  "conn_element_isserver ce = (if ce_type ce = CONN_TYPE_SERVER_LOCAL \<or> ce_type ce = CONN_TYPE_SERVER_NET then 1 else 0)"

definition conn_element_get_nameorip :: "('a, 'f) conn_element_st \<Rightarrow> bytes option" where
  "conn_element_get_nameorip ce = (if ce_name ce \<noteq> None then ce_name ce else ce_ip ce)"

definition conn_element_set_fd :: "int \<Rightarrow> ('a, 'f) conn_element_st \<Rightarrow> ('a, 'f) conn_element_st" where
  "conn_element_set_fd fd ce = ce\<lparr>ce_fd := fd\<rparr>"

definition conn_element_set_exit_flag :: "('a, 'f) conn_element_st \<Rightarrow> ('a, 'f) conn_element_st" where
  "conn_element_set_exit_flag ce = ce\<lparr>ce_f_exit := 1\<rparr>"

text \<open>
  The report of the statistics, by number of packets or by time: the time and the counters that are written,
  and the element after it. The clock is read for the report and again for the reset.
\<close>

definition conn_element_report_cstats ::
  "int \<Rightarrow> int \<Rightarrow> bool \<Rightarrow> int \<Rightarrow> int \<Rightarrow> ('a, 'f) conn_element_st \<Rightarrow>
   int \<times> (int \<times> conn_stats_st) option \<times> ('a, 'f) conn_element_st" where
  "conn_element_report_cstats now now2 fopen_ok count period ce =
     (let cs = ce_cs ce in
      if count > 0 \<and> cs_packets_rtime cs < word_of_int count then (0, None, ce)
      else if count \<le> 0 \<and> now < cs_rtime cs + period then (0, None, ce)
      else if \<not> fopen_ok then (-1, None, ce)
      else (0, Some (now, cs), ce\<lparr>ce_cs := conn_stats_reset now2 cs\<rparr>))"

definition conn_element_set_finished_flag ::
  "int \<Rightarrow> int \<Rightarrow> ('a, 'f) conn_element_st \<Rightarrow> 'q conn_heap \<Rightarrow> (int \<times> 'q conn_heap) option" where
  "conn_element_set_finished_flag lock unlock ce h = do {
     a \<leftarrow> ce_threadinfo ce;
     ti \<leftarrow> ch_threads h a;
     Some (if lock = 0 then unlock else lock, h\<lparr>ch_threads := (ch_threads h)(a \<mapsto> ti\<lparr>f_thread_finished := 1\<rparr>)\<rparr>)
   }"

text \<open>The status of the connection and, when it is 0, the descriptor.\<close>

definition conn_element_get_connection_status ::
  "int \<Rightarrow> int \<Rightarrow> ('a, 'f) conn_element_st \<Rightarrow> 'q conn_heap \<Rightarrow> (int \<times> int option) option" where
  "conn_element_get_connection_status lock unlock ce h =
     (case ce_threadinfo ce of
        None \<Rightarrow> Some (0, None)
      | Some a \<Rightarrow> do {
          ti \<leftarrow> ch_threads h a;
          if lock \<noteq> 0 then Some (-1, None)
          else
            let fd = (if connection_status ti = 0 then Some (client_fd ti) else None)
            in Some (if unlock \<noteq> 0 then -1 else connection_status ti, fd)
        })"

definition conn_element_set_connection_status ::
  "int \<Rightarrow> int \<Rightarrow> ('a, 'f) conn_element_st \<Rightarrow> int \<Rightarrow> 'q conn_heap \<Rightarrow> (int \<times> 'q conn_heap) option" where
  "conn_element_set_connection_status lock unlock ce fd h = do {
     a \<leftarrow> ce_threadinfo ce;
     ti \<leftarrow> ch_threads h a;
     if lock \<noteq> 0 then Some (-1, h)
     else
       Some (if unlock \<noteq> 0 then -1 else 0,
         h\<lparr>ch_threads := (ch_threads h)(a \<mapsto> ti\<lparr>client_fd := fd, connection_status := (if fd = -1 then 1 else 0)\<rparr>)\<rparr>)
   }"

definition conn_element_get_connection_status_un :: "('a, 'f) conn_element_st \<Rightarrow> 'q conn_heap \<Rightarrow> int option" where
  "conn_element_get_connection_status_un ce h =
     (case ce_threadinfo ce of None \<Rightarrow> Some (-1) | Some a \<Rightarrow> map_option connection_status (ch_threads h a))"

section \<open>The table\<close>

abbreviation POLLIN :: int where "POLLIN \<equiv> 1"
abbreviation POLLERR :: int where "POLLERR \<equiv> 8"
abbreviation POLLHUP :: int where "POLLHUP \<equiv> 16"
abbreviation POLLNVAL :: int where "POLLNVAL \<equiv> 32"

record pollfd_st =
  pfd_fd :: int
  pfd_events :: int
  pfd_revents :: int

text \<open>The two arrays are lists of their used entries; \<^verbatim>\<open>n\<close> is their length.\<close>

record ('a, 'f) conn_table_st =
  ct_nmax :: int
  ct_nclients :: int
  ct_nclientsmax :: int
  ct_pfd :: "pollfd_st list"
  ct_ce :: "('a, 'f) conn_element_st list"
  ct_status :: int
  ct_dberror :: int

abbreviation ct_n :: "('a, 'f) conn_table_st \<Rightarrow> nat" where
  "ct_n ct \<equiv> length (ct_ce ct)"

definition valid_entry :: "('a, 'f) conn_table_st \<Rightarrow> int \<Rightarrow> bool" where
  "valid_entry ct i \<longleftrightarrow> 0 \<le> i \<and> i < int (ct_n ct)"

abbreviation INITIAL_SIZE :: int where "INITIAL_SIZE \<equiv> 1"
abbreviation TABLE_GROW_FACTOR :: int where "TABLE_GROW_FACTOR \<equiv> 2"

text \<open>The three allocations, and the status of the mutex.\<close>

definition conn_table_create :: "bool \<times> bool \<times> bool \<Rightarrow> int \<Rightarrow> int \<Rightarrow> ('a, 'f) conn_table_st option" where
  "conn_table_create mallocs mutex maxclients =
     (let (m_table, m_pfd, m_ce) = mallocs in
      if \<not> m_table \<or> \<not> m_pfd \<or> \<not> m_ce \<or> mutex \<noteq> 0 then None
      else Some \<lparr>ct_nmax = INITIAL_SIZE, ct_nclients = 0, ct_nclientsmax = maxclients, ct_pfd = [], ct_ce = [],
             ct_status = 0, ct_dberror = 0\<rparr>)"

definition close_fd :: "int \<Rightarrow> int \<Rightarrow> 'q conn_heap \<Rightarrow> 'q conn_heap" where
  "close_fd status fd h = (if status = 0 then h\<lparr>ch_open := filter (\<lambda>x. x \<noteq> fd) (ch_open h)\<rparr> else h)"

text \<open>The arrays are enlarged together; shrinking the first one again after a failure of the second does not fail.\<close>

definition conn_table_grow :: "bool \<times> bool \<Rightarrow> ('a, 'f) conn_table_st \<Rightarrow> int \<times> ('a, 'f) conn_table_st" where
  "conn_table_grow reallocs ct =
     (if \<not> fst reallocs \<or> \<not> snd reallocs then (-1, ct) else (0, ct\<lparr>ct_nmax := c_int (ct_nmax ct * TABLE_GROW_FACTOR)\<rparr>))"

definition conn_table_add_element_un ::
  "bool \<times> bool \<Rightarrow> int \<Rightarrow> int \<Rightarrow> int \<Rightarrow> int \<Rightarrow> int \<Rightarrow> bytes option \<Rightarrow> bytes option \<Rightarrow> client_options_st \<Rightarrow>
   ('a, 'f) conn_table_st \<Rightarrow> int \<times> ('a, 'f) conn_table_st" where
  "conn_table_add_element_un reallocs now1 now2 fd typ pid ip name opts ct =
     (let (status, ct) = (if int (ct_n ct) = ct_nmax ct then conn_table_grow reallocs ct else (0, ct)) in
      if status \<noteq> 0 then (-1, ct)
      else
        let (status, ce) = conn_element_init1 now1 now2 fd typ pid ip name opts;
            ct = ct\<lparr>ct_status := status, ct_dberror := 0\<rparr>
        in
        if status = 0 then
          (status, ct\<lparr>ct_pfd := ct_pfd ct @ [\<lparr>pfd_fd = fd, pfd_events = POLLIN, pfd_revents = 0\<rparr>],
             ct_ce := ct_ce ct @ [ce], ct_nclients := (if typ = CONN_TYPE_CLIENT_NET then ct_nclients ct + 1 else ct_nclients ct)\<rparr>)
        else (status, ct))"

definition remove_entry :: "nat \<Rightarrow> 'x list \<Rightarrow> 'x list" where
  "remove_entry i xs = take i xs @ drop (Suc i) xs"

definition conn_table_del_element_un ::
  "'q cq_calls \<Rightarrow> int \<Rightarrow> (int \<Rightarrow> int) \<Rightarrow> ('a, 'f) conn_table_st \<Rightarrow> int \<Rightarrow> 'q conn_heap \<Rightarrow>
   (int \<times> ('a, 'f) conn_table_st \<times> 'q conn_heap) option" where
  "conn_table_del_element_un calls kill close ct i h =
     (if \<not> valid_entry ct i then None
      else
        let ce = ct_ce ct ! nat i; fd = pfd_fd (ct_pfd ct ! nat i) in do {
          (status, dberror, h) \<leftarrow> conn_element_release calls kill ce 0 h;
          let ct = ct\<lparr>ct_status := status, ct_dberror := dberror\<rparr>;
          let (status, h) =
            (if fd \<noteq> -1 \<and> conn_element_isclient ce \<noteq> 0 then (if status = 0 then close fd else status, close_fd (close fd) fd h)
             else (status, h));
          Some (status, ct\<lparr>ct_pfd := remove_entry (nat i) (ct_pfd ct), ct_ce := remove_entry (nat i) (ct_ce ct),
            ct_nclients := (if conn_element_isnetclient ce \<noteq> 0 then ct_nclients ct - 1 else ct_nclients ct)\<rparr>, h)
        })"

fun destroy_entries ::
  "'q cq_calls \<Rightarrow> int \<Rightarrow> (int \<Rightarrow> int) \<Rightarrow> (pollfd_st \<times> ('a, 'f) conn_element_st) list \<Rightarrow> 'q conn_heap \<Rightarrow> 'q conn_heap option" where
  "destroy_entries calls kill close [] h = Some h"
| "destroy_entries calls kill close ((p, ce) # es) h = do {
     let h = (if pfd_fd p \<noteq> -1 \<and> conn_element_isclient ce \<noteq> 0 then close_fd (close (pfd_fd p)) (pfd_fd p) h else h);
     (_, _, h) \<leftarrow> conn_element_release calls kill ce 0 h;
     destroy_entries calls kill close es h
   }"

definition conn_table_destroy ::
  "'q cq_calls \<Rightarrow> int \<Rightarrow> (int \<Rightarrow> int) \<Rightarrow> ('a, 'f) conn_table_st \<Rightarrow> 'q conn_heap \<Rightarrow> 'q conn_heap option" where
  "conn_table_destroy calls kill close ct h = destroy_entries calls kill close (zip (ct_pfd ct) (ct_ce ct)) h"

definition conn_table_set_element_appdata :: "'a \<Rightarrow> int \<Rightarrow> ('a, 'f) conn_table_st \<Rightarrow> ('a, 'f) conn_table_st option" where
  "conn_table_set_element_appdata data i ct =
     (if \<not> valid_entry ct i then None
      else Some (ct\<lparr>ct_ce := (ct_ce ct)[nat i := (ct_ce ct ! nat i)\<lparr>ce_appdata := Some data\<rparr>]\<rparr>))"

fun find_byip :: "('a, 'f) conn_element_st list \<Rightarrow> bytes \<Rightarrow> int \<Rightarrow> int" where
  "find_byip [] ip i = -1"
| "find_byip (ce # ces) ip i = (if ce_ip ce = Some ip then i else find_byip ces ip (i + 1))"

definition conn_table_find_element_byip :: "('a, 'f) conn_table_st \<Rightarrow> bytes \<Rightarrow> int" where
  "conn_table_find_element_byip ct ip = find_byip (ct_ce ct) ip 0"

definition conn_table_add_element ::
  "int \<Rightarrow> bool \<times> bool \<Rightarrow> int \<Rightarrow> int \<Rightarrow> int \<Rightarrow> int \<Rightarrow> int \<Rightarrow> bytes option \<Rightarrow> bytes option \<Rightarrow> client_options_st \<Rightarrow>
   ('a, 'f) conn_table_st \<Rightarrow> int \<times> ('a, 'f) conn_table_st" where
  "conn_table_add_element lock reallocs now1 now2 fd typ pid ip name opts ct =
     (if lock \<noteq> 0 then (-1, ct) else conn_table_add_element_un reallocs now1 now2 fd typ pid ip name opts ct)"

definition conn_table_del_element ::
  "int \<Rightarrow> 'q cq_calls \<Rightarrow> int \<Rightarrow> (int \<Rightarrow> int) \<Rightarrow> ('a, 'f) conn_table_st \<Rightarrow> int \<Rightarrow> 'q conn_heap \<Rightarrow>
   (int \<times> ('a, 'f) conn_table_st \<times> 'q conn_heap) option" where
  "conn_table_del_element lock calls kill close ct i h =
     (if lock \<noteq> 0 then Some (-1, ct, h) else conn_table_del_element_un calls kill close ct i h)"

end
