(* ===== verification/Poll.thy ===== *)
theory Poll
  imports Conn
begin

text \<open>
  The events of the connections of the network server: accepting, restoring and deleting them
  (\<^verbatim>\<open>libconnth/poll.c\<close>), the passes of the server over its table (\<^verbatim>\<open>serverm.c\<close>), and what the thread of a
  client does with the descriptor it writes to (\<^verbatim>\<open>serverc.c\<close>). The bodies of the loops are definitions on
  the index they are at; the loops only run them over the table. What the system answers in one call is a
  record of functions of the descriptor. A close that fails is taken to leave the descriptor open.
\<close>

unbundle bit_operations_syntax

section \<open>Accepting\<close>

record 'q poll_calls =
  pl_accept :: "int \<Rightarrow> int" \<comment> \<open>a descriptor, -1 or -2\<close>
  pl_peer_ip :: "int \<Rightarrow> bytes option"
  pl_peer_name :: "int \<Rightarrow> bytes option"
  pl_access :: "(int \<Rightarrow> bytes \<Rightarrow> bytes option \<Rightarrow> int) option"
  pl_peek :: "int \<Rightarrow> int"
  pl_close :: "int \<Rightarrow> int"
  pl_kill :: int
  pl_lock :: int \<comment> \<open>of the table\<close>
  pl_tlock :: int \<comment> \<open>of the information about a thread\<close>
  pl_tunlock :: int
  pl_reallocs :: "bool \<times> bool"
  pl_now1 :: int
  pl_now2 :: int
  pl_cq :: "'q cq_calls"

definition poll_del_connection ::
  "'q poll_calls \<Rightarrow> ('a, 'f) conn_table_st \<Rightarrow> int \<Rightarrow> 'q conn_heap \<Rightarrow> (int \<times> ('a, 'f) conn_table_st \<times> 'q conn_heap) option" where
  "poll_del_connection pl ct i h = conn_table_del_element (pl_lock pl) (pl_cq pl) (pl_kill pl) (pl_close pl) ct i h"

definition poll_restore_connection ::
  "'q poll_calls \<Rightarrow> ('a, 'f) conn_table_st \<Rightarrow> bytes \<Rightarrow> int \<Rightarrow> 'q conn_heap \<Rightarrow> (int \<times> ('a, 'f) conn_table_st \<times> 'q conn_heap) option" where
  "poll_restore_connection pl ct ip fd h =
     (let i = conn_table_find_element_byip ct ip in
      if i = -1 then Some (-1, ct, h)
      else
        let ce = ct_ce ct ! nat i in do {
          (status, _) \<leftarrow> conn_element_get_connection_status (pl_tlock pl) (pl_tunlock pl) ce h;
          if status = -1 \<or> status = 0 then do {
            (status, ct, h) \<leftarrow> poll_del_connection pl ct i h;
            Some (if status = 0 then -1 else 1, ct, h)
          }
          else do {
            (status, h) \<leftarrow> conn_element_set_connection_status (pl_tlock pl) (pl_tunlock pl) ce fd h;
            if status \<noteq> 0 then Some (1, ct, h)
            else Some (0, ct\<lparr>ct_pfd := (ct_pfd ct)[nat i := (ct_pfd ct ! nat i)\<lparr>pfd_fd := fd\<rparr>]\<rparr>, h)
          }
        })"

definition poll_add_connection_net ::
  "'q poll_calls \<Rightarrow> client_options_st \<Rightarrow> ('a, 'f) conn_table_st \<Rightarrow> nat \<Rightarrow> 'q conn_heap \<Rightarrow>
   (int \<times> ('a, 'f) conn_table_st \<times> 'q conn_heap) option" where
  "poll_add_connection_net pl opts ct sindex h =
     (let server_fd = pfd_fd (ct_pfd ct ! sindex); fd = pl_accept pl server_fd in
      if ce_type (ct_ce ct ! sindex) \<noteq> CONN_TYPE_SERVER_NET \<or> server_fd = -1 then None
      else if fd < 0 then Some (fd, ct, h)
      else
        let h = h\<lparr>ch_open := fd # ch_open h\<rparr> in
        case pl_peer_ip pl fd of
          None \<Rightarrow> Some (-1, ct, close_fd (pl_close pl fd) fd h)
        | Some ip \<Rightarrow> do {
            (status, ct, h) \<leftarrow> poll_restore_connection pl ct ip fd h;
            if status = 0 then Some (0, ct, h)
            else if status = 1 then Some (-3, ct, close_fd (pl_close pl fd) fd h)
            else
              let name = pl_peer_name pl fd in
              if (case pl_access pl of None \<Rightarrow> False | Some access \<Rightarrow> access fd ip name = 0)
              then Some (-3, ct, close_fd (pl_close pl fd) fd h)
              else if ct_nclientsmax ct \<ge> 0 \<and> ct_nclients ct = ct_nclientsmax ct
              then Some (-3, ct, close_fd (pl_close pl fd) fd h)
              else
                let (status, ct) = conn_table_add_element (pl_lock pl) (pl_reallocs pl) (pl_now1 pl) (pl_now2 pl) fd
                      CONN_TYPE_CLIENT_NET (-1) (Some ip) name opts ct
                in Some (status, ct, if status \<noteq> 0 then close_fd (pl_close pl fd) fd h else h)
          })"

section \<open>Hangups and the passes over the table\<close>

definition poll_client_hangup :: "'q poll_calls \<Rightarrow> pollfd_st \<Rightarrow> int" where
  "poll_client_hangup pl p =
     (if pfd_revents p AND (POLLHUP OR POLLERR OR POLLNVAL) \<noteq> 0 then 1
      else if pfd_revents p AND POLLIN \<noteq> 0 then (let n = pl_peek pl (pfd_fd p) in if n = 0 then 2 else if n < 0 then -1 else 0)
      else 0)"

text \<open>An entry of the second loop of \<^verbatim>\<open>poll_loop_wait\<close>, without the messages of clients that are alive.\<close>

definition poll_client_entry ::
  "'q poll_calls \<Rightarrow> ('a, 'f) conn_table_st \<Rightarrow> nat \<Rightarrow> 'q conn_heap \<Rightarrow> (int \<times> ('a, 'f) conn_table_st \<times> 'q conn_heap) option" where
  "poll_client_entry pl ct i h =
     (let p = ct_pfd ct ! i in
      if conn_element_isserver (ct_ce ct ! i) \<noteq> 0 \<or> pfd_revents p = 0 then Some (0, ct, h)
      else if poll_client_hangup pl p \<noteq> 0 then do {
        (status, ct, h) \<leftarrow> poll_del_connection pl ct (int i) h;
        if status = 0 then Some (status, ct, h) else None
      }
      else Some (0, ct, h))"

definition finished_entry ::
  "'q poll_calls \<Rightarrow> ('a, 'f) conn_table_st \<Rightarrow> nat \<Rightarrow> 'q conn_heap \<Rightarrow> (('a, 'f) conn_table_st \<times> 'q conn_heap) option" where
  "finished_entry pl ct i h = do {
     stoped \<leftarrow> conn_element_isnetclient_stoped (ct_ce ct ! i) h;
     if stoped = 0 then Some (ct, h)
     else do {
       (_, ct, h) \<leftarrow> poll_del_connection pl ct (int i) h;
       Some (ct, h)
     }
   }"

definition dirty_entry ::
  "'q poll_calls \<Rightarrow> ('a, 'f) conn_table_st \<Rightarrow> nat \<Rightarrow> 'q conn_heap \<Rightarrow> (('a, 'f) conn_table_st \<times> 'q conn_heap) option" where
  "dirty_entry pl ct i h =
     (let ce = ct_ce ct ! i; p = ct_pfd ct ! i in do {
        running \<leftarrow> conn_element_isnetclient_running ce h;
        if running = 0 then Some (ct, h)
        else do {
          status \<leftarrow> conn_element_get_connection_status_un ce h;
          if status = 0 \<or> pfd_fd p = -1 \<or> pl_close pl (pfd_fd p) \<noteq> 0 then Some (ct, h)
          else Some (ct\<lparr>ct_pfd := (ct_pfd ct)[i := p\<lparr>pfd_fd := -1\<rparr>]\<rparr>, close_fd 0 (pfd_fd p) h)
        }
      })"

text \<open>
  The creation of the thread of an entry whose protocol is known, that is, set in its data, or its deletion
  when that fails; \<open>malloc\<close>, \<open>mutex\<close> and \<open>thcreate\<close> are what the system answers. The options of the client
  configured by its name, which only change its time-outs, are left out.
\<close>

definition spawn_entry ::
  "'q poll_calls \<Rightarrow> bool \<Rightarrow> int \<Rightarrow> int \<Rightarrow> connqueue_param_st \<Rightarrow> 'f option \<Rightarrow> ('a, 'f) conn_table_st \<Rightarrow> nat \<Rightarrow> 'q conn_heap \<Rightarrow>
   (('a, 'f) conn_table_st \<times> 'q conn_heap) option" where
  "spawn_entry pl malloc mutex thcreate cqparam allow ct i h =
     (let ce = ct_ce ct ! i in do {
        created \<leftarrow> conn_element_get_created_flag ce h;
        if created \<noteq> 0 \<or> conn_element_isclient ce = 0 \<or> ce_appdata ce = None then Some (ct, h)
        else
          let (status, ce, h) =
            (case allow of
               None \<Rightarrow> (-1, ce, h)
             | Some allowp \<Rightarrow>
                 let (status, _, ce, h) =
                   conn_element_init4 (pl_cq pl) malloc mutex (\<lambda>_. thcreate) cqparam 0 (conn_element_init3 allowp ce) h
                 in (status, ce, h));
              ct = ct\<lparr>ct_ce := (ct_ce ct)[i := ce]\<rparr>
          in
          if status \<noteq> 0 then do {
            (_, ct, h) \<leftarrow> poll_del_connection pl ct (int i) h;
            Some (ct, h)
          }
          else Some (ct, h)
      })"

section \<open>The server and the threads of its clients\<close>

text \<open>
  The state of the server: the table, the heap, and the descriptor in the copy of the element that each
  thread has, by the address of the information about the thread.
\<close>

record ('a, 'f, 'q) server_st =
  srv_ct :: "('a, 'f) conn_table_st"
  srv_h :: "'q conn_heap"
  srv_fd :: "nat \<Rightarrow> int"

text \<open>
  What a thread does with its copy of the element. When a write fails it forgets its descriptor
  (\<^verbatim>\<open>conn_element_set_fd\<close>), then it reports the connection as bad; it waits for the server to restore it and takes
  the new descriptor; and when it ends it sets its flag. In \<^verbatim>\<open>cleanup\<close> the release of the mutex of the queue is left
  out. The copy shares the information about the thread with the element \<open>ce\<close> of the table.
\<close>

definition thread_drop_fd :: "nat \<Rightarrow> ('a, 'f, 'q) server_st \<Rightarrow> ('a, 'f, 'q) server_st" where
  "thread_drop_fd a s = s\<lparr>srv_fd := (srv_fd s)(a := -1)\<rparr>"

definition thread_report ::
  "int \<Rightarrow> int \<Rightarrow> ('a, 'f) conn_element_st \<Rightarrow> ('a, 'f, 'q) server_st \<Rightarrow> (int \<times> ('a, 'f, 'q) server_st) option" where
  "thread_report lock unlock ce s = do {
     (status, h) \<leftarrow> conn_element_set_connection_status lock unlock ce (-1) (srv_h s);
     Some (status, s\<lparr>srv_h := h\<rparr>)
   }"

definition wait_client_reconnection ::
  "int \<Rightarrow> int \<Rightarrow> ('a, 'f) conn_element_st \<Rightarrow> nat \<Rightarrow> ('a, 'f, 'q) server_st \<Rightarrow> (int \<times> ('a, 'f, 'q) server_st) option" where
  "wait_client_reconnection lock unlock ce a s = do {
     (status, fd) \<leftarrow> conn_element_get_connection_status lock unlock ce (srv_h s);
     if status \<noteq> 0 then Some (status, s)
     else do {
       fd \<leftarrow> fd;
       Some (status, s\<lparr>srv_fd := (srv_fd s)(a := fd)\<rparr>)
     }
   }"

definition thread_cleanup ::
  "int \<Rightarrow> int \<Rightarrow> ('a, 'f) conn_element_st \<Rightarrow> ('a, 'f, 'q) server_st \<Rightarrow> ('a, 'f, 'q) server_st option" where
  "thread_cleanup lock unlock ce s = do {
     (_, h) \<leftarrow> conn_element_set_finished_flag lock unlock ce (srv_h s);
     Some (s\<lparr>srv_h := h\<rparr>)
   }"

text \<open>
  What is relied on: unlocking a mutex that the caller holds does not fail, and stopping a thread returns
  when the thread has ended, with status 0, as \<^verbatim>\<open>client_thread_kill\<close> always does. Locking, closing descriptors
  and closing queues may fail.
\<close>

definition sound_calls :: "'q poll_calls \<Rightarrow> bool" where
  "sound_calls pl \<longleftrightarrow> pl_tunlock pl = 0 \<and> pl_kill pl = 0"

text \<open>
  The steps, of the server and of the threads. A descriptor that is accepted was not open. A call of the server is
  one step. In \<^verbatim>\<open>poll_restore_connection\<close> it stores the descriptor for the thread first and in its own
  array after that; no thread reads or changes that array, as \<open>threads_ignore_pfd\<close> shows, so that a step of a thread
  between the two has the same effect after both.
\<close>

inductive server_step :: "('a, 'f, 'q) server_st \<Rightarrow> ('a, 'f, 'q) server_st \<Rightarrow> bool" where
  polled: "map pfd_fd ps = map pfd_fd (ct_pfd (srv_ct s)) \<Longrightarrow> server_step s (s\<lparr>srv_ct := (srv_ct s)\<lparr>ct_pfd := ps\<rparr>\<rparr>)"
| accepted: "sound_calls pl \<Longrightarrow> i < ct_n (srv_ct s) \<Longrightarrow> ce_type (ct_ce (srv_ct s) ! i) = CONN_TYPE_SERVER_NET \<Longrightarrow>
    pl_accept pl (pfd_fd (ct_pfd (srv_ct s) ! i)) \<notin> set (ch_open (srv_h s)) \<Longrightarrow>
    poll_add_connection_net pl opts (srv_ct s) i (srv_h s) = Some (st, ct, h) \<Longrightarrow> server_step s (s\<lparr>srv_ct := ct, srv_h := h\<rparr>)"
| hangup: "sound_calls pl \<Longrightarrow> i < ct_n (srv_ct s) \<Longrightarrow> poll_client_entry pl (srv_ct s) i (srv_h s) = Some (st, ct, h) \<Longrightarrow>
    server_step s (s\<lparr>srv_ct := ct, srv_h := h\<rparr>)"
| finished: "sound_calls pl \<Longrightarrow> i < ct_n (srv_ct s) \<Longrightarrow> finished_entry pl (srv_ct s) i (srv_h s) = Some (ct, h) \<Longrightarrow>
    server_step s (s\<lparr>srv_ct := ct, srv_h := h\<rparr>)"
| dirty: "sound_calls pl \<Longrightarrow> i < ct_n (srv_ct s) \<Longrightarrow> dirty_entry pl (srv_ct s) i (srv_h s) = Some (ct, h) \<Longrightarrow>
    server_step s (s\<lparr>srv_ct := ct, srv_h := h\<rparr>)"
| identified: "conn_table_set_element_appdata x (int i) (srv_ct s) = Some ct \<Longrightarrow> server_step s (s\<lparr>srv_ct := ct\<rparr>)"
| spawned: "sound_calls pl \<Longrightarrow> i < ct_n (srv_ct s) \<Longrightarrow>
    spawn_entry pl malloc mutex 0 cqparam allow (srv_ct s) i (srv_h s) = Some (ct, h) \<Longrightarrow>
    server_step s (s\<lparr>srv_ct := ct, srv_h := h, srv_fd := (srv_fd s)(ch_next (srv_h s) := ce_fd (ct_ce (srv_ct s) ! i))\<rparr>)"
| failed: "i < ct_n (srv_ct s) \<Longrightarrow> ce_threadinfo (ct_ce (srv_ct s) ! i) = Some a \<Longrightarrow> server_step s (thread_drop_fd a s)"
| reported: "i < ct_n (srv_ct s) \<Longrightarrow> ce_threadinfo (ct_ce (srv_ct s) ! i) = Some a \<Longrightarrow> srv_fd s a = -1 \<Longrightarrow>
    thread_report lock 0 (ct_ce (srv_ct s) ! i) s = Some (st, s') \<Longrightarrow> server_step s s'"
| reconnected: "i < ct_n (srv_ct s) \<Longrightarrow> ce_threadinfo (ct_ce (srv_ct s) ! i) = Some a \<Longrightarrow> srv_fd s a = -1 \<Longrightarrow>
    wait_client_reconnection lock 0 (ct_ce (srv_ct s) ! i) a s = Some (st, s') \<Longrightarrow> server_step s s'"
| ended: "i < ct_n (srv_ct s) \<Longrightarrow> ce_threadinfo (ct_ce (srv_ct s) ! i) = Some a \<Longrightarrow>
    thread_cleanup lock 0 (ct_ce (srv_ct s) ! i) s = Some s' \<Longrightarrow> server_step s s'"

lemma threads_ignore_pfd:
  fixes s :: "('a, 'f, 'q) server_st" and ps :: "pollfd_st list"
  defines "f \<equiv> \<lambda>s :: ('a, 'f, 'q) server_st. s\<lparr>srv_ct := (srv_ct s)\<lparr>ct_pfd := ps\<rparr>\<rparr>"
  shows "thread_drop_fd a (f s) = f (thread_drop_fd a s)"
    "thread_report lock unlock ce (f s) = map_option (map_prod id f) (thread_report lock unlock ce s)"
    "wait_client_reconnection lock unlock ce a (f s) = map_option (map_prod id f) (wait_client_reconnection lock unlock ce a s)"
    "thread_cleanup lock unlock ce (f s) = map_option f (thread_cleanup lock unlock ce s)"
  by (auto simp: f_def thread_drop_fd_def thread_report_def wait_client_reconnection_def thread_cleanup_def
      split: Option.bind_splits prod.splits)

text \<open>The server starts with the entry of the socket it listens on.\<close>

definition server_start :: "int \<Rightarrow> ('a, 'f, 'q) server_st \<Rightarrow> bool" where
  "server_start fd s \<longleftrightarrow> (\<exists>max reallocs now1 now2 opts ct.
     conn_table_create (True, True, True) 0 max = Some ct \<and> fd \<noteq> -1 \<and>
     conn_table_add_element 0 reallocs now1 now2 fd CONN_TYPE_SERVER_NET 0 None None opts ct = (0, srv_ct s) \<and>
     srv_h s = \<lparr>ch_threads = \<lambda>_. None, ch_queues = \<lambda>_. None, ch_next = 0, ch_open = [fd]\<rparr>)"

inductive server_reachable :: "int \<Rightarrow> ('a, 'f, 'q) server_st \<Rightarrow> bool" for fd where
  start: "server_start fd s \<Longrightarrow> server_reachable fd s"
| step: "server_reachable fd s \<Longrightarrow> server_step s s' \<Longrightarrow> server_reachable fd s'"

section \<open>The invariant\<close>

definition entry_ok :: "'q conn_heap \<Rightarrow> (nat \<Rightarrow> int) \<Rightarrow> pollfd_st \<Rightarrow> ('a, 'f) conn_element_st \<Rightarrow> bool" where
  "entry_ok h tf p ce \<longleftrightarrow>
     (pfd_fd p \<noteq> -1 \<longrightarrow> pfd_fd p \<in> set (ch_open h)) \<and>
     (case ce_threadinfo ce of
        None \<Rightarrow> ce_cq ce = None \<and> ce_fd ce = pfd_fd p \<and> pfd_fd p \<noteq> -1
      | Some a \<Rightarrow> a < ch_next h \<and> ce_thkillproc ce \<and> conn_element_isclient ce = 1 \<and>
          (\<exists>b. ce_cq ce = Some b \<and> b < ch_next h \<and> ch_queues h b \<noteq> None) \<and>
          (\<exists>ti. ch_threads h a = Some ti \<and> f_thread_created ti = 1 \<and>
             (connection_status ti = 0 \<and> client_fd ti = pfd_fd p \<and> pfd_fd p \<noteq> -1 \<and> tf a \<in> {-1, pfd_fd p} \<or>
              connection_status ti = 1 \<and> tf a = -1)))"

definition addresses :: "('x \<Rightarrow> 'y option) \<Rightarrow> 'x list \<Rightarrow> 'y list" where
  "addresses f xs = map (the \<circ> f) (filter (\<lambda>x. f x \<noteq> None) xs)"

definition open_fd :: "pollfd_st \<Rightarrow> int option" where
  "open_fd p = (if pfd_fd p = -1 then None else Some (pfd_fd p))"

definition net_clients :: "('a, 'f) conn_element_st list \<Rightarrow> int" where
  "net_clients ces = int (length (filter (\<lambda>ce. conn_element_isnetclient ce \<noteq> 0) ces))"

definition table_ok :: "('a, 'f) conn_table_st \<Rightarrow> 'q conn_heap \<Rightarrow> (nat \<Rightarrow> int) \<Rightarrow> bool" where
  "table_ok ct h tf \<longleftrightarrow>
     list_all2 (entry_ok h tf) (ct_pfd ct) (ct_ce ct) \<and>
     distinct (addresses open_fd (ct_pfd ct)) \<and> distinct (addresses ce_threadinfo (ct_ce ct)) \<and> distinct (addresses ce_cq (ct_ce ct)) \<and>
     distinct (addresses ce_ip (ct_ce ct)) \<and>
     ct_nclients ct = net_clients (ct_ce ct) \<and> (0 \<le> ct_nclientsmax ct \<longrightarrow> net_clients (ct_ce ct) \<le> ct_nclientsmax ct)"

lemma addresses_simps [simp]:
  "addresses f [] = []" "addresses f (x # xs) = (case f x of None \<Rightarrow> addresses f xs | Some a \<Rightarrow> a # addresses f xs)"
  "addresses f (xs @ ys) = addresses f xs @ addresses f ys"
  by (simp_all add: addresses_def split: option.split)

lemma net_clients_simps [simp]:
  "net_clients [] = 0" "net_clients (ce # ces) = (if conn_element_isnetclient ce \<noteq> 0 then 1 else 0) + net_clients ces"
  "net_clients (cs @ ces) = net_clients cs + net_clients ces"
  by (simp_all add: net_clients_def)

lemma set_addresses: "a \<in> set (addresses f xs) \<longleftrightarrow> (\<exists>x \<in> set xs. f x = Some a)"
  by (force simp: addresses_def image_iff)

lemma distinct_addresses_at:
  "distinct (addresses f (us @ x # vs)) \<longleftrightarrow> distinct (addresses f (us @ vs)) \<and> (\<forall>a. f x = Some a \<longrightarrow> a \<notin> set (addresses f (us @ vs)))"
  by (auto split: option.splits)

lemma distinct_address_unique:
  assumes "distinct (addresses f xs)" "i < length xs" "j < length xs" "f (xs ! i) = Some a" "f (xs ! j) = Some a"
  shows "i = j"
  using assms
proof (induction xs arbitrary: i j)
  case (Cons x xs)
  have "f x \<noteq> Some a" if "k < length xs" "f (xs ! k) = Some a" for k
    using Cons.prems(1) that nth_mem [OF that(1)] by (auto simp: set_addresses split: option.splits)
  then show ?case using Cons by (cases i; cases j) (auto split: option.splits)
qed simp

lemma open_fd_address:
  "fd \<in> pfd_fd ` set ps \<Longrightarrow> fd \<noteq> -1 \<Longrightarrow> fd \<in> set (addresses open_fd ps)" "fd \<in> set (addresses open_fd ps) \<Longrightarrow> fd \<in> pfd_fd ` set ps"
  by (auto simp: set_addresses open_fd_def split: if_splits)

lemma addresses_mono: "set xs \<subseteq> set ys \<Longrightarrow> a \<in> set (addresses f xs) \<Longrightarrow> a \<in> set (addresses f ys)"
  by (auto simp: set_addresses)

lemma entry_ok_other:
  assumes "entry_ok h tf p ce"
    "\<And>a. ce_threadinfo ce = Some a \<Longrightarrow> a < ch_next h \<Longrightarrow> ch_threads h' a = ch_threads h a \<and> tf' a = tf a"
    "\<And>b. ce_cq ce = Some b \<Longrightarrow> b < ch_next h \<Longrightarrow> ch_queues h' b = ch_queues h b" "ch_next h \<le> ch_next h'"
    "pfd_fd p \<noteq> -1 \<Longrightarrow> pfd_fd p \<in> set (ch_open h) \<Longrightarrow> pfd_fd p \<in> set (ch_open h')"
  shows "entry_ok h' tf' p ce"
proof (cases "ce_threadinfo ce")
  case None
  with assms show ?thesis by (auto simp: entry_ok_def)
next
  case (Some a)
  with assms(1) obtain b where "a < ch_next h" "ce_cq ce = Some b" "b < ch_next h" by (auto simp: entry_ok_def)
  with Some assms(2) [OF Some] assms(3) [of b] assms(1,4,5) show ?thesis by (auto simp: entry_ok_def)
qed

text \<open>An entry of the table and the others.\<close>

lemma table_split:
  assumes "table_ok ct h tf" "i < ct_n ct"
  obtains pu p pv cu ce cv where "ct_pfd ct = pu @ p # pv" "ct_ce ct = cu @ ce # cv" "length pu = i" "length cu = i"
    "list_all2 (entry_ok h tf) pu cu" "entry_ok h tf p ce" "list_all2 (entry_ok h tf) pv cv"
proof -
  have l: "length (ct_pfd ct) = ct_n ct" using assms(1) by (auto simp: table_ok_def dest: list_all2_lengthD)
  have c: "ct_ce ct = take i (ct_ce ct) @ ct_ce ct ! i # drop (Suc i) (ct_ce ct)"
    and q: "ct_pfd ct = take i (ct_pfd ct) @ ct_pfd ct ! i # drop (Suc i) (ct_pfd ct)"
    using assms(2) l by (simp_all add: id_take_nth_drop)
  have a: "list_all2 (entry_ok h tf) (ct_pfd ct) (ct_ce ct)" using assms(1) by (simp add: table_ok_def)
  have "list_all2 (entry_ok h tf) (take i (ct_pfd ct)) (take i (ct_ce ct))" "entry_ok h tf (ct_pfd ct ! i) (ct_ce ct ! i)"
    "list_all2 (entry_ok h tf) (drop (Suc i) (ct_pfd ct)) (drop (Suc i) (ct_ce ct))"
    using a assms(2) l by (auto simp: list_all2_conv_all_nth)
  with c q l assms(2) show ?thesis
    by (intro that [of "take i (ct_pfd ct)" "ct_pfd ct ! i" "drop (Suc i) (ct_pfd ct)" "take i (ct_ce ct)" "ct_ce ct ! i" "drop (Suc i) (ct_ce ct)"])
      auto
qed

lemma entry_at:
  assumes "table_ok ct h tf" "i < ct_n ct"
  shows "entry_ok h tf (ct_pfd ct ! i) (ct_ce ct ! i)" "length (ct_pfd ct) = ct_n ct"
  using assms by (auto simp: table_ok_def list_all2_conv_all_nth)

lemma others_ok:
  assumes "list_all2 (entry_ok h tf) ps cs"
    "\<And>a. a \<in> set (addresses ce_threadinfo cs) \<Longrightarrow> a < ch_next h \<Longrightarrow> ch_threads h' a = ch_threads h a \<and> tf' a = tf a"
    "\<And>b. b \<in> set (addresses ce_cq cs) \<Longrightarrow> b < ch_next h \<Longrightarrow> ch_queues h' b = ch_queues h b" "ch_next h \<le> ch_next h'"
    "\<And>fd. fd \<in> pfd_fd ` set ps \<Longrightarrow> fd \<noteq> -1 \<Longrightarrow> fd \<in> set (ch_open h) \<Longrightarrow> fd \<in> set (ch_open h')"
  shows "list_all2 (entry_ok h' tf') ps cs"
proof (rule list.rel_mono_strong [OF assms(1)])
  fix p ce assume m: "p \<in> set ps" "ce \<in> set cs" and e: "entry_ok h tf p ce"
  show "entry_ok h' tf' p ce"
    by (rule entry_ok_other [OF e]) (use m assms(2-5) in \<open>auto simp: set_addresses\<close>)
qed

lemma remove_entry_at [simp]: "length us = i \<Longrightarrow> remove_entry i (us @ x # vs) = us @ vs"
  by (auto simp: remove_entry_def)

text \<open>Whether the deletion of an entry reports no error: the table is locked, and the queue and the descriptor are closed.\<close>

definition del_succeeds :: "'q poll_calls \<Rightarrow> pollfd_st \<Rightarrow> ('a, 'f) conn_element_st \<Rightarrow> bool" where
  "del_succeeds pl p ce \<longleftrightarrow>
     pl_lock pl = 0 \<and> (ce_threadinfo ce \<noteq> None \<longrightarrow> fst (nbspqt_close (cqc_closes (pl_cq pl)) 0) = 0) \<and>
     (pfd_fd p \<noteq> -1 \<and> conn_element_isclient ce \<noteq> 0 \<longrightarrow> pl_close pl (pfd_fd p) = 0)"

lemma release_ok:
  assumes e: "entry_ok h tf p ce" and g: "sound_calls pl"
  obtains st dberror where "conn_element_release (pl_cq pl) (pl_kill pl) ce 0 h = Some (st, dberror,
    h\<lparr>ch_threads := (case ce_threadinfo ce of None \<Rightarrow> ch_threads h | Some a \<Rightarrow> (ch_threads h)(a := None)),
      ch_queues := (case ce_cq ce of None \<Rightarrow> ch_queues h | Some b \<Rightarrow> (ch_queues h)(b := None))\<rparr>)"
    "st = 0 \<longleftrightarrow> (ce_threadinfo ce \<noteq> None \<longrightarrow> fst (nbspqt_close (cqc_closes (pl_cq pl)) 0) = 0)"
proof (cases "ce_threadinfo ce")
  case None
  with e that show ?thesis by (simp add: entry_ok_def conn_element_release_def release_thread_def)
next
  case (Some a)
  obtain st e1 where c: "nbspqt_close (cqc_closes (pl_cq pl)) 0 = (st, e1)" by fastforce
  obtain b ti cq where x: "ce_cq ce = Some b" "ch_queues h b = Some cq" "ch_threads h a = Some ti" "ce_thkillproc ce" "f_thread_created ti = 1"
    using e Some by (auto simp: entry_ok_def)
  with Some g c that [of st e1] show ?thesis
    by (simp add: conn_element_release_def release_thread_def connqueue_close_def sound_calls_def)
qed

text \<open>An entry that was deleted, with the table and the heap after it.\<close>

lemma removed_ok:
  assumes ok: "table_ok ct h tf" and i: "i < ct_n ct"
    and ct': "ct_ce ct' = remove_entry i (ct_ce ct)" "ct_pfd ct' = remove_entry i (ct_pfd ct)" "ct_nclientsmax ct' = ct_nclientsmax ct"
      "ct_nclients ct' = (if conn_element_isnetclient (ct_ce ct ! i) \<noteq> 0 then ct_nclients ct - 1 else ct_nclients ct)"
    and h': "ch_threads h' = (case ce_threadinfo (ct_ce ct ! i) of None \<Rightarrow> ch_threads h | Some a \<Rightarrow> (ch_threads h)(a := None))"
      "ch_queues h' = (case ce_cq (ct_ce ct ! i) of None \<Rightarrow> ch_queues h | Some b \<Rightarrow> (ch_queues h)(b := None))" "ch_next h' = ch_next h"
      "\<And>fd. fd \<noteq> pfd_fd (ct_pfd ct ! i) \<Longrightarrow> fd \<in> set (ch_open h) \<Longrightarrow> fd \<in> set (ch_open h')"
  shows "table_ok ct' h' tf"
proof -
  obtain pu p pv cu ce cv where d: "ct_pfd ct = pu @ p # pv" "ct_ce ct = cu @ ce # cv" "length pu = i" "length cu = i"
    and e: "list_all2 (entry_ok h tf) pu cu" "entry_ok h tf p ce" "list_all2 (entry_ok h tf) pv cv"
    by (rule table_split [OF ok i])
  have nth: "ct_ce ct ! i = ce" "ct_pfd ct ! i = p" and rm: "ct_ce ct' = cu @ cv" "ct_pfd ct' = pu @ pv"
    using d ct' by (simp_all add: nth_append)
  have dist: "distinct (addresses open_fd (pu @ p # pv))" "distinct (addresses ce_threadinfo (cu @ ce # cv))"
    "distinct (addresses ce_cq (cu @ ce # cv))" "distinct (addresses ce_ip (cu @ ce # cv))"
    using ok unfolding table_ok_def d by blast+
  note at = dist [unfolded distinct_addresses_at]
  have "list_all2 (entry_ok h tf) (pu @ pv) (cu @ cv)" by (rule list_all2_appendI) (use e in auto)
  then have "list_all2 (entry_ok h' tf) (pu @ pv) (cu @ cv)"
  proof (rule others_ok)
    fix a assume "a \<in> set (addresses ce_threadinfo (cu @ cv))"
    with at(2) show "ch_threads h' a = ch_threads h a \<and> tf a = tf a" unfolding h' nth by (cases "ce_threadinfo ce") auto
  next
    fix b assume "b \<in> set (addresses ce_cq (cu @ cv))"
    with at(3) show "ch_queues h' b = ch_queues h b" unfolding h' nth by (cases "ce_cq ce") auto
  next
    fix fd assume fd: "fd \<in> pfd_fd ` set (pu @ pv)" "fd \<noteq> -1" "fd \<in> set (ch_open h)"
    then have "fd \<noteq> pfd_fd p" using at(1) open_fd_address(1) [OF fd(1,2)] by (auto simp: open_fd_def)
    with fd(3) h'(4) nth show "fd \<in> set (ch_open h')" by simp
  qed (simp add: h')
  moreover have "ct_nclients ct' = net_clients (cu @ cv)" "0 \<le> ct_nclientsmax ct \<longrightarrow> net_clients (cu @ cv) \<le> ct_nclientsmax ct"
    using ok unfolding table_ok_def ct'(4) nth by (auto simp: d split: if_splits)
  ultimately show ?thesis
    using ok at unfolding table_ok_def rm ct'(3) by (auto simp del: addresses_simps)
qed

lemma del_ok:
  assumes ok: "table_ok ct h tf" and i: "i < ct_n ct" and g: "sound_calls pl"
  obtains st ct' h' where "poll_del_connection pl ct (int i) h = Some (st, ct', h')" "table_ok ct' h' tf"
    "st = 0 \<longleftrightarrow> del_succeeds pl (ct_pfd ct ! i) (ct_ce ct ! i)" "st = 0 \<longrightarrow> ct_ce ct' = remove_entry i (ct_ce ct)"
    "set (ct_pfd ct') \<subseteq> set (ct_pfd ct)"
    "\<forall>fd. fd \<noteq> pfd_fd (ct_pfd ct ! i) \<longrightarrow> fd \<in> set (ch_open h) \<longrightarrow> fd \<in> set (ch_open h')"
proof (cases "pl_lock pl = 0")
  case False
  then have "poll_del_connection pl ct (int i) h = Some (-1, ct, h)"
    by (simp add: poll_del_connection_def conn_table_del_element_def)
  from that [OF this ok] False show ?thesis by (simp add: del_succeeds_def)
next
  case lock: True
  let ?ce = "ct_ce ct ! i" and ?p = "ct_pfd ct ! i"
  let ?h1 = "h\<lparr>ch_threads := (case ce_threadinfo ?ce of None \<Rightarrow> ch_threads h | Some a \<Rightarrow> (ch_threads h)(a := None)),
      ch_queues := (case ce_cq ?ce of None \<Rightarrow> ch_queues h | Some b \<Rightarrow> (ch_queues h)(b := None))\<rparr>"
  obtain st dberror where r: "conn_element_release (pl_cq pl) (pl_kill pl) ?ce 0 h = Some (st, dberror, ?h1)"
    "st = 0 \<longleftrightarrow> (ce_threadinfo ?ce \<noteq> None \<longrightarrow> fst (nbspqt_close (cqc_closes (pl_cq pl)) 0) = 0)"
    by (rule release_ok [OF entry_at(1) [OF ok i] g])
  let ?b = "pfd_fd ?p \<noteq> -1 \<and> conn_element_isclient ?ce \<noteq> 0"
  define h' where "h' = (if ?b then close_fd (pl_close pl (pfd_fd ?p)) (pfd_fd ?p) ?h1 else ?h1)"
  define ct' where "ct' = ct\<lparr>ct_status := st, ct_dberror := dberror, ct_pfd := remove_entry i (ct_pfd ct), ct_ce := remove_entry i (ct_ce ct),
    ct_nclients := (if conn_element_isnetclient ?ce \<noteq> 0 then ct_nclients ct - 1 else ct_nclients ct)\<rparr>"
  let ?st = "if ?b \<and> st = 0 then pl_close pl (pfd_fd ?p) else st"
  have del: "poll_del_connection pl ct (int i) h = Some (?st, ct', h')"
    using lock r(1) i
    by (simp add: poll_del_connection_def conn_table_del_element_def conn_table_del_element_un_def valid_entry_def Let_def ct'_def h'_def)
  have h': "ch_threads h' = ch_threads ?h1" "ch_queues h' = ch_queues ?h1" "ch_next h' = ch_next h"
    "\<forall>fd. fd \<noteq> pfd_fd ?p \<longrightarrow> fd \<in> set (ch_open h) \<longrightarrow> fd \<in> set (ch_open h')"
    by (auto simp: h'_def close_fd_def)
  have "table_ok ct' h' tf"
    by (rule removed_ok [OF ok i]) (use h' in \<open>auto simp: ct'_def\<close>)
  moreover have "set (ct_pfd ct') \<subseteq> set (ct_pfd ct)" by (auto simp: ct'_def remove_entry_def dest: in_set_takeD in_set_dropD)
  moreover have "?st = 0 \<longleftrightarrow> del_succeeds pl ?p ?ce" using r(2) lock by (auto simp: del_succeeds_def)
  ultimately show ?thesis using h'(4) by (intro that [OF del]) (simp_all add: ct'_def)
qed

text \<open>Changes of one entry that keep the invariant of the table.\<close>

lemma update_ok:
  assumes ok: "table_ok ct h tf" and i: "i < ct_n ct"
    and new: "entry_ok h' tf' p' ce'" "ce_ip ce' = ce_ip (ct_ce ct ! i)" "ce_type ce' = ce_type (ct_ce ct ! i)"
      "ce_threadinfo ce' = ce_threadinfo (ct_ce ct ! i) \<or> ce_threadinfo ce' = Some (ch_next h)"
      "ce_cq ce' = ce_cq (ct_ce ct ! i) \<or> ce_cq ce' = Some (ch_next h + 1)"
      "pfd_fd p' = pfd_fd (ct_pfd ct ! i) \<or> pfd_fd p' = -1 \<or> pfd_fd p' \<notin> pfd_fd ` set (ct_pfd ct)"
    and h: "\<And>a. a < ch_next h \<Longrightarrow> ce_threadinfo (ct_ce ct ! i) \<noteq> Some a \<Longrightarrow> ch_threads h' a = ch_threads h a \<and> tf' a = tf a"
      "\<And>b. b < ch_next h \<Longrightarrow> ce_cq (ct_ce ct ! i) \<noteq> Some b \<Longrightarrow> ch_queues h' b = ch_queues h b" "ch_next h \<le> ch_next h'"
      "\<And>fd. fd \<noteq> -1 \<Longrightarrow> fd \<noteq> pfd_fd (ct_pfd ct ! i) \<Longrightarrow> fd \<in> set (ch_open h) \<Longrightarrow> fd \<in> set (ch_open h')"
    and ct': "ct_pfd ct' = (ct_pfd ct)[i := p']" "ct_ce ct' = (ct_ce ct)[i := ce']" "ct_nclients ct' = ct_nclients ct"
      "ct_nclientsmax ct' = ct_nclientsmax ct"
  shows "table_ok ct' h' tf'"
proof -
  obtain pu p pv cu ce cv where d: "ct_pfd ct = pu @ p # pv" "ct_ce ct = cu @ ce # cv" "length pu = i" "length cu = i"
    and e: "list_all2 (entry_ok h tf) pu cu" "entry_ok h tf p ce" "list_all2 (entry_ok h tf) pv cv"
    by (rule table_split [OF ok i])
  have nth: "ct_ce ct ! i = ce" "ct_pfd ct ! i = p" using d by (simp_all add: nth_append)
  have up: "ct_pfd ct' = pu @ p' # pv" "ct_ce ct' = cu @ ce' # cv" using d ct' by (simp_all add: list_update_append)
  have dist: "distinct (addresses open_fd (pu @ p # pv))" "distinct (addresses ce_threadinfo (cu @ ce # cv))"
    "distinct (addresses ce_cq (cu @ ce # cv))" "distinct (addresses ce_ip (cu @ ce # cv))"
    using ok unfolding table_ok_def d by blast+
  note at = dist [unfolded distinct_addresses_at]
  have eo: "list_all2 (entry_ok h tf) (pu @ pv) (cu @ cv)" by (rule list_all2_appendI) (use e in auto)
  have lt: "a < ch_next h" if x: "x \<in> set (cu @ cv)" and y: "ce_threadinfo x = Some a \<or> ce_cq x = Some a" for x a
  proof -
    obtain j where "j < length (cu @ cv)" "(cu @ cv) ! j = x" using x unfolding in_set_conv_nth by blast
    with list_all2_nthD2 [OF eo, of j] have "entry_ok h tf ((pu @ pv) ! j) x" by simp
    with y show ?thesis by (auto simp: entry_ok_def split: option.splits)
  qed
  have "list_all2 (entry_ok h' tf') (pu @ pv) (cu @ cv)"
  proof (rule others_ok [OF eo])
    fix a assume a: "a \<in> set (addresses ce_threadinfo (cu @ cv))" "a < ch_next h"
    with at(2) have "ce_threadinfo ce \<noteq> Some a" by blast
    with h(1) a(2) nth show "ch_threads h' a = ch_threads h a \<and> tf' a = tf a" by simp
  next
    fix b assume b: "b \<in> set (addresses ce_cq (cu @ cv))" "b < ch_next h"
    with at(3) have "ce_cq ce \<noteq> Some b" by blast
    with h(2) b(2) nth show "ch_queues h' b = ch_queues h b" by simp
  next
    fix fd assume fd: "fd \<in> pfd_fd ` set (pu @ pv)" "fd \<noteq> -1" "fd \<in> set (ch_open h)"
    then have "fd \<noteq> pfd_fd p" using at(1) open_fd_address(1) [OF fd(1,2)] by (auto simp: open_fd_def)
    with fd h(4) nth show "fd \<in> set (ch_open h')" by simp
  qed (rule h(3))
  then have "list_all2 (entry_ok h' tf') (pu @ p' # pv) (cu @ ce' # cv)"
    using new(1) d(3,4) by (auto simp: list_all2_append)
  moreover have f: "ch_next h \<notin> set (addresses ce_threadinfo (cu @ cv))" "ch_next h + 1 \<notin> set (addresses ce_cq (cu @ cv))"
    using lt [of _ "ch_next h"] lt [of _ "ch_next h + 1"] unfolding set_addresses by fastforce+
  have "distinct (addresses ce_threadinfo (cu @ ce' # cv))" "distinct (addresses ce_cq (cu @ ce' # cv))"
    unfolding distinct_addresses_at using at(2,3) new(4,5) nth f by (auto simp del: addresses_simps)
  moreover have "distinct (addresses ce_ip (cu @ ce' # cv))" unfolding distinct_addresses_at using at(4) new(2) nth by simp
  moreover have "distinct (addresses open_fd (pu @ p' # pv))"
    unfolding distinct_addresses_at
  proof (intro conjI allI impI)
    show "distinct (addresses open_fd (pu @ pv))" using at(1) by blast
    fix fd assume fd: "open_fd p' = Some fd"
    then have p': "fd = pfd_fd p'" "fd \<noteq> -1" by (auto simp: open_fd_def split: if_splits)
    show "fd \<notin> set (addresses open_fd (pu @ pv))"
    proof (cases "pfd_fd p' = pfd_fd p")
      case True
      with p' have "open_fd p = Some fd" by (simp add: open_fd_def)
      with at(1) show ?thesis by blast
    next
      case False
      then have "fd \<notin> pfd_fd ` set (pu @ pv)" using new(6) p' nth d(1) by auto
      then show ?thesis using open_fd_address(2) by blast
    qed
  qed
  ultimately show ?thesis
    using ok new(3) nth by (simp add: table_ok_def up ct'(3,4) d conn_element_isnetclient_def)
qed

lemma table_heap:
  assumes ok: "table_ok ct h tf" and h: "ch_threads h' = ch_threads h" "ch_queues h' = ch_queues h" "ch_next h' = ch_next h"
    and tf: "\<And>a. a < ch_next h \<Longrightarrow> tf' a = tf a"
    and fd: "\<And>fd. fd \<in> pfd_fd ` set (ct_pfd ct) \<Longrightarrow> fd \<in> set (ch_open h) \<Longrightarrow> fd \<in> set (ch_open h')"
  shows "table_ok ct h' tf'"
proof -
  have "list_all2 (entry_ok h' tf') (ct_pfd ct) (ct_ce ct)"
    by (rule others_ok [of h tf]) (use ok h fd tf in \<open>auto simp: table_ok_def\<close>)
  with ok show ?thesis unfolding table_ok_def by blast
qed

lemma table_opened: "table_ok ct h tf \<Longrightarrow> table_ok ct (h\<lparr>ch_open := fd # ch_open h\<rparr>) tf"
  by (erule table_heap) simp_all

lemma table_closed: "table_ok ct h tf \<Longrightarrow> fd \<notin> pfd_fd ` set (ct_pfd ct) \<Longrightarrow> table_ok ct (close_fd st fd h) tf"
  by (erule table_heap) (auto simp: close_fd_def)

lemma find_byip_found:
  "0 \<le> k \<Longrightarrow> if find_byip ces ip k = -1 then ip \<notin> set (addresses ce_ip ces)
   else \<exists>j < length ces. find_byip ces ip k = k + int j \<and> ce_ip (ces ! j) = Some ip"
proof (induction ces arbitrary: k)
  case (Cons ce ces)
  show ?case
  proof (cases "ce_ip ce = Some ip")
    case True
    then show ?thesis using Cons.prems by (auto intro: exI [of _ 0])
  next
    case False
    then have f: "find_byip (ce # ces) ip k = find_byip ces ip (k + 1)" by simp
    show ?thesis
    proof (cases "find_byip ces ip (k + 1) = -1")
      case True
      with f False Cons.IH [of "k + 1"] Cons.prems show ?thesis by (auto split: option.splits)
    next
      case found: False
      then obtain j where "j < length ces" "find_byip ces ip (k + 1) = k + 1 + int j" "ce_ip (ces ! j) = Some ip"
        using Cons.IH [of "k + 1"] Cons.prems by auto
      with f found show ?thesis by (auto intro!: exI [of _ "Suc j"])
    qed
  qed
qed simp

text \<open>A new entry.\<close>

lemma append_ok:
  assumes ok: "table_ok ct h tf" and new: "fd \<notin> pfd_fd ` set (ct_pfd ct)" "fd \<noteq> -1" "fd \<in> set (ch_open h)"
    "\<And>x. ip = Some x \<Longrightarrow> x \<notin> set (addresses ce_ip (ct_ce ct))"
    and max: "typ = CONN_TYPE_CLIENT_NET \<Longrightarrow> 0 \<le> ct_nclientsmax ct \<Longrightarrow> ct_nclients ct \<noteq> ct_nclientsmax ct"
    and add: "conn_table_add_element lock reallocs now1 now2 fd typ pid ip name opts ct = (st, ct')"
  shows "table_ok ct' h tf" "st \<noteq> 0 \<Longrightarrow> ct_pfd ct' = ct_pfd ct"
proof -
  let ?ce = "snd (conn_element_init1 now1 now2 fd typ pid ip name opts)"
  let ?p = "\<lparr>pfd_fd = fd, pfd_events = POLLIN, pfd_revents = 0\<rparr>"
  have e: "entry_ok h tf ?p ?ce" using new(2,3) by (simp add: entry_ok_def conn_element_init1_def)
  have c: "st \<noteq> 0 \<and> ct_pfd ct' = ct_pfd ct \<and> ct_ce ct' = ct_ce ct \<and> ct_nclients ct' = ct_nclients ct \<and> ct_nclientsmax ct' = ct_nclientsmax ct \<or>
      st = 0 \<and> ct_pfd ct' = ct_pfd ct @ [?p] \<and> ct_ce ct' = ct_ce ct @ [?ce] \<and> ct_nclientsmax ct' = ct_nclientsmax ct \<and>
      ct_nclients ct' = ct_nclients ct + (if typ = CONN_TYPE_CLIENT_NET then 1 else 0)"
    using add by (auto simp: conn_table_add_element_def conn_table_add_element_un_def conn_table_grow_def conn_element_init1_def Let_def split: if_splits)
  show "st \<noteq> 0 \<Longrightarrow> ct_pfd ct' = ct_pfd ct" using c by blast
  have d: "distinct (addresses open_fd (ct_pfd ct @ [?p]))" "distinct (addresses ce_threadinfo (ct_ce ct @ [?ce]))"
    "distinct (addresses ce_cq (ct_ce ct @ [?ce]))" "distinct (addresses ce_ip (ct_ce ct @ [?ce]))"
    using ok new(1,2,4) open_fd_address(2) [of fd "ct_pfd ct"] unfolding distinct_addresses_at
    by (auto simp: table_ok_def open_fd_def conn_element_init1_def)
  have l: "list_all2 (entry_ok h tf) (ct_pfd ct @ [?p]) (ct_ce ct @ [?ce])"
    by (rule list_all2_appendI) (use ok e in \<open>simp_all add: table_ok_def\<close>)
  from c show "table_ok ct' h tf"
  proof (elim disjE conjE)
    assume "ct_pfd ct' = ct_pfd ct" "ct_ce ct' = ct_ce ct" "ct_nclients ct' = ct_nclients ct" "ct_nclientsmax ct' = ct_nclientsmax ct"
    with ok show ?thesis by (simp add: table_ok_def)
  next
    assume x: "ct_pfd ct' = ct_pfd ct @ [?p]" "ct_ce ct' = ct_ce ct @ [?ce]" "ct_nclientsmax ct' = ct_nclientsmax ct"
      "ct_nclients ct' = ct_nclients ct + (if typ = CONN_TYPE_CLIENT_NET then 1 else 0)"
    have "ct_nclients ct = net_clients (ct_ce ct)"
      "0 \<le> ct_nclientsmax ct \<longrightarrow> net_clients (ct_ce ct) \<le> ct_nclientsmax ct" using ok by (simp_all add: table_ok_def)
    moreover have "conn_element_isnetclient ?ce = (if typ = CONN_TYPE_CLIENT_NET then 1 else 0)"
      by (simp add: conn_element_isnetclient_def conn_element_init1_def)
    ultimately show ?thesis unfolding table_ok_def x using l d max by (auto simp del: addresses_simps)
  qed
qed

section \<open>The steps keep the invariant\<close>

lemma restore_ok:
  assumes ok: "table_ok ct h tf" and g: "sound_calls pl" and fd: "fd \<notin> pfd_fd ` set (ct_pfd ct)" "fd \<noteq> -1" "fd \<in> set (ch_open h)"
  shows "\<exists>st ct' h'. poll_restore_connection pl ct ip fd h = Some (st, ct', h') \<and> table_ok ct' h' tf \<and> st \<in> {-1, 0, 1} \<and>
    (st \<noteq> 0 \<longrightarrow> fd \<notin> pfd_fd ` set (ct_pfd ct')) \<and>
    (st = -1 \<longrightarrow> ip \<notin> set (addresses ce_ip (ct_ce ct')) \<and> fd \<in> set (ch_open h'))"
proof -
  let ?k = "conn_table_find_element_byip ct ip"
  note found = find_byip_found [of 0 "ct_ce ct" ip, folded conn_table_find_element_byip_def]
  show ?thesis
  proof (cases "?k = -1")
    case True
    with found ok fd show ?thesis by (simp add: poll_restore_connection_def)
  next
    case False
    then obtain j where j: "j < ct_n ct" "?k = int j" "ce_ip (ct_ce ct ! j) = Some ip" using found by auto
    note e = entry_at [OF ok j(1)]
    let ?ce = "ct_ce ct ! j" and ?p = "ct_pfd ct ! j"
    have "conn_element_get_connection_status (pl_tlock pl) (pl_tunlock pl) ?ce h \<noteq> None"
      using e(1) by (cases "pl_tlock pl = 0") (auto simp: conn_element_get_connection_status_def entry_ok_def Let_def split: option.splits)
    then obtain st1 x where s: "conn_element_get_connection_status (pl_tlock pl) (pl_tunlock pl) ?ce h = Some (st1, x)" by auto
    show ?thesis
    proof (cases "st1 = -1 \<or> st1 = 0")
      case True
      obtain st2 ct' h' where d: "poll_del_connection pl ct (int j) h = Some (st2, ct', h')" "table_ok ct' h' tf"
        "st2 = 0 \<longleftrightarrow> del_succeeds pl ?p ?ce" "st2 = 0 \<longrightarrow> ct_ce ct' = remove_entry j (ct_ce ct)" "set (ct_pfd ct') \<subseteq> set (ct_pfd ct)"
        "\<forall>fd. fd \<noteq> pfd_fd ?p \<longrightarrow> fd \<in> set (ch_open h) \<longrightarrow> fd \<in> set (ch_open h')"
        by (rule del_ok [OF ok j(1) g])
      have "distinct (addresses ce_ip (take j (ct_ce ct) @ ?ce # drop (Suc j) (ct_ce ct)))"
        using ok j(1) by (simp add: table_ok_def id_take_nth_drop [symmetric] del: addresses_simps)
      then have "ip \<notin> set (addresses ce_ip (remove_entry j (ct_ce ct)))"
        unfolding distinct_addresses_at remove_entry_def using j(3) by blast
      moreover have "fd \<noteq> pfd_fd ?p" using fd(1) j(1) e(2) by (metis image_eqI nth_mem)
      moreover have "fd \<notin> pfd_fd ` set (ct_pfd ct')" using fd(1) d(5) by auto
      ultimately have "st2 = 0 \<longrightarrow> ip \<notin> set (addresses ce_ip (ct_ce ct'))" "fd \<notin> pfd_fd ` set (ct_pfd ct')" "fd \<in> set (ch_open h')"
        using d(4,6) fd(3) by auto
      with s True d(1,2) j(2) show ?thesis by (simp add: poll_restore_connection_def)
    next
      case False
      then obtain a ti where a: "ce_threadinfo ?ce = Some a" "ch_threads h a = Some ti" "pl_tlock pl = 0" "connection_status ti = st1"
        using s g by (cases "pl_tlock pl = 0"; cases "ce_threadinfo ?ce")
          (auto simp: conn_element_get_connection_status_def sound_calls_def Let_def bind_eq_Some_conv)
      let ?h' = "h\<lparr>ch_threads := (ch_threads h)(a \<mapsto> ti\<lparr>client_fd := fd, connection_status := 0\<rparr>)\<rparr>"
      let ?ct' = "ct\<lparr>ct_pfd := (ct_pfd ct)[j := ?p\<lparr>pfd_fd := fd\<rparr>]\<rparr>"
      have r: "poll_restore_connection pl ct ip fd h = Some (0, ?ct', ?h')"
        using s False j(2) a g fd(2)
        by (simp add: poll_restore_connection_def conn_element_set_connection_status_def sound_calls_def)
      have "entry_ok ?h' tf (?p\<lparr>pfd_fd := fd\<rparr>) ?ce"
        using e(1) a(1,2,4) False fd(2,3) by (auto simp: entry_ok_def)
      then have "table_ok ?ct' ?h' tf"
        by (rule update_ok [OF ok j(1)]) (use fd(1) a(1) in auto)
      with r show ?thesis by auto
    qed
  qed
qed

lemma accept_ok:
  assumes ok: "table_ok ct h tf" and g: "sound_calls pl" and i: "i < ct_n ct" "ce_type (ct_ce ct ! i) = CONN_TYPE_SERVER_NET"
    and new: "pl_accept pl (pfd_fd (ct_pfd ct ! i)) \<notin> set (ch_open h)"
  shows "\<exists>st ct' h'. poll_add_connection_net pl opts ct i h = Some (st, ct', h') \<and> table_ok ct' h' tf"
proof -
  let ?fd = "pl_accept pl (pfd_fd (ct_pfd ct ! i))" and ?h = "h\<lparr>ch_open := pl_accept pl (pfd_fd (ct_pfd ct ! i)) # ch_open h\<rparr>"
  have srv: "pfd_fd (ct_pfd ct ! i) \<noteq> -1"
    using entry_at(1) [OF ok i(1)] i(2) by (auto simp: entry_ok_def conn_element_isclient_def split: option.splits)
  show ?thesis
  proof (cases "?fd < 0")
    case True
    with i srv ok show ?thesis by (simp add: poll_add_connection_net_def)
  next
    case False
    have fresh: "?fd \<notin> pfd_fd ` set (ct_pfd ct)"
    proof
      assume "?fd \<in> pfd_fd ` set (ct_pfd ct)"
      then obtain j where "j < ct_n ct" "pfd_fd (ct_pfd ct ! j) = ?fd"
        using entry_at(2) [OF ok i(1)] by (auto simp: in_set_conv_nth)
      with entry_at(1) [OF ok, of j] new False show False by (auto simp: entry_ok_def)
    qed
    note ok1 = table_opened [OF ok, of ?fd]
    show ?thesis
    proof (cases "pl_peer_ip pl ?fd")
      case None
      with i srv False table_closed [OF ok1 fresh] show ?thesis by (simp add: poll_add_connection_net_def Let_def)
    next
      case (Some ip)
      obtain st1 ct1 h1 where r: "poll_restore_connection pl ct ip ?fd ?h = Some (st1, ct1, h1)" "table_ok ct1 h1 tf" "st1 \<in> {-1, 0, 1}"
        "st1 \<noteq> 0 \<longrightarrow> ?fd \<notin> pfd_fd ` set (ct_pfd ct1)"
        "st1 = -1 \<longrightarrow> ip \<notin> set (addresses ce_ip (ct_ce ct1)) \<and> ?fd \<in> set (ch_open h1)"
        using restore_ok [OF ok1 g fresh, of ip] False by auto
      consider "st1 = 0" | "st1 = 1" | "st1 = -1" using r(3) by blast
      then show ?thesis
      proof cases
        case 1
        with i srv False Some r show ?thesis by (simp add: poll_add_connection_net_def Let_def)
      next
        case 2
        with i srv False Some r(1,2,4) table_closed [of ct1 h1 tf ?fd] show ?thesis by (simp add: poll_add_connection_net_def Let_def)
      next
        case 3
        then have n: "ip \<notin> set (addresses ce_ip (ct_ce ct1))" "?fd \<notin> pfd_fd ` set (ct_pfd ct1)" "?fd \<in> set (ch_open h1)" "st1 = -1"
          using r(4,5) by auto
        obtain st2 ct2 where a: "conn_table_add_element (pl_lock pl) (pl_reallocs pl) (pl_now1 pl) (pl_now2 pl) ?fd
            CONN_TYPE_CLIENT_NET (-1) (Some ip) (pl_peer_name pl ?fd) opts ct1 = (st2, ct2)" by fastforce
        have "table_ok ct2 h1 tf" "st2 \<noteq> 0 \<Longrightarrow> ct_pfd ct2 = ct_pfd ct1"
          if "\<not> (0 \<le> ct_nclientsmax ct1 \<and> ct_nclients ct1 = ct_nclientsmax ct1)"
          using append_ok [OF r(2) n(2) _ n(3) _ _ a] n(1) False that by auto
        with i srv False Some r(1,2) n a table_closed [of ct1 h1 tf ?fd] table_closed [of ct2 h1 tf ?fd] show ?thesis
          by (auto simp: poll_add_connection_net_def Let_def split: option.splits)
      qed
    qed
  qed
qed

lemma client_entry_ok:
  assumes "table_ok ct h tf" "sound_calls pl" "i < ct_n ct"
  shows "poll_client_entry pl ct i h = None \<longleftrightarrow>
      conn_element_isserver (ct_ce ct ! i) = 0 \<and> pfd_revents (ct_pfd ct ! i) \<noteq> 0 \<and> poll_client_hangup pl (ct_pfd ct ! i) \<noteq> 0 \<and>
      \<not> del_succeeds pl (ct_pfd ct ! i) (ct_ce ct ! i)"
    "poll_client_entry pl ct i h = Some (st, ct', h') \<Longrightarrow> table_ok ct' h' tf"
proof -
  obtain st1 ct1 h1 where d: "poll_del_connection pl ct (int i) h = Some (st1, ct1, h1)" "table_ok ct1 h1 tf"
    "st1 = 0 \<longleftrightarrow> del_succeeds pl (ct_pfd ct ! i) (ct_ce ct ! i)"
    by (rule del_ok [OF assms(1,3,2)])
  then show "poll_client_entry pl ct i h = None \<longleftrightarrow>
      conn_element_isserver (ct_ce ct ! i) = 0 \<and> pfd_revents (ct_pfd ct ! i) \<noteq> 0 \<and> poll_client_hangup pl (ct_pfd ct ! i) \<noteq> 0 \<and>
      \<not> del_succeeds pl (ct_pfd ct ! i) (ct_ce ct ! i)"
    by (simp add: poll_client_entry_def Let_def)
  show "poll_client_entry pl ct i h = Some (st, ct', h') \<Longrightarrow> table_ok ct' h' tf"
    using d(1,2) assms(1) by (auto simp: poll_client_entry_def Let_def split: if_splits)
qed

lemma flags_ok:
  assumes "entry_ok h tf p ce"
  shows "conn_element_get_created_flag ce h = Some (if ce_threadinfo ce = None then 0 else 1)"
    "\<exists>f. conn_element_get_finished_flag ce h = Some f"
  using assms by (auto simp: entry_ok_def conn_element_get_created_flag_def conn_element_get_finished_flag_def split: option.splits)

lemma finished_entry_ok:
  assumes "table_ok ct h tf" "sound_calls pl" "i < ct_n ct"
  shows "\<exists>ct' h'. finished_entry pl ct i h = Some (ct', h') \<and> table_ok ct' h' tf"
proof -
  obtain x where "conn_element_isnetclient_stoped (ct_ce ct ! i) h = Some x"
    using flags_ok [OF entry_at(1) [OF assms(1,3)]] by (auto simp: conn_element_isnetclient_stoped_def)
  note x = this
  show ?thesis by (rule del_ok [OF assms(1,3,2)]) (use x assms(1) in \<open>auto simp: finished_entry_def\<close>)
qed

lemma dirty_entry_ok:
  assumes ok: "table_ok ct h tf" and i: "i < ct_n ct"
  shows "\<exists>ct' h'. dirty_entry pl ct i h = Some (ct', h') \<and> table_ok ct' h' tf"
proof -
  let ?ce = "ct_ce ct ! i" and ?p = "ct_pfd ct ! i"
  note e = entry_at(1) [OF ok i]
  obtain x where r: "conn_element_isnetclient_running ?ce h = Some x" "x \<noteq> 0 \<longrightarrow> ce_threadinfo ?ce \<noteq> None"
    using flags_ok [OF e] by (auto simp: conn_element_isnetclient_running_def split: if_splits)
  show ?thesis
  proof (cases "x = 0")
    case True
    with r ok show ?thesis by (simp add: dirty_entry_def)
  next
    case False
    then obtain a ti where a: "ce_threadinfo ?ce = Some a" "ch_threads h a = Some ti" using r(2) e by (auto simp: entry_ok_def split: option.splits)
    then have st: "conn_element_get_connection_status_un ?ce h = Some (connection_status ti)" by (simp add: conn_element_get_connection_status_un_def)
    show ?thesis
    proof (cases "connection_status ti = 0 \<or> pfd_fd ?p = -1")
      case True
      with r(1) st ok show ?thesis by (auto simp: dirty_entry_def Let_def)
    next
      case bad: False
      show ?thesis
      proof (cases "pl_close pl (pfd_fd ?p) = 0")
        case False
        with r(1) st ok show ?thesis by (auto simp: dirty_entry_def Let_def)
      next
        case closed: True
        let ?ct' = "ct\<lparr>ct_pfd := (ct_pfd ct)[i := ?p\<lparr>pfd_fd := -1\<rparr>]\<rparr>" and ?h' = "close_fd 0 (pfd_fd ?p) h"
        have "entry_ok ?h' tf (?p\<lparr>pfd_fd := -1\<rparr>) ?ce" using e a bad by (auto simp: entry_ok_def close_fd_def)
        then have "table_ok ?ct' ?h' tf" by (rule update_ok [OF ok i]) (auto simp: close_fd_def)
        moreover have "dirty_entry pl ct i h = Some (?ct', ?h')" using r(1) st bad False closed by (simp add: dirty_entry_def Let_def)
        ultimately show ?thesis by blast
      qed
    qed
  qed
qed

lemma init4_outcome:
  assumes "conn_element_init4 calls malloc mutex (\<lambda>_. 0) cqparam dberror ce h = (st, er, ce', h')"
    "ce_threadinfo ce = None" "ce_cq ce = None"
  shows "st \<noteq> 0 \<and> h' = h \<and> (\<exists>k. ce' = ce\<lparr>ce_thkillproc := k\<rparr>) \<or>
    st = 0 \<and> ce' = ce\<lparr>ce_threadinfo := Some (ch_next h), ce_thkillproc := True, ce_cq := Some (ch_next h + 1)\<rparr> \<and>
    (\<exists>cq. h' = h\<lparr>ch_next := ch_next h + 2, ch_threads := (ch_threads h)(ch_next h \<mapsto>
        \<lparr>f_thread_created = 1, f_thread_finished = 0, connection_status = 0, client_fd = ce_fd ce\<rparr>),
      ch_queues := (ch_queues h)(ch_next h + 1 \<mapsto> cq)\<rparr>)"
proof -
  obtain e1 cq where o: "connqueue_open calls cqparam dberror = (e1, cq)" by fastforce
  have k: "ce\<lparr>ce_threadinfo := None\<rparr> = ce\<lparr>ce_thkillproc := ce_thkillproc ce\<rparr>"
    "ce\<lparr>ce_thkillproc := False, ce_threadinfo := None\<rparr> = ce\<lparr>ce_thkillproc := False\<rparr>"
    "ce\<lparr>ce_thkillproc := False, ce_cq := None, ce_threadinfo := None\<rparr> = ce\<lparr>ce_thkillproc := False\<rparr>"
    using assms(2,3) by simp_all
  consider "\<not> malloc" | "malloc" "mutex \<noteq> 0" | "malloc" "mutex = 0" "cq = None" | c where "malloc" "mutex = 0" "cq = Some c" by (cases cq) auto
  then show ?thesis
  proof cases
    case 1
    with assms(1) k(1) have "st \<noteq> 0" "h' = h" "ce' = ce\<lparr>ce_thkillproc := ce_thkillproc ce\<rparr>" by (auto simp: conn_element_init4_def)
    then show ?thesis by blast
  next
    case 2
    with assms(1) k(2) have "st \<noteq> 0" "h' = h" "ce' = ce\<lparr>ce_thkillproc := False\<rparr>" by (auto simp: conn_element_init4_def)
    then show ?thesis by blast
  next
    case 3
    with assms(1) k(3) o have "st \<noteq> 0" "h' = h" "ce' = ce\<lparr>ce_thkillproc := False\<rparr>" by (auto simp: conn_element_init4_def)
    then show ?thesis by blast
  next
    case 4
    with assms(1) o show ?thesis by (auto simp: conn_element_init4_def Let_def)
  qed
qed

lemma spawn_entry_ok:
  assumes ok: "table_ok ct h tf" and g: "sound_calls pl" and i: "i < ct_n ct"
  defines "tf' \<equiv> tf(ch_next h := ce_fd (ct_ce ct ! i))"
  shows "\<exists>ct' h'. spawn_entry pl malloc mutex 0 cqparam allow ct i h = Some (ct', h') \<and> table_ok ct' h' tf'"
proof -
  let ?ce = "ct_ce ct ! i" and ?p = "ct_pfd ct ! i"
  note e = entry_at(1) [OF ok i]
  have ok': "table_ok ct h tf'" by (rule table_heap [OF ok]) (auto simp: tf'_def)
  note c = flags_ok(1) [OF e]
  show ?thesis
  proof (cases "ce_threadinfo ?ce \<noteq> None \<or> conn_element_isclient ?ce = 0 \<or> ce_appdata ?ce = None")
    case True
    with c ok' show ?thesis by (auto simp: spawn_entry_def Let_def)
  next
    case False
    then have n: "ce_threadinfo ?ce = None" "ce_cq ?ce = None" "ce_fd ?ce = pfd_fd ?p" "pfd_fd ?p \<noteq> -1" "pfd_fd ?p \<in> set (ch_open h)"
      "conn_element_isclient ?ce = 1"
      using e by (auto simp: entry_ok_def conn_element_isclient_def split: if_splits)
    define r where "r = (case allow of None \<Rightarrow> (-1, ?ce, h) | Some allowp \<Rightarrow>
       let (status, _, ce, h) = conn_element_init4 (pl_cq pl) malloc mutex (\<lambda>_. 0) cqparam 0 (conn_element_init3 allowp ?ce) h in (status, ce, h))"
    obtain st ce' h1 where r': "r = (st, ce', h1)" by (cases r) auto
    let ?ct1 = "ct\<lparr>ct_ce := (ct_ce ct)[i := ce']\<rparr>"
    have s: "spawn_entry pl malloc mutex 0 cqparam allow ct i h =
        (if st \<noteq> 0 then do { (_, ct, h) \<leftarrow> poll_del_connection pl ?ct1 (int i) h1; Some (ct, h) } else Some (?ct1, h1))"
      using c n(1,6) False r_def [unfolded r', symmetric] by (auto simp: spawn_entry_def Let_def)
    have "st \<noteq> 0 \<and> h1 = h \<and> (\<exists>k f. ce' = ?ce\<lparr>ce_filterdata := f, ce_thkillproc := k\<rparr>) \<or>
      st = 0 \<and> (\<exists>f. ce' = ?ce\<lparr>ce_filterdata := f, ce_threadinfo := Some (ch_next h), ce_thkillproc := True, ce_cq := Some (ch_next h + 1)\<rparr>) \<and>
      (\<exists>cq. h1 = h\<lparr>ch_next := ch_next h + 2, ch_threads := (ch_threads h)(ch_next h \<mapsto>
        \<lparr>f_thread_created = 1, f_thread_finished = 0, connection_status = 0, client_fd = ce_fd ?ce\<rparr>),
        ch_queues := (ch_queues h)(ch_next h + 1 \<mapsto> cq)\<rparr>)"
    proof (cases allow)
      case None
      then have x: "st = -1" "h1 = h" "ce' = ?ce" using r' unfolding r_def by auto
      have "ce' = ?ce\<lparr>ce_filterdata := ce_filterdata ?ce, ce_thkillproc := ce_thkillproc ?ce\<rparr>" using x(3) by simp
      moreover have "st \<noteq> 0" using x(1) by simp
      ultimately show ?thesis using x(2) by blast
    next
      case (Some x)
      obtain st2 er2 ce2 h2 where o: "conn_element_init4 (pl_cq pl) malloc mutex (\<lambda>_. 0) cqparam 0 (conn_element_init3 x ?ce) h = (st2, er2, ce2, h2)"
        by (metis prod_cases4)
      from init4_outcome [OF o] n(1,2) Some o r' show ?thesis unfolding r_def by (auto simp: conn_element_init3_def)
    qed
    then have ok1: "table_ok ?ct1 h1 tf'"
    proof (elim disjE conjE exE)
      fix k f assume x: "h1 = h" "ce' = ?ce\<lparr>ce_filterdata := f, ce_thkillproc := k\<rparr>"
      have "entry_ok h1 tf' ?p ce'" using n(1-5) by (simp add: x entry_ok_def)
      then show "table_ok ?ct1 h1 tf'" by (rule update_ok [OF ok' i]) (simp_all add: x)
    next
      fix f cq assume x: "ce' = ?ce\<lparr>ce_filterdata := f, ce_threadinfo := Some (ch_next h), ce_thkillproc := True, ce_cq := Some (ch_next h + 1)\<rparr>"
        "h1 = h\<lparr>ch_next := ch_next h + 2, ch_threads := (ch_threads h)(ch_next h \<mapsto>
          \<lparr>f_thread_created = 1, f_thread_finished = 0, connection_status = 0, client_fd = ce_fd ?ce\<rparr>),
          ch_queues := (ch_queues h)(ch_next h + 1 \<mapsto> cq)\<rparr>"
      have "entry_ok h1 tf' ?p ce'" using n by (simp add: x entry_ok_def conn_element_isclient_def tf'_def)
      then show "table_ok ?ct1 h1 tf'" by (rule update_ok [OF ok' i]) (simp_all add: x)
    qed
    show ?thesis
    proof (cases "st = 0")
      case True
      with s ok1 show ?thesis by simp
    next
      case False
      show ?thesis by (rule del_ok [OF ok1 _ g, of i]) (use i s False in auto)
    qed
  qed
qed

lemma thread_step_ok:
  assumes ok: "table_ok ct h tf" and i: "i < ct_n ct" and a: "ce_threadinfo (ct_ce ct ! i) = Some a"
  shows "table_ok ct h (tf(a := -1))"
    "tf a = -1 \<Longrightarrow> conn_element_set_connection_status lock 0 (ct_ce ct ! i) (-1) h = Some (st, h') \<Longrightarrow> table_ok ct h' tf"
    "conn_element_get_connection_status lock 0 (ct_ce ct ! i) h = Some (0, Some fd) \<Longrightarrow> table_ok ct h (tf(a := fd))"
    "conn_element_set_finished_flag lock 0 (ct_ce ct ! i) h = Some (st, h') \<Longrightarrow> table_ok ct h' tf"
proof -
  let ?ce = "ct_ce ct ! i" and ?p = "ct_pfd ct ! i"
  note e = entry_at [OF ok i]
  obtain ti where ti: "ch_threads h a = Some ti" using e(1) a by (auto simp: entry_ok_def)
  have same: "(ct_pfd ct)[i := ?p] = ct_pfd ct" "(ct_ce ct)[i := ?ce] = ct_ce ct" by simp_all
  have up: "table_ok ct h1 tf1" if "entry_ok h1 tf1 ?p ?ce" "\<And>x. x \<noteq> a \<Longrightarrow> ch_threads h1 x = ch_threads h x \<and> tf1 x = tf x"
    "ch_queues h1 = ch_queues h" "ch_next h1 = ch_next h" "ch_open h1 = ch_open h" for h1 tf1
    by (rule update_ok [OF ok i that(1)]) (use that(2-5) a same in auto)
  show "table_ok ct h (tf(a := -1))" by (rule up) (use e(1) a ti in \<open>auto simp: entry_ok_def\<close>)
  show "table_ok ct h (tf(a := fd))" if "conn_element_get_connection_status lock 0 ?ce h = Some (0, Some fd)"
  proof (rule up)
    have "connection_status ti = 0" "client_fd ti = fd"
      using that a ti by (auto simp: conn_element_get_connection_status_def Let_def split: if_splits)
    then show "entry_ok h (tf(a := fd)) ?p ?ce" using e(1) a ti by (auto simp: entry_ok_def)
  qed auto
  show "table_ok ct h' tf" if "tf a = -1" "conn_element_set_connection_status lock 0 ?ce (-1) h = Some (st, h')"
  proof (cases "lock = 0")
    case True
    then have "h' = h\<lparr>ch_threads := (ch_threads h)(a \<mapsto> ti\<lparr>client_fd := -1, connection_status := 1\<rparr>)\<rparr>"
      using that(2) a ti by (auto simp: conn_element_set_connection_status_def)
    then show ?thesis by (intro up) (use e(1) a ti that(1) in \<open>auto simp: entry_ok_def\<close>)
  next
    case False
    then show ?thesis using that(2) a ti ok by (auto simp: conn_element_set_connection_status_def)
  qed
  show "table_ok ct h' tf" if "conn_element_set_finished_flag lock 0 ?ce h = Some (st, h')"
  proof (rule up)
    have h': "h' = h\<lparr>ch_threads := (ch_threads h)(a \<mapsto> ti\<lparr>f_thread_finished := 1\<rparr>)\<rparr>"
      using that a ti by (auto simp: conn_element_set_finished_flag_def)
    then show "entry_ok h' tf ?p ?ce" using e(1) a ti by (auto simp: entry_ok_def)
    show "\<And>x. x \<noteq> a \<Longrightarrow> ch_threads h' x = ch_threads h x \<and> tf x = tf x" "ch_queues h' = ch_queues h" "ch_next h' = ch_next h"
      "ch_open h' = ch_open h" by (simp_all add: h')
  qed
qed

lemma polled_ok:
  assumes ok: "table_ok ct h tf" and ps: "map pfd_fd ps = map pfd_fd (ct_pfd ct)"
  shows "table_ok (ct\<lparr>ct_pfd := ps\<rparr>) h tf"
proof -
  have l: "length ps = length (ct_pfd ct)" "\<And>j. j < length ps \<Longrightarrow> pfd_fd (ps ! j) = pfd_fd (ct_pfd ct ! j)"
    using ps by (metis length_map) (metis ps length_map nth_map)
  have "addresses open_fd xs = filter (\<lambda>fd. fd \<noteq> -1) (map pfd_fd xs)" for xs by (induction xs) (simp_all add: open_fd_def)
  then have "addresses open_fd ps = addresses open_fd (ct_pfd ct)" using ps by simp
  moreover have eq: "entry_ok h tf q ce = entry_ok h tf q' ce" if "pfd_fd q = pfd_fd q'" for q q' and ce :: "('a, 'b) conn_element_st"
    unfolding entry_ok_def that ..
  have "list_all2 (entry_ok h tf) ps (ct_ce ct)"
    unfolding list_all2_conv_all_nth
  proof (intro conjI allI impI)
    have o: "length (ct_pfd ct) = ct_n ct" "\<And>j. j < ct_n ct \<Longrightarrow> entry_ok h tf (ct_pfd ct ! j) (ct_ce ct ! j)"
      using ok by (auto simp: table_ok_def list_all2_conv_all_nth)
    show "length ps = ct_n ct" using l(1) o(1) by simp
    fix j assume j: "j < length ps"
    show "entry_ok h tf (ps ! j) (ct_ce ct ! j)" unfolding eq [OF l(2) [OF j]] using o j l(1) by simp
  qed
  ultimately show ?thesis using ok by (simp add: table_ok_def)
qed

lemma start_ok: "server_start fd s \<Longrightarrow> table_ok (srv_ct s) (srv_h s) (srv_fd s)"
proof -
  assume "server_start fd s"
  then obtain max reallocs now1 now2 opts ct where x: "conn_table_create (True, True, True) 0 max = Some ct" "fd \<noteq> -1"
    "conn_table_add_element 0 reallocs now1 now2 fd CONN_TYPE_SERVER_NET 0 None None opts ct = (0, srv_ct s)"
    "srv_h s = \<lparr>ch_threads = \<lambda>_. None, ch_queues = \<lambda>_. None, ch_next = 0, ch_open = [fd]\<rparr>"
    by (auto simp: server_start_def)
  have "table_ok ct (srv_h s) (srv_fd s)" "ct_pfd ct = []" using x(1) by (auto simp: conn_table_create_def table_ok_def)
  from append_ok(1) [OF this(1) _ x(2) _ _ _ x(3)] this(2) x(4) show ?thesis by simp
qed

lemma server_step_ok:
  assumes "server_step s s'" "table_ok (srv_ct s) (srv_h s) (srv_fd s)"
  shows "table_ok (srv_ct s') (srv_h s') (srv_fd s')"
  using assms
proof cases
  case (polled ps)
  then show ?thesis using polled_ok assms(2) by simp
next
  case (accepted pl i opts st ct h)
  then show ?thesis using accept_ok [OF assms(2) accepted(2-5), of opts] by auto
next
  case (hangup pl i st ct h)
  then show ?thesis using client_entry_ok(2) [OF assms(2) hangup(2-4)] by simp
next
  case (finished pl i ct h)
  then show ?thesis using finished_entry_ok [OF assms(2) finished(2,3)] by auto
next
  case (dirty pl i ct h)
  then show ?thesis using dirty_entry_ok [OF assms(2) dirty(3), of pl] by auto
next
  case (identified x i ct)
  then have i: "i < ct_n (srv_ct s)" by (auto simp: conn_table_set_element_appdata_def valid_entry_def split: if_splits)
  note e = entry_at [OF assms(2) i]
  have ic: "conn_element_isclient (ce\<lparr>ce_appdata := Some x\<rparr>) = conn_element_isclient ce" for ce :: "('a, 'b) conn_element_st"
    by (simp add: conn_element_isclient_def)
  have "entry_ok (srv_h s) (srv_fd s) (ct_pfd (srv_ct s) ! i) ((ct_ce (srv_ct s) ! i)\<lparr>ce_appdata := Some x\<rparr>)"
    using e(1) by (auto simp: entry_ok_def ic split: option.splits)
  then have "table_ok ct (srv_h s) (srv_fd s)"
    by (rule update_ok [OF assms(2) i])
      (use identified(2) in \<open>auto simp: conn_table_set_element_appdata_def split: if_splits\<close>)
  then show ?thesis by (simp add: identified(1))
next
  case (spawned pl i malloc mutex cqparam allow ct h)
  then show ?thesis using spawn_entry_ok [OF assms(2) spawned(2,3), of malloc mutex cqparam allow] by simp
next
  case (failed i a)
  then show ?thesis using thread_step_ok(1) [OF assms(2)] by (simp add: thread_drop_fd_def)
next
  case (reported i a lock st)
  then show ?thesis using thread_step_ok(2) [OF assms(2)] by (auto simp: thread_report_def bind_eq_Some_conv)
next
  case (reconnected i a lock st)
  then show ?thesis
    using thread_step_ok(3) [OF assms(2)] assms(2) by (auto simp: wait_client_reconnection_def bind_eq_Some_conv split: if_splits)
next
  case (ended i a lock)
  then show ?thesis using thread_step_ok(4) [OF assms(2)] by (auto simp: thread_cleanup_def bind_eq_Some_conv)
qed

lemma reachable_ok: "server_reachable fd s \<Longrightarrow> table_ok (srv_ct s) (srv_h s) (srv_fd s)"
  by (induction rule: server_reachable.induct) (simp_all add: start_ok server_step_ok)

section \<open>Properties\<close>

text \<open>
  C11. The connections of the clients never make the server use freed memory, and only one assertion can fail. In
  every state that the server and the threads of its clients reach, in any order of their steps, accepting a
  connection, removing a finished client, closing a broken connection and creating a thread return; handling the
  events of an entry returns too, unless the client hung up and the deletion of its entry reports an error, because
  the table could not be locked or the queue or the descriptor not closed: that status is asserted to be 0. The
  conditions are that the creation of a thread does not fail after its queue was opened, that stopping a thread
  and unlocking a mutex succeed, and that an accepted descriptor is not one that is open.
\<close>

theorem connections_never_fault:
  assumes "server_reachable fd s" "sound_calls pl" "i < ct_n (srv_ct s)"
  shows "finished_entry pl (srv_ct s) i (srv_h s) \<noteq> None \<and> dirty_entry pl (srv_ct s) i (srv_h s) \<noteq> None \<and>
    spawn_entry pl malloc mutex 0 cqparam allow (srv_ct s) i (srv_h s) \<noteq> None \<and>
    (ce_type (ct_ce (srv_ct s) ! i) = CONN_TYPE_SERVER_NET \<and> pl_accept pl (pfd_fd (ct_pfd (srv_ct s) ! i)) \<notin> set (ch_open (srv_h s)) \<longrightarrow>
      poll_add_connection_net pl opts (srv_ct s) i (srv_h s) \<noteq> None) \<and>
    (poll_client_entry pl (srv_ct s) i (srv_h s) = None \<longleftrightarrow>
      conn_element_isserver (ct_ce (srv_ct s) ! i) = 0 \<and> pfd_revents (ct_pfd (srv_ct s) ! i) \<noteq> 0 \<and>
      poll_client_hangup pl (ct_pfd (srv_ct s) ! i) \<noteq> 0 \<and> \<not> del_succeeds pl (ct_pfd (srv_ct s) ! i) (ct_ce (srv_ct s) ! i))"
proof -
  note ok = reachable_ok [OF assms(1)]
  show ?thesis
    using client_entry_ok(1) [OF ok assms(2,3)] finished_entry_ok [OF ok assms(2,3)] dirty_entry_ok [OF ok assms(3), of pl]
      spawn_entry_ok [OF ok assms(2,3), of malloc mutex cqparam allow] accept_ok [OF ok assms(2,3), of opts]
    by auto
qed

definition example_cq :: "bytes list cq_calls" where
  "example_cq = \<lparr>cqc_malloc = True, cqc_alloc = \<lambda>_. True, cqc_bdb = list_qdb 4,
     cqc_open = \<lambda>_. \<lparr>oq_create = 0, oq_set_re_len = 0, oq_set_extentsize = 0, oq_set_flags = 0, oq_set_cachesize = 0, oq_open = 0,
       oq_malloc = 0, oq_mutex = 0, oq_cond = 0, oq_db = []\<rparr>, cqc_mallocs = (0, 0, 0), cqc_closes = [0], cqc_lock = 0\<rparr>"

definition example_pl :: "bytes list poll_calls" where
  "example_pl = \<lparr>pl_accept = \<lambda>_. 5, pl_peer_ip = \<lambda>_. Some (ascii ''10.0.0.7''), pl_peer_name = \<lambda>_. None, pl_access = None,
     pl_peek = \<lambda>_. 1, pl_close = \<lambda>_. 0, pl_kill = 0, pl_lock = 0, pl_tlock = 0, pl_tunlock = 0, pl_reallocs = (True, True),
     pl_now1 = 0, pl_now2 = 0, pl_cq = example_cq\<rparr>"

definition example_opts :: client_options_st where
  "example_opts = \<lparr>co_write_timeout_ms = 0, co_write_timeout_retry = 0, co_reconnect_wait_sleep_secs = 0,
     co_reconnect_wait_sleep_retry = 0, co_queue_read_timeout_ms = 0\<rparr>"

definition example_server :: "(unit, unit, bytes list) server_st" where
  "example_server = \<lparr>srv_ct = snd (conn_table_add_element 0 (True, True) 0 0 3 CONN_TYPE_SERVER_NET 0 None None example_opts
       (the (conn_table_create (True, True, True) 0 10))),
     srv_h = \<lparr>ch_threads = \<lambda>_. None, ch_queues = \<lambda>_. None, ch_next = 0, ch_open = [3]\<rparr>, srv_fd = \<lambda>_. -1\<rparr>"

definition example_accepted :: "(unit, unit, bytes list) server_st" where
  "example_accepted = (case poll_add_connection_net example_pl example_opts (srv_ct example_server) 0 (srv_h example_server) of
     Some (_, ct, h) \<Rightarrow> example_server\<lparr>srv_ct := ct, srv_h := h\<rparr> | None \<Rightarrow> example_server)"

definition example_identified :: "(unit, unit, bytes list) server_st" where
  "example_identified = (case conn_table_set_element_appdata () (int 1) (srv_ct example_accepted) of
     Some ct \<Rightarrow> example_accepted\<lparr>srv_ct := ct\<rparr> | None \<Rightarrow> example_accepted)"

definition example_param :: connqueue_param_st where
  "example_param = \<lparr>cqp_reclen = 4, cqp_cache_mb = 0, cqp_softlimit = 0, cqp_hardlimit = 0\<rparr>"

definition example_spawned :: "(unit, unit, bytes list) server_st" where
  "example_spawned =
     (case spawn_entry example_pl True 0 0 example_param (Some ()) (srv_ct example_identified) 1 (srv_h example_identified) of
        Some (ct, h) \<Rightarrow> example_identified\<lparr>srv_ct := ct, srv_h := h,
          srv_fd := (srv_fd example_identified)(ch_next (srv_h example_identified) := ce_fd (ct_ce (srv_ct example_identified) ! 1))\<rparr>
      | None \<Rightarrow> example_identified)"

lemma example_good: "sound_calls example_pl"
  by (simp add: sound_calls_def example_pl_def)

lemma example_reachable: "server_reachable 3 example_spawned"
proof -
  have "server_start 3 example_server"
    unfolding server_start_def
    by (intro exI [of _ 10] exI [of _ "(True, True)"] exI [of _ 0] exI [of _ 0] exI [of _ example_opts]
        exI [of _ "the (conn_table_create (True, True, True) 0 10)"])
      (simp add: conn_table_create_def example_server_def conn_table_add_element_def conn_table_add_element_un_def conn_element_init1_def)
  then have r0: "server_reachable 3 example_server" by (rule start)
  have "server_step example_server example_accepted"
  proof -
    have "poll_add_connection_net example_pl example_opts (srv_ct example_server) 0 (srv_h example_server) \<noteq> None" by code_simp
    then obtain st ct h where p: "poll_add_connection_net example_pl example_opts (srv_ct example_server) 0 (srv_h example_server) = Some (st, ct, h)"
      by auto
    have "0 < ct_n (srv_ct example_server)" "ce_type (ct_ce (srv_ct example_server) ! 0) = CONN_TYPE_SERVER_NET"
      "pl_accept example_pl (pfd_fd (ct_pfd (srv_ct example_server) ! 0)) \<notin> set (ch_open (srv_h example_server))"
      by code_simp+
    from accepted [OF example_good this p] p show ?thesis by (simp add: example_accepted_def)
  qed
  with r0 have r1: "server_reachable 3 example_accepted" by (rule step)
  have "server_step example_accepted example_identified"
  proof -
    have "conn_table_set_element_appdata () (int 1) (srv_ct example_accepted) \<noteq> None" by code_simp
    then obtain ct where p: "conn_table_set_element_appdata () (int 1) (srv_ct example_accepted) = Some ct" by auto
    from identified [OF p] p show ?thesis by (simp add: example_identified_def)
  qed
  with r1 have r2: "server_reachable 3 example_identified" by (rule step)
  have "server_step example_identified example_spawned"
  proof -
    have "spawn_entry example_pl True 0 0 example_param (Some ()) (srv_ct example_identified) 1 (srv_h example_identified) \<noteq> None" by code_simp
    then obtain ct h where p: "spawn_entry example_pl True 0 0 example_param (Some ()) (srv_ct example_identified) 1 (srv_h example_identified) = Some (ct, h)"
      by auto
    have "1 < ct_n (srv_ct example_identified)" by code_simp
    from spawned [OF example_good this p] p show ?thesis by (simp add: example_spawned_def)
  qed
  with r2 show ?thesis by (rule step)
qed

theorem connections_never_fault_witness:
  "dirty_entry example_pl (srv_ct example_spawned) 1 (srv_h example_spawned) \<noteq> None \<and>
   poll_client_entry example_pl (srv_ct example_spawned) 1 (srv_h example_spawned) \<noteq> None \<and> ct_n (srv_ct example_spawned) = 2"
proof -
  have n: "ct_n (srv_ct example_spawned) = 2" "pfd_revents (ct_pfd (srv_ct example_spawned) ! 1) = 0" by code_simp+
  then have "1 < ct_n (srv_ct example_spawned)" by simp
  from connections_never_fault [OF example_reachable example_good this] n show ?thesis by blast
qed

text \<open>
  C38. In every such state the counter of network clients is the number of their entries, it is not above the
  configured maximum, and no two entries have the same address.
\<close>

theorem clients_counted:
  assumes "server_reachable fd s"
  shows "ct_nclients (srv_ct s) = net_clients (ct_ce (srv_ct s)) \<and>
    (0 \<le> ct_nclientsmax (srv_ct s) \<longrightarrow> ct_nclients (srv_ct s) \<le> ct_nclientsmax (srv_ct s)) \<and>
    distinct (addresses ce_ip (ct_ce (srv_ct s)))"
  using reachable_ok [OF assms] by (simp add: table_ok_def)

theorem clients_counted_witness:
  "net_clients (ct_ce (srv_ct example_spawned)) = 1 \<and> ct_nclients (srv_ct example_spawned) = 1"
proof -
  have "net_clients (ct_ce (srv_ct example_spawned)) = 1" by code_simp
  with clients_counted [OF example_reachable] show ?thesis by simp
qed



text \<open>
  When the creation of a thread fails after its queue was opened, the queue of the client is freed twice: its pointer is
  kept in the element, and deleting the entry, which the server does at once, closes it again. This happens
  to every identified client without a thread, in every state.
\<close>

theorem failed_thread_frees_twice:
  assumes "i < ct_n ct" "ce_threadinfo (ct_ce ct ! i) = None" "conn_element_isclient (ct_ce ct ! i) \<noteq> 0" "ce_appdata (ct_ce ct ! i) \<noteq> None"
    "connqueue_open (pl_cq pl) cqparam 0 = (dberror, Some cq)" "thcreate \<noteq> 0" "pl_lock pl = 0"
  shows "spawn_entry pl True 0 thcreate cqparam (Some allow) ct i h = None"
  using assms
  by (simp add: spawn_entry_def conn_element_get_created_flag_def conn_element_init4_def conn_element_init3_def Let_def
      poll_del_connection_def conn_table_del_element_def conn_table_del_element_un_def valid_entry_def
      conn_element_release_def release_thread_def)

theorem failed_thread_frees_twice_witness:
  "spawn_entry example_pl True 0 11 example_param (Some ()) (srv_ct example_identified) 1 (srv_h example_identified) = None"
proof -
  have x: "1 < ct_n (srv_ct example_identified)" "ce_threadinfo (ct_ce (srv_ct example_identified) ! 1) = None"
    "conn_element_isclient (ct_ce (srv_ct example_identified) ! 1) \<noteq> 0" "ce_appdata (ct_ce (srv_ct example_identified) ! 1) \<noteq> None"
    "pl_lock example_pl = 0"
    by code_simp+
  have "snd (connqueue_open (pl_cq example_pl) example_param 0) \<noteq> None" by code_simp
  then obtain dberror cq where "connqueue_open (pl_cq example_pl) example_param 0 = (dberror, Some cq)" by (metis not_None_eq prod.collapse)
  from failed_thread_frees_twice [OF x(1-4) this _ x(5)] show ?thesis by simp
qed

text \<open>
  C40. A connection that is restored before the server closed the old one leaks its descriptor. In every reachable state, when
  the thread of an entry reported its connection as bad, the entry still has its descriptor, and the client
  connects again, the new descriptor takes its place; the old one stays open and no entry has it.
\<close>

theorem restored_connection_leaks:
  assumes "server_reachable srv s" and i: "i < ct_n (srv_ct s)" "ce_ip (ct_ce (srv_ct s) ! i) = Some ip"
    and bad: "ce_threadinfo (ct_ce (srv_ct s) ! i) = Some a" "ch_threads (srv_h s) a = Some ti" "connection_status ti = 1"
    and old: "pfd_fd (ct_pfd (srv_ct s) ! i) = old" "old \<noteq> -1"
    and new: "fd \<notin> set (ch_open (srv_h s))" "fd \<noteq> -1" "h = (srv_h s)\<lparr>ch_open := fd # ch_open (srv_h s)\<rparr>"
    and calls: "pl_tlock pl = 0" "pl_tunlock pl = 0"
  shows "\<exists>ct h'. poll_restore_connection pl (srv_ct s) ip fd h = Some (0, ct, h') \<and> pfd_fd (ct_pfd ct ! i) = fd \<and>
    old \<in> set (ch_open h') \<and> old \<notin> pfd_fd ` set (ct_pfd ct)"
proof -
  let ?ct = "srv_ct s"
  note ok = reachable_ok [OF assms(1)]
  note e = entry_at [OF ok i(1)]
  note f = find_byip_found [of 0 "ct_ce ?ct" ip, folded conn_table_find_element_byip_def]
  have "ip \<in> set (addresses ce_ip (ct_ce ?ct))" using i nth_mem unfolding set_addresses by blast
  then obtain j where j: "j < ct_n ?ct" "conn_table_find_element_byip ?ct ip = int j" "ce_ip (ct_ce ?ct ! j) = Some ip"
    using f by (auto split: if_splits)
  have "j = i" using distinct_address_unique [OF _ j(1) i(1) j(3) i(2)] ok by (simp add: table_ok_def)
  let ?ct' = "?ct\<lparr>ct_pfd := (ct_pfd ?ct)[i := (ct_pfd ?ct ! i)\<lparr>pfd_fd := fd\<rparr>]\<rparr>"
  let ?h' = "h\<lparr>ch_threads := (ch_threads h)(a \<mapsto> ti\<lparr>client_fd := fd, connection_status := 0\<rparr>)\<rparr>"
  have r: "poll_restore_connection pl ?ct ip fd h = Some (0, ?ct', ?h')"
    using j(2) \<open>j = i\<close> bad new calls
    by (simp add: poll_restore_connection_def conn_element_get_connection_status_def conn_element_set_connection_status_def)
  have o: "old \<in> set (ch_open (srv_h s))" using e(1) old by (auto simp: entry_ok_def)
  moreover have "old \<notin> pfd_fd ` set (ct_pfd ?ct')"
  proof
    assume "old \<in> pfd_fd ` set (ct_pfd ?ct')"
    then obtain k where k: "k < length (ct_pfd ?ct)" "pfd_fd (ct_pfd ?ct' ! k) = old" by (auto simp: in_set_conv_nth)
    then have "k \<noteq> i" using o new(1) by auto
    with k(2) have "pfd_fd (ct_pfd ?ct ! k) = old" by simp
    with \<open>k \<noteq> i\<close> show False
      using distinct_address_unique [of open_fd "ct_pfd ?ct" k i old] ok k(1) e(2) i(1) old by (auto simp: table_ok_def open_fd_def)
  qed
  ultimately show ?thesis using r new(3) e(2) i(1) by auto
qed

text \<open>The thread of the example reports its connection as bad.\<close>

definition example_bad :: "(unit, unit, bytes list) server_st" where
  "example_bad = (case thread_report 0 0 (ct_ce (srv_ct example_spawned) ! 1) (thread_drop_fd 0 example_spawned) of
     Some (_, s) \<Rightarrow> s | None \<Rightarrow> example_spawned)"

lemma example_bad_reachable: "server_reachable 3 example_bad"
proof -
  let ?s = "thread_drop_fd 0 example_spawned"
  have x: "1 < ct_n (srv_ct example_spawned)" "ce_threadinfo (ct_ce (srv_ct example_spawned) ! 1) = Some 0" by code_simp+
  have r: "server_reachable 3 ?s" by (rule step [OF example_reachable failed [OF x]])
  have y: "srv_ct ?s = srv_ct example_spawned" "srv_fd ?s 0 = -1" by (simp_all add: thread_drop_fd_def)
  have "thread_report 0 0 (ct_ce (srv_ct example_spawned) ! 1) ?s \<noteq> None" by code_simp
  then obtain st s' where t: "thread_report 0 0 (ct_ce (srv_ct example_spawned) ! 1) ?s = Some (st, s')" by auto
  have "server_step ?s s'" by (rule reported [of 1 _ 0 0 st]) (use x y t in simp_all)
  with r t show ?thesis by (simp add: example_bad_def step)
qed

theorem restored_connection_leaks_witness:
  "\<exists>ct h'. poll_restore_connection example_pl (srv_ct example_bad) (ascii ''10.0.0.7'') 6
      ((srv_h example_bad)\<lparr>ch_open := 6 # ch_open (srv_h example_bad)\<rparr>) = Some (0, ct, h') \<and>
    5 \<in> set (ch_open h') \<and> 5 \<notin> pfd_fd ` set (ct_pfd ct)"
proof -
  have x: "1 < ct_n (srv_ct example_bad)" "ce_ip (ct_ce (srv_ct example_bad) ! 1) = Some (ascii ''10.0.0.7'')"
    "ce_threadinfo (ct_ce (srv_ct example_bad) ! 1) = Some 0" "pfd_fd (ct_pfd (srv_ct example_bad) ! 1) = 5"
    "6 \<notin> set (ch_open (srv_h example_bad))" "pl_tlock example_pl = 0" "pl_tunlock example_pl = 0"
    by code_simp+
  have "map_option connection_status (ch_threads (srv_h example_bad) 0) = Some 1" by code_simp
  then obtain ti where "ch_threads (srv_h example_bad) 0 = Some ti" "connection_status ti = 1" by auto
  from restored_connection_leaks [OF example_bad_reachable x(1-3) this x(4) _ x(5) _ refl x(6,7)] show ?thesis by auto
qed

end
