(* ===== verification/Spec2Isabelle.thy ===== *)
theory Spec2Isabelle
  imports Nbsp_Prelude Bytes_Util Sbn Memfile Stats Fifo Pctldb Pctl Framep Reassembly Frame_Simulation Frame_Properties Nreadn Packfp Qdb Nbspq Files Spooldb Rtxdb Spoolbdb
    Mspool Ure Stoi Processor Processor_Properties Sbnpack Multicast Nbs1 Slavet Slavenbs Slave_Properties Conn Poll
begin

text \<open>
  Verification of nbsp, the Noaaport broadcast system processor (\<^verbatim>\<open>src/\<close>).

  \<^bold>\<open>The program.\<close> A satellite receiver multicasts Noaaport frames. A reader thread per channel
  (\<^verbatim>\<open>reader.c\<close>, or a slave reader) passes each frame to the \<^bold>\<open>frame processor\<close> (\<^verbatim>\<open>framep.c\<close>), which unpacks
  it (\<^verbatim>\<open>sbn.c\<close>), collects the frames of a product in the memory file of the channel's active element
  (\<^verbatim>\<open>pctl.c\<close>, \<^verbatim>\<open>mfile.c\<close>) and sends the finished element, complete or not, to the \<^bold>\<open>product queue\<close>
  (\<^verbatim>\<open>pctldb.c\<close>, \<^verbatim>\<open>pctlmfdb.c\<close>). The \<^bold>\<open>processor\<close> thread (\<^verbatim>\<open>nbsp.c\<close>) receives the elements, decides about
  retransmissions (\<^verbatim>\<open>rtxdb.c\<close>), uncompresses and assembles the file (\<^verbatim>\<open>unz.c\<close>), saves it on disk
  (\<^verbatim>\<open>file.c\<close>, \<^verbatim>\<open>efile.c\<close>), where a circular list of paths limits the number of files (\<^verbatim>\<open>spooldb.c\<close>), or
  in a memory spool (\<^verbatim>\<open>libspoolbdb\<close>, \<^verbatim>\<open>nbspmspoolbdb.c\<close>), and announces its path, packed by
  \<^verbatim>\<open>packfp.c\<close>, in the \<^bold>\<open>queues\<close> of the filter and server threads (\<^verbatim>\<open>nbspq.c\<close>, \<^verbatim>\<open>libqdb\<close>), for the products
  that the lists of patterns select (\<^verbatim>\<open>ure.c\<close>, \<^verbatim>\<open>nbspre.c\<close>). The tool \<^verbatim>\<open>nbspmcast\<close> is the other end of
  the receiver: it cuts a file into frames and multicasts them.

  \<^bold>\<open>Theories.\<close> File names are relative to \<^verbatim>\<open>src/src\<close> unless they start with \<^verbatim>\<open>tools/\<close>.

  \<^item> \<^verbatim>\<open>Nbsp_Prelude\<close>: types, C strings, copies into buffers, decimal printing, rule collections.
    \<^verbatim>\<open>Bytes_Util\<close>: \<^verbatim>\<open>util.c\<close>; the locale of a big-endian field, interpreted for 16 and 32 bits.
  \<^item> \<^verbatim>\<open>Sbn\<close>: \<^verbatim>\<open>sbn.c\<close>, \<^verbatim>\<open>unz.c\<close>. An accepted frame is partitioned into headers, control header and data, if they fit;
    the checksum detects an altered byte; which WMO headers are recognised and that the fields are
    well formed; the frames accepted with a negative data size.
  \<^item> \<^verbatim>\<open>Memfile\<close>: \<^verbatim>\<open>mfile.c\<close>. The locale of a store that is appended to, interpreted for memory files;
    reading gives back what was written, also in framed form.
  \<^item> \<^verbatim>\<open>Stats\<close>: \<^verbatim>\<open>stats.c\<close>, \<^verbatim>\<open>load.c\<close>.
  \<^item> \<^verbatim>\<open>Fifo\<close>: the locale of a first-in first-out queue whose operations may fail, interpreted in
    \<^verbatim>\<open>Pctldb\<close> (\<^verbatim>\<open>pctldb.c\<close>, \<^verbatim>\<open>pctlmfdb.c\<close>) and in \<^verbatim>\<open>Qdb\<close> (\<^verbatim>\<open>libqdb/qdb.c\<close>), each with its limits.
    \<^verbatim>\<open>Nbspq\<close>: \<^verbatim>\<open>nbspq.c\<close>, the path of a product sent through the server queue arrives.
  \<^item> \<^verbatim>\<open>Pctl\<close>: \<^verbatim>\<open>pctl.c\<close>. \<^verbatim>\<open>Framep\<close>: \<^verbatim>\<open>framep.c\<close>, the whole of \<^verbatim>\<open>sbnframeproc\<close>. \<^verbatim>\<open>Reassembly\<close>: the abstract
    machine of a channel. \<^verbatim>\<open>Frame_Simulation\<close>: the frame processor implements it.
    \<^verbatim>\<open>Frame_Properties\<close>: over any interleaving of frames of all channels, with product numbers other
    than 0 and control headers within their blocks, a complete product that is
    sent consists of the frames 0, 1, ... of one product as they were received; the only frames that make the
    processor fail are first frames with a control header larger than its buffer; what a frame with number 0 does.
  \<^item> \<^verbatim>\<open>Nreadn\<close>: \<^verbatim>\<open>nreadn.c\<close>. \<^verbatim>\<open>Packfp\<close>: \<^verbatim>\<open>pack.c\<close>, \<^verbatim>\<open>packfp.c\<close>, \<^verbatim>\<open>packfpu.c\<close>. Timed reads and writes transfer
    exactly the bytes they report; packing and unpacking of paths; reception of packets.
  \<^item> \<^verbatim>\<open>Files\<close>: \<^verbatim>\<open>file.c\<close>. \<^verbatim>\<open>Spooldb\<close>: \<^verbatim>\<open>spooldb.c\<close>, the newest paths are kept, in memory and through its
    file. \<^verbatim>\<open>Rtxdb\<close>: \<^verbatim>\<open>rtxdb.c\<close>, \<^verbatim>\<open>ertxdb.c\<close>, the two generations of records.
  \<^item> \<^verbatim>\<open>Spoolbdb\<close>: \<^verbatim>\<open>libspoolbdb/spoolbdb.c\<close>, \<^verbatim>\<open>spoolbdbv.c\<close>, a refinement of a list of generations of
    files and the retention it gives. \<^verbatim>\<open>Mspool\<close>: \<^verbatim>\<open>spoolslots.c\<close>, \<^verbatim>\<open>mspoolbdb.c\<close>, \<^verbatim>\<open>nbspmspoolbdb.c\<close>,
    reading back what was inserted, and the isolation of the slots of the readers.
  \<^item> \<^verbatim>\<open>Ure\<close>: \<^verbatim>\<open>strsplit.c\<close>, \<^verbatim>\<open>ure.c\<close>, \<^verbatim>\<open>nbspre.c\<close>, equivalent to a list of fields and to the last pattern
    that matches. \<^verbatim>\<open>Stoi\<close>: \<^verbatim>\<open>stoi.c\<close>.
  \<^item> \<^verbatim>\<open>Processor\<close>: \<^verbatim>\<open>nbsp.c\<close>, \<^verbatim>\<open>efile.c\<close>, \<^verbatim>\<open>spooltype.c\<close>, \<^verbatim>\<open>espooldb.c\<close>, \<^verbatim>\<open>qstate.c\<close>.
    \<^verbatim>\<open>Processor_Properties\<close>: what the saved file holds, which products are dropped, what happens with
    retransmissions.
  \<^item> \<^verbatim>\<open>Sbnpack\<close>: \<^verbatim>\<open>tools/nbspmcast\<close>, the packets of a file are, for the unpacking of \<^verbatim>\<open>sbn.c\<close>, the frames
    of one product with the data of the file.
  \<^item> \<^verbatim>\<open>Multicast\<close>: the composition of \<^verbatim>\<open>Sbnpack\<close>, \<^verbatim>\<open>Sbn\<close> and \<^verbatim>\<open>Framep\<close>, a multicast file reaches the queue as one
    complete product with its contents.
  \<^item> \<^verbatim>\<open>Nbs1\<close>: \<^verbatim>\<open>nbs1s.c\<close>, \<^verbatim>\<open>nbs1r.c\<close>, the blocks in which a master sends a file of its spool to a slave.
    \<^verbatim>\<open>Slavet\<close>: \<^verbatim>\<open>slavet.c\<close>, \<^verbatim>\<open>slave.c\<close>, the table of masters parsed from the configuration, with the
    memory of its strings. \<^verbatim>\<open>Slavenbs\<close>: \<^verbatim>\<open>slavenbs/\<close>, \<^verbatim>\<open>slavefp/\<close>, \<^verbatim>\<open>slave_net.c\<close>, the readers of a slave:
    the blocks of a file are put together in the active element of the reader and sent to the product
    queue. \<^verbatim>\<open>Slave_Properties\<close>: the names that a slave gets and the keys of its products.
  \<^item> \<^verbatim>\<open>Conn\<close>: \<^verbatim>\<open>libconnth/cs.c\<close>, \<^verbatim>\<open>cq.c\<close>, \<^verbatim>\<open>ce.c\<close>, \<^verbatim>\<open>conn.c\<close>, the table of the clients of the server, with the
    objects that a thread shares with it in a heap. \<^verbatim>\<open>Poll\<close>: \<^verbatim>\<open>libconnth/poll.c\<close> and the passes of \<^verbatim>\<open>serverm.c\<close>
    over the table, as a step relation with the steps of the client threads (\<^verbatim>\<open>serverc.c\<close>), in which locks and
    closes may fail; an invariant of its reachable states gives the safety of the memory and of the descriptors.

  \<^bold>\<open>Conventions.\<close> Buffers are lists of bytes, with the sizes of the C arrays in the invariants;
  \<^verbatim>\<open>uint32_t\<close> is a 32 bit word and wraps; a \<^verbatim>\<open>size_t\<close> sum wraps where the code computes one. A status is
  the C value. \<^const>\<open>None\<close> is a failed assertion, an access outside an array, a null dereference or a
  wait that does not return; the properties show when it cannot happen. The structures are records
  with the fields of the C ones.

  \<^bold>\<open>Parameters.\<close> Berkeley DB, zlib, POSIX regular expressions, the file system, sockets and other
  system calls, the allocator and the clock are arguments, records of functions on an abstract
  state; what is relied on is a predicate (\<^verbatim>\<open>queue_laws\<close>, \<^verbatim>\<open>btree_laws\<close>, \<^verbatim>\<open>qdb_laws\<close>, \<^verbatim>\<open>fs_laws\<close>,
  \<^verbatim>\<open>rtx_laws\<close>, \<^verbatim>\<open>sp_laws\<close>, \<^verbatim>\<open>re_laws\<close>, \<^verbatim>\<open>read_laws\<close>, \<^verbatim>\<open>write_laws\<close>), with an executable instance that
  satisfies it. The steps of other threads during a wait on a condition variable are lists of the
  states found at each wake-up; threads otherwise meet only at operations protected by a mutex, which
  are single steps here.

  \<^bold>\<open>Bounds.\<close> No definition has fuel: the loops recurse on their input or on a decreasing count, but for the
  doubling of a memory file, a partial function that is shown to return. The
  wait lists of the condition variables and of \<^verbatim>\<open>poll\<close> are the only schedules; a theorem that a call
  returns has a hypothesis on the length or the end of such a list.

  \<^bold>\<open>Not modelled.\<close> The sending loops of the server and its filter (\<^verbatim>\<open>serverc.c\<close>, \<^verbatim>\<open>serverf.c\<close> and the
  rest of \<^verbatim>\<open>serverm.c\<close>), the sockets of \<^verbatim>\<open>libconnth\<close>, the filter dispatch (\<^verbatim>\<open>filters.c\<close>, \<^verbatim>\<open>pfilter.c\<close>, \<^verbatim>\<open>sfilter.c\<close>), the slave of a fifo (\<^verbatim>\<open>slavein/\<close>), the
  EMWIN sender, the multicast sockets and the readers are threads around sockets and pipes. The
  initialisation, configuration, signals, pid and log files and the monitors are operating-system
  interfaces. The decoders of products under \<^verbatim>\<open>filters/\<close> work on floating point numbers and on image
  libraries. The filters, the web server and the scripts are Tcl and shell programs. In the files that
  are modelled, functions that only free memory, close a database or write a message are left out.
\<close>

end
